(* ===== verification/Prelude.thy ===== *)
theory Prelude
  imports Main "HOL-Library.AList"
begin

text \<open>
  Shared vocabulary of the development.

  \<^item> A JavaScript \<open>Map\<close> (and a SQLite table keyed by its primary key) is an association list
    with insertion order: \<open>map_of\<close> reads, \<open>AList.update\<close> writes in place or appends at the end,
    \<open>AList.delete\<close> removes. This is the iteration order ECMAScript prescribes for \<open>Map\<close>.
  \<^item> A thrown error is the \<open>Inl\<close> of a sum; \<open>throw_if\<close> and \<open>res_bind\<close> sequence the checks of a
    handler in the order the source has them.
  \<^item> The locales \<open>transition_system\<close>, \<open>versioned_system\<close> and \<open>absorbing_system\<close> are the contracts
    that the stateful components share: an invariant every operation keeps, a counter that no
    operation moves backwards, a view of the state that no operation changes once it is closed.
\<close>

named_theorems table_simps \<open>reading and writing association lists\<close>
named_theorems result_simps \<open>inversion of the error monad\<close>

section \<open>Results\<close>

type_synonym ('e, 'a) result = "'e + 'a"

definition throw_if :: "bool \<Rightarrow> 'e \<Rightarrow> ('e, unit) result" where
  "throw_if b e = (if b then Inl e else Inr ())"

fun res_bind :: "('e, 'a) result \<Rightarrow> ('a \<Rightarrow> ('e, 'b) result) \<Rightarrow> ('e, 'b) result" where
  "res_bind (Inl e) f = Inl e"
| "res_bind (Inr x) f = f x"

fun res_mapM :: "('a \<Rightarrow> ('e, 'b) result) \<Rightarrow> 'a list \<Rightarrow> ('e, 'b list) result" where
  "res_mapM f [] = Inr []"
| "res_mapM f (x # xs) =
     res_bind (f x) (\<lambda>y. res_bind (res_mapM f xs) (\<lambda>ys. Inr (y # ys)))"

fun res_fold :: "('a \<Rightarrow> 's \<Rightarrow> ('e, 's) result) \<Rightarrow> 'a list \<Rightarrow> 's \<Rightarrow> ('e, 's) result" where
  "res_fold f [] s = Inr s"
| "res_fold f (x # xs) s = res_bind (f x s) (res_fold f xs)"

definition is_ok :: "('e, 'a) result \<Rightarrow> bool" where
  "is_ok r = (case r of Inl _ \<Rightarrow> False | Inr _ \<Rightarrow> True)"

lemma is_ok_simps [simp]: "is_ok (Inr x)" "\<not> is_ok (Inl e)"
  by (simp_all add: is_ok_def)

lemma throw_if_simps [simp]:
  "throw_if True e = Inl e" "throw_if False e = Inr ()"
  by (simp_all add: throw_if_def)

lemma throw_if_Inr_iff [result_simps]: "throw_if b e = Inr u \<longleftrightarrow> \<not> b"
  by (simp add: throw_if_def)

lemma throw_if_Inl_iff [result_simps]: "throw_if b e = Inl e' \<longleftrightarrow> b \<and> e' = e"
  by (auto simp: throw_if_def)

lemma res_bind_Inr_iff [result_simps]:
  "res_bind r f = Inr y \<longleftrightarrow> (\<exists>x. r = Inr x \<and> f x = Inr y)"
  by (cases r) auto

lemma res_bind_Inl_iff [result_simps]:
  "res_bind r f = Inl e \<longleftrightarrow> r = Inl e \<or> (\<exists>x. r = Inr x \<and> f x = Inl e)"
  by (cases r) auto

lemma res_bind_throw [simp]:
  "res_bind (throw_if b e) f = (if b then Inl e else f ())"
  by (simp add: throw_if_def)

text \<open>Inversion of a check and of an option that must be present.\<close>

lemma check_Inr_iff: "(if b then Inl e else r) = Inr y \<longleftrightarrow> \<not> b \<and> r = Inr y"
  by simp

lemma present_Inr_iff: "(case v of None \<Rightarrow> Inl e | Some x \<Rightarrow> f x) = Inr y \<longleftrightarrow> (\<exists>x. v = Some x \<and> f x = Inr y)"
  by (cases v) auto

lemma res_fold_keeps:
  assumes "res_fold f xs s = Inr s'" "Q s" "\<And>x u u'. x \<in> set xs \<Longrightarrow> Q u \<Longrightarrow> f x u = Inr u' \<Longrightarrow> Q u'"
  shows "Q s'"
  using assms
proof (induction xs arbitrary: s)
  case (Cons x xs)
  then obtain u where u: "f x s = Inr u" "res_fold f xs u = Inr s'" by (auto simp: result_simps)
  have "Q u" using Cons.prems(2,3) u(1) by (meson list.set_intros(1))
  then show ?case using Cons.IH [OF u(2)] Cons.prems(3) by (meson list.set_intros(2))
qed simp

lemma res_mapM_Inr_list_all2:
  "res_mapM f xs = Inr ys \<Longrightarrow> list_all2 (\<lambda>x y. f x = Inr y) xs ys"
  by (induction xs arbitrary: ys) (auto simp: result_simps)

lemma res_mapM_length: "res_mapM f xs = Inr ys \<Longrightarrow> length ys = length xs"
  using res_mapM_Inr_list_all2 [of f xs ys] by (auto dest: list_all2_lengthD)

lemma res_mapM_set:
  "res_mapM f xs = Inr ys \<Longrightarrow> y \<in> set ys \<Longrightarrow> \<exists>x \<in> set xs. f x = Inr y"
  by (induction xs arbitrary: ys) (auto simp: result_simps)

lemma res_mapM_id: "(\<And>x. x \<in> set xs \<Longrightarrow> f x = Inr x) \<Longrightarrow> res_mapM f xs = Inr xs"
  by (induction xs) auto

section \<open>Numbers\<close>

definition max_safe_integer :: int where
  "max_safe_integer = 9007199254740991"

definition is_safe_integer :: "int \<Rightarrow> bool" where
  "is_safe_integer n \<longleftrightarrow> - max_safe_integer \<le> n \<and> n \<le> max_safe_integer"

section \<open>Association lists as insertion-ordered maps\<close>

definition keys :: "('k \<times> 'v) list \<Rightarrow> 'k list" where
  "keys t = map fst t"

lemma keys_simps [simp]: "keys [] = []" "keys ((k, v) # t) = k # keys t" "keys (t @ t') = keys t @ keys t'"
  by (simp_all add: keys_def)

lemma set_keys: "set (keys t) = fst ` set t"
  by (simp add: keys_def)

lemma map_of_None_keys [table_simps]: "map_of t k = None \<longleftrightarrow> k \<notin> set (keys t)"
  by (simp add: map_of_eq_None_iff keys_def)

lemma keys_update_old [table_simps]: "k \<in> set (keys t) \<Longrightarrow> keys (AList.update k v t) = keys t"
  by (induction t) (auto simp: keys_def)

lemma keys_update_new [table_simps]: "k \<notin> set (keys t) \<Longrightarrow> AList.update k v t = t @ [(k, v)]"
  by (induction t) auto

lemma keys_delete [table_simps]: "keys (AList.delete k t) = filter (\<lambda>x. x \<noteq> k) (keys t)"
  by (induction t) (auto simp: AList.delete_eq)

lemma distinct_keys_update [intro]: "distinct (keys t) \<Longrightarrow> distinct (keys (AList.update k v t))"
  by (simp add: keys_def AList.distinct_update)

lemma distinct_keys_delete [intro]: "distinct (keys t) \<Longrightarrow> distinct (keys (AList.delete k t))"
  by (simp add: keys_delete)

lemma map_of_update [table_simps]: "map_of (AList.update k v t) = (map_of t)(k \<mapsto> v)"
  by (simp add: AList.update_conv')

lemma map_of_delete [table_simps]: "map_of (AList.delete k t) = (map_of t)(k := None)"
  by (simp add: AList.delete_conv')

lemma map_of_Some_iff_in:
  "distinct (keys t) \<Longrightarrow> map_of t k = Some v \<longleftrightarrow> (k, v) \<in> set t"
  by (simp add: keys_def)

lemma update_length [table_simps]:
  "length (AList.update k v t) = (if k \<in> set (keys t) then length t else Suc (length t))"
  by (induction t) (auto simp: keys_def)

text \<open>A quantity summed over the rows of a table, and how one write changes it.\<close>

definition row_sum :: "('v \<Rightarrow> int) \<Rightarrow> ('k \<times> 'v) list \<Rightarrow> int" where
  "row_sum f t = sum_list (map (\<lambda>r. f (snd r)) t)"

lemma row_sum_simps [simp]:
  "row_sum f [] = 0" "row_sum f ((k, v) # t) = f v + row_sum f t"
  "row_sum f (t @ t') = row_sum f t + row_sum f t'"
  by (simp_all add: row_sum_def)

lemma row_sum_update [table_simps]:
  "map_of t k = Some v \<Longrightarrow> row_sum f (AList.update k v' t) = row_sum f t - f v + f v'"
  by (induction t) (auto split: if_splits)

lemma delete_update [table_simps]: "AList.delete k (AList.update k v t) = AList.delete k t"
  by (induction t) auto

lemma in_keys: "(k, v) \<in> set t \<Longrightarrow> k \<in> set (keys t)"
  by (force simp: keys_def)

lemma delete_notin: "k \<notin> set (keys t) \<Longrightarrow> AList.delete k t = t"
  by (induction t) (auto simp: keys_def)

lemma row_sum_delete [table_simps]:
  "distinct (keys t) \<Longrightarrow> map_of t k = Some v \<Longrightarrow> row_sum f (AList.delete k t) = row_sum f t - f v"
  by (induction t) (auto simp: delete_notin split: if_splits)

lemma row_sum_nonneg: "(\<And>k v. (k, v) \<in> set t \<Longrightarrow> 0 \<le> f v) \<Longrightarrow> 0 \<le> row_sum f t"
  by (induction t) (auto, force)

lemma row_sum_member_le:
  "(\<And>k v. (k, v) \<in> set t \<Longrightarrow> 0 \<le> f v) \<Longrightarrow> (k, v) \<in> set t \<Longrightarrow> f v \<le> row_sum f t"
proof (induction t)
  case (Cons r t)
  obtain k' v' where r: "r = (k', v')" by force
  have "0 \<le> row_sum f t" using Cons.prems(1) by (intro row_sum_nonneg) auto
  then show ?case using Cons r by fastforce
qed simp

section \<open>Contracts of stateful components\<close>

text \<open>Operations of a component run one after another: \<open>run step s es\<close>.\<close>

abbreviation run :: "('s \<Rightarrow> 'e \<Rightarrow> 's) \<Rightarrow> 's \<Rightarrow> 'e list \<Rightarrow> 's" where
  "run \<equiv> foldl"

locale transition_system =
  fixes step :: "'s \<Rightarrow> 'e \<Rightarrow> 's"
    and ok :: "'e \<Rightarrow> bool"
    and inv :: "'s \<Rightarrow> bool"
  assumes step_inv: "inv s \<Longrightarrow> ok e \<Longrightarrow> inv (step s e)"
begin

lemma run_inv: "inv s \<Longrightarrow> list_all ok es \<Longrightarrow> inv (run step s es)"
  by (induction es arbitrary: s) (auto intro: step_inv)

end

locale versioned_system = transition_system +
  fixes version :: "'s \<Rightarrow> 'v :: order"
  assumes step_version: "inv s \<Longrightarrow> ok e \<Longrightarrow> version s \<le> version (step s e)"
begin

lemma run_version: "inv s \<Longrightarrow> list_all ok es \<Longrightarrow> version s \<le> version (run step s es)"
proof (induction es arbitrary: s)
  case (Cons e es)
  have "version s \<le> version (step s e)" using Cons.prems by (intro step_version) auto
  also have "\<dots> \<le> version (run step (step s e) es)"
    using Cons.prems by (intro Cons.IH step_inv) auto
  finally show ?case by simp
qed simp

end

locale absorbing_system = transition_system +
  fixes closed :: "'s \<Rightarrow> bool"
    and view :: "'s \<Rightarrow> 'w"
  assumes closed_step: "inv s \<Longrightarrow> closed s \<Longrightarrow> ok e \<Longrightarrow> closed (step s e)"
    and closed_view: "inv s \<Longrightarrow> closed s \<Longrightarrow> ok e \<Longrightarrow> view (step s e) = view s"
begin

lemma run_closed:
  "inv s \<Longrightarrow> closed s \<Longrightarrow> list_all ok es \<Longrightarrow>
   closed (run step s es) \<and> view (run step s es) = view s"
  by (induction es arbitrary: s) (auto simp: closed_view closed_step step_inv)

end

end
