(* ===== verification/Fair_Queue.thy ===== *)
theory Fair_Queue
  imports Prelude
begin

text \<open>
  The bounded round-robin queue of \<open>src/src/scopeFairQueue.ts\<close>. The class's two containers
  (\<open>queues\<close>, a \<open>Map\<close> from scope to its pending values, and \<open>order\<close>, the service order) and its
  counters are the fields of \<open>fair_queue\<close>; \<open>scheduled\<close> says whether a \<open>setImmediate\<close> callback is
  outstanding, and \<open>tick\<close> is that callback. The consumer \<open>options.run\<close> (with \<open>options.onError\<close>
  when it throws) runs inside \<open>runOne\<close> and may call the queue again: it is the argument \<open>cb\<close>, a
  state transformer.
\<close>

record 'a fair_queue =
  fq_queues :: "(string \<times> 'a list) list"
  fq_order :: "string list"
  fq_queued :: int
  fq_processed :: int
  fq_dropped :: int
  fq_scheduled :: bool
  fq_closed :: bool
  fq_capacity :: int
  fq_per_scope :: int

datatype fq_error = FqCapacityInvalid | FqPerScopeInvalid

definition new_fair_queue :: "int \<Rightarrow> int \<Rightarrow> (fq_error, 'a fair_queue) result" where
  "new_fair_queue cap per =
     (if \<not> is_safe_integer cap \<or> cap < 1 then Inl FqCapacityInvalid
      else if \<not> is_safe_integer per \<or> per < 1 \<or> cap < per then Inl FqPerScopeInvalid
      else Inr \<lparr>fq_queues = [], fq_order = [], fq_queued = 0, fq_processed = 0, fq_dropped = 0,
                fq_scheduled = False, fq_closed = False, fq_capacity = cap, fq_per_scope = per\<rparr>)"

definition remove_empty_scope :: "string \<Rightarrow> 'a fair_queue \<Rightarrow> 'a fair_queue" where
  "remove_empty_scope s q =
     q\<lparr>fq_queues := AList.delete s (fq_queues q), fq_order := filter (\<lambda>x. x \<noteq> s) (fq_order q)\<rparr>"

text \<open>\<open>selected\<close> is replaced only by a strictly longer queue, so the first longest one wins.\<close>

fun noisiest :: "(string \<times> 'a list) option \<Rightarrow> (string \<times> 'a list) list \<Rightarrow> (string \<times> 'a list) option" where
  "noisiest sel [] = sel"
| "noisiest sel ((s, xs) # rest) =
     (if length xs \<le> 1 then noisiest sel rest
      else case sel of
        None \<Rightarrow> noisiest (Some (s, xs)) rest
      | Some (s', ys) \<Rightarrow>
          if length ys < length xs then noisiest (Some (s, xs)) rest else noisiest sel rest)"

definition evict_from_noisiest_scope :: "'a fair_queue \<Rightarrow> bool \<times> 'a fair_queue" where
  "evict_from_noisiest_scope q =
     (case noisiest None (fq_queues q) of
        None \<Rightarrow> (False, q)
      | Some (s, xs) \<Rightarrow>
          (True, q\<lparr>fq_queues := AList.update s (tl xs) (fq_queues q),
                   fq_queued := fq_queued q - 1, fq_dropped := fq_dropped q + 1\<rparr>))"

definition fq_schedule :: "'a fair_queue \<Rightarrow> 'a fair_queue" where
  "fq_schedule q =
     (if fq_closed q \<or> fq_scheduled q \<or> fq_queued q = 0 then q else q\<lparr>fq_scheduled := True\<rparr>)"

definition scope_values :: "'a fair_queue \<Rightarrow> string \<Rightarrow> 'a list" where
  "scope_values q s = (case map_of (fq_queues q) s of None \<Rightarrow> [] | Some xs \<Rightarrow> xs)"

definition fq_open_scope :: "string \<Rightarrow> 'a fair_queue \<Rightarrow> 'a fair_queue" where
  "fq_open_scope s q =
     (case map_of (fq_queues q) s of
        Some _ \<Rightarrow> q
      | None \<Rightarrow> q\<lparr>fq_queues := AList.update s [] (fq_queues q), fq_order := fq_order q @ [s]\<rparr>)"

definition fq_push :: "string \<Rightarrow> 'a \<Rightarrow> 'a fair_queue \<Rightarrow> 'a fair_queue" where
  "fq_push s v q =
     fq_schedule (q\<lparr>fq_queues := AList.update s (scope_values q s @ [v]) (fq_queues q),
                    fq_queued := fq_queued q + 1\<rparr>)"

definition enqueue :: "string \<Rightarrow> 'a \<Rightarrow> 'a fair_queue \<Rightarrow> bool \<times> 'a fair_queue" where
  "enqueue s v q =
     (if fq_closed q then (False, q)
      else let q1 = fq_open_scope s q; xs = scope_values q1 s in
        if fq_per_scope q1 \<le> int (length xs)
        then (True, fq_push s v
               (q1\<lparr>fq_queues := AList.update s (tl xs) (fq_queues q1),
                   fq_queued := fq_queued q1 - 1, fq_dropped := fq_dropped q1 + 1\<rparr>))
        else if fq_capacity q1 \<le> fq_queued q1
        then (case evict_from_noisiest_scope q1 of
                (True, q2) \<Rightarrow> (True, fq_push s v q2)
              | (False, q2) \<Rightarrow>
                  let q3 = q2\<lparr>fq_dropped := fq_dropped q2 + 1\<rparr> in
                  (False, if xs = [] then remove_empty_scope s q3 else q3))
        else (True, fq_push s v q1))"

text \<open>One round of the \<open>for\<close> loop of \<open>remove\<close>; \<open>n\<close> is the local counter \<open>removed\<close>.\<close>

definition remove_scope :: "('a \<Rightarrow> bool) \<Rightarrow> string \<times> 'a list \<Rightarrow> int \<times> 'a fair_queue \<Rightarrow> int \<times> 'a fair_queue" where
  "remove_scope p row st =
     (let (s, xs) = row; (n, q) = st; kept = filter (\<lambda>v. \<not> p v) xs;
          gone = int (length xs) - int (length kept);
          q1 = q\<lparr>fq_queued := fq_queued q - gone\<rparr>
      in (n + gone,
          if kept \<noteq> [] then q1\<lparr>fq_queues := AList.update s kept (fq_queues q1)\<rparr>
          else remove_empty_scope s q1))"

definition remove :: "('a \<Rightarrow> bool) \<Rightarrow> 'a fair_queue \<Rightarrow> int \<times> 'a fair_queue" where
  "remove p q =
     (case fold (remove_scope p) (fq_queues q) (0, q) of
        (n, q') \<Rightarrow> (n, q'\<lparr>fq_dropped := fq_dropped q' + n\<rparr>))"

definition close :: "'a fair_queue \<Rightarrow> 'a fair_queue" where
  "close q =
     (if fq_closed q then q
      else q\<lparr>fq_closed := True, fq_scheduled := False, fq_dropped := fq_dropped q + fq_queued q,
             fq_queued := 0, fq_queues := [], fq_order := []\<rparr>)"

text \<open>
  \<open>take_next\<close> is the part of \<open>runOne\<close> before \<open>options.run\<close>: it selects the value (if any). The test
  \<open>!scopeId\<close> of the source is true for the empty string as well.
\<close>

definition take_next :: "'a fair_queue \<Rightarrow> 'a option \<times> 'a fair_queue" where
  "take_next q =
     (case fq_order q of
        [] \<Rightarrow> (None, q)
      | s # rest \<Rightarrow>
          let q1 = q\<lparr>fq_order := rest\<rparr> in
          if s = '''' then (None, q1)
          else case scope_values q1 s of
            [] \<Rightarrow> (None, q1\<lparr>fq_queues := AList.delete s (fq_queues q1)\<rparr>)
          | v # vs \<Rightarrow>
              let q2 = q1\<lparr>fq_queues := AList.update s vs (fq_queues q1), fq_queued := fq_queued q1 - 1\<rparr> in
              (Some v, if vs \<noteq> [] then q2\<lparr>fq_order := fq_order q2 @ [s]\<rparr>
                       else q2\<lparr>fq_queues := AList.delete s (fq_queues q2)\<rparr>))"

definition run_one :: "('a \<Rightarrow> 'a fair_queue \<Rightarrow> 'a fair_queue) \<Rightarrow> 'a fair_queue \<Rightarrow> 'a fair_queue" where
  "run_one cb q =
     (case take_next q of
        (None, q1) \<Rightarrow> q1
      | (Some v, q1) \<Rightarrow> let q2 = cb v q1 in q2\<lparr>fq_processed := fq_processed q2 + 1\<rparr>)"

definition tick :: "('a \<Rightarrow> 'a fair_queue \<Rightarrow> 'a fair_queue) \<Rightarrow> 'a fair_queue \<Rightarrow> 'a fair_queue" where
  "tick cb q =
     (if fq_scheduled q then fq_schedule (run_one cb (q\<lparr>fq_scheduled := False\<rparr>)) else q)"

record fq_status =
  st_queued :: int
  st_scopes :: int
  st_capacity :: int
  st_per_scope :: int
  st_processed :: int
  st_dropped :: int

definition status :: "'a fair_queue \<Rightarrow> fq_status" where
  "status q = \<lparr>st_queued = fq_queued q, st_scopes = int (length (fq_queues q)),
     st_capacity = fq_capacity q, st_per_scope = fq_per_scope q,
     st_processed = fq_processed q, st_dropped = fq_dropped q\<rparr>"

section \<open>Invariant\<close>

text \<open>
  \<open>fq_core e q\<close> is what holds inside an operation: only the scope \<open>e\<close> may be empty. Between
  operations no scope is empty (\<open>e = None\<close>) and pending work has a callback outstanding.
\<close>

definition fq_core :: "string option \<Rightarrow> 'a fair_queue \<Rightarrow> bool" where
  "fq_core e q \<longleftrightarrow>
     distinct (keys (fq_queues q)) \<and> distinct (fq_order q) \<and>
     set (fq_order q) = set (keys (fq_queues q)) \<and>
     (\<forall>k xs. map_of (fq_queues q) k = Some xs \<longrightarrow>
        k \<noteq> '''' \<and> int (length xs) \<le> fq_per_scope q \<and> (xs = [] \<longrightarrow> e = Some k)) \<and>
     fq_queued q = row_sum (\<lambda>xs. int (length xs)) (fq_queues q) \<and>
     fq_queued q \<le> fq_capacity q \<and> 1 \<le> fq_per_scope q \<and> fq_per_scope q \<le> fq_capacity q \<and>
     (fq_closed q \<longrightarrow> fq_queues q = [])"

definition fq_inv :: "'a fair_queue \<Rightarrow> bool" where
  "fq_inv q \<longleftrightarrow> fq_core None q \<and> (0 < fq_queued q \<longrightarrow> fq_scheduled q)"

lemma fq_core_scheduled [simp]: "fq_core e (q\<lparr>fq_scheduled := b\<rparr>) = fq_core e q"
  by (simp add: fq_core_def)

lemma fq_core_processed [simp]: "fq_core e (q\<lparr>fq_processed := n\<rparr>) = fq_core e q"
  by (simp add: fq_core_def)

lemma fq_core_dropped [simp]: "fq_core e (q\<lparr>fq_dropped := n\<rparr>) = fq_core e q"
  by (simp add: fq_core_def)

lemma fq_core_nonneg: "fq_core e q \<Longrightarrow> 0 \<le> fq_queued q"
  by (auto simp: fq_core_def intro: row_sum_nonneg)

lemma fq_schedule_inv: "fq_core None q \<Longrightarrow> fq_inv (fq_schedule q)"
  by (auto simp: fq_inv_def fq_schedule_def fq_core_def)

lemma fq_schedule_frame [simp]:
  "fq_queues (fq_schedule q) = fq_queues q" "fq_order (fq_schedule q) = fq_order q"
  "fq_queued (fq_schedule q) = fq_queued q" "fq_processed (fq_schedule q) = fq_processed q"
  "fq_dropped (fq_schedule q) = fq_dropped q" "fq_closed (fq_schedule q) = fq_closed q"
  "fq_capacity (fq_schedule q) = fq_capacity q" "fq_per_scope (fq_schedule q) = fq_per_scope q"
  by (simp_all add: fq_schedule_def)

lemma new_fair_queue_inv: "new_fair_queue cap per = Inr q \<Longrightarrow> fq_inv q"
  by (auto simp: new_fair_queue_def fq_inv_def fq_core_def split: if_splits)

lemma fq_core_update:
  assumes "fq_core e q" "map_of (fq_queues q) s = Some xs"
    and "int (length ys) \<le> fq_per_scope q" "ys = [] \<Longrightarrow> e' = Some s" "e = None \<or> e = Some s \<or> e = e'"
    and "n = fq_queued q - int (length xs) + int (length ys)" "n \<le> fq_capacity q"
  shows "fq_core e' (q\<lparr>fq_queues := AList.update s ys (fq_queues q), fq_queued := n\<rparr>)"
proof -
  have s: "s \<in> set (keys (fq_queues q))" using assms(2) by (metis map_of_None_keys option.simps(3))
  show ?thesis
    using assms s by (auto simp: fq_core_def keys_update_old map_of_update row_sum_update)
qed

lemma fq_core_remove_scope:
  assumes "fq_core e q" "map_of (fq_queues q) s = Some xs" "e = None \<or> e = Some s"
    and "n = fq_queued q - int (length xs)"
  shows "fq_core None (remove_empty_scope s (q\<lparr>fq_queued := n\<rparr>))"
proof -
  have "n \<le> fq_capacity q" using assms by (auto simp: fq_core_def)
  moreover have "row_sum (\<lambda>xs. int (length xs)) (AList.delete s (fq_queues q)) = n"
    using assms by (simp add: fq_core_def row_sum_delete)
  ultimately show ?thesis
    using assms by (auto simp: fq_core_def remove_empty_scope_def keys_delete map_of_delete)
qed

lemma fq_open_scope_core:
  assumes "fq_core None q" "s \<noteq> ''''" "\<not> fq_closed q"
  shows "fq_core (Some s) (fq_open_scope s q)"
    and "map_of (fq_queues (fq_open_scope s q)) s = Some (scope_values q s)"
    and "fq_queued (fq_open_scope s q) = fq_queued q"
proof -
  have "fq_core (Some s) (fq_open_scope s q) \<and>
    map_of (fq_queues (fq_open_scope s q)) s = Some (scope_values q s) \<and>
    fq_queued (fq_open_scope s q) = fq_queued q"
  proof (cases "map_of (fq_queues q) s")
    case None
    then have "s \<notin> set (keys (fq_queues q))" by (simp add: map_of_None_keys)
    then show ?thesis using assms None
      by (auto simp: fq_open_scope_def fq_core_def scope_values_def keys_update_new map_add_Some_iff
          split: option.splits)
  next
    case (Some xs)
    then show ?thesis using assms
      by (auto simp: fq_open_scope_def fq_core_def scope_values_def)
  qed
  then show "fq_core (Some s) (fq_open_scope s q)"
    and "map_of (fq_queues (fq_open_scope s q)) s = Some (scope_values q s)"
    and "fq_queued (fq_open_scope s q) = fq_queued q"
    by auto
qed

lemma fq_open_scope_frame [simp]:
  "fq_processed (fq_open_scope s q) = fq_processed q" "fq_dropped (fq_open_scope s q) = fq_dropped q"
  "fq_closed (fq_open_scope s q) = fq_closed q" "fq_capacity (fq_open_scope s q) = fq_capacity q"
  "fq_per_scope (fq_open_scope s q) = fq_per_scope q" "fq_scheduled (fq_open_scope s q) = fq_scheduled q"
  by (simp_all add: fq_open_scope_def split: option.splits)

section \<open>The operations on the pending values\<close>

text \<open>\<open>scope_values q\<close>, as a function of the scope, is the abstract state of the queue.\<close>

lemma scope_values_update [simp]:
  "scope_values (q\<lparr>fq_queues := AList.update s xs (fq_queues q)\<rparr>) = (scope_values q)(s := xs)"
  by (auto simp: scope_values_def map_of_update fun_eq_iff)

lemma scope_values_cong: "fq_queues q = fq_queues q' \<Longrightarrow> scope_values q = scope_values q'"
  by (simp add: scope_values_def fun_eq_iff)

lemma scope_values_frame [simp]:
  "scope_values (q\<lparr>fq_queued := n\<rparr>) = scope_values q"
  "scope_values (q\<lparr>fq_dropped := n\<rparr>) = scope_values q"
  "scope_values (q\<lparr>fq_processed := n\<rparr>) = scope_values q"
  "scope_values (q\<lparr>fq_scheduled := b\<rparr>) = scope_values q"
  "scope_values (q\<lparr>fq_order := ss\<rparr>) = scope_values q"
  "scope_values (fq_schedule q) = scope_values q"
  by (auto intro!: scope_values_cong)

lemma scope_values_open [simp]: "scope_values (fq_open_scope s q) = scope_values q"
  by (auto simp: fq_open_scope_def scope_values_def map_of_update fun_eq_iff split: option.splits)

lemma scope_values_remove_scope [simp]:
  "scope_values (remove_empty_scope s q) = (scope_values q)(s := [])"
  by (auto simp: remove_empty_scope_def scope_values_def map_of_delete fun_eq_iff)

lemma noisiest_Some:
  assumes "noisiest sel t = Some (s, xs)"
    and "\<And>k ys. sel = Some (k, ys) \<Longrightarrow> 1 < length ys"
  shows "((s, xs) \<in> set t \<or> sel = Some (s, xs)) \<and> 1 < length xs \<and>
    (\<forall>(k, ys) \<in> set t. length ys \<le> length xs) \<and> (\<forall>k ys. sel = Some (k, ys) \<longrightarrow> length ys \<le> length xs)"
  using assms
proof (induction t arbitrary: sel)
  case (Cons r t)
  obtain k ys where r: "r = (k, ys)" by force
  define sel' where "sel' = (if length ys \<le> 1 then sel else case sel of None \<Rightarrow> Some (k, ys)
     | Some (k', zs) \<Rightarrow> if length zs < length ys then Some (k, ys) else sel)"
  have "noisiest sel' t = Some (s, xs)"
    using Cons.prems(1) by (auto simp: r sel'_def split: option.splits if_splits)
  moreover have "1 < length zs" if "sel' = Some (j, zs)" for j zs
    using that Cons.prems(2) by (auto simp: sel'_def split: option.splits if_splits)
  ultimately have IH: "((s, xs) \<in> set t \<or> sel' = Some (s, xs)) \<and> 1 < length xs \<and>
    (\<forall>(k, ys) \<in> set t. length ys \<le> length xs) \<and> (\<forall>k ys. sel' = Some (k, ys) \<longrightarrow> length ys \<le> length xs)"
    by (rule Cons.IH)
  show ?case
  proof (cases "sel' = Some (k, ys)")
    case True
    then have "sel = None \<or> (\<exists>k' zs. sel = Some (k', zs) \<and> length zs \<le> length ys)"
      by (auto simp: sel'_def split: option.splits if_splits)
    with IH True show ?thesis by (auto simp: r)
  next
    case False
    then have "sel' = sel" "length ys \<le> 1 \<or> (\<exists>k' zs. sel = Some (k', zs) \<and> length ys \<le> length zs)"
      by (auto simp: sel'_def split: option.splits if_splits)
    with IH show ?thesis by (auto simp: r)
  qed
qed simp

lemma noisiest_None: "noisiest sel t = None \<longleftrightarrow> sel = None \<and> (\<forall>(k, ys) \<in> set t. length ys \<le> 1)"
  by (induction sel t rule: noisiest.induct) (auto split: option.splits)

lemma fq_core_order_keys: "fq_core e q \<Longrightarrow> k \<in> set (fq_order q) \<longleftrightarrow> map_of (fq_queues q) k \<noteq> None"
  by (metis fq_core_def map_of_None_keys)

lemma scope_values_bounded:
  "fq_core e q \<Longrightarrow> int (length (scope_values q k)) \<le> fq_per_scope q"
  by (auto simp: fq_core_def scope_values_def split: option.splits)

lemma evict_spec:
  assumes "fq_core e q" "evict_from_noisiest_scope q = (b, q')"
  shows "(b \<longrightarrow> (\<exists>k. 1 < length (scope_values q k) \<and>
              (\<forall>j. length (scope_values q j) \<le> length (scope_values q k)) \<and>
              scope_values q' = (scope_values q)(k := tl (scope_values q k))) \<and>
            fq_core e q' \<and> fq_queued q' = fq_queued q - 1 \<and> fq_dropped q' = fq_dropped q + 1 \<and>
            set (keys (fq_queues q')) = set (keys (fq_queues q))) \<and>
         (\<not> b \<longrightarrow> q' = q \<and> (\<forall>k. length (scope_values q k) \<le> 1)) \<and>
         fq_processed q' = fq_processed q \<and> fq_closed q' = fq_closed q \<and>
         fq_per_scope q' = fq_per_scope q \<and> fq_capacity q' = fq_capacity q"
proof (cases "noisiest None (fq_queues q)")
  case None
  then have "\<forall>(k, ys) \<in> set (fq_queues q). length ys \<le> 1" by (simp add: noisiest_None)
  then show ?thesis
    using assms None by (auto simp: evict_from_noisiest_scope_def scope_values_def
        split: option.splits dest!: map_of_SomeD)
next
  case (Some r)
  obtain s xs where r: "r = (s, xs)" by force
  have d: "distinct (keys (fq_queues q))" using assms(1) by (simp add: fq_core_def)
  from noisiest_Some [of None "fq_queues q" s xs] Some r
  have in_t: "(s, xs) \<in> set (fq_queues q)" and len: "1 < length xs"
    and big: "\<And>k ys. (k, ys) \<in> set (fq_queues q) \<Longrightarrow> length ys \<le> length xs"
    by auto
  have m: "map_of (fq_queues q) s = Some xs" using d in_t by (simp add: map_of_Some_iff_in)
  have sv: "scope_values q s = xs" using m by (simp add: scope_values_def)
  have "length (scope_values q j) \<le> length xs" for j
    using big by (auto simp: scope_values_def split: option.splits dest: map_of_SomeD)
  moreover have "fq_core e (q\<lparr>fq_queues := AList.update s (tl xs) (fq_queues q), fq_queued := fq_queued q - 1\<rparr>)"
  proof (rule fq_core_update [OF assms(1) m])
    have "int (length xs) \<le> fq_per_scope q" using assms(1) m by (auto simp: fq_core_def)
    then show "int (length (tl xs)) \<le> fq_per_scope q" by simp
    show "e = None \<or> e = Some s \<or> e = e" by simp
    show "fq_queued q - 1 = fq_queued q - int (length xs) + int (length (tl xs))" using len by (cases xs) auto
    show "fq_queued q - 1 \<le> fq_capacity q" using assms(1) by (simp add: fq_core_def)
    show "e = Some s" if "tl xs = []" using that len by (cases xs) auto
  qed
  moreover have "s \<in> set (keys (fq_queues q))" using m by (metis map_of_None_keys option.simps(3))
  ultimately show ?thesis
    using assms Some r len sv m
    by (auto simp: evict_from_noisiest_scope_def table_simps)
qed
lemma fq_push_spec:
  assumes "fq_core e q" "e = None \<or> e = Some s" "s \<in> set (keys (fq_queues q))"
    and "int (length (scope_values q s)) < fq_per_scope q" "fq_queued q < fq_capacity q"
  shows "fq_inv (fq_push s v q) \<and>
    scope_values (fq_push s v q) = (scope_values q)(s := scope_values q s @ [v]) \<and>
    fq_queued (fq_push s v q) = fq_queued q + 1"
proof -
  obtain xs where m: "map_of (fq_queues q) s = Some xs"
    using assms(3) by (metis map_of_None_keys option.exhaust)
  then have sv: "scope_values q s = xs" by (simp add: scope_values_def)
  have "fq_core None (q\<lparr>fq_queues := AList.update s (xs @ [v]) (fq_queues q), fq_queued := fq_queued q + 1\<rparr>)"
    using assms m sv by (intro fq_core_update [where xs = xs]) auto
  then show ?thesis by (simp add: fq_push_def fq_schedule_inv sv)
qed

lemma fq_push_frame [simp]:
  "fq_processed (fq_push s v q) = fq_processed q" "fq_dropped (fq_push s v q) = fq_dropped q"
  "fq_closed (fq_push s v q) = fq_closed q" "fq_capacity (fq_push s v q) = fq_capacity q"
  "fq_per_scope (fq_push s v q) = fq_per_scope q"
  by (simp_all add: fq_push_def)

text \<open>The four outcomes of an \<open>enqueue\<close> on an open queue.\<close>

lemma enqueue_scope_full:
  assumes "fq_core None q" "\<not> fq_closed q" "s \<noteq> ''''" "fq_per_scope q \<le> int (length (scope_values q s))"
    and "enqueue s v q = (b, q')"
  shows "b \<and> fq_inv q' \<and> scope_values q' = (scope_values q)(s := tl (scope_values q s) @ [v]) \<and>
    fq_queued q' = fq_queued q \<and> fq_dropped q' = fq_dropped q + 1"
proof -
  let ?q1 = "fq_open_scope s q" and ?xs = "scope_values q s"
  let ?q2 = "?q1\<lparr>fq_queues := AList.update s (tl ?xs) (fq_queues ?q1),
    fq_queued := fq_queued ?q1 - 1, fq_dropped := fq_dropped ?q1 + 1\<rparr>"
  note c = assms(1)
  note o = fq_open_scope_core [OF c assms(3,2)]
  have pos: "1 \<le> fq_per_scope q" using c by (simp add: fq_core_def)
  have len: "length ?xs \<noteq> 0" using pos assms(4) by linarith
  have bnd: "int (length ?xs) \<le> fq_per_scope q" using c by (rule scope_values_bounded)
  have cap: "fq_queued q \<le> fq_capacity q" using c by (simp add: fq_core_def)
  have "fq_core (Some s) (?q1\<lparr>fq_queues := AList.update s (tl ?xs) (fq_queues ?q1), fq_queued := fq_queued ?q1 - 1\<rparr>)"
    using o len bnd cap by (intro fq_core_update [where xs = ?xs]) (auto simp: of_nat_diff Suc_le_eq)
  then have "fq_core (Some s) ?q2" by simp
  moreover have "s \<in> set (keys (fq_queues ?q1))" using o(2) by (metis map_of_None_keys option.simps(3))
  then have "s \<in> set (keys (fq_queues ?q2))" by (simp add: keys_update_old)
  moreover have "int (length (tl ?xs)) < fq_per_scope q" using bnd len by (cases ?xs) auto
  ultimately have "fq_inv (fq_push s v ?q2) \<and>
    scope_values (fq_push s v ?q2) = (scope_values ?q2)(s := scope_values ?q2 s @ [v]) \<and>
    fq_queued (fq_push s v ?q2) = fq_queued ?q2 + 1"
    using cap o(3) by (intro fq_push_spec) auto
  then show ?thesis
    using assms(2,4,5) o(3) by (auto simp: enqueue_def Let_def)
qed

lemma enqueue_total_full:
  assumes "fq_core None q" "\<not> fq_closed q" "s \<noteq> ''''" "int (length (scope_values q s)) < fq_per_scope q"
    and "fq_capacity q \<le> fq_queued q" "enqueue s v q = (b, q')"
  shows "fq_core None q' \<and> (if b then fq_inv q' else fq_scheduled q' = fq_scheduled q) \<and>
    fq_queued q' = fq_queued q \<and> fq_dropped q' = fq_dropped q + 1 \<and>
    (if b then \<exists>k. 1 < length (scope_values q k) \<and>
                 (\<forall>j. length (scope_values q j) \<le> length (scope_values q k)) \<and>
                 (let f = (scope_values q)(k := tl (scope_values q k))
                  in scope_values q' = f(s := f s @ [v]))
     else (\<forall>k. length (scope_values q k) \<le> 1) \<and> scope_values q' = scope_values q)"
proof -
  let ?q1 = "fq_open_scope s q"
  note c = assms(1)
  note o = fq_open_scope_core [OF c assms(3,2)]
  obtain d q2 where ev: "evict_from_noisiest_scope ?q1 = (d, q2)" by force
  note sp = evict_spec [OF o(1) ev]
  have cap: "fq_queued q \<le> fq_capacity q" using c by (simp add: fq_core_def)
  have s_in: "s \<in> set (keys (fq_queues ?q1))" using o(2) by (metis map_of_None_keys option.simps(3))
  show ?thesis
  proof (cases d)
    case True
    then obtain k where k: "1 < length (scope_values q k)"
        "\<forall>j. length (scope_values q j) \<le> length (scope_values q k)"
        "scope_values q2 = (scope_values q)(k := tl (scope_values q k))"
      using sp by auto
    have "fq_inv (fq_push s v q2) \<and>
      scope_values (fq_push s v q2) = (scope_values q2)(s := scope_values q2 s @ [v]) \<and>
      fq_queued (fq_push s v q2) = fq_queued q2 + 1"
      using sp True s_in assms(4) cap o(3) k(3) by (intro fq_push_spec [where e = "Some s"]) auto
    then have "fq_inv q' \<and> b \<and> fq_queued q' = fq_queued q \<and> fq_dropped q' = fq_dropped q + 1 \<and>
      scope_values q' = (scope_values q2)(s := scope_values q2 s @ [v])"
      using True assms(2,4,5,6) ev sp o(3) by (auto simp: enqueue_def Let_def)
    then show ?thesis using k by (auto simp: Let_def fq_inv_def)
  next
    case False
    then have q2: "q2 = ?q1" and le: "\<forall>k. length (scope_values q k) \<le> 1" using sp by auto
    let ?q3 = "?q1\<lparr>fq_dropped := fq_dropped ?q1 + 1\<rparr>"
    have q': "\<not> b" "q' = (if scope_values q s = [] then remove_empty_scope s ?q3 else ?q3)"
      using False assms(2,4,5,6) ev q2 o(3) by (auto simp: enqueue_def Let_def)
    have rm: "fq_core None (remove_empty_scope s (?q1\<lparr>fq_queued := fq_queued ?q1\<rparr>))" if "scope_values q s = []"
      using o(1,2) that by (intro fq_core_remove_scope [where xs = "[]" and e = "Some s"]) auto
    have "fq_core None q'"
    proof (cases "scope_values q s = []")
      case True
      have "remove_empty_scope s ?q3 = (remove_empty_scope s (?q1\<lparr>fq_queued := fq_queued ?q1\<rparr>))\<lparr>fq_dropped := fq_dropped q + 1\<rparr>"
        by (simp add: remove_empty_scope_def)
      then show ?thesis using True rm q'(2) by simp
    next
      case False
      then have "?q1 = q" using o(2) by (auto simp: fq_open_scope_def scope_values_def split: option.splits)
      then show ?thesis using False q'(2) c by simp
    qed
    moreover have "fq_queued q' = fq_queued q" "fq_dropped q' = fq_dropped q + 1"
      "fq_scheduled q' = fq_scheduled q"
      using q'(2) o(3) by (auto simp: remove_empty_scope_def)
    moreover have "scope_values q' = scope_values q"
      using q'(2) by (auto simp: fun_eq_iff)
    ultimately show ?thesis using assms(1) q'(1) le by (auto simp: fq_inv_def)
  qed
qed

lemma enqueue_room:
  assumes "fq_core None q" "\<not> fq_closed q" "s \<noteq> ''''" "int (length (scope_values q s)) < fq_per_scope q"
    and "fq_queued q < fq_capacity q" "enqueue s v q = (b, q')"
  shows "b \<and> fq_inv q' \<and> scope_values q' = (scope_values q)(s := scope_values q s @ [v]) \<and>
    fq_queued q' = fq_queued q + 1 \<and> fq_dropped q' = fq_dropped q"
proof -
  let ?q1 = "fq_open_scope s q"
  note c = assms(1)
  note o = fq_open_scope_core [OF c assms(3,2)]
  have "s \<in> set (keys (fq_queues ?q1))" using o(2) by (metis map_of_None_keys option.simps(3))
  then have "fq_inv (fq_push s v ?q1) \<and>
      scope_values (fq_push s v ?q1) = (scope_values ?q1)(s := scope_values ?q1 s @ [v]) \<and>
      fq_queued (fq_push s v ?q1) = fq_queued ?q1 + 1"
    using o assms(4,5) by (intro fq_push_spec) auto
  then show ?thesis using assms(2,4,5,6) o(3) by (auto simp: enqueue_def Let_def)
qed

lemma enqueue_frame:
  assumes "enqueue s v q = (b, q')"
  shows "fq_processed q' = fq_processed q \<and> fq_closed q' = fq_closed q \<and>
    fq_capacity q' = fq_capacity q \<and> fq_per_scope q' = fq_per_scope q"
  using assms
  by (auto simp: enqueue_def Let_def evict_from_noisiest_scope_def remove_empty_scope_def
      split: if_splits option.splits)

lemma enqueue_closed: "fq_closed q \<Longrightarrow> enqueue s v q = (False, q)"
  by (simp add: enqueue_def)

lemma enqueue_core:
  assumes "fq_core None q" "s \<noteq> ''''"
  shows "fq_core None (snd (enqueue s v q))"
    and "fst (enqueue s v q) \<Longrightarrow> fq_inv (snd (enqueue s v q))"
    and "\<not> fst (enqueue s v q) \<Longrightarrow> fq_scheduled (snd (enqueue s v q)) = fq_scheduled q \<and>
           fq_queued (snd (enqueue s v q)) = fq_queued q"
proof -
  obtain b q' where e: "enqueue s v q = (b, q')" by force
  consider "fq_closed q" | "\<not> fq_closed q" "fq_per_scope q \<le> int (length (scope_values q s))"
    | "\<not> fq_closed q" "int (length (scope_values q s)) < fq_per_scope q" "fq_capacity q \<le> fq_queued q"
    | "\<not> fq_closed q" "int (length (scope_values q s)) < fq_per_scope q" "fq_queued q < fq_capacity q"
    by linarith
  then have "fq_core None q' \<and> (if b then fq_inv q' else fq_scheduled q' = fq_scheduled q \<and> fq_queued q' = fq_queued q)"
  proof cases
    case 1
    with assms e show ?thesis by (simp add: enqueue_closed)
  next
    case 2
    with enqueue_scope_full [OF assms(1) 2(1) assms(2) 2(2) e] show ?thesis by (simp add: fq_inv_def)
  next
    case 3
    with enqueue_total_full [OF assms(1) 3(1) assms(2) 3(2,3) e] show ?thesis by (simp split: if_splits)
  next
    case 4
    with enqueue_room [OF assms(1) 4(1) assms(2) 4(2,3) e] show ?thesis by (simp add: fq_inv_def)
  qed
  then show "fq_core None (snd (enqueue s v q))"
    and "fst (enqueue s v q) \<Longrightarrow> fq_inv (snd (enqueue s v q))"
    and "\<not> fst (enqueue s v q) \<Longrightarrow> fq_scheduled (snd (enqueue s v q)) = fq_scheduled q \<and>
           fq_queued (snd (enqueue s v q)) = fq_queued q"
    by (simp_all add: e split: if_splits)
qed

lemma enqueue_inv:
  assumes "fq_inv q" "s \<noteq> ''''"
  shows "fq_inv (snd (enqueue s v q))"
proof (cases "fst (enqueue s v q)")
  case True
  then show ?thesis using assms by (intro enqueue_core(2)) (auto simp: fq_inv_def)
next
  case False
  then show ?thesis using assms enqueue_core [of q s v] by (auto simp: fq_inv_def)
qed

lemma remove_scope_step:
  assumes "fq_core None q" "map_of (fq_queues q) s = Some xs" "remove_scope p (s, xs) (n, q) = (n', q')"
  shows "fq_core None q' \<and> fq_queued q' + n' = fq_queued q + n \<and>
    scope_values q' = (scope_values q)(s := filter (\<lambda>v. \<not> p v) xs) \<and>
    n' = n + int (length (filter p xs)) \<and>
    (\<forall>k. k \<noteq> s \<longrightarrow> map_of (fq_queues q') k = map_of (fq_queues q) k) \<and>
    fq_dropped q' = fq_dropped q \<and> fq_processed q' = fq_processed q \<and> fq_closed q' = fq_closed q \<and>
    fq_scheduled q' = fq_scheduled q"
proof -
  let ?ys = "filter (\<lambda>v. \<not> p v) xs"
  have gone: "int (length xs) - int (length ?ys) = int (length (filter p xs))"
    using sum_length_filter_compl [of p xs] by simp
  have bnd: "int (length xs) \<le> fq_per_scope q" "fq_queued q \<le> fq_capacity q"
    using assms(1,2) by (auto simp: fq_core_def)
  have len: "int (length ?ys) \<le> fq_per_scope q"
    "fq_queued q - int (length xs) + int (length ?ys) \<le> fq_capacity q"
    using bnd length_filter_le [of "\<lambda>v. \<not> p v" xs] by linarith+
  show ?thesis
  proof (cases "?ys = []")
    case True
    then have "fq_core None (remove_empty_scope s (q\<lparr>fq_queued := fq_queued q - int (length xs)\<rparr>))"
      using assms(1,2) by (intro fq_core_remove_scope) auto
    then show ?thesis
      using assms(2,3) True gone
      by (auto simp: remove_scope_def Let_def remove_empty_scope_def map_of_delete scope_values_def fun_eq_iff)
  next
    case False
    have "fq_core None (q\<lparr>fq_queues := AList.update s ?ys (fq_queues q),
        fq_queued := fq_queued q - int (length xs) + int (length ?ys)\<rparr>)"
      using assms(1,2) False len by (intro fq_core_update) auto
    moreover have "q' = q\<lparr>fq_queues := AList.update s ?ys (fq_queues q),
        fq_queued := fq_queued q - int (length xs) + int (length ?ys)\<rparr>"
      "n' = n + int (length (filter p xs))"
      using assms(3) False gone by (auto simp: remove_scope_def Let_def)
    ultimately show ?thesis using gone by (auto simp: map_of_update scope_values_def fun_eq_iff)
  qed
qed

lemma remove_fold:
  assumes "fq_core None q" "distinct (keys rows)"
    and "\<forall>(s, xs) \<in> set rows. map_of (fq_queues q) s = Some xs"
    and "fold (remove_scope p) rows (n, q) = (n', q')"
  shows "fq_core None q' \<and> fq_queued q' + n' = fq_queued q + n \<and>
    (\<forall>k. scope_values q' k =
       (if k \<in> set (keys rows) then filter (\<lambda>v. \<not> p v) (scope_values q k) else scope_values q k)) \<and>
    n \<le> n' \<and> fq_dropped q' = fq_dropped q \<and> fq_processed q' = fq_processed q \<and>
    fq_closed q' = fq_closed q \<and> fq_scheduled q' = fq_scheduled q"
  using assms
proof (induction rows arbitrary: n q)
  case (Cons r rows)
  obtain s xs where r: "r = (s, xs)" by force
  obtain n1 q1 where s1: "remove_scope p (s, xs) (n, q) = (n1, q1)" by force
  have m: "map_of (fq_queues q) s = Some xs" using Cons.prems(3) r by auto
  note st = remove_scope_step [OF Cons.prems(1) m s1]
  have notin: "s \<notin> set (keys rows)" "distinct (keys rows)" using Cons.prems(2) r by auto
  have "\<forall>(k, ys) \<in> set rows. map_of (fq_queues q1) k = Some ys"
  proof
    fix y assume y: "y \<in> set rows"
    obtain k ys where k: "y = (k, ys)" by force
    have "k \<noteq> s" using y k notin(1) in_keys by metis
    moreover have "map_of (fq_queues q) k = Some ys" using Cons.prems(3) y k by auto
    ultimately show "case y of (k, ys) \<Rightarrow> map_of (fq_queues q1) k = Some ys" using st k by simp
  qed
  then have IH: "fq_core None q' \<and> fq_queued q' + n' = fq_queued q1 + n1 \<and>
    (\<forall>k. scope_values q' k =
       (if k \<in> set (keys rows) then filter (\<lambda>v. \<not> p v) (scope_values q1 k) else scope_values q1 k)) \<and>
    n1 \<le> n' \<and> fq_dropped q' = fq_dropped q1 \<and> fq_processed q' = fq_processed q1 \<and>
    fq_closed q' = fq_closed q1 \<and> fq_scheduled q' = fq_scheduled q1"
    using st notin(2) Cons.prems(4) s1 r by (intro Cons.IH) auto
  have "scope_values q s = xs" using m by (simp add: scope_values_def)
  then show ?case using IH st notin r by auto
qed simp

lemma remove_spec:
  assumes "fq_inv q" "remove p q = (n, q')"
  shows "fq_inv q' \<and> (\<forall>k. scope_values q' k = filter (\<lambda>v. \<not> p v) (scope_values q k)) \<and>
    0 \<le> n \<and> fq_queued q' = fq_queued q - n \<and> fq_dropped q' = fq_dropped q + n \<and>
    fq_processed q' = fq_processed q \<and> fq_closed q' = fq_closed q"
proof -
  have c: "fq_core None q" using assms(1) by (simp add: fq_inv_def)
  obtain m q1 where f: "fold (remove_scope p) (fq_queues q) (0, q) = (m, q1)" by force
  have d: "distinct (keys (fq_queues q))" using c by (simp add: fq_core_def)
  then have "\<forall>(s, xs) \<in> set (fq_queues q). map_of (fq_queues q) s = Some xs"
    by (auto simp: map_of_Some_iff_in)
  note r = remove_fold [OF c d this f]
  have "scope_values q k = []" if "k \<notin> set (keys (fq_queues q))" for k
    using that by (auto simp: scope_values_def table_simps simp flip: map_of_None_keys)
  then have "scope_values q1 k = filter (\<lambda>v. \<not> p v) (scope_values q k)" for k using r by auto
  then show ?thesis using r assms f by (auto simp: remove_def fq_inv_def)
qed

lemma close_inv: "fq_inv q \<Longrightarrow> fq_inv (close q)"
  by (auto simp: close_def fq_inv_def fq_core_def)

lemma take_next_spec:
  assumes "fq_core None q" "take_next q = (r, q')"
  shows "(case fq_order q of
      [] \<Rightarrow> r = None \<and> q' = q
    | s # rest \<Rightarrow> \<exists>v vs. scope_values q s = v # vs \<and> r = Some v \<and>
        scope_values q' = (scope_values q)(s := vs) \<and>
        fq_order q' = rest @ (if vs = [] then [] else [s]) \<and> fq_queued q' = fq_queued q - 1) \<and>
    fq_core None q' \<and> fq_dropped q' = fq_dropped q \<and> fq_processed q' = fq_processed q \<and>
    fq_closed q' = fq_closed q \<and> fq_scheduled q' = fq_scheduled q"
proof (cases "fq_order q")
  case Nil
  then show ?thesis using assms by (simp add: take_next_def)
next
  case (Cons s rest)
  have "map_of (fq_queues q) s \<noteq> None"
    using assms(1) Cons fq_core_order_keys [of None q s] by simp
  then obtain xs where m: "map_of (fq_queues q) s = Some xs" by auto
  then have ne: "s \<noteq> ''''" "xs \<noteq> []" using assms(1) by (auto simp: fq_core_def)
  then obtain v vs where xs: "xs = v # vs" by (cases xs) auto
  have sv: "scope_values q s = v # vs" using m xs by (simp add: scope_values_def)
  have sv1: "scope_values (q\<lparr>fq_order := rest\<rparr>) s = v # vs" using sv by simp
  have bnd: "int (length xs) \<le> fq_per_scope q" "fq_queued q \<le> fq_capacity q"
    using assms(1) m by (auto simp: fq_core_def)
  have d: "s \<notin> set rest" "distinct rest" using assms(1) Cons by (auto simp: fq_core_def)
  show ?thesis
  proof (cases "vs = []")
    case True
    have "fq_core None (remove_empty_scope s (q\<lparr>fq_queued := fq_queued q - 1\<rparr>))"
      using assms(1) m xs True by (intro fq_core_remove_scope) auto
    moreover have "AList.delete s (AList.update s [] (fq_queues q)) = AList.delete s (fq_queues q)"
      by (rule delete_update)
    moreover have "{x \<in> set rest. x \<noteq> s} = set rest" using d by auto
    moreover have "filter (\<lambda>x. x \<noteq> s) rest = rest" using d by (auto simp: filter_id_conv)
    ultimately have "fq_core None (q\<lparr>fq_order := rest, fq_queued := fq_queued q - 1,
        fq_queues := AList.delete s (AList.update s [] (fq_queues q))\<rparr>)"
      using Cons by (simp add: remove_empty_scope_def fq_core_def)
    then have "fq_core None q'"
      using assms(2) Cons ne sv1 True by (auto simp: take_next_def Let_def)
    then show ?thesis using assms(2) Cons ne sv sv1 True
      by (auto simp: take_next_def Let_def scope_values_def fun_eq_iff map_of_delete map_of_update)
  next
    case False
    let ?q2 = "q\<lparr>fq_queues := AList.update s vs (fq_queues q), fq_queued := fq_queued q - 1\<rparr>"
    have "fq_core None ?q2" using assms(1) m xs False bnd by (intro fq_core_update) auto
    then have "fq_core None (?q2\<lparr>fq_order := rest @ [s]\<rparr>)" using Cons d by (auto simp: fq_core_def)
    moreover have "q' = ?q2\<lparr>fq_order := rest @ [s]\<rparr>"
      using assms(2) Cons ne sv1 False by (auto simp: take_next_def Let_def)
    ultimately show ?thesis using assms(2) Cons ne sv sv1 False by (auto simp: take_next_def Let_def)
  qed
qed

lemma tick_inv:
  assumes "fq_inv q" "\<And>v q. fq_core None q \<Longrightarrow> fq_core None (cb v q)"
  shows "fq_inv (tick cb q)"
proof (cases "fq_scheduled q")
  case True
  let ?q0 = "q\<lparr>fq_scheduled := False\<rparr>"
  obtain r q1 where t: "take_next ?q0 = (r, q1)" by force
  have "fq_core None ?q0" using assms(1) by (simp add: fq_inv_def)
  from take_next_spec [OF this t] have "fq_core None q1" by simp
  then have "fq_core None (run_one cb ?q0)"
    using t by (auto simp: run_one_def Let_def assms(2) split: option.splits)
  then show ?thesis using True by (simp add: tick_def fq_schedule_inv)
qed (use assms in \<open>simp add: tick_def\<close>)

section \<open>Runs\<close>

text \<open>
  A consumer that enqueues again while it handles a value: \<open>f v\<close> lists the requests it makes.
\<close>

definition enqueue_all :: "(string \<times> 'a) list \<Rightarrow> 'a fair_queue \<Rightarrow> 'a fair_queue" where
  "enqueue_all rs q = fold (\<lambda>(s, v) q. snd (enqueue s v q)) rs q"

datatype 'a fq_event =
  FqEnqueue string 'a
| FqRemove "'a \<Rightarrow> bool"
| FqTick "'a \<Rightarrow> (string \<times> 'a) list"
| FqClose

fun fq_step :: "'a fair_queue \<Rightarrow> 'a fq_event \<Rightarrow> 'a fair_queue" where
  "fq_step q (FqEnqueue s v) = snd (enqueue s v q)"
| "fq_step q (FqRemove p) = snd (remove p q)"
| "fq_step q (FqTick f) = tick (\<lambda>v. enqueue_all (f v)) q"
| "fq_step q FqClose = close q"

fun fq_event_ok :: "'a fq_event \<Rightarrow> bool" where
  "fq_event_ok (FqEnqueue s v) = (s \<noteq> '''')"
| "fq_event_ok (FqTick f) = (\<forall>v. \<forall>(s, w) \<in> set (f v). s \<noteq> '''')"
| "fq_event_ok _ = True"

lemma fq_inv_core: "fq_inv q \<Longrightarrow> fq_core None q"
  by (simp add: fq_inv_def)

lemma enqueue_all_core:
  "fq_core None q \<Longrightarrow> \<forall>(s, w) \<in> set rs. s \<noteq> '''' \<Longrightarrow> fq_core None (enqueue_all rs q)"
  unfolding enqueue_all_def by (induction rs arbitrary: q) (auto simp: enqueue_core(1))

lemma fq_step_inv: "fq_inv q \<Longrightarrow> fq_event_ok e \<Longrightarrow> fq_inv (fq_step q e)"
  by (cases e) (auto simp: enqueue_inv close_inv intro!: tick_inv enqueue_all_core
      dest: remove_spec [OF _ prod.collapse [symmetric]])

lemma fq_step_closed:
  assumes "fq_inv q" "fq_closed q"
  shows "fq_closed (fq_step q e)" "scope_values (fq_step q e) = scope_values q"
    "fq_queued (fq_step q e) = fq_queued q" "fq_processed (fq_step q e) = fq_processed q"
    "fq_dropped (fq_step q e) = fq_dropped q"
proof -
  have empty: "fq_queues q = []" "fq_order q = []" "fq_queued q = 0"
    using assms by (auto simp: fq_inv_def fq_core_def)
  then have "fq_step q e = q \<or> fq_step q e = q\<lparr>fq_scheduled := False\<rparr>"
    using assms(2)
    by (cases e) (auto simp: enqueue_def remove_def close_def tick_def run_one_def take_next_def fq_schedule_def)
  then show "fq_closed (fq_step q e)" "scope_values (fq_step q e) = scope_values q"
    "fq_queued (fq_step q e) = fq_queued q" "fq_processed (fq_step q e) = fq_processed q"
    "fq_dropped (fq_step q e) = fq_dropped q"
    using assms(2) by auto
qed

interpretation fq: absorbing_system fq_step fq_event_ok fq_inv fq_closed
  "\<lambda>q. (scope_values q, fq_queued q, fq_processed q, fq_dropped q)"
  by unfold_locales (auto simp: fq_step_inv fq_step_closed)



text \<open>C32. No starvation. One pass of callbacks over a queue serves the oldest pending value of every
  scope, once each, in the service order: a noisy scope cannot delay another scope's turn.\<close>

fun serve :: "nat \<Rightarrow> 'a fair_queue \<Rightarrow> 'a list" where
  "serve 0 q = []"
| "serve (Suc n) q =
     (case take_next q of (None, q') \<Rightarrow> [] | (Some v, q') \<Rightarrow> v # serve n q')"

lemma serve_prefix:
  assumes "fq_core None q" "n \<le> length (fq_order q)"
  shows "serve n q = map (\<lambda>s. hd (scope_values q s)) (take n (fq_order q))"
  using assms
proof (induction n arbitrary: q)
  case (Suc n)
  obtain s rest where o: "fq_order q = s # rest" using Suc.prems(2) by (cases "fq_order q") auto
  obtain r q' where t: "take_next q = (r, q')" by force
  from take_next_spec [OF Suc.prems(1) t] o obtain v vs where
    sp: "scope_values q s = v # vs" "r = Some v" "scope_values q' = (scope_values q)(s := vs)"
      "fq_order q' = rest @ (if vs = [] then [] else [s])" "fq_core None q'"
    by auto
  have "n \<le> length (fq_order q')" "take n (fq_order q') = take n rest"
    using Suc.prems(2) o sp(4) by auto
  then have "serve n q' = map (\<lambda>s. hd (scope_values q' s)) (take n rest)"
    using Suc.IH [OF sp(5)] by simp
  moreover have "s \<notin> set (take n rest)"
    using Suc.prems(1) o by (auto simp: fq_core_def dest: in_set_takeD)
  ultimately show ?case using o sp t by (auto intro!: map_cong)
qed simp


definition example_queue :: "int fair_queue" where
  "example_queue = \<lparr>fq_queues = [], fq_order = [], fq_queued = 0, fq_processed = 0, fq_dropped = 0,
     fq_scheduled = False, fq_closed = False, fq_capacity = 4, fq_per_scope = 3\<rparr>"


text \<open>The contract of \<open>enqueue\<close> on every branch: an open queue takes the new value as the last
  of its scope; when the scope is full its oldest value makes room, when the queue is full the
  oldest value of a longest scope does, and only when every scope holds at most one value is the
  request refused, with the queue as it was. Each loss is counted in \<open>dropped\<close>.\<close>
theorem enqueue_contract:
  assumes "fq_inv q" "\<not> fq_closed q" "s \<noteq> ''''" "enqueue s v q = (b, q')"
  shows "(if fq_per_scope q \<le> int (length (scope_values q s))
     then b \<and> scope_values q' = (scope_values q)(s := tl (scope_values q s) @ [v]) \<and>
          fq_queued q' = fq_queued q \<and> fq_dropped q' = fq_dropped q + 1
     else if fq_capacity q \<le> fq_queued q
     then fq_queued q' = fq_queued q \<and> fq_dropped q' = fq_dropped q + 1 \<and>
          (if b then \<exists>k. 1 < length (scope_values q k) \<and>
                 (\<forall>j. length (scope_values q j) \<le> length (scope_values q k)) \<and>
                 (let f = (scope_values q)(k := tl (scope_values q k))
                  in scope_values q' = f(s := f s @ [v]))
           else (\<forall>k. length (scope_values q k) \<le> 1) \<and> scope_values q' = scope_values q)
     else b \<and> scope_values q' = (scope_values q)(s := scope_values q s @ [v]) \<and>
          fq_queued q' = fq_queued q + 1 \<and> fq_dropped q' = fq_dropped q) \<and>
     fq_processed q' = fq_processed q"
proof -
  note c = fq_inv_core [OF assms(1)]
  show ?thesis
    using enqueue_scope_full [OF c assms(2,3) _ assms(4)] enqueue_total_full [OF c assms(2,3) _ _ assms(4)]
      enqueue_room [OF c assms(2,3) _ _ assms(4)] enqueue_frame [OF assms(4)]
    by (cases "fq_per_scope q \<le> int (length (scope_values q s))"; cases "fq_capacity q \<le> fq_queued q";
        cases b) (simp_all add: not_le)
qed

theorem enqueue_contract_witness:
  "scope_values (snd (enqueue ''a'' 7 example_queue)) ''a'' = [7]"
proof -
  have i: "fq_inv example_queue"
    by (rule new_fair_queue_inv [of 4 3])
      (simp add: example_queue_def new_fair_queue_def is_safe_integer_def max_safe_integer_def)
  have o: "\<not> fq_closed example_queue" by (simp add: example_queue_def)
  show ?thesis
    using enqueue_contract [OF i o, of "''a''" 7] by (cases "enqueue ''a'' 7 example_queue")
      (simp add: example_queue_def scope_values_def)
qed

text \<open>Accounting. A value offered to an open queue is pending, processed or counted as dropped:
  every operation (with a consumer that keeps the account itself, as one that only enqueues does
  for its own offers) changes the total by exactly the number of offers.\<close>

definition accounted :: "'a fair_queue \<Rightarrow> int" where
  "accounted q = fq_queued q + fq_processed q + fq_dropped q"

lemma enqueue_accounted:
  assumes "fq_core None q" "s \<noteq> ''''" "\<not> fq_closed q"
  shows "accounted (snd (enqueue s v q)) = accounted q + 1"
proof -
  obtain b q' where e: "enqueue s v q = (b, q')" by force
  show ?thesis
    using enqueue_scope_full [OF assms(1,3,2) _ e] enqueue_total_full [OF assms(1,3,2) _ _ e]
      enqueue_room [OF assms(1,3,2) _ _ e] enqueue_frame [OF e]
    by (cases "fq_per_scope q \<le> int (length (scope_values q s))"; cases "fq_capacity q \<le> fq_queued q")
      (simp_all add: e accounted_def not_le)
qed

lemma enqueue_all_accounted:
  "fq_core None q \<Longrightarrow> \<not> fq_closed q \<Longrightarrow> \<forall>(s, w) \<in> set rs. s \<noteq> '''' \<Longrightarrow>
   accounted (enqueue_all rs q) = accounted q + int (length rs)"
proof (induction rs arbitrary: q)
  case (Cons r rs)
  obtain s v where r: "r = (s, v)" by force
  have "\<not> fq_closed (snd (enqueue s v q))"
    using Cons.prems(2) enqueue_frame [of s v q] by (cases "enqueue s v q") auto
  then have "accounted (enqueue_all rs (snd (enqueue s v q))) = accounted (snd (enqueue s v q)) + int (length rs)"
    using Cons.prems r by (intro Cons.IH enqueue_core(1)) auto
  then show ?case using Cons.prems r by (simp add: enqueue_all_def enqueue_accounted)
qed (simp add: enqueue_all_def)

lemma tick_accounted:
  assumes "fq_inv q" "\<not> fq_closed q" "\<forall>v. \<forall>(s, w) \<in> set (f v). s \<noteq> ''''"
  shows "accounted (tick (\<lambda>v. enqueue_all (f v)) q) = accounted q +
    (case fst (take_next q) of Some v \<Rightarrow> if fq_scheduled q then int (length (f v)) else 0 | None \<Rightarrow> 0)"
proof (cases "fq_scheduled q")
  case True
  let ?q0 = "q\<lparr>fq_scheduled := False\<rparr>"
  have c0: "fq_core None ?q0" using assms(1) by (simp add: fq_inv_def)
  obtain r q1 where t: "take_next ?q0 = (r, q1)" by force
  note sp = take_next_spec [OF c0 t]
  have same: "fst (take_next q) = r"
    using t by (auto simp: take_next_def Let_def split: list.splits if_splits)
  have "accounted q1 = accounted q - (if r = None then 0 else 1)"
    using sp by (auto simp: accounted_def split: list.splits)
  moreover have "accounted (enqueue_all (f v) q1) = accounted q1 + int (length (f v))" for v
    using sp assms by (intro enqueue_all_accounted) auto
  moreover have "accounted (q2\<lparr>fq_processed := fq_processed q2 + 1\<rparr>) = accounted q2 + 1"
    "accounted (fq_schedule q2) = accounted q2" for q2 :: "'a fair_queue"
    by (simp_all add: accounted_def)
  ultimately show ?thesis using True t same
    by (cases r) (simp_all add: tick_def run_one_def Let_def)
qed (simp add: tick_def split: option.splits)

theorem fair_queue_accounting:
  assumes "fq_inv q" "\<not> fq_closed q" "s \<noteq> ''''" "\<forall>v. \<forall>(s, w) \<in> set (f v). s \<noteq> ''''"
  shows "accounted (snd (enqueue s v q)) = accounted q + 1 \<and>
    accounted (snd (remove p q)) = accounted q \<and>
    accounted (close q) = accounted q \<and>
    accounted (tick (\<lambda>v. enqueue_all (f v)) q) = accounted q +
      (case fst (take_next q) of Some v \<Rightarrow> if fq_scheduled q then int (length (f v)) else 0 | None \<Rightarrow> 0)"
proof (intro conjI)
  show "accounted (snd (enqueue s v q)) = accounted q + 1"
    by (rule enqueue_accounted [OF fq_inv_core [OF assms(1)] assms(3,2)])
  show "accounted (snd (remove p q)) = accounted q"
    using remove_spec [of q p] assms(1) by (cases "remove p q") (auto simp: accounted_def)
  show "accounted (close q) = accounted q" by (simp add: accounted_def close_def)
qed (rule tick_accounted [OF assms(1,2,4)])

theorem fair_queue_accounting_witness:
  "accounted (close example_queue) = 0 \<and> accounted (snd (enqueue ''a'' 1 example_queue)) = 1"
proof -
  have i: "fq_inv example_queue"
    by (rule new_fair_queue_inv [of 4 3])
      (simp add: example_queue_def new_fair_queue_def is_safe_integer_def max_safe_integer_def)
  have o: "\<not> fq_closed example_queue" "accounted example_queue = 0"
    by (simp_all add: example_queue_def accounted_def)
  show ?thesis using fair_queue_accounting [OF i o(1), of "''a''" "\<lambda>v. []" 1] o(2) by simp
qed

end
