(* ===== verification/Drain_Gate.thy ===== *)
theory Drain_Gate
  imports Prelude
begin

text \<open>
  The drain gate of \<open>src/src/runtimeDrain.ts\<close>: who closed job admission (\<open>acceptingNewJobs\<close>) and
  who may reopen it. \<open>dg_owner\<close>, \<open>dg_cancelled\<close> and \<open>dg_binding\<close> are the private fields of
  \<open>RuntimeDrainGate\<close>; \<open>dg_accepting\<close> is the field of the shared admission object it writes. The
  clock is an argument. \<open>uuid\<close> is the string format check of the zod library.
\<close>

section \<open>The gate\<close>

record drain_target =
  dt_launcher :: int
  dt_token :: string
  dt_request :: string
  dt_attempt :: int
  dt_deadline :: int

record drain_gate =
  dg_owner :: "drain_target option"
  dg_cancelled :: "drain_target option"
  dg_binding :: "drain_target option"
  dg_accepting :: bool

datatype drain_error = DrainTargetInvalid | DrainTargetChanged | DrainDeadline | DrainNotOwned

definition initial_start_cleanup_ms :: int where
  "initial_start_cleanup_ms = 7000"

text \<open>The launcher's inherited context, with the process id read from the environment.\<close>

definition initial_runtime_drain_binding :: "drain_target option \<Rightarrow> int \<Rightarrow> drain_target option" where
  "initial_runtime_drain_binding context pid =
     (case context of
        None \<Rightarrow> None
      | Some c \<Rightarrow>
          if \<not> is_safe_integer pid \<or> pid \<le> 0 then None
          else Some (c\<lparr>dt_launcher := pid, dt_deadline := dt_deadline c + initial_start_cleanup_ms\<rparr>))"

definition new_gate :: "bool \<Rightarrow> drain_target option \<Rightarrow> drain_gate" where
  "new_gate accepting binding =
     \<lparr>dg_owner = None, dg_cancelled = None, dg_binding = binding, dg_accepting = accepting\<rparr>"

definition same_target :: "drain_target \<Rightarrow> drain_target \<Rightarrow> bool" where
  "same_target a b \<longleftrightarrow> dt_launcher a = dt_launcher b \<and> dt_token a = dt_token b \<and>
     dt_request a = dt_request b \<and> dt_attempt a = dt_attempt b"

definition target_schema :: "(string \<Rightarrow> bool) \<Rightarrow> drain_target \<Rightarrow> bool" where
  "target_schema uuid t \<longleftrightarrow>
     is_safe_integer (dt_launcher t) \<and> 0 < dt_launcher t \<and> uuid (dt_token t) \<and> uuid (dt_request t) \<and>
     is_safe_integer (dt_attempt t) \<and> 1 \<le> dt_attempt t \<and> dt_attempt t \<le> 3 \<and>
     is_safe_integer (dt_deadline t) \<and> 0 < dt_deadline t"

text \<open>\<open>x?.deadlineAt ?? Infinity\<close> is the neutral element of \<open>Math.min\<close>.\<close>

definition cap_deadline :: "drain_target option \<Rightarrow> int \<Rightarrow> int" where
  "cap_deadline t d = (case t of None \<Rightarrow> d | Some t \<Rightarrow> min d (dt_deadline t))"

definition validate_target ::
  "(string \<Rightarrow> bool) \<Rightarrow> int \<Rightarrow> drain_gate \<Rightarrow> drain_target \<Rightarrow> (drain_error, drain_target) result" where
  "validate_target uuid now g t =
     (if \<not> target_schema uuid t then Inl DrainTargetInvalid
      else case dg_binding g of
        None \<Rightarrow> Inl DrainTargetChanged
      | Some b \<Rightarrow>
          if \<not> same_target b t then Inl DrainTargetChanged
          else let deadline = cap_deadline (dg_cancelled g) (cap_deadline (dg_owner g) (dt_deadline t)) in
            if dt_deadline b < dt_deadline t \<or> deadline \<le> now then Inl DrainDeadline
            else Inr (t\<lparr>dt_deadline := deadline\<rparr>))"

definition coalesce :: "'a option \<Rightarrow> 'a option \<Rightarrow> 'a option" where
  "coalesce a b = (case a of Some x \<Rightarrow> Some x | None \<Rightarrow> b)"

text \<open>The test both operations share: another owner, or a closed gate without an owner.\<close>

definition not_owned :: "drain_gate \<Rightarrow> drain_target \<Rightarrow> bool" where
  "not_owned g t = (case dg_owner g of Some o' \<Rightarrow> \<not> same_target o' t | None \<Rightarrow> \<not> dg_accepting g)"

definition gate_begin ::
  "(string \<Rightarrow> bool) \<Rightarrow> int \<Rightarrow> drain_target option \<Rightarrow> drain_gate \<Rightarrow> (drain_error, drain_gate) result" where
  "gate_begin uuid now target g =
     (case target of
        None \<Rightarrow>
          let retired = coalesce (dg_owner g) (coalesce (dg_cancelled g) (dg_binding g)) in
          Inr (g\<lparr>dg_cancelled := coalesce retired (dg_cancelled g), dg_owner := None,
                 dg_accepting := False\<rparr>)
      | Some t \<Rightarrow>
          res_bind (validate_target uuid now g t) (\<lambda>checked.
            if (case dg_cancelled g of None \<Rightarrow> False | Some c \<Rightarrow> same_target c checked)
            then Inl DrainNotOwned
            else if not_owned g checked then Inl DrainNotOwned
            else Inr (g\<lparr>dg_owner := Some checked, dg_accepting := False\<rparr>)))"

definition gate_cancel ::
  "(string \<Rightarrow> bool) \<Rightarrow> int \<Rightarrow> drain_target option \<Rightarrow> drain_gate \<Rightarrow> (drain_error, drain_gate) result" where
  "gate_cancel uuid now target g =
     (case target of
        None \<Rightarrow>
          if dg_owner g \<noteq> None then Inl DrainNotOwned else Inr (g\<lparr>dg_accepting := True\<rparr>)
      | Some t \<Rightarrow>
          res_bind (validate_target uuid now g t) (\<lambda>checked.
            if not_owned g checked then Inl DrainNotOwned
            else Inr (g\<lparr>dg_owner := None, dg_cancelled := Some checked, dg_accepting := True\<rparr>)))"

section \<open>Runs of the gate\<close>

text \<open>A request arrives at a time; one that throws leaves the gate as it was.\<close>

datatype drain_event =
    GateBegin int "drain_target option"
  | GateCancel int "drain_target option"

fun gate_op :: "(string \<Rightarrow> bool) \<Rightarrow> drain_gate \<Rightarrow> drain_event \<Rightarrow> (drain_error, drain_gate) result" where
  "gate_op uuid g (GateBegin now t) = gate_begin uuid now t g"
| "gate_op uuid g (GateCancel now t) = gate_cancel uuid now t g"

definition gate_step :: "(string \<Rightarrow> bool) \<Rightarrow> drain_gate \<Rightarrow> drain_event \<Rightarrow> drain_gate" where
  "gate_step uuid g e = (case gate_op uuid g e of Inl _ \<Rightarrow> g | Inr g' \<Rightarrow> g')"

text \<open>Every target the gate remembers is the one it is bound to, and an owner keeps it closed.\<close>

definition bound_target :: "drain_gate \<Rightarrow> drain_target \<Rightarrow> bool" where
  "bound_target g t = (case dg_binding g of None \<Rightarrow> False
     | Some b \<Rightarrow> same_target b t \<and> dt_deadline t \<le> dt_deadline b)"

definition gate_inv :: "drain_gate \<Rightarrow> bool" where
  "gate_inv g \<longleftrightarrow>
     (\<forall>t. dg_owner g = Some t \<longrightarrow> \<not> dg_accepting g \<and> bound_target g t \<and> dg_cancelled g = None) \<and>
     (\<forall>t. dg_cancelled g = Some t \<longrightarrow> bound_target g t)"

lemma same_target_refl [simp]: "same_target t t"
  by (simp add: same_target_def)

lemma same_target_trans: "same_target a b \<Longrightarrow> same_target a c \<Longrightarrow> same_target b c"
  by (simp add: same_target_def)

lemma validate_Inr:
  assumes "validate_target uuid now g t = Inr t'"
  shows "target_schema uuid t \<and> bound_target g t \<and> bound_target g t' \<and> same_target t t' \<and>
    now < dt_deadline t' \<and> dt_deadline t' \<le> dt_deadline t \<and>
    t' = t\<lparr>dt_deadline := cap_deadline (dg_cancelled g) (cap_deadline (dg_owner g) (dt_deadline t))\<rparr>"
  using assms
  by (auto simp: validate_target_def bound_target_def same_target_def cap_deadline_def Let_def
      split: if_splits option.splits)

lemma bound_targets_same: "bound_target g t \<Longrightarrow> bound_target g t' \<Longrightarrow> same_target t t'"
  by (auto simp: bound_target_def split: option.splits intro: same_target_trans)

lemma bound_target_cong: "dg_binding g' = dg_binding g \<Longrightarrow> bound_target g' t = bound_target g t"
  by (simp add: bound_target_def)

lemma gate_op_binding: "gate_op uuid g e = Inr g' \<Longrightarrow> dg_binding g' = dg_binding g"
  by (cases e)
    (auto simp: gate_begin_def gate_cancel_def Let_def result_simps split: option.splits if_splits)

lemma gate_begin_Some:
  assumes "gate_inv g" "gate_begin uuid now (Some t) g = Inr g'"
  shows "dg_cancelled g = None \<and> bound_target g t \<and> \<not> dg_accepting g' \<and> dg_cancelled g' = None \<and>
    (\<exists>t'. dg_owner g' = Some t' \<and> bound_target g t' \<and> now < dt_deadline t')"
proof -
  obtain t' where v: "validate_target uuid now g t = Inr t'"
    and c: "\<not> (case dg_cancelled g of None \<Rightarrow> False | Some c \<Rightarrow> same_target c t')"
    and g': "g' = g\<lparr>dg_owner := Some t', dg_accepting := False\<rparr>"
    using assms(2) by (auto simp: gate_begin_def result_simps split: if_splits)
  note t' = validate_Inr [OF v]
  have "dg_cancelled g = None"
    using c assms(1) t' by (cases "dg_cancelled g") (auto simp: gate_inv_def intro: bound_targets_same)
  then show ?thesis using t' g' by auto
qed

lemma gate_begin_None:
  assumes "gate_inv g"
  shows "\<exists>g'. gate_begin uuid now None g = Inr g' \<and> dg_owner g' = None \<and> \<not> dg_accepting g' \<and>
    dg_binding g' = dg_binding g \<and> (dg_cancelled g' = None \<longleftrightarrow> dg_binding g = None) \<and>
    (\<forall>t. dg_cancelled g' = Some t \<longrightarrow> bound_target g t)"
  using assms
  by (auto simp: gate_begin_def coalesce_def gate_inv_def bound_target_def Let_def split: option.splits)

lemma gate_cancel_Some:
  assumes "gate_cancel uuid now (Some t) g = Inr g'"
  shows "dg_owner g' = None \<and> dg_accepting g' \<and> (dg_owner g \<noteq> None \<or> dg_accepting g) \<and>
    (\<exists>t'. dg_cancelled g' = Some t' \<and> bound_target g t')"
  using assms by (auto simp: gate_cancel_def not_owned_def result_simps split: if_splits option.splits
      dest: validate_Inr)

lemma gate_op_inv:
  assumes "gate_inv g" "gate_op uuid g e = Inr g'"
  shows "gate_inv g'"
proof -
  note b = bound_target_cong [OF gate_op_binding [OF assms(2)]]
  show ?thesis
  proof (cases e)
    case (GateBegin now t)
    show ?thesis
    proof (cases t)
      case None
      then have "gate_begin uuid now None g = Inr g'" using assms(2) GateBegin by simp
      with gate_begin_None [OF assms(1), of uuid now]
      have "dg_owner g' = None \<and> (\<forall>t. dg_cancelled g' = Some t \<longrightarrow> bound_target g t)" by fastforce
      then show ?thesis by (simp add: gate_inv_def b)
    next
      case (Some t')
      then have "gate_begin uuid now (Some t') g = Inr g'" using assms(2) GateBegin by simp
      from gate_begin_Some [OF assms(1) this] show ?thesis by (auto simp: gate_inv_def b)
    qed
  next
    case (GateCancel now t)
    show ?thesis
    proof (cases t)
      case None
      then show ?thesis using assms GateCancel b
        by (auto simp: gate_cancel_def gate_inv_def split: if_splits)
    next
      case (Some t')
      then have "gate_cancel uuid now (Some t') g = Inr g'" using assms(2) GateCancel by simp
      from gate_cancel_Some [OF this] show ?thesis by (auto simp: gate_inv_def b)
    qed
  qed
qed

lemma gate_step_inv: "gate_inv g \<Longrightarrow> gate_inv (gate_step uuid g e)"
  by (auto simp: gate_step_def split: sum.splits intro: gate_op_inv)

lemma gate_step_binding: "dg_binding (gate_step uuid g e) = dg_binding g"
  by (auto simp: gate_step_def split: sum.splits dest: gate_op_binding)

lemma new_gate_inv: "gate_inv (new_gate accepting b)"
  by (simp add: gate_inv_def new_gate_def)

lemma gate_step_retired:
  assumes "gate_inv g" "dg_cancelled g \<noteq> None"
  shows "dg_cancelled (gate_step uuid g e) \<noteq> None" "dg_owner (gate_step uuid g e) = None"
proof -
  have o: "dg_owner g = None" using assms by (auto simp: gate_inv_def)
  have "dg_cancelled (gate_step uuid g e) \<noteq> None \<and> dg_owner (gate_step uuid g e) = None"
  proof (cases "gate_op uuid g e")
    case (Inl x)
    then show ?thesis using assms o by (simp add: gate_step_def)
  next
    case (Inr g')
    have "dg_cancelled g' \<noteq> None \<and> dg_owner g' = None"
    proof (cases e)
      case (GateBegin now t)
      then show ?thesis using Inr assms o gate_begin_Some [OF assms(1), of uuid now _ g']
        by (cases t) (auto simp: gate_begin_def coalesce_def)
    next
      case (GateCancel now t)
      then show ?thesis using Inr assms o gate_cancel_Some [of uuid now _ g g']
        by (cases t) (auto simp: gate_cancel_def)
    qed
    then show ?thesis using Inr by (simp add: gate_step_def)
  qed
  then show "dg_cancelled (gate_step uuid g e) \<noteq> None" "dg_owner (gate_step uuid g e) = None"
    by simp_all
qed

text \<open>
  Two views absorb: once a target is retired no targeted drain can own the gate again, and a gate
  an ordinary drain closed stays closed as long as no ordinary cancellation arrives.
\<close>

fun not_ordinary_cancel :: "drain_event \<Rightarrow> bool" where
  "not_ordinary_cancel (GateCancel _ None) = False"
| "not_ordinary_cancel _ = True"

definition ordinarily_closed :: "drain_gate \<Rightarrow> bool" where
  "ordinarily_closed g \<longleftrightarrow>
     dg_owner g = None \<and> \<not> dg_accepting g \<and> (dg_cancelled g = None \<longrightarrow> dg_binding g = None)"

lemma gate_begin_retired:
  assumes "gate_inv g" "dg_cancelled g \<noteq> None \<or> dg_binding g = None"
  shows "\<exists>err. gate_begin uuid now (Some t) g = Inl err"
proof (cases "gate_begin uuid now (Some t) g")
  case (Inr g')
  with gate_begin_Some [OF assms(1) this] assms(2) show ?thesis by (auto simp: bound_target_def)
qed auto

lemma gate_cancel_closed:
  assumes "dg_owner g = None" "\<not> dg_accepting g"
  shows "\<exists>err. gate_cancel uuid now (Some t) g = Inl err"
proof (cases "gate_cancel uuid now (Some t) g")
  case (Inr g')
  with gate_cancel_Some [OF this] assms show ?thesis by auto
qed auto

lemma ordinarily_closed_step:
  assumes "gate_inv g" "ordinarily_closed g" "not_ordinary_cancel e"
  shows "ordinarily_closed (gate_step uuid g e)"
proof (cases e)
  case (GateBegin now t)
  show ?thesis
  proof (cases t)
    case None
    then show ?thesis
      using assms(2) GateBegin
      by (auto simp: gate_step_def gate_begin_def ordinarily_closed_def coalesce_def Let_def
          split: option.splits)
  next
    case (Some t')
    then show ?thesis using gate_begin_retired [OF assms(1), of uuid now t'] assms(2) GateBegin
      by (auto simp: gate_step_def ordinarily_closed_def)
  qed
next
  case (GateCancel now t)
  then obtain t' where "t = Some t'" using assms(3) by (cases t) auto
  then show ?thesis using gate_cancel_closed [of g uuid now t'] assms(2) GateCancel
    by (auto simp: gate_step_def ordinarily_closed_def)
qed

interpretation dg: absorbing_system "gate_step uuid" "\<lambda>e. True" gate_inv
    "\<lambda>g. dg_cancelled g \<noteq> None" dg_owner
proof unfold_locales
  fix g e
  assume "gate_inv g" "dg_cancelled g \<noteq> None"
  then show "dg_owner (gate_step uuid g e) = dg_owner g"
    using gate_step_retired [of g uuid e] by (auto simp: gate_inv_def)
qed (auto simp: gate_step_inv gate_step_retired simp del: not_None_eq)

interpretation dgc: absorbing_system "gate_step uuid" not_ordinary_cancel gate_inv
    ordinarily_closed dg_accepting
proof unfold_locales
  fix g e
  assume "gate_inv g" "ordinarily_closed g" "not_ordinary_cancel e"
  then show "dg_accepting (gate_step uuid g e) = dg_accepting g"
    using ordinarily_closed_step [of g e uuid] by (auto simp: ordinarily_closed_def)
qed (auto simp: gate_step_inv ordinarily_closed_step)

section \<open>Properties\<close>

lemma gate_run_inv: "gate_inv g \<Longrightarrow> gate_inv (run (gate_step uuid) g es)"
  by (rule dg.run_inv) (auto simp: list_all_iff)

definition retires :: "drain_event \<Rightarrow> bool" where
  "retires e = (case e of GateBegin _ t \<Rightarrow> t = None | GateCancel _ t \<Rightarrow> t \<noteq> None)"

text \<open>C36. A retired startup cannot revive its drain. Once an ordinary drain superseded the gate, or
  the target was cancelled (even before its begin arrived), no later sequence of requests lets a
  targeted begin succeed.\<close>
theorem retired_drain_stays_retired:
  assumes "gate_op uuid (run (gate_step uuid) (new_gate a b) es) e = Inr g" "retires e"
  shows "\<exists>err. gate_begin uuid now (Some t) (run (gate_step uuid) g es') = Inl err"
proof -
  let ?g0 = "run (gate_step uuid) (new_gate a b) es"
  have i0: "gate_inv ?g0" by (rule gate_run_inv [OF new_gate_inv])
  have i: "gate_inv g" by (rule gate_op_inv [OF i0 assms(1)])
  have bind: "dg_binding (run (gate_step uuid) g es) = dg_binding g" for es g
    by (induction es arbitrary: g) (simp_all add: gate_step_binding)
  have c: "dg_cancelled g \<noteq> None \<or> dg_binding g = None"
  proof (cases e)
    case (GateBegin now' t')
    then have "gate_begin uuid now' None ?g0 = Inr g" using assms by (simp add: retires_def)
    with gate_begin_None [OF i0, of uuid now'] show ?thesis by auto
  next
    case (GateCancel now' t')
    then obtain t'' where "gate_cancel uuid now' (Some t'') ?g0 = Inr g"
      using assms by (auto simp: retires_def)
    from gate_cancel_Some [OF this] show ?thesis by auto
  qed
  have "dg_cancelled (run (gate_step uuid) g es') \<noteq> None \<or> dg_binding (run (gate_step uuid) g es') = None"
    using c dg.run_closed [OF i, of es' uuid] by (auto simp: bind list_all_iff)
  then show ?thesis by (rule gate_begin_retired [OF gate_run_inv [OF i]])
qed

definition example_target :: drain_target where
  "example_target = \<lparr>dt_launcher = 42, dt_token = ''t'', dt_request = ''r'', dt_attempt = 1,
     dt_deadline = 1000\<rparr>"

theorem retired_drain_stays_retired_witness:
  "\<exists>err. gate_begin (\<lambda>s. length s = 1) 10 (Some example_target)
     (run (gate_step (\<lambda>s. length s = 1)) (\<lparr>dg_owner = None, dg_cancelled = Some example_target,
        dg_binding = Some example_target, dg_accepting = True\<rparr>) [GateCancel 7 None]) = Inl err"
  by (rule retired_drain_stays_retired [of _ True "Some example_target" "[]"
        "GateCancel 5 (Some example_target)"])
    (simp_all add: retires_def gate_cancel_def validate_target_def target_schema_def new_gate_def
      example_target_def is_safe_integer_def max_safe_integer_def cap_deadline_def not_owned_def)

text \<open>A gate an ordinary stop closed stays closed until an ordinary cancellation: no targeted
  begin or cancel, however delayed, reopens admission.\<close>
theorem ordinary_drain_holds:
  assumes "gate_op uuid (run (gate_step uuid) (new_gate a b) es) (GateBegin now None) = Inr g"
    and "list_all not_ordinary_cancel es'"
  shows "\<not> dg_accepting (run (gate_step uuid) g es')"
proof -
  let ?g0 = "run (gate_step uuid) (new_gate a b) es"
  have i0: "gate_inv ?g0" by (rule gate_run_inv [OF new_gate_inv])
  have "ordinarily_closed g"
    using gate_begin_None [OF i0, of uuid now] assms(1) by (auto simp: ordinarily_closed_def)
  then show ?thesis
    using dgc.run_closed [OF gate_op_inv [OF i0 assms(1)] _ assms(2)]
    by (simp add: ordinarily_closed_def)
qed

theorem ordinary_drain_holds_witness:
  "\<not> dg_accepting (run (gate_step (\<lambda>s. length s = 1))
      \<lparr>dg_owner = None, dg_cancelled = Some example_target, dg_binding = Some example_target,
        dg_accepting = False\<rparr> [GateCancel 20 (Some example_target), GateBegin 30 (Some example_target)])"
  by (rule ordinary_drain_holds [of _ True "Some example_target" "[GateBegin 5 (Some example_target)]" 10])
    (simp_all add: gate_step_def gate_begin_def validate_target_def target_schema_def new_gate_def
      example_target_def is_safe_integer_def max_safe_integer_def cap_deadline_def not_owned_def
      coalesce_def same_target_def)

text \<open>While a startup owns the gate, admission is closed, the owner is the bound target within the
  bound deadline, an ordinary cancellation is refused, and only a request for that same target,
  before its deadline, releases it.\<close>
theorem drain_owner_exclusive:
  assumes "dg_owner (run (gate_step uuid) (new_gate a (Some b)) es) = Some t"
  defines "g \<equiv> run (gate_step uuid) (new_gate a (Some b)) es"
  shows "\<not> dg_accepting g \<and> same_target b t \<and> dt_deadline t \<le> dt_deadline b \<and>
    gate_cancel uuid now None g = Inl DrainNotOwned \<and>
    (gate_cancel uuid now (Some t') g = Inr g' \<longrightarrow> same_target t t' \<and> now < dt_deadline t) \<and>
    (gate_begin uuid now (Some t') g = Inr g' \<longrightarrow>
       (\<exists>t''. dg_owner g' = Some t'' \<and> same_target t t'' \<and> dt_deadline t'' \<le> dt_deadline t))"
proof -
  have i: "gate_inv g" unfolding g_def by (rule gate_run_inv [OF new_gate_inv])
  have "dg_binding (run (gate_step uuid) g0 es) = dg_binding g0" for g0 es
    by (induction es arbitrary: g0) (simp_all add: gate_step_binding)
  then have b: "dg_binding g = Some b" by (simp add: g_def new_gate_def)
  have o: "dg_owner g = Some t" using assms by simp
  have cap: "dt_deadline v \<le> dt_deadline t \<and> now < dt_deadline t \<and> same_target t t' \<and> same_target t v"
    if "validate_target uuid now g t' = Inr v" for v
    using validate_Inr [OF that] that i o
    by (auto simp: cap_deadline_def gate_inv_def intro: bound_targets_same split: option.splits)
  show ?thesis
    using i o b by (auto simp: gate_inv_def bound_target_def gate_cancel_def gate_begin_def result_simps
        dest!: cap split: if_splits)
qed

theorem drain_owner_exclusive_witness:
  "dg_owner (run (gate_step (\<lambda>s. length s = 1)) (new_gate True (Some example_target))
      [GateBegin 5 (Some example_target)]) = Some example_target \<and>
   \<not> dg_accepting (run (gate_step (\<lambda>s. length s = 1)) (new_gate True (Some example_target))
      [GateBegin 5 (Some example_target)])"
proof -
  have o: "dg_owner (run (gate_step (\<lambda>s. length s = 1)) (new_gate True (Some example_target))
      [GateBegin 5 (Some example_target)]) = Some example_target"
    by (simp add: gate_step_def gate_begin_def validate_target_def target_schema_def new_gate_def
      example_target_def is_safe_integer_def max_safe_integer_def cap_deadline_def not_owned_def
      coalesce_def same_target_def)
  show ?thesis using drain_owner_exclusive [OF o] o by blast
qed

end
