(* ===== verification/Js_Value.thy ===== *)
theory Js_Value
  imports Prelude
begin

text \<open>
  What the sources use of JavaScript values and strings. \<open>js\<close> is a value as \<open>JSON.parse\<close> or a
  request decoder delivers it (\<open>JFrac\<close> is a number that is not an integer); a JavaScript string
  is a \<open>string\<close>, a list of code units (those below 256). \<open>js_trim\<close>, \<open>split_on\<close>, \<open>join_with\<close>
  and \<open>json_string\<close> are \<open>trim\<close>, \<open>split\<close>, \<open>join\<close> and \<open>JSON.stringify\<close> on such strings, and
  \<open>posix_relative\<close> is \<open>path.relative\<close> of absolute POSIX paths.
\<close>

section \<open>Values\<close>

datatype js =
    JUndef
  | JNull
  | JBool bool
  | JInt int
  | JFrac string
  | JStr string
  | JArr "js list"
  | JObj "(string \<times> js) list"

fun jget :: "js \<Rightarrow> string \<Rightarrow> js" where
  "jget (JObj fs) k = (case map_of fs k of Some v \<Rightarrow> v | None \<Rightarrow> JUndef)"
| "jget _ _ = JUndef"

fun is_record :: "js \<Rightarrow> bool" where
  "is_record (JObj _) = True"
| "is_record _ = False"

fun is_string :: "js \<Rightarrow> bool" where
  "is_string (JStr _) = True"
| "is_string _ = False"

fun is_boolean :: "js \<Rightarrow> bool" where
  "is_boolean (JBool _) = True"
| "is_boolean _ = False"

fun is_array :: "js \<Rightarrow> bool" where
  "is_array (JArr _) = True"
| "is_array _ = False"

fun string_of :: "js \<Rightarrow> string" where
  "string_of (JStr s) = s"
| "string_of _ = ''''"

fun elements :: "js \<Rightarrow> js list" where
  "elements (JArr xs) = xs"
| "elements _ = []"

fun object_keys :: "js \<Rightarrow> string list" where
  "object_keys (JObj fs) = keys fs"
| "object_keys _ = []"

text \<open>The empty string and NaN are the falsy string and non-integer number.\<close>

fun truthy :: "js \<Rightarrow> bool" where
  "truthy JUndef = False"
| "truthy JNull = False"
| "truthy (JBool b) = b"
| "truthy (JInt n) = (n \<noteq> 0)"
| "truthy (JFrac t) = (t \<noteq> ''NaN'')"
| "truthy (JStr s) = (s \<noteq> '''')"
| "truthy (JArr _) = True"
| "truthy (JObj _) = True"

text \<open>\<open>...(v !== undefined ? {k: v} : {})\<close> in an object literal.\<close>

definition field_if :: "string \<Rightarrow> 'a option \<Rightarrow> ('a \<Rightarrow> js) \<Rightarrow> (string \<times> js) list" where
  "field_if k v enc = (case v of None \<Rightarrow> [] | Some x \<Rightarrow> [(k, enc x)])"

lemma is_string_iff: "is_string v \<longleftrightarrow> (\<exists>s. v = JStr s)"
  by (cases v) auto

lemma is_boolean_iff: "is_boolean v \<longleftrightarrow> (\<exists>b. v = JBool b)"
  by (cases v) auto

lemma is_record_iff: "is_record v \<longleftrightarrow> (\<exists>fs. v = JObj fs)"
  by (cases v) auto

lemma is_array_iff: "is_array v \<longleftrightarrow> (\<exists>xs. v = JArr xs)"
  by (cases v) auto

section \<open>Strings\<close>

definition js_space :: "char \<Rightarrow> bool" where
  "js_space c \<longleftrightarrow> (let n = (of_char c :: nat) in 9 \<le> n \<and> n \<le> 13 \<or> n = 32 \<or> n = 160)"

definition js_trim :: "string \<Rightarrow> string" where
  "js_trim s = rev (dropWhile js_space (rev (dropWhile js_space s)))"

fun split_on :: "char \<Rightarrow> string \<Rightarrow> string list" where
  "split_on d [] = [[]]"
| "split_on d (c # s) =
     (if c = d then [] # split_on d s
      else case split_on d s of [] \<Rightarrow> [[c]] | w # ws \<Rightarrow> (c # w) # ws)"

fun join_with :: "string \<Rightarrow> string list \<Rightarrow> string" where
  "join_with d [] = []"
| "join_with d [w] = w"
| "join_with d (w # ws) = w @ d @ join_with d ws"

definition starts_with :: "string \<Rightarrow> string \<Rightarrow> bool" where
  "starts_with p s \<longleftrightarrow> take (length p) s = p"

text \<open>\<open>Array.from(new Set(xs))\<close>: first occurrences, in order.\<close>

definition js_unique :: "'a list \<Rightarrow> 'a list" where
  "js_unique xs = rev (remdups (rev xs))"

lemma set_js_unique [simp]: "set (js_unique xs) = set xs"
  by (simp add: js_unique_def)

lemma distinct_js_unique [simp]: "distinct (js_unique xs)"
  by (simp add: js_unique_def)

lemma js_trim_Nil [simp]: "js_trim [] = []"
  by (simp add: js_trim_def)

lemma split_on_nonempty [simp]: "split_on d s \<noteq> []"
  by (induction s) (auto split: list.splits)

lemma split_on_sep: "w \<in> set (split_on d s) \<Longrightarrow> d \<notin> set w"
  by (induction s arbitrary: w) (auto split: list.splits if_splits)

lemma join_split [simp]: "join_with [d] (split_on d s) = s"
proof (induction s)
  case (Cons c s)
  then show ?case by (cases "split_on d s"; cases "tl (split_on d s)") auto
qed simp

section \<open>JSON text of strings\<close>

definition hex_digit :: "nat \<Rightarrow> char" where
  "hex_digit n = (if n < 10 then char_of (48 + n) else char_of (87 + n))"

definition json_char :: "char \<Rightarrow> string" where
  "json_char c =
     (if c = CHR 0x22 then [CHR 0x5C, c]
      else if c = CHR 0x5C then [CHR 0x5C, c]
      else if c = CHR 0x08 then [CHR 0x5C, CHR ''b'']
      else if c = CHR 0x0C then [CHR 0x5C, CHR ''f'']
      else if c = CHR 0x0A then [CHR 0x5C, CHR ''n'']
      else if c = CHR 0x0D then [CHR 0x5C, CHR ''r'']
      else if c = CHR 0x09 then [CHR 0x5C, CHR ''t'']
      else let n = (of_char c :: nat) in
        if n < 32 then [CHR 0x5C, CHR ''u'', CHR ''0'', CHR ''0'', hex_digit (n div 16), hex_digit (n mod 16)]
        else [c])"

definition json_string :: "string \<Rightarrow> string" where
  "json_string s = [CHR 0x22] @ concat (map json_char s) @ [CHR 0x22]"

definition json_array :: "string list \<Rightarrow> string" where
  "json_array ws = ''['' @ join_with '','' ws @ '']''"

text \<open>The text of an array of strings determines the array: a scanner reads it back.\<close>

definition hex_value :: "char \<Rightarrow> nat" where
  "hex_value c = (let n = of_char c in if n < 58 then n - 48 else n - 87)"

fun scan_char :: "string \<Rightarrow> (char \<times> string) option" where
  "scan_char (c # s) =
     (if c = CHR 0x5C
      then (case s of
          e # s' \<Rightarrow>
            (if e = CHR ''b'' then Some (CHR 0x08, s')
             else if e = CHR ''f'' then Some (CHR 0x0C, s')
             else if e = CHR ''n'' then Some (CHR 0x0A, s')
             else if e = CHR ''r'' then Some (CHR 0x0D, s')
             else if e = CHR ''t'' then Some (CHR 0x09, s')
             else if e = CHR ''u''
             then (case s' of _ # _ # a # b # r \<Rightarrow> Some (char_of (16 * hex_value a + hex_value b), r)
                   | _ \<Rightarrow> None)
             else Some (e, s'))
        | [] \<Rightarrow> None)
      else if c = CHR 0x22 then None
      else Some (c, s))"
| "scan_char [] = None"

lemma hex_value_digit: "n < 16 \<Longrightarrow> hex_value (hex_digit n) = n"
  by (auto simp: hex_value_def hex_digit_def Let_def)

lemma scan_json_char: "scan_char (json_char c @ s) = Some (c, s)"
proof (cases "c \<in> {CHR 0x22, CHR 0x5C, CHR 0x08, CHR 0x0C, CHR 0x0A, CHR 0x0D, CHR 0x09}")
  case True
  then show ?thesis by (auto simp: json_char_def)
next
  case False
  define n where "n = (of_char c :: nat)"
  have "n < 256" "c = char_of n" by (simp_all add: n_def)
  then have d: "n div 16 < 16" "n mod 16 < 16" "char_of (16 * (n div 16) + n mod 16) = c" by auto
  from False show ?thesis
    using d by (auto simp: json_char_def n_def [symmetric] Let_def hex_value_digit)
qed

lemma json_char_nonempty [simp]: "json_char c \<noteq> []"
  by (simp add: json_char_def Let_def)

lemma json_chars_inj:
  "concat (map json_char s) @ CHR 0x22 # r = concat (map json_char t) @ CHR 0x22 # r' \<Longrightarrow>
   s = t \<and> r = r'"
proof (induction s arbitrary: t)
  case Nil
  show ?case
  proof (cases t)
    case (Cons d t')
    then have "scan_char (CHR 0x22 # r) = scan_char (json_char d @ concat (map json_char t') @ CHR 0x22 # r')"
      using Nil by simp
    then show ?thesis unfolding scan_json_char by simp
  qed (use Nil in simp)
next
  case (Cons c s)
  show ?case
  proof (cases t)
    case Nil
    then have "scan_char (json_char c @ concat (map json_char s) @ CHR 0x22 # r) = scan_char (CHR 0x22 # r')"
      using Cons.prems by simp
    then show ?thesis unfolding scan_json_char by simp
  next
    case t: (Cons d t')
    then have "scan_char (json_char c @ concat (map json_char s) @ CHR 0x22 # r) =
        scan_char (json_char d @ concat (map json_char t') @ CHR 0x22 # r')"
      using Cons.prems by simp
    then show ?thesis unfolding scan_json_char using Cons.IH [of t'] t by simp
  qed
qed

lemma json_string_inj: "json_string s @ r = json_string t @ r' \<longleftrightarrow> s = t \<and> r = r'"
  using json_chars_inj [of s r t r'] by (auto simp: json_string_def)

definition json_pair :: "string \<Rightarrow> string \<Rightarrow> string" where
  "json_pair a b = json_array [json_string a, json_string b]"

lemma json_pair_inj [simp]: "json_pair a b = json_pair c d \<longleftrightarrow> a = c \<and> b = d"
proof
  assume "json_pair a b = json_pair c d"
  then have "json_string a @ '','' @ json_string b @ '']'' = json_string c @ '','' @ json_string d @ '']''"
    by (simp add: json_pair_def json_array_def)
  then show "a = c \<and> b = d"
    by (metis append_Cons append_Nil json_string_inj list.inject)
qed simp

end
