(* ===== verification/Execution_Access.thy ===== *)
theory Execution_Access
  imports Js_Value
begin

text \<open>
  Who may write where: the operator limits of \<open>src/src/config.ts\<close> (\<open>enforceSandbox\<close>, the folder
  containment test, the start-up checks), the owner policy of \<open>src/src/executionPolicy.ts\<close> and
  the access contract with the App Server in \<open>src/src/executionAccess.ts\<close>. A request or response
  object is a \<open>js\<close> value; \<open>canon\<close> is \<open>canonicalPath\<close> of the file system at hand. Paths are
  POSIX paths.
\<close>

section \<open>Operator limits\<close>

datatype sandbox = ReadOnly | WorkspaceWrite | DangerFullAccess
datatype approval_policy = Untrusted | OnRequest | Never
datatype reviewer = ReviewUser | AutoReview
datatype access_strategy = StrategyReadOnly | Adaptive | AlwaysFull
datatype app_mode = AppAuto | AppApprove
datatype state_profile = Stable | Candidate | Development

datatype access_error =
    WriteDisabled | FullAccessDisabled | SandboxContextConflict
  | InvalidSetting string
  | CwdNotAbsolute | CwdUnreadable | CwdNotFolder | CwdOutside | ProjectFolderRequired
  | AuthRequired | NoAuthRemote | EventsTokenTooShort | DefaultWriteDisabled | DefaultFullDisabled
  | StrategyFullDisabled | TooManyJobs | PoolTooLarge | RetentionTooSmall
  | AccessRequired | AccessMismatch "string list"

fun sandbox_rank :: "sandbox \<Rightarrow> nat" where
  "sandbox_rank ReadOnly = 0"
| "sandbox_rank WorkspaceWrite = 1"
| "sandbox_rank DangerFullAccess = 2"

text \<open>The modes are ordered by what they permit.\<close>

instantiation sandbox :: linorder
begin

definition less_eq_sandbox :: "sandbox \<Rightarrow> sandbox \<Rightarrow> bool" where
  "less_eq_sandbox a b \<longleftrightarrow> sandbox_rank a \<le> sandbox_rank b"

definition less_sandbox :: "sandbox \<Rightarrow> sandbox \<Rightarrow> bool" where
  "less_sandbox a b \<longleftrightarrow> sandbox_rank a < sandbox_rank b"

instance
proof
  fix x y :: sandbox
  show "x \<le> y \<Longrightarrow> y \<le> x \<Longrightarrow> x = y"
    by (cases x; cases y) (auto simp: less_eq_sandbox_def)
qed (auto simp: less_eq_sandbox_def less_sandbox_def)

end

fun sandbox_name :: "sandbox \<Rightarrow> string" where
  "sandbox_name ReadOnly = ''read-only''"
| "sandbox_name WorkspaceWrite = ''workspace-write''"
| "sandbox_name DangerFullAccess = ''danger-full-access''"

fun approval_name :: "approval_policy \<Rightarrow> string" where
  "approval_name Untrusted = ''untrusted''"
| "approval_name OnRequest = ''on-request''"
| "approval_name Never = ''never''"

fun reviewer_name :: "reviewer \<Rightarrow> string" where
  "reviewer_name ReviewUser = ''user''"
| "reviewer_name AutoReview = ''auto_review''"

fun app_mode_name :: "app_mode \<Rightarrow> string" where
  "app_mode_name AppAuto = ''auto''"
| "app_mode_name AppApprove = ''approve''"

definition parse_bool :: "string option \<Rightarrow> bool" where
  "parse_bool raw \<longleftrightarrow> raw = Some ''1'' \<or> raw = Some ''true'' \<or> raw = Some ''yes''"

definition parse_sandbox :: "string \<Rightarrow> (access_error, sandbox) result" where
  "parse_sandbox raw =
     (if raw = ''read-only'' then Inr ReadOnly
      else if raw = ''workspace-write'' then Inr WorkspaceWrite
      else if raw = ''danger-full-access'' then Inr DangerFullAccess
      else Inl (InvalidSetting raw))"

definition parse_approval_policy :: "string \<Rightarrow> (access_error, approval_policy) result" where
  "parse_approval_policy raw =
     (if raw = ''untrusted'' then Inr Untrusted
      else if raw = ''on-request'' then Inr OnRequest
      else if raw = ''never'' then Inr Never
      else Inl (InvalidSetting raw))"

definition parse_approvals_reviewer :: "string \<Rightarrow> (access_error, reviewer) result" where
  "parse_approvals_reviewer raw =
     (if raw = ''user'' then Inr ReviewUser
      else if raw = ''auto_review'' then Inr AutoReview
      else Inl (InvalidSetting raw))"

definition parse_access_strategy :: "string \<Rightarrow> (access_error, access_strategy) result" where
  "parse_access_strategy raw =
     (if raw = ''read-only'' then Inr StrategyReadOnly
      else if raw = ''adaptive'' then Inr Adaptive
      else if raw = ''always-full'' then Inr AlwaysFull
      else Inl (InvalidSetting raw))"

definition parse_backend_kind :: "string \<Rightarrow> (access_error, string) result" where
  "parse_backend_kind raw =
     (if raw = ''mcp-server'' \<or> raw = ''app-server'' \<or> raw = ''codex-sdk'' then Inr ''app-server''
      else Inl (InvalidSetting raw))"

definition parse_state_profile :: "string \<Rightarrow> (access_error, state_profile) result" where
  "parse_state_profile raw =
     (if raw = ''stable'' then Inr Stable
      else if raw = ''candidate'' then Inr Candidate
      else if raw = ''development'' then Inr Development
      else Inl (InvalidSetting raw))"

definition normalize_optional :: "string option \<Rightarrow> string option" where
  "normalize_optional raw =
     (case raw of None \<Rightarrow> None | Some s \<Rightarrow> if js_trim s = '''' then None else Some (js_trim s))"

definition parse_allowed_hosts :: "string option \<Rightarrow> string list option" where
  "parse_allowed_hosts raw =
     (case raw of None \<Rightarrow> None
      | Some s \<Rightarrow>
          let hosts = filter (\<lambda>w. w \<noteq> '''') (map js_trim (split_on (CHR '','') s))
          in if hosts = [] then None else Some (js_unique hosts))"

text \<open>\<open>realpath\<close> resolves symbolic links in the file system and throws on a missing path.\<close>

definition is_absolute :: "string \<Rightarrow> bool" where
  "is_absolute p \<longleftrightarrow> starts_with ''/'' p"

definition parse_allowed_roots ::
  "(string \<Rightarrow> string option) \<Rightarrow> string option \<Rightarrow> (access_error, string list) result" where
  "parse_allowed_roots realpath raw =
     (case raw of None \<Rightarrow> Inr []
      | Some s \<Rightarrow>
          if s = '''' then Inr []
          else res_bind
            (res_mapM (\<lambda>part.
               if \<not> is_absolute part then Inl (InvalidSetting part)
               else case realpath part of None \<Rightarrow> Inl CwdUnreadable | Some p \<Rightarrow> Inr p)
              (filter (\<lambda>w. w \<noteq> '''') (map js_trim (split_on (CHR '','') s))))
            (\<lambda>roots. Inr (js_unique roots)))"

record bridge_config =
  cf_host :: string
  cf_token :: "string option"
  cf_no_auth :: bool
  cf_oauth :: bool
  cf_events :: bool
  cf_default_sandbox :: sandbox
  cf_default_strategy :: access_strategy
  cf_allow_write :: bool
  cf_allow_full :: bool
  cf_approval :: approval_policy
  cf_reviewer :: reviewer
  cf_max_jobs :: int
  cf_pool :: int
  cf_max_retained :: int

definition hard_max_concurrent_jobs :: int where
  "hard_max_concurrent_jobs = 100"

definition local_hosts :: "string list" where
  "local_hosts = [''127.0.0.1'', ''localhost'', ''::1'']"

definition utf8_bytes :: "string \<Rightarrow> nat" where
  "utf8_bytes s = sum_list (map (\<lambda>c. if (of_char c :: nat) < 128 then 1 else 2) s)"

text \<open>The checks that \<open>loadConfig\<close> makes on the parsed settings before it returns them.\<close>

definition check_config :: "bridge_config \<Rightarrow> (access_error, bridge_config) result" where
  "check_config c =
     (if cf_token c = None \<and> \<not> cf_no_auth c \<and> \<not> cf_oauth c then Inl AuthRequired
      else if cf_no_auth c \<and> cf_host c \<notin> set local_hosts then Inl NoAuthRemote
      else if cf_oauth c \<and> cf_events c \<and>
        (case cf_token c of None \<Rightarrow> True | Some t \<Rightarrow> utf8_bytes t < 32) then Inl EventsTokenTooShort
      else if cf_default_sandbox c = WorkspaceWrite \<and> \<not> cf_allow_write c then Inl DefaultWriteDisabled
      else if cf_default_sandbox c = DangerFullAccess \<and> \<not> cf_allow_full c then Inl DefaultFullDisabled
      else if cf_default_strategy c = AlwaysFull \<and> \<not> cf_allow_full c then Inl StrategyFullDisabled
      else if hard_max_concurrent_jobs < cf_max_jobs c then Inl TooManyJobs
      else if cf_max_jobs c < cf_pool c then Inl PoolTooLarge
      else if cf_max_retained c < cf_max_jobs c then Inl RetentionTooSmall
      else Inr c)"

definition enforce_sandbox :: "bridge_config \<Rightarrow> sandbox option \<Rightarrow> (access_error, sandbox) result" where
  "enforce_sandbox c requested =
     (let s = (case requested of Some r \<Rightarrow> r | None \<Rightarrow> cf_default_sandbox c) in
      if s = WorkspaceWrite \<and> \<not> cf_allow_write c then Inl WriteDisabled
      else if s = DangerFullAccess \<and> \<not> cf_allow_full c then Inl FullAccessDisabled
      else Inr s)"

section \<open>Folders\<close>

text \<open>\<open>path.resolve\<close> of an absolute path, as its segments, and \<open>path.relative\<close> between two.\<close>

definition path_step :: "string list \<Rightarrow> string \<Rightarrow> string list" where
  "path_step acc w = (if w = '''' \<or> w = ''.'' then acc else if w = ''..'' then butlast acc else acc @ [w])"

definition resolved :: "string \<Rightarrow> string list" where
  "resolved p = foldl path_step [] (split_on (CHR ''/'') p)"

fun drop_common :: "'a list \<Rightarrow> 'a list \<Rightarrow> 'a list \<times> 'a list" where
  "drop_common (x # xs) (y # ys) = (if x = y then drop_common xs ys else (x # xs, y # ys))"
| "drop_common xs ys = (xs, ys)"

definition posix_relative :: "string \<Rightarrow> string \<Rightarrow> string" where
  "posix_relative from_dir to_dir =
     (case drop_common (resolved from_dir) (resolved to_dir) of
        (up, down) \<Rightarrow> join_with ''/'' (map (\<lambda>_. ''..'') up @ down))"

definition is_path_within_root :: "string \<Rightarrow> string \<Rightarrow> bool" where
  "is_path_within_root candidate root =
     (let relative = posix_relative root candidate in
      relative = '''' \<or>
      (\<not> is_absolute relative \<and> relative \<noteq> ''..'' \<and> \<not> starts_with ''../'' relative))"

definition require_allowed_cwd ::
  "(string \<Rightarrow> string option) \<Rightarrow> (string \<Rightarrow> bool) \<Rightarrow> string \<Rightarrow> string list \<Rightarrow> (access_error, string) result" where
  "require_allowed_cwd realpath is_folder input roots =
     (if input = '''' \<or> \<not> is_absolute input then Inl CwdNotAbsolute
      else case realpath input of
        None \<Rightarrow> Inl CwdUnreadable
      | Some cwd \<Rightarrow>
          if \<not> is_folder cwd then Inl CwdNotFolder
          else if roots = [] then Inr cwd
          else if \<not> list_ex (is_path_within_root cwd) roots then Inl CwdOutside
          else Inr cwd)"

definition resolve_allowed_cwd ::
  "(string \<Rightarrow> string option) \<Rightarrow> (string \<Rightarrow> bool) \<Rightarrow> string option \<Rightarrow> string list \<Rightarrow> (access_error, string) result" where
  "resolve_allowed_cwd realpath is_folder input roots =
     (case input of
        Some i \<Rightarrow> if i \<noteq> '''' then require_allowed_cwd realpath is_folder i roots
                  else if length roots = 1 then Inr (hd roots) else Inl ProjectFolderRequired
      | None \<Rightarrow> if length roots = 1 then Inr (hd roots) else Inl ProjectFolderRequired)"

section \<open>The owner policy\<close>

record execution_access =
  ea_cwd :: string
  ea_sandbox :: sandbox
  ea_approval :: approval_policy
  ea_reviewer :: "reviewer option"
  ea_app_mode :: "app_mode option"

definition forced_sandbox :: "bridge_config \<Rightarrow> access_strategy \<Rightarrow> sandbox option" where
  "forced_sandbox c strategy =
     (case strategy of
        StrategyReadOnly \<Rightarrow> Some ReadOnly
      | AlwaysFull \<Rightarrow> Some (if cf_allow_full c then DangerFullAccess else ReadOnly)
      | Adaptive \<Rightarrow> None)"

definition resolve_task_sandbox ::
  "bridge_config \<Rightarrow> access_strategy \<Rightarrow> sandbox option \<Rightarrow> (access_error, sandbox) result" where
  "resolve_task_sandbox c strategy existing =
     (let forced = forced_sandbox c strategy in
      res_bind (case existing of None \<Rightarrow> Inr () | Some e \<Rightarrow> res_bind (enforce_sandbox c (Some e)) (\<lambda>_. Inr ())) (\<lambda>_.
      res_bind (enforce_sandbox c (case forced of Some f \<Rightarrow> Some f | None \<Rightarrow> existing)) (\<lambda>s.
        if (case existing of None \<Rightarrow> False | Some e \<Rightarrow> s \<noteq> e) then Inl SandboxContextConflict
        else Inr s)))"

definition resolve_execution_policy ::
  "bridge_config \<Rightarrow> access_strategy \<Rightarrow> string \<Rightarrow> sandbox option \<Rightarrow> (access_error, execution_access) result" where
  "resolve_execution_policy c strategy cwd existing =
     res_bind (resolve_task_sandbox c strategy existing) (\<lambda>s.
       let full = strategy = AlwaysFull \<and> s = DangerFullAccess in
       Inr \<lparr>ea_cwd = cwd, ea_sandbox = s,
            ea_approval = (if full then Never else cf_approval c),
            ea_reviewer = Some (cf_reviewer c),
            ea_app_mode = Some (if full then AppApprove else AppAuto)\<rparr>)"

section \<open>The access contract with the App Server\<close>

definition sandbox_of_name :: "string \<Rightarrow> sandbox option" where
  "sandbox_of_name s = (if s = ''read-only'' then Some ReadOnly else if s = ''workspace-write'' then Some WorkspaceWrite
     else if s = ''danger-full-access'' then Some DangerFullAccess else None)"

definition approval_of_name :: "string \<Rightarrow> approval_policy option" where
  "approval_of_name s = (if s = ''untrusted'' then Some Untrusted else if s = ''on-request'' then Some OnRequest
     else if s = ''never'' then Some Never else None)"

text \<open>An optional field is absent or one of the known names; \<open>None\<close> is a malformed one.\<close>

definition optional_reviewer :: "js \<Rightarrow> reviewer option option" where
  "optional_reviewer v = (if v = JUndef then Some None else if v = JStr ''user'' then Some (Some ReviewUser)
     else if v = JStr ''auto_review'' then Some (Some AutoReview) else None)"

definition optional_app_mode :: "js \<Rightarrow> app_mode option option" where
  "optional_app_mode v = (if v = JUndef then Some None else if v = JStr ''auto'' then Some (Some AppAuto)
     else if v = JStr ''approve'' then Some (Some AppApprove) else None)"

definition execution_access_request :: "js \<Rightarrow> (access_error, execution_access) result" where
  "execution_access_request args =
     (case (jget args ''cwd'', jget args ''sandbox'', jget args ''approval-policy'') of
        (JStr cwd, JStr sb, JStr ap) \<Rightarrow>
          (case (sandbox_of_name sb, approval_of_name ap, optional_reviewer (jget args ''approvals-reviewer''),
                 optional_app_mode (jget args ''app-tool-approval-mode'')) of
             (Some s, Some a, Some r, Some m) \<Rightarrow>
               if is_absolute cwd
               then Inr \<lparr>ea_cwd = cwd, ea_sandbox = s, ea_approval = a, ea_reviewer = r, ea_app_mode = m\<rparr>
               else Inl AccessRequired
           | _ \<Rightarrow> Inl AccessRequired)
      | _ \<Rightarrow> Inl AccessRequired)"

definition execution_access_arguments :: "execution_access \<Rightarrow> js" where
  "execution_access_arguments a =
     JObj ([(''cwd'', JStr (ea_cwd a)), (''sandbox'', JStr (sandbox_name (ea_sandbox a))),
            (''approval-policy'', JStr (approval_name (ea_approval a)))] @
           field_if ''approvals-reviewer'' (ea_reviewer a) (\<lambda>r. JStr (reviewer_name r)) @
           field_if ''app-tool-approval-mode'' (ea_app_mode a) (\<lambda>m. JStr (app_mode_name m)))"

text \<open>\<open>{...config, k: v}\<close> overwrites the field \<open>k\<close> in place or adds it at the end.\<close>

definition thread_access_params :: "execution_access \<Rightarrow> (string \<times> js) list option \<Rightarrow> js" where
  "thread_access_params a config =
     JObj ([(''cwd'', JStr (ea_cwd a)), (''sandbox'', JStr (sandbox_name (ea_sandbox a))),
            (''approvalPolicy'', JStr (approval_name (ea_approval a)))] @
           field_if ''approvalsReviewer'' (ea_reviewer a) (\<lambda>r. JStr (reviewer_name r)) @
           (if config \<noteq> None \<or> ea_app_mode a \<noteq> None
            then [(''config'',
                   let base = (case config of None \<Rightarrow> [] | Some fs \<Rightarrow> fs) in
                   JObj (case ea_app_mode a of None \<Rightarrow> base
                         | Some m \<Rightarrow> AList.update ''apps._default.default_tools_approval_mode''
                                       (JStr (app_mode_name m)) base))]
            else []))"

fun wire_sandbox :: "sandbox \<Rightarrow> string" where
  "wire_sandbox ReadOnly = ''readOnly''"
| "wire_sandbox WorkspaceWrite = ''workspaceWrite''"
| "wire_sandbox DangerFullAccess = ''dangerFullAccess''"

record verified_access =
  va_cwd :: string
  va_sandbox :: sandbox
  va_approval :: approval_policy
  va_app_mode :: "app_mode option"
  va_policy :: js
  va_reviewer :: string
  va_profile :: "(string \<times> js option) option"

definition sandbox_mismatches :: "js \<Rightarrow> sandbox \<Rightarrow> string list" where
  "sandbox_mismatches sb expected =
     (if \<not> is_record sb \<or> jget sb ''type'' \<noteq> JStr (wire_sandbox expected) then [''sandbox''] else []) @
     (if is_record sb \<and> (expected = ReadOnly \<or> expected = WorkspaceWrite)
      then (if jget sb ''networkAccess'' \<noteq> JUndef \<and> \<not> is_boolean (jget sb ''networkAccess'')
            then [''sandbox.networkAccess''] else []) @
           (if jget sb ''writableRoots'' \<noteq> JUndef \<and>
               (\<not> is_array (jget sb ''writableRoots'') \<or>
                list_ex (\<lambda>r. \<not> is_string r \<or> \<not> is_absolute (string_of r)) (elements (jget sb ''writableRoots'')))
            then [''sandbox.writableRoots''] else []) @
           concat (map (\<lambda>f. if jget sb f \<noteq> JUndef \<and> \<not> is_boolean (jget sb f) then [''sandbox.'' @ f] else [])
             [''excludeSlashTmp'', ''excludeTmpdirEnvVar''])
      else [])"

definition encode_option :: "('a \<Rightarrow> string) \<Rightarrow> 'a option \<Rightarrow> js" where
  "encode_option enc v = (case v of None \<Rightarrow> JUndef | Some x \<Rightarrow> JStr (enc x))"

definition nullish :: "js \<Rightarrow> bool" where
  "nullish v \<longleftrightarrow> v = JNull \<or> v = JUndef"

definition profile_ok :: "js \<Rightarrow> bool" where
  "profile_ok p \<longleftrightarrow> nullish p \<or>
     (is_record p \<and> is_string (jget p ''id'') \<and> string_of (jget p ''id'') \<noteq> '''' \<and>
      (nullish (jget p ''extends'') \<or> is_string (jget p ''extends'')))"

definition access_mismatches ::
  "(string \<Rightarrow> string) \<Rightarrow> js \<Rightarrow> execution_access \<Rightarrow> string \<Rightarrow> string list" where
  "access_mismatches canon response expected mthd =
     (let cwd = jget response ''cwd''; rev = jget response ''approvalsReviewer'' in
      sandbox_mismatches (jget response ''sandbox'') (ea_sandbox expected) @
      (if jget response ''approvalPolicy'' \<noteq> JStr (approval_name (ea_approval expected))
       then [''approvalPolicy''] else []) @
      (if \<not> is_string cwd \<or> \<not> is_absolute (string_of cwd) \<or> canon (string_of cwd) \<noteq> canon (ea_cwd expected)
       then [''cwd''] else []) @
      (if \<not> is_string rev \<or> string_of rev \<notin> set [''user'', ''auto_review'', ''guardian_subagent'']
       then [''approvalsReviewer''] else []) @
      (if ea_reviewer expected \<noteq> None \<and> rev \<noteq> encode_option reviewer_name (ea_reviewer expected)
       then [''approvalsReviewer''] else []) @
      (if mthd = ''loaded thread'' \<and>
          jget response ''appToolApprovalMode'' \<noteq> encode_option app_mode_name (ea_app_mode expected)
       then [''appToolApprovalMode (start a fresh context to change connector defaults)''] else []) @
      (if \<not> profile_ok (jget response ''activePermissionProfile'') then [''activePermissionProfile''] else []))"

definition verify_execution_access ::
  "(string \<Rightarrow> string) \<Rightarrow> js \<Rightarrow> execution_access \<Rightarrow> string \<Rightarrow> (access_error, verified_access) result" where
  "verify_execution_access canon response expected mthd =
     (let mismatches = access_mismatches canon response expected mthd;
          profile = jget response ''activePermissionProfile'' in
      if mismatches \<noteq> [] then Inl (AccessMismatch mismatches)
      else Inr \<lparr>va_cwd = ea_cwd expected, va_sandbox = ea_sandbox expected, va_approval = ea_approval expected,
                va_app_mode = ea_app_mode expected, va_policy = jget response ''sandbox'',
                va_reviewer = string_of (jget response ''approvalsReviewer''),
                va_profile = (if is_record profile
                  then Some (string_of (jget profile ''id''),
                             if jget profile ''extends'' \<noteq> JUndef then Some (jget profile ''extends'') else None)
                  else None)\<rparr>)"

definition turn_access_params :: "verified_access \<Rightarrow> js" where
  "turn_access_params v =
     JObj ([(''cwd'', JStr (va_cwd v)), (''approvalPolicy'', JStr (approval_name (va_approval v))),
            (''approvalsReviewer'', JStr (va_reviewer v))] @
           (case va_profile v of
              Some (i, _) \<Rightarrow> [(''permissions'', JStr i)]
            | None \<Rightarrow> [(''sandboxPolicy'', va_policy v)]))"

definition js_or :: "js \<Rightarrow> js \<Rightarrow> js" where
  "js_or v d = (if nullish v then d else v)"

definition execution_access_evidence :: "verified_access \<Rightarrow> js" where
  "execution_access_evidence v =
     (let policy = va_policy v in
      JObj ([(''sandbox'', JStr (sandbox_name (va_sandbox v))),
             (''approvalPolicy'', JStr (approval_name (va_approval v))),
             (''approvalsReviewer'', JStr (va_reviewer v))] @
            (case va_app_mode v of None \<Rightarrow> []
             | Some m \<Rightarrow> [(''appToolApprovalMode'', JStr (app_mode_name m)),
                          (''appToolApprovalEvidence'', JStr ''thread-config-override-sent'')]) @
            [(''activePermissionProfile'',
              case va_profile v of None \<Rightarrow> JNull
              | Some (i, ext) \<Rightarrow> JObj ((''id'', JStr i) # (case ext of None \<Rightarrow> [] | Some e \<Rightarrow> [(''extends'', e)]))),
             (''networkAccess'', js_or (jget policy ''networkAccess'') (JBool (va_sandbox v = DangerFullAccess))),
             (''writableRootCount'', JInt (int (length (elements (jget policy ''writableRoots''))))),
             (''excludeSlashTmp'', js_or (jget policy ''excludeSlashTmp'') JNull),
             (''excludeTmpdirEnvVar'', js_or (jget policy ''excludeTmpdirEnvVar'') JNull),
             (''evidence'', JStr ''thread-policy-confirmed-and-turn-policy-sent'')]))"

section \<open>Lemmas\<close>

definition permitted :: "bridge_config \<Rightarrow> sandbox \<Rightarrow> bool" where
  "permitted c s \<longleftrightarrow> (s = WorkspaceWrite \<longrightarrow> cf_allow_write c) \<and> (s = DangerFullAccess \<longrightarrow> cf_allow_full c)"

lemma enforce_sandbox_Inr:
  "enforce_sandbox c r = Inr s \<longleftrightarrow> s = (case r of Some x \<Rightarrow> x | None \<Rightarrow> cf_default_sandbox c) \<and> permitted c s"
  by (auto simp: enforce_sandbox_def permitted_def Let_def)

lemma permitted_forced: "forced_sandbox c st = Some f \<Longrightarrow> permitted c f"
  by (auto simp: forced_sandbox_def permitted_def split: access_strategy.splits if_splits)

lemma check_config_permitted: "check_config c = Inr c' \<Longrightarrow> c' = c \<and> permitted c (cf_default_sandbox c)"
  by (auto simp: check_config_def permitted_def split: if_splits)

lemma resolve_task_sandbox_Inr:
  "resolve_task_sandbox c st ex = Inr s \<longleftrightarrow>
     (case ex of
        None \<Rightarrow> s = (case forced_sandbox c st of Some f \<Rightarrow> f | None \<Rightarrow> cf_default_sandbox c) \<and> permitted c s
      | Some e \<Rightarrow> s = e \<and> permitted c e \<and> forced_sandbox c st \<in> {None, Some e})"
  by (cases ex; cases "forced_sandbox c st")
    (auto simp: resolve_task_sandbox_def Let_def result_simps enforce_sandbox_Inr)

lemma sandbox_of_name_name [simp]: "sandbox_of_name (sandbox_name s) = Some s"
  by (cases s) (simp_all add: sandbox_of_name_def)

lemma approval_of_name_name [simp]: "approval_of_name (approval_name s) = Some s"
  by (cases s) (simp_all add: approval_of_name_def)

lemma optional_reviewer_name: "optional_reviewer (JStr (reviewer_name r)) = Some (Some r)"
  by (cases r) (simp_all add: optional_reviewer_def)

lemma optional_app_mode_name: "optional_app_mode (JStr (app_mode_name m)) = Some (Some m)"
  by (cases m) (simp_all add: optional_app_mode_def)

lemma optional_undefined [simp]: "optional_reviewer JUndef = Some None" "optional_app_mode JUndef = Some None"
  by (simp_all add: optional_reviewer_def optional_app_mode_def)

text \<open>The segments of a resolved path contain no separator and are no dot segments.\<close>

definition clean_segment :: "string \<Rightarrow> bool" where
  "clean_segment w \<longleftrightarrow> w \<noteq> '''' \<and> w \<noteq> ''.'' \<and> w \<noteq> ''..'' \<and> CHR ''/'' \<notin> set w"

lemma path_step_clean:
  "list_all clean_segment acc \<Longrightarrow> CHR ''/'' \<notin> set w \<Longrightarrow> list_all clean_segment (path_step acc w)"
  by (auto simp: path_step_def clean_segment_def list_all_iff dest: in_set_butlastD)

lemma resolved_clean: "list_all clean_segment (resolved p)"
proof -
  have "list_all clean_segment (foldl path_step acc ws)"
    if "list_all clean_segment acc" "\<forall>w \<in> set ws. CHR ''/'' \<notin> set w" for acc ws
    using that by (induction ws arbitrary: acc) (auto intro: path_step_clean)
  then show ?thesis using split_on_sep [of _ "CHR ''/''" p] by (simp add: resolved_def)
qed

lemma drop_common_prefix:
  "drop_common xs ys = (up, down) \<Longrightarrow>
   (\<exists>zs. xs = zs @ up \<and> ys = zs @ down) \<and> (up = [] \<or> take (length xs) ys \<noteq> xs)"
proof (induction xs ys rule: drop_common.induct)
  case (1 x xs y ys)
  then show ?case by (auto split: if_splits)
qed auto

lemma join_with_starts:
  "join_with d (w # ws) = w @ (if ws = [] then '''' else d @ join_with d ws)"
  by (cases ws) auto

lemma dotdot_segment:
  assumes "CHR ''/'' \<notin> set w"
  shows "starts_with ''../'' (w @ ''/'' @ r) \<longleftrightarrow> w = ''..''"
proof
  assume s: "starts_with ''../'' (w @ ''/'' @ r)"
  show "w = ''..''"
  proof (cases w)
    case (Cons a w1)
    show ?thesis using s assms Cons by (cases w1; cases "tl w1") (auto simp: starts_with_def)
  qed (use s in \<open>simp add: starts_with_def\<close>)
qed (simp add: starts_with_def)

lemma dotdot_clean: "CHR ''/'' \<notin> set w \<Longrightarrow> \<not> starts_with ''../'' w"
  by (auto simp: starts_with_def) (metis in_set_takeD list.set_intros)

lemma starts_with_append: "starts_with p (p @ r)"
  by (simp add: starts_with_def)

lemma relative_within:
  assumes "list_all clean_segment down"
  shows "(let rel = join_with ''/'' (map (\<lambda>_. ''..'') up @ down) in
     rel = '''' \<or> (\<not> is_absolute rel \<and> rel \<noteq> ''..'' \<and> \<not> starts_with ''../'' rel)) \<longleftrightarrow> up = []"
proof (cases up)
  case Nil
  show ?thesis
  proof (cases down)
    case (Cons w ws)
    then have w: "w \<noteq> ''''" "w \<noteq> ''..''" "CHR ''/'' \<notin> set w" using assms by (auto simp: clean_segment_def)
    have "\<not> is_absolute (w @ r)" for r
      using w by (cases w) (auto simp: is_absolute_def starts_with_def)
    moreover have "w @ ''/'' @ r \<noteq> ''..''" for r
    proof
      assume "w @ ''/'' @ r = ''..''"
      then have "CHR ''/'' \<in> set ''..''" by (metis in_set_conv_decomp append_Cons append_Nil)
      then show False by simp
    qed
    ultimately
    show ?thesis using Nil Cons w dotdot_segment [OF w(3)] dotdot_clean [OF w(3)]
      by (simp add: join_with_starts)
  qed (use Nil in simp)
next
  case (Cons u us)
  then show ?thesis using starts_with_append [of "''../''"]
    by (cases "map (\<lambda>_. ''..'') us @ down = []") (simp_all add: join_with_starts)
qed

lemma within_root_prefix:
  "is_path_within_root cand root \<longleftrightarrow> take (length (resolved root)) (resolved cand) = resolved root"
proof -
  obtain up down where d: "drop_common (resolved root) (resolved cand) = (up, down)" by force
  note p = drop_common_prefix [OF d]
  from p obtain zs where z: "resolved root = zs @ up" "resolved cand = zs @ down" by auto
  then have "list_all clean_segment down" using resolved_clean [of cand] by simp
  from relative_within [OF this, of up]
  have "is_path_within_root cand root \<longleftrightarrow> up = []"
    by (simp add: is_path_within_root_def posix_relative_def d Let_def)
  then show ?thesis using p z by auto
qed

section \<open>Properties\<close>


definition example_config :: bridge_config where
  "example_config = \<lparr>cf_host = ''127.0.0.1'', cf_token = Some ''t'', cf_no_auth = False, cf_oauth = False,
     cf_events = False, cf_default_sandbox = ReadOnly, cf_default_strategy = Adaptive,
     cf_allow_write = False, cf_allow_full = True, cf_approval = OnRequest, cf_reviewer = ReviewUser,
     cf_max_jobs = 100, cf_pool = 4, cf_max_retained = 100\<rparr>"


text \<open>A configuration that passes the start-up checks never refuses new work for its own
  defaults: a task without a thread always gets a sandbox, for every owner strategy.\<close>
theorem checked_config_serves_fresh_work:
  assumes "check_config c = Inr c'"
  shows "resolve_task_sandbox c' st None =
    Inr (case forced_sandbox c st of Some f \<Rightarrow> f | None \<Rightarrow> cf_default_sandbox c)"
  using check_config_permitted [OF assms] permitted_forced [of c st]
  by (auto simp: resolve_task_sandbox_Inr split: option.splits)

theorem checked_config_serves_fresh_work_witness:
  "resolve_task_sandbox example_config AlwaysFull None = Inr DangerFullAccess"
  using checked_config_serves_fresh_work [of example_config example_config AlwaysFull]
  by (simp add: check_config_def example_config_def hard_max_concurrent_jobs_def local_hosts_def
      forced_sandbox_def)

text \<open>The folder containment test on path strings is the prefix order on resolved paths: no
  \<open>..\<close> segment, no sibling with a longer name and no double separator escapes a root.\<close>
theorem path_within_root_iff:
  "is_path_within_root cand root \<longleftrightarrow> (\<exists>rest. resolved cand = resolved root @ rest)"
  by (metis within_root_prefix append_take_drop_id append_eq_conv_conj)

text \<open>What a turn is started with. When the server's answer verifies, the server reported the
  requested policy, folder and sandbox kind, and the turn repeats the requested folder and
  approval policy with either the named profile or the reported sandbox policy of the same kind.\<close>
theorem verified_access_is_requested:
  assumes "verify_execution_access canon response expected mthd = Inr v"
  shows "va_sandbox v = ea_sandbox expected \<and>
    jget (va_policy v) ''type'' = JStr (wire_sandbox (ea_sandbox expected)) \<and>
    jget response ''approvalPolicy'' = JStr (approval_name (ea_approval expected)) \<and>
    canon (string_of (jget response ''cwd'')) = canon (ea_cwd expected) \<and>
    (\<forall>r. ea_reviewer expected = Some r \<longrightarrow> va_reviewer v = reviewer_name r) \<and>
    jget (turn_access_params v) ''cwd'' = JStr (ea_cwd expected) \<and>
    jget (turn_access_params v) ''approvalPolicy'' = JStr (approval_name (ea_approval expected)) \<and>
    jget (turn_access_params v) ''approvalsReviewer'' = jget response ''approvalsReviewer'' \<and>
    (case va_profile v of
       None \<Rightarrow> jget (turn_access_params v) ''sandboxPolicy'' = jget response ''sandbox''
     | Some (i, _) \<Rightarrow> i \<noteq> '''' \<and> jget (turn_access_params v) ''permissions'' = JStr i)"
proof -
  let ?p = "jget response ''activePermissionProfile''"
  have m: "access_mismatches canon response expected mthd = []"
    and v: "v = \<lparr>va_cwd = ea_cwd expected, va_sandbox = ea_sandbox expected, va_approval = ea_approval expected,
                va_app_mode = ea_app_mode expected, va_policy = jget response ''sandbox'',
                va_reviewer = string_of (jget response ''approvalsReviewer''),
                va_profile = (if is_record ?p
                  then Some (string_of (jget ?p ''id''),
                             if jget ?p ''extends'' \<noteq> JUndef then Some (jget ?p ''extends'') else None)
                  else None)\<rparr>"
    using assms by (auto simp: verify_execution_access_def Let_def split: if_splits)
  have s: "jget (jget response ''sandbox'') ''type'' = JStr (wire_sandbox (ea_sandbox expected))"
    using m by (auto simp: access_mismatches_def sandbox_mismatches_def Let_def split: if_splits)
  have a: "jget response ''approvalPolicy'' = JStr (approval_name (ea_approval expected))"
    "canon (string_of (jget response ''cwd'')) = canon (ea_cwd expected)"
    "is_string (jget response ''approvalsReviewer'')" "profile_ok ?p"
    using m by (auto simp: access_mismatches_def Let_def split: if_splits)
  have r: "\<forall>r. ea_reviewer expected = Some r \<longrightarrow> jget response ''approvalsReviewer'' = JStr (reviewer_name r)"
    using m by (auto simp: access_mismatches_def encode_option_def Let_def split: if_splits)
  have p: "is_record ?p \<longrightarrow> string_of (jget ?p ''id'') \<noteq> ''''"
    using a(4) by (auto simp: profile_ok_def nullish_def)
  show ?thesis using s a r p by (auto simp: v turn_access_params_def is_string_iff)
qed

definition example_access :: execution_access where
  "example_access = \<lparr>ea_cwd = ''/w'', ea_sandbox = WorkspaceWrite, ea_approval = OnRequest,
     ea_reviewer = Some ReviewUser, ea_app_mode = None\<rparr>"

definition example_response :: js where
  "example_response = JObj [(''sandbox'', JObj [(''type'', JStr ''workspaceWrite''), (''networkAccess'', JBool False)]),
     (''approvalPolicy'', JStr ''on-request''), (''cwd'', JStr ''/w''), (''approvalsReviewer'', JStr ''user'')]"

theorem verified_access_is_requested_witness:
  "jget (turn_access_params \<lparr>va_cwd = ''/w'', va_sandbox = WorkspaceWrite, va_approval = OnRequest,
      va_app_mode = None, va_policy = JObj [(''type'', JStr ''workspaceWrite''), (''networkAccess'', JBool False)],
      va_reviewer = ''user'', va_profile = None\<rparr>) ''approvalPolicy'' = JStr ''on-request''"
proof -
  have v: "verify_execution_access (\<lambda>p. p) example_response example_access ''turn'' = Inr
    \<lparr>va_cwd = ''/w'', va_sandbox = WorkspaceWrite, va_approval = OnRequest,
      va_app_mode = None, va_policy = JObj [(''type'', JStr ''workspaceWrite''), (''networkAccess'', JBool False)],
      va_reviewer = ''user'', va_profile = None\<rparr>"
    by (simp add: verify_execution_access_def access_mismatches_def sandbox_mismatches_def example_access_def
        example_response_def profile_ok_def nullish_def encode_option_def is_absolute_def starts_with_def)
  show ?thesis using verified_access_is_requested [OF v] by (simp add: example_access_def)
qed

text \<open>The arguments a request is encoded into decode to the same request, and decoding accepts
  nothing whose folder is relative.\<close>
theorem access_request_roundtrip:
  "execution_access_request (execution_access_arguments a) =
     (if is_absolute (ea_cwd a) then Inr a else Inl AccessRequired)"
  by (cases "ea_reviewer a"; cases "ea_app_mode a")
    (simp_all add: execution_access_request_def execution_access_arguments_def field_if_def
      optional_reviewer_name optional_app_mode_name)

end
