(* ===== verification/Model_Policy.thy ===== *)
theory Model_Policy
  imports Js_Value "HOL-Library.List_Lexorder" "HOL-Library.Char_ord"
begin

text \<open>
  Which model and reasoning effort a task may run with: \<open>src/src/modelPolicy.ts\<close>. A saved policy is
  untrusted input (\<open>js\<close>) until \<open>validate_model_policy\<close> returns it as a \<open>model_policy\<close>; typed
  values are encoded back (\<open>policy_js\<close>, \<open>choice_js\<close>) where the source validates them again. The
  catalog snapshot is a record of the fields read here. Messages of errors are reduced to the kind
  of error, the policy revision and the recovery hint.
\<close>

section \<open>Data\<close>

record model_choice =
  mc_model :: string
  mc_effort :: string

record model_selection = model_choice +
  ms_tier :: "string option"
  ms_turn_scope :: bool

datatype allowed_selections = Explicit "model_choice list" | CatalogVisible

text \<open>The last argument is \<open>constraints.allowDelegation\<close>.\<close>

datatype model_policy = FixedPolicy model_choice bool | AutomaticPolicy allowed_selections bool

record model_descriptor =
  md_id :: string
  md_hidden :: bool
  md_efforts :: "string list"
  md_tiers :: "string list"

record model_catalog =
  ct_fingerprint :: string
  ct_stale :: bool
  ct_models :: "model_descriptor list"

datatype policy_code =
  SelectionRequired | SelectionForbidden | PolicyChanged | ModelUnavailable | OverrideUnsupported

datatype policy_recovery = RecoverCatalog | RecoverOmitSelection | RecoverFreshContext

datatype invalid_reason =
    BadPolicy | BadConstraints | BadSelection | UltraFixed | BadMode | BadAllowed
  | EmptyAllowlist | TooManySelections | DuplicateSelections | RetiredFallback

datatype policy_error =
    InvalidInput invalid_reason
  | PolicyError policy_code int policy_recovery

type_synonym 'a policy_result = "(policy_error, 'a) result"

definition ultra :: string where
  "ultra = ''ultra''"

fun allow_delegation :: "model_policy \<Rightarrow> bool" where
  "allow_delegation (FixedPolicy _ d) = d"
| "allow_delegation (AutomaticPolicy _ d) = d"

definition automatic_model_policy :: model_policy where
  "automatic_model_policy = AutomaticPolicy CatalogVisible True"

definition backend_supports :: "string option \<Rightarrow> bool" where
  "backend_supports kind = (kind = Some ''app-server'')"

section \<open>Reading untrusted values\<close>

definition read_identifier :: "js \<Rightarrow> nat \<Rightarrow> string policy_result" where
  "read_identifier v maximum =
     (case v of
        JStr s \<Rightarrow>
          if js_trim s = '''' \<or> s \<noteq> js_trim s \<or> maximum < length s \<or>
             CHR 0x0D \<in> set s \<or> CHR 0x0A \<in> set s
          then Inl (InvalidInput BadSelection) else Inr s
      | _ \<Rightarrow> Inl (InvalidInput BadSelection))"

definition read_model_choice :: "js \<Rightarrow> model_choice policy_result" where
  "read_model_choice v =
     (if \<not> is_record v then Inl (InvalidInput BadSelection)
      else res_bind (read_identifier (jget v ''model'') 200) (\<lambda>model.
        res_bind (read_identifier (jget v ''reasoningEffort'') 100) (\<lambda>effort.
          if list_ex (\<lambda>k. k \<noteq> ''model'' \<and> k \<noteq> ''reasoningEffort'') (object_keys v)
          then Inl (InvalidInput BadSelection)
          else Inr \<lparr>mc_model = model, mc_effort = effort\<rparr>)))"

definition read_selection :: "js \<Rightarrow> model_selection policy_result" where
  "read_selection v =
     (if \<not> is_record v then Inl (InvalidInput BadSelection)
      else res_bind (read_identifier (jget v ''model'') 200) (\<lambda>model.
        res_bind (read_identifier (jget v ''reasoningEffort'') 100) (\<lambda>effort.
          res_bind (if jget v ''serviceTier'' = JUndef then Inr None
                    else res_bind (read_identifier (jget v ''serviceTier'') 100) (\<lambda>t. Inr (Some t))) (\<lambda>tier.
            if jget v ''serviceTierScope'' \<noteq> JUndef \<and> jget v ''serviceTierScope'' \<noteq> JStr ''turn''
            then Inl (InvalidInput BadSelection)
            else if list_ex (\<lambda>k. k \<notin> set [''model'', ''reasoningEffort'', ''serviceTier'', ''serviceTierScope''])
              (object_keys v)
            then Inl (InvalidInput BadSelection)
            else Inr \<lparr>mc_model = model, mc_effort = effort, ms_tier = tier,
                      ms_turn_scope = (jget v ''serviceTierScope'' = JStr ''turn'')\<rparr>))))"

definition validate_model_selection :: "js \<Rightarrow> model_selection policy_result" where
  "validate_model_selection v = read_selection v"

definition read_constraints :: "js \<Rightarrow> bool policy_result" where
  "read_constraints v =
     (if v = JUndef then Inr True
      else case jget v ''allowDelegation'' of
        JBool d \<Rightarrow> Inr d
      | _ \<Rightarrow> Inl (InvalidInput BadConstraints))"

definition model_choice_key :: "('m) model_choice_scheme \<Rightarrow> string" where
  "model_choice_key c = json_pair (mc_model c) (mc_effort c)"

definition same_model_choice :: "('a) model_choice_scheme option \<Rightarrow> ('b) model_choice_scheme option \<Rightarrow> bool" where
  "same_model_choice a b =
     (case (a, b) of
        (Some x, Some y) \<Rightarrow> model_choice_key x = model_choice_key y
      | (None, None) \<Rightarrow> True
      | _ \<Rightarrow> False)"

definition read_allowed :: "js \<Rightarrow> allowed_selections policy_result" where
  "read_allowed allowed =
     (if jget allowed ''kind'' = JStr ''catalog-visible'' then Inr CatalogVisible
      else if jget allowed ''kind'' = JStr ''explicit'' \<and> is_array (jget allowed ''selections'')
      then res_bind (res_mapM read_model_choice (elements (jget allowed ''selections''))) (\<lambda>selections.
        if selections = [] then Inl (InvalidInput EmptyAllowlist)
        else if 500 < length selections then Inl (InvalidInput TooManySelections)
        else if \<not> distinct (map model_choice_key selections) then Inl (InvalidInput DuplicateSelections)
        else Inr (Explicit selections))
      else Inl (InvalidInput BadAllowed))"

definition validate_model_policy :: "js \<Rightarrow> model_policy policy_result" where
  "validate_model_policy v =
     (if \<not> is_record v then Inl (InvalidInput BadPolicy)
      else res_bind (read_constraints (jget v ''constraints'')) (\<lambda>delegation.
        if jget v ''mode'' = JStr ''fixed''
        then res_bind (read_model_choice (jget v ''selection'')) (\<lambda>selection.
          if \<not> delegation \<and> mc_effort selection = ultra then Inl (InvalidInput UltraFixed)
          else Inr (FixedPolicy selection delegation))
        else if jget v ''mode'' \<noteq> JStr ''automatic'' \<or> \<not> is_record (jget v ''allowedSelections'')
        then Inl (InvalidInput BadMode)
        else res_bind (read_allowed (jget v ''allowedSelections'')) (\<lambda>allowed.
          if jget v ''fallbackSelection'' \<noteq> JUndef \<or> jget v ''preferredSelection'' \<noteq> JUndef
          then Inl (InvalidInput RetiredFallback)
          else Inr (AutomaticPolicy allowed delegation))))"

text \<open>A typed value as the object it is at run time.\<close>

definition choice_js :: "('m) model_choice_scheme \<Rightarrow> js" where
  "choice_js c = JObj [(''model'', JStr (mc_model c)), (''reasoningEffort'', JStr (mc_effort c))]"

fun allowed_js :: "allowed_selections \<Rightarrow> js" where
  "allowed_js (Explicit cs) = JObj [(''kind'', JStr ''explicit''), (''selections'', JArr (map choice_js cs))]"
| "allowed_js CatalogVisible = JObj [(''kind'', JStr ''catalog-visible'')]"

fun policy_js :: "model_policy \<Rightarrow> js" where
  "policy_js (FixedPolicy c d) =
     JObj [(''mode'', JStr ''fixed''), (''selection'', choice_js c),
           (''constraints'', JObj [(''allowDelegation'', JBool d)])]"
| "policy_js (AutomaticPolicy a d) =
     JObj [(''mode'', JStr ''automatic''), (''allowedSelections'', allowed_js a),
           (''constraints'', JObj [(''allowDelegation'', JBool d)])]"

section \<open>What the catalog and the policy admit\<close>

definition falsy_tier :: "string option \<Rightarrow> bool" where
  "falsy_tier t \<longleftrightarrow> t = None \<or> t = Some ''''"

definition catalog_supports :: "model_catalog \<Rightarrow> string \<Rightarrow> string \<Rightarrow> string option \<Rightarrow> bool" where
  "catalog_supports catalog model effort tier =
     (case find (\<lambda>e. md_id e = model) (ct_models catalog) of
        None \<Rightarrow> False
      | Some m \<Rightarrow>
          if md_hidden m then False
          else if effort \<notin> set (md_efforts m) then False
          else falsy_tier tier \<or> the tier \<in> set (md_tiers m))"

definition catalog_supports_choice :: "model_catalog \<Rightarrow> ('m) model_choice_scheme \<Rightarrow> bool" where
  "catalog_supports_choice catalog c = catalog_supports catalog (mc_model c) (mc_effort c) None"

definition catalog_selections :: "model_descriptor list \<Rightarrow> model_choice list" where
  "catalog_selections models =
     concat (map (\<lambda>m. map (\<lambda>e. \<lparr>mc_model = md_id m, mc_effort = e\<rparr>) (md_efforts m)) models)"

text \<open>\<open>seen\<close> is the set of keys; each selection is read again before it is compared.\<close>

fun deduplicate :: "string list \<Rightarrow> model_choice list \<Rightarrow> model_choice list policy_result" where
  "deduplicate seen [] = Inr []"
| "deduplicate seen (c # cs) =
     res_bind (read_model_choice (choice_js c)) (\<lambda>n.
       if model_choice_key n \<in> set seen then deduplicate seen cs
       else res_bind (deduplicate (model_choice_key n # seen) cs) (\<lambda>rest. Inr (n # rest)))"

definition list_allowed_model_selections ::
  "model_policy \<Rightarrow> model_catalog \<Rightarrow> model_choice list option \<Rightarrow> model_choice list policy_result" where
  "list_allowed_model_selections policy catalog operator_ceiling =
     res_bind (validate_model_policy (policy_js policy)) (\<lambda>normalized.
       let candidates = (case normalized of
           FixedPolicy c _ \<Rightarrow> [c]
         | AutomaticPolicy (Explicit cs) _ \<Rightarrow> cs
         | AutomaticPolicy CatalogVisible _ \<Rightarrow> catalog_selections (ct_models catalog)) in
       res_bind (case operator_ceiling of None \<Rightarrow> Inr None
                 | Some cs \<Rightarrow> res_bind (res_mapM (\<lambda>c. read_model_choice (choice_js c)) cs) (\<lambda>x. Inr (Some x)))
         (\<lambda>ceiling. res_bind (deduplicate [] candidates) (\<lambda>unique.
            Inr (filter (\<lambda>c. catalog_supports_choice catalog c \<and>
                   (allow_delegation normalized \<or> mc_effort c \<noteq> ultra) \<and>
                   (case ceiling of None \<Rightarrow> True
                    | Some cs \<Rightarrow> list_ex (\<lambda>e. same_model_choice (Some e) (Some c)) cs)) unique))))"

definition has_disabled_ultra :: "model_policy \<Rightarrow> bool" where
  "has_disabled_ultra policy =
     (case policy of
        AutomaticPolicy (Explicit cs) d \<Rightarrow> \<not> d \<and> list_ex (\<lambda>c. mc_effort c = ultra) cs
      | _ \<Rightarrow> False)"

definition is_model_policy_suspended ::
  "model_policy \<Rightarrow> model_catalog \<Rightarrow> model_choice list option \<Rightarrow> bool policy_result" where
  "is_model_policy_suspended policy catalog ceiling =
     (if \<not> has_disabled_ultra policy then Inr False
      else res_bind (list_allowed_model_selections policy catalog ceiling) (\<lambda>xs. Inr (xs = [])))"

definition unavailable :: "int \<Rightarrow> policy_error" where
  "unavailable rvn = PolicyError ModelUnavailable rvn RecoverCatalog"

definition policy_changed :: "int \<Rightarrow> policy_error" where
  "policy_changed rvn = PolicyError PolicyChanged rvn RecoverCatalog"

definition forbidden :: "int \<Rightarrow> policy_error" where
  "forbidden rvn = PolicyError SelectionForbidden rvn RecoverCatalog"

definition assert_selection_allowed ::
  "('m) model_choice_scheme \<Rightarrow> model_policy \<Rightarrow> model_catalog \<Rightarrow> model_choice list option \<Rightarrow> int \<Rightarrow>
   unit policy_result" where
  "assert_selection_allowed c policy catalog ceiling rvn =
     (if \<not> catalog_supports catalog (mc_model c) (mc_effort c) None then Inl (unavailable rvn)
      else if \<not> allow_delegation policy \<and> mc_effort c = ultra then Inl (policy_changed rvn)
      else if (case ceiling of None \<Rightarrow> False
               | Some cs \<Rightarrow> \<not> list_ex (\<lambda>e. same_model_choice (Some e) (Some c)) cs)
        then Inl (policy_changed rvn)
      else case policy of
        FixedPolicy f _ \<Rightarrow>
          if \<not> same_model_choice (Some f) (Some c) then Inl (forbidden rvn) else Inr ()
      | AutomaticPolicy (Explicit cs) _ \<Rightarrow>
          if \<not> list_ex (\<lambda>e. same_model_choice (Some e) (Some c)) cs then Inl (policy_changed rvn) else Inr ()
      | AutomaticPolicy CatalogVisible _ \<Rightarrow> Inr ())"

definition validate_policy_against_catalog ::
  "model_policy \<Rightarrow> model_catalog \<Rightarrow> model_choice list option \<Rightarrow> int \<Rightarrow> unit policy_result" where
  "validate_policy_against_catalog policy catalog ceiling rvn =
     res_bind (validate_model_policy (policy_js policy)) (\<lambda>normalized.
       case normalized of
         FixedPolicy c _ \<Rightarrow> assert_selection_allowed c normalized catalog ceiling rvn
       | AutomaticPolicy _ _ \<Rightarrow>
           res_bind (list_allowed_model_selections normalized catalog ceiling) (\<lambda>allowed.
             if allowed \<noteq> [] then Inr ()
             else if has_disabled_ultra normalized then Inr ()
             else res_bind (list_allowed_model_selections normalized catalog None) (\<lambda>catalog_allowed.
               if ceiling \<noteq> None \<and> catalog_allowed \<noteq> [] then Inl (forbidden rvn)
               else Inl (unavailable rvn))))"

section \<open>Comparing\<close>

definition model_selection_key :: "model_selection \<Rightarrow> js" where
  "model_selection_key s = JArr [JStr (mc_model s), JStr (mc_effort s),
     if falsy_tier (ms_tier s) then JNull else JStr (the (ms_tier s)),
     JStr (if ms_turn_scope s then ''turn'' else ''conversation'')]"

definition same_model_selection :: "model_selection option \<Rightarrow> model_selection option \<Rightarrow> bool" where
  "same_model_selection a b =
     (case (a, b) of
        (Some x, Some y) \<Rightarrow> model_selection_key x = model_selection_key y
      | (None, None) \<Rightarrow> True
      | _ \<Rightarrow> False)"

text \<open>The arrays whose JSON texts the source compares, as values.\<close>

fun model_policy_key :: "model_policy \<Rightarrow> js" where
  "model_policy_key (FixedPolicy c d) =
     JArr [JStr ''fixed'', JStr (model_choice_key c), JBool d]"
| "model_policy_key (AutomaticPolicy (Explicit cs) d) =
     JArr [JStr ''automatic'', JStr ''explicit'', JArr (map JStr (sort (map model_choice_key cs))), JBool d]"
| "model_policy_key (AutomaticPolicy CatalogVisible d) =
     JArr [JStr ''automatic'', JStr ''catalog-visible'', JNull, JBool d]"

definition same_model_policy :: "model_policy \<Rightarrow> model_policy \<Rightarrow> bool policy_result" where
  "same_model_policy a b =
     res_bind (validate_model_policy (policy_js a)) (\<lambda>x.
     res_bind (validate_model_policy (policy_js b)) (\<lambda>y. Inr (model_policy_key x = model_policy_key y)))"

definition clone_selection :: "model_selection \<Rightarrow> model_selection" where
  "clone_selection s = s\<lparr>ms_tier := (if falsy_tier (ms_tier s) then None else ms_tier s)\<rparr>"

definition of_choice :: "model_choice \<Rightarrow> model_selection" where
  "of_choice c = \<lparr>mc_model = mc_model c, mc_effort = mc_effort c, ms_tier = None, ms_turn_scope = False\<rparr>"

section \<open>The decision\<close>

datatype operation = OpStart | OpContinue
datatype decision_source =
  SrcFixed | SrcConfiguredFallback | SrcCaller | SrcThreadInherited | SrcBackendDefault | SrcCompatibilityFallback
datatype catalog_validation = CatalogValid | CatalogUnverified
datatype applied_at = AtThreadStart | AtTurnStart

record backend_capabilities =
  bc_model_override :: bool
  bc_effort_override :: bool
  bc_tier_override :: bool

record policy_input =
  pi_revision :: int
  pi_policy :: model_policy
  pi_catalog :: model_catalog
  pi_ceiling :: "model_choice list option"
  pi_backend :: string
  pi_capabilities :: backend_capabilities
  pi_operation :: operation
  pi_requested :: js
  pi_requested_revision :: "int option"
  pi_current :: "model_selection option"

record execution_decision =
  ed_revision :: int
  ed_fingerprint :: string
  ed_validation :: catalog_validation
  ed_backend :: string
  ed_requested :: "model_choice option"
  ed_selection :: model_selection
  ed_effort :: string
  ed_source :: decision_source
  ed_applied :: applied_at
  ed_reason :: string

definition decision_reason :: "decision_source \<Rightarrow> operation \<Rightarrow> string \<Rightarrow> catalog_validation \<Rightarrow> string" where
  "decision_reason src op backend val =
     ''Selected from '' @
     (case src of SrcFixed \<Rightarrow> ''the saved fixed policy''
      | SrcConfiguredFallback \<Rightarrow> ''the configured automatic fallback''
      | SrcCaller \<Rightarrow> ''the caller's exact selection''
      | SrcThreadInherited \<Rightarrow> ''the retained thread's admission-time selection''
      | SrcCompatibilityFallback \<Rightarrow> ''the current upstream default because the saved selection is unsupported''
      | SrcBackendDefault \<Rightarrow> ''the validated backend catalog default'') @
     '' for '' @ (case op of OpStart \<Rightarrow> ''start'' | OpContinue \<Rightarrow> ''continue'') @
     '' on '' @ backend @ ''; catalog state is '' @
     (case val of CatalogValid \<Rightarrow> ''valid'' | CatalogUnverified \<Rightarrow> ''temporarily-unverified-with-last-known-good'') @ ''.''"

text \<open>The branch that chooses: saved, caller's, or inherited selection.\<close>

definition choose_selection ::
  "policy_input \<Rightarrow> model_policy \<Rightarrow> (model_selection \<times> decision_source) policy_result" where
  "choose_selection i policy =
     (case policy of
        FixedPolicy f _ \<Rightarrow>
          if truthy (pi_requested i)
          then Inl (PolicyError SelectionForbidden (pi_revision i) RecoverOmitSelection)
          else if catalog_supports_choice (pi_catalog i) f then Inr (clone_selection (of_choice f), SrcFixed)
          else Inl (unavailable (pi_revision i))
      | AutomaticPolicy _ _ \<Rightarrow>
          if truthy (pi_requested i)
          then res_bind (read_model_choice (pi_requested i)) (\<lambda>c. Inr (of_choice c, SrcCaller))
          else case (pi_operation i, pi_current i) of
            (OpContinue, Some cur) \<Rightarrow>
              res_bind (assert_selection_allowed cur policy (pi_catalog i) (pi_ceiling i) (pi_revision i))
                (\<lambda>_. Inr (clone_selection cur, SrcThreadInherited))
          | _ \<Rightarrow> Inl (PolicyError SelectionRequired (pi_revision i) RecoverCatalog))"

definition resolve_model_policy :: "policy_input \<Rightarrow> execution_decision policy_result" where
  "resolve_model_policy i =
     res_bind (validate_model_policy (policy_js (pi_policy i))) (\<lambda>policy.
     if (case pi_requested_revision i of None \<Rightarrow> False | Some r \<Rightarrow> r \<noteq> pi_revision i)
     then Inl (policy_changed (pi_revision i))
     else res_bind (is_model_policy_suspended policy (pi_catalog i) (pi_ceiling i)) (\<lambda>suspended.
     if suspended then Inl (unavailable (pi_revision i))
     else res_bind (choose_selection i policy) (\<lambda>(selection, source).
     res_bind (assert_selection_allowed selection policy (pi_catalog i) (pi_ceiling i) (pi_revision i)) (\<lambda>_.
     let caps = pi_capabilities i;
         changed = \<not> same_model_choice (pi_current i) (Some selection);
         supported = bc_model_override caps \<and> bc_effort_override caps \<and>
           (falsy_tier (ms_tier selection) \<or> bc_tier_override caps);
         turn_override = pi_operation i = OpContinue \<and> source \<noteq> SrcThreadInherited \<and>
           bc_model_override caps \<and> bc_effort_override caps;
         validation = (if ct_stale (pi_catalog i) then CatalogUnverified else CatalogValid)
     in if pi_operation i = OpContinue \<and> changed \<and> \<not> supported
        then Inl (PolicyError OverrideUnsupported (pi_revision i) RecoverFreshContext)
        else Inr \<lparr>ed_revision = pi_revision i, ed_fingerprint = ct_fingerprint (pi_catalog i),
               ed_validation = validation, ed_backend = pi_backend i,
               ed_requested = (if truthy (pi_requested i)
                 then Some \<lparr>mc_model = mc_model selection, mc_effort = mc_effort selection\<rparr> else None),
               ed_selection = selection, ed_effort = mc_effort selection, ed_source = source,
               ed_applied = (if turn_override then AtTurnStart else AtThreadStart),
               ed_reason = decision_reason source (pi_operation i) (pi_backend i) validation\<rparr>))))"

section \<open>Lemmas\<close>

definition ident_ok :: "nat \<Rightarrow> string \<Rightarrow> bool" where
  "ident_ok maximum s \<longleftrightarrow> js_trim s \<noteq> '''' \<and> s = js_trim s \<and> length s \<le> maximum \<and>
     CHR 0x0D \<notin> set s \<and> CHR 0x0A \<notin> set s"

lemma read_identifier_Inr [result_simps]:
  "read_identifier v n = Inr s \<longleftrightarrow> v = JStr s \<and> ident_ok n s"
  by (cases v) (auto simp: read_identifier_def ident_ok_def)

definition choice_ok :: "('m) model_choice_scheme \<Rightarrow> bool" where
  "choice_ok c \<longleftrightarrow> ident_ok 200 (mc_model c) \<and> ident_ok 100 (mc_effort c)"

lemma read_model_choice_ok: "read_model_choice v = Inr c \<Longrightarrow> choice_ok c"
  by (auto simp: read_model_choice_def choice_ok_def result_simps split: if_splits)

lemma read_choice_js [result_simps]:
  "read_model_choice (choice_js c) = Inr d \<longleftrightarrow>
     choice_ok c \<and> d = \<lparr>mc_model = mc_model c, mc_effort = mc_effort c\<rparr>"
  by (auto simp: read_model_choice_def choice_js_def choice_ok_def result_simps)

lemma read_choice_js_same: "choice_ok c \<Longrightarrow> read_model_choice (choice_js c) = Inr (c :: model_choice)"
  by (simp add: read_choice_js)

lemma model_choice_key_eq [simp]:
  "model_choice_key a = model_choice_key b \<longleftrightarrow> mc_model a = mc_model b \<and> mc_effort a = mc_effort b"
  by (simp add: model_choice_key_def)

lemma same_model_choice_Some:
  "same_model_choice (Some a) (Some b) \<longleftrightarrow> mc_model a = mc_model b \<and> mc_effort a = mc_effort b"
  by (simp add: same_model_choice_def)

lemma inj_model_choice_key: "inj (model_choice_key :: model_choice \<Rightarrow> string)"
  by (auto intro!: injI model_choice.equality)

lemma distinct_keys_choices: "distinct (map model_choice_key cs) = distinct (cs :: model_choice list)"
  by (simp add: distinct_map inj_on_subset [OF inj_model_choice_key])

fun policy_ok :: "model_policy \<Rightarrow> bool" where
  "policy_ok (FixedPolicy c d) \<longleftrightarrow> choice_ok c \<and> (mc_effort c = ultra \<longrightarrow> d)"
| "policy_ok (AutomaticPolicy CatalogVisible d) \<longleftrightarrow> True"
| "policy_ok (AutomaticPolicy (Explicit cs) d) \<longleftrightarrow>
     cs \<noteq> [] \<and> length cs \<le> 500 \<and> distinct cs \<and> list_all choice_ok cs"

lemma read_choices_ok: "res_mapM read_model_choice vs = Inr cs \<Longrightarrow> list_all choice_ok cs"
  by (auto simp: list_all_iff dest!: res_mapM_set intro: read_model_choice_ok)

lemma read_choices_js: "list_all choice_ok cs \<Longrightarrow> res_mapM (\<lambda>c. read_model_choice (choice_js c)) cs = Inr (cs :: model_choice list)"
  by (induction cs) (auto simp: read_choice_js_same)

lemma res_mapM_map: "res_mapM f (map g xs) = res_mapM (\<lambda>x. f (g x)) xs"
  by (induction xs) auto

lemma read_allowed_ok: "read_allowed v = Inr a \<Longrightarrow> policy_ok (AutomaticPolicy a d)"
  by (auto simp: read_allowed_def result_simps distinct_keys_choices read_choices_ok split: if_splits)

lemma validate_ok: "validate_model_policy v = Inr p \<Longrightarrow> policy_ok p"
  by (auto simp: validate_model_policy_def result_simps read_model_choice_ok split: if_splits
      dest: read_allowed_ok)

lemma read_allowed_js:
  assumes "policy_ok (AutomaticPolicy a d)"
  shows "read_allowed (allowed_js a) = Inr a"
proof (cases a)
  case (Explicit cs)
  then have "res_mapM read_model_choice (map choice_js cs) = Inr cs"
    using assms by (simp add: res_mapM_map read_choices_js)
  then show ?thesis using Explicit assms
    by (simp add: read_allowed_def distinct_keys_choices not_less)
qed (simp add: read_allowed_def)

lemma validate_policy_js: "policy_ok p \<Longrightarrow> validate_model_policy (policy_js p) = Inr p"
proof (cases p)
  case (FixedPolicy c d)
  then show "policy_ok p \<Longrightarrow> validate_model_policy (policy_js p) = Inr p"
    by (auto simp: validate_model_policy_def read_constraints_def read_choice_js_same)
next
  case (AutomaticPolicy a d)
  moreover have "is_record (allowed_js a)" by (cases a) simp_all
  ultimately show "policy_ok p \<Longrightarrow> validate_model_policy (policy_js p) = Inr p"
    by (simp add: validate_model_policy_def read_constraints_def read_allowed_js)
qed

lemma validate_policy_js_iff:
  "validate_model_policy (policy_js p) = Inr q \<longleftrightarrow> policy_ok p \<and> q = p"
proof
  assume v: "validate_model_policy (policy_js p) = Inr q"
  show "policy_ok p \<and> q = p"
  proof (cases p)
    case (FixedPolicy c d)
    then show ?thesis using v validate_ok [OF v]
      by (auto simp: validate_model_policy_def read_constraints_def result_simps split: if_splits)
  next
    case (AutomaticPolicy a d)
    then obtain a' where a': "q = AutomaticPolicy a' d" "read_allowed (allowed_js a) = Inr a'"
      using v by (auto simp: validate_model_policy_def read_constraints_def result_simps split: if_splits)
    have "a' = a"
    proof (cases a)
      case (Explicit cs)
      have "ys = cs" if "res_mapM read_model_choice (map choice_js cs) = Inr ys" for ys
        using that by (induction cs arbitrary: ys) (auto simp: result_simps)
      then show ?thesis using a' Explicit by (auto simp: read_allowed_def result_simps split: if_splits)
    qed (use a' in \<open>simp add: read_allowed_def\<close>)
    then show ?thesis using AutomaticPolicy a' validate_ok [OF v] by simp
  qed
qed (auto intro: validate_policy_js)

lemma deduplicate_spec:
  "deduplicate seen cs = Inr ds \<Longrightarrow>
   set ds = {c \<in> set cs. model_choice_key c \<notin> set seen} \<and> distinct ds \<and> list_all choice_ok ds"
proof (induction seen cs arbitrary: ds rule: deduplicate.induct)
  case (2 seen c cs)
  then obtain n where n: "read_model_choice (choice_js c) = Inr n" by (auto simp: result_simps)
  then have c: "n = c" "choice_ok c" by (auto simp: read_choice_js)
  show ?case
  proof (cases "model_choice_key c \<in> set seen")
    case True
    then show ?thesis using 2(1) [of n ds] 2(3) n c by auto
  next
    case False
    then obtain rest where r: "deduplicate (model_choice_key c # seen) cs = Inr rest" "ds = c # rest"
      using 2(3) n c by (auto simp: result_simps)
    from 2(2) [of n rest] r(1) n c False
    have i: "set rest = {x \<in> set cs. model_choice_key x \<notin> set (model_choice_key c # seen)}"
      "distinct rest" "list_all choice_ok rest" by simp_all
    have "model_choice_key x = model_choice_key c \<longleftrightarrow> x = c" for x
      by (auto intro: model_choice.equality)
    then show ?thesis using i c r False by auto
  qed
qed simp

definition candidates :: "model_policy \<Rightarrow> model_catalog \<Rightarrow> model_choice list" where
  "candidates p catalog = (case p of FixedPolicy c _ \<Rightarrow> [c] | AutomaticPolicy (Explicit cs) _ \<Rightarrow> cs
     | AutomaticPolicy CatalogVisible _ \<Rightarrow> catalog_selections (ct_models catalog))"

definition within_ceiling :: "model_choice list option \<Rightarrow> model_choice \<Rightarrow> bool" where
  "within_ceiling ceiling c = (case ceiling of None \<Rightarrow> True | Some cs \<Rightarrow> c \<in> set cs)"

lemma same_choice_in: "list_ex (\<lambda>e. same_model_choice (Some e) (Some c)) cs \<longleftrightarrow> (c :: model_choice) \<in> set cs"
proof -
  have "mc_model e = mc_model c \<and> mc_effort e = mc_effort c \<longleftrightarrow> e = c" for e
    by (auto intro: model_choice.equality)
  then show ?thesis by (auto simp: list_ex_iff same_model_choice_Some)
qed

definition admitted :: "model_policy \<Rightarrow> model_catalog \<Rightarrow> model_choice list option \<Rightarrow> model_choice \<Rightarrow> bool" where
  "admitted p catalog ceiling c \<longleftrightarrow> catalog_supports_choice catalog c \<and>
     (allow_delegation p \<or> mc_effort c \<noteq> ultra) \<and> within_ceiling ceiling c \<and> c \<in> set (candidates p catalog)"

lemma list_allowed_spec:
  assumes "list_allowed_model_selections p catalog ceiling = Inr cs"
  shows "policy_ok p \<and> distinct cs \<and> list_all choice_ok cs \<and> set cs = {c. admitted p catalog ceiling c}"
proof -
  obtain ceil ds where v: "validate_model_policy (policy_js p) = Inr p" "policy_ok p"
    and ceil: "(case ceiling of None \<Rightarrow> Inr None
                 | Some cs \<Rightarrow> res_bind (res_mapM (\<lambda>c. read_model_choice (choice_js c)) cs) (\<lambda>x. Inr (Some x))) = Inr ceil"
    and ds: "deduplicate [] (candidates p catalog) = Inr ds"
    and cs: "cs = filter (\<lambda>c. catalog_supports_choice catalog c \<and> (allow_delegation p \<or> mc_effort c \<noteq> ultra) \<and>
                   (case ceil of None \<Rightarrow> True
                    | Some cs \<Rightarrow> list_ex (\<lambda>e. same_model_choice (Some e) (Some c)) cs)) ds"
    using assms by (auto simp: list_allowed_model_selections_def result_simps validate_policy_js_iff
        Let_def candidates_def)
  have "ceil = ceiling"
  proof (cases ceiling)
    case (Some xs)
    have "ys = xs" if "res_mapM (\<lambda>c. read_model_choice (choice_js c)) xs = Inr ys" for ys
      using that by (induction xs arbitrary: ys) (auto simp: result_simps)
    then show ?thesis using Some ceil by (auto simp: result_simps)
  qed (use ceil in simp)
  then show ?thesis using deduplicate_spec [OF ds] v cs
    by (auto simp: admitted_def within_ceiling_def same_choice_in list_all_iff split: option.splits)
qed

lemma candidates_catalog:
  assumes "catalog_supports_choice catalog c"
  shows "(c :: model_choice) \<in> set (catalog_selections (ct_models catalog))"
proof -
  obtain m where "find (\<lambda>e. md_id e = mc_model c) (ct_models catalog) = Some m" "mc_effort c \<in> set (md_efforts m)"
    using assms by (auto simp: catalog_supports_choice_def catalog_supports_def split: option.splits if_splits)
  then have "m \<in> set (ct_models catalog)" "md_id m = mc_model c"
    by (auto simp: find_Some_iff)
  then show ?thesis using \<open>mc_effort c \<in> set (md_efforts m)\<close>
    by (auto simp: catalog_selections_def intro!: bexI [of _ m] image_eqI [of _ _ "mc_effort c"])
qed

definition base_choice :: "('m) model_choice_scheme \<Rightarrow> model_choice" where
  "base_choice c = \<lparr>mc_model = mc_model c, mc_effort = mc_effort c\<rparr>"

lemma base_choice_same [simp]: "base_choice c = (c :: model_choice)"
  by (simp add: base_choice_def)

lemma base_choice_of [simp]: "base_choice (of_choice c) = c" "base_choice (clone_selection s) = base_choice s"
  by (simp_all add: base_choice_def of_choice_def clone_selection_def)

lemma same_choice_base:
  "list_ex (\<lambda>e. same_model_choice (Some e) (Some c)) cs \<longleftrightarrow> base_choice c \<in> set cs"
  using same_choice_in [of "base_choice c" cs] by (simp add: base_choice_def same_model_choice_Some)

lemma assert_selection_allowed_iff:
  "assert_selection_allowed c p catalog ceiling r = Inr () \<longleftrightarrow> admitted p catalog ceiling (base_choice c)"
proof -
  have e: "mc_model f = mc_model c \<and> mc_effort f = mc_effort c \<longleftrightarrow> base_choice c = f" for f :: model_choice
    by (auto simp: base_choice_def)
  have s: "catalog_supports catalog (mc_model c) (mc_effort c) None = catalog_supports_choice catalog (base_choice c)"
    by (simp add: catalog_supports_choice_def base_choice_def)
  have u: "mc_effort (base_choice c) = mc_effort c" by (simp add: base_choice_def)
  show ?thesis
  proof (cases p)
    case (FixedPolicy f d)
    then show ?thesis
      by (auto simp: assert_selection_allowed_def admitted_def candidates_def s u e within_ceiling_def
          list_ex_iff same_model_choice_Some split: option.splits)
  next
    case (AutomaticPolicy a d)
    then show ?thesis using candidates_catalog [of catalog "base_choice c"]
      by (cases a) (auto simp: assert_selection_allowed_def admitted_def candidates_def s u within_ceiling_def
          same_choice_base split: option.splits)
  qed
qed

section \<open>Properties\<close>

lemma suspended_iff:
  "is_model_policy_suspended p catalog ceiling = Inr b \<Longrightarrow>
   b \<longleftrightarrow> has_disabled_ultra p \<and> list_allowed_model_selections p catalog ceiling = Inr []"
  by (auto simp: is_model_policy_suspended_def result_simps split: if_splits)

lemma resolve_Inr:
  assumes "resolve_model_policy i = Inr d"
  obtains src where "policy_ok (pi_policy i)" "pi_requested_revision i \<in> {None, Some (pi_revision i)}"
    "choose_selection i (pi_policy i) = Inr (ed_selection d, src)" "ed_source d = src"
    "admitted (pi_policy i) (pi_catalog i) (pi_ceiling i) (base_choice (ed_selection d))"
    "pi_operation i = OpContinue \<Longrightarrow> same_model_choice (pi_current i) (Some (ed_selection d)) \<or>
       (bc_model_override (pi_capabilities i) \<and> bc_effort_override (pi_capabilities i))"
    "ed_effort d = mc_effort (ed_selection d)" "ed_revision d = pi_revision i"
  using assms
  by (auto simp: resolve_model_policy_def result_simps validate_policy_js_iff Let_def
      assert_selection_allowed_iff split: if_splits option.splits)

text \<open>C9. Admission. Whatever selection a task is resolved to, saved, requested or inherited, the
  current catalog offers it, the operator ceiling contains it, the owner's policy contains it, and
  it is not Ultra when Ultra is disabled; a fixed policy gives exactly its saved choice.\<close>
theorem resolved_selection_admitted:
  assumes "resolve_model_policy i = Inr d"
  shows "admitted (pi_policy i) (pi_catalog i) (pi_ceiling i) (base_choice (ed_selection d)) \<and>
    ed_effort d = mc_effort (ed_selection d) \<and> ed_revision d = pi_revision i \<and>
    (\<forall>f b. pi_policy i = FixedPolicy f b \<longrightarrow> ed_selection d = of_choice f) \<and>
    (pi_operation i = OpContinue \<and>
     \<not> (bc_model_override (pi_capabilities i) \<and> bc_effort_override (pi_capabilities i)) \<longrightarrow>
     (\<exists>cur. pi_current i = Some cur \<and> base_choice cur = base_choice (ed_selection d)))"
proof -
  obtain src where r: "choose_selection i (pi_policy i) = Inr (ed_selection d, src)"
    "admitted (pi_policy i) (pi_catalog i) (pi_ceiling i) (base_choice (ed_selection d))"
    "pi_operation i = OpContinue \<Longrightarrow> same_model_choice (pi_current i) (Some (ed_selection d)) \<or>
       (bc_model_override (pi_capabilities i) \<and> bc_effort_override (pi_capabilities i))"
    "ed_effort d = mc_effort (ed_selection d)" "ed_revision d = pi_revision i"
    using resolve_Inr [OF assms] by metis
  have "clone_selection (of_choice f) = of_choice f" for f
    by (simp add: clone_selection_def of_choice_def falsy_tier_def)
  then have "\<forall>f b. pi_policy i = FixedPolicy f b \<longrightarrow> ed_selection d = of_choice f"
    using r(1) by (auto simp: choose_selection_def split: if_splits)
  moreover have "\<exists>cur. pi_current i = Some cur \<and> base_choice cur = base_choice (ed_selection d)"
    if "same_model_choice (pi_current i) (Some (ed_selection d))"
    using that by (auto simp: same_model_choice_def base_choice_def split: option.splits)
  ultimately show ?thesis using r by blast
qed

definition example_catalog :: model_catalog where
  "example_catalog = \<lparr>ct_fingerprint = ''f'', ct_stale = False, ct_models =
     [\<lparr>md_id = ''m'', md_hidden = False, md_efforts = [''low'', ultra], md_tiers = [''fast'']\<rparr>,
      \<lparr>md_id = ''h'', md_hidden = True, md_efforts = [''low''], md_tiers = []\<rparr>]\<rparr>"

definition example_input :: "js \<Rightarrow> policy_input" where
  "example_input requested = \<lparr>pi_revision = 3, pi_policy = AutomaticPolicy CatalogVisible False,
     pi_catalog = example_catalog, pi_ceiling = None, pi_backend = ''app-server'',
     pi_capabilities = \<lparr>bc_model_override = True, bc_effort_override = True, bc_tier_override = True\<rparr>,
     pi_operation = OpStart, pi_requested = requested, pi_requested_revision = Some 3, pi_current = None\<rparr>"

lemmas policy_eval = resolve_model_policy_def validate_model_policy_def read_constraints_def
  is_model_policy_suspended_def has_disabled_ultra_def choose_selection_def read_model_choice_def
  choice_js_def read_identifier_def js_trim_def js_space_def of_choice_def assert_selection_allowed_def
  catalog_supports_def same_model_choice_def falsy_tier_def read_allowed_def Let_def

theorem resolved_selection_admitted_witness:
  "\<exists>d. resolve_model_policy (example_input (choice_js \<lparr>mc_model = ''m'', mc_effort = ''low''\<rparr>)) = Inr d \<and>
     admitted (AutomaticPolicy CatalogVisible False) example_catalog None (base_choice (ed_selection d))"
proof -
  have "is_ok (resolve_model_policy (example_input (choice_js \<lparr>mc_model = ''m'', mc_effort = ''low''\<rparr>)))"
    by (simp add: policy_eval example_input_def example_catalog_def ultra_def)
  then obtain d where d: "resolve_model_policy (example_input (choice_js \<lparr>mc_model = ''m'', mc_effort = ''low''\<rparr>)) = Inr d"
    by (auto simp: is_ok_def split: sum.splits)
  show ?thesis using resolved_selection_admitted [OF d] d by (auto simp: example_input_def)
qed

text \<open>C37. Discovery is admission. The list shown to a caller under an automatic policy is exactly the
  set of selections with which new work is accepted: every listed choice starts, nothing else does.\<close>
theorem discovery_is_admission:
  assumes "pi_policy i = AutomaticPolicy a del" "pi_operation i = OpStart"
    and "pi_requested_revision i \<in> {None, Some (pi_revision i)}" "pi_requested i = choice_js c"
    and "list_allowed_model_selections (pi_policy i) (pi_catalog i) (pi_ceiling i) = Inr cs"
  shows "is_ok (resolve_model_policy i) \<longleftrightarrow> c \<in> set cs"
proof -
  note l = list_allowed_spec [OF assms(5)]
  have t: "truthy (pi_requested i)" by (simp add: assms(4) choice_js_def)
  show ?thesis
  proof
    assume "is_ok (resolve_model_policy i)"
    then obtain d where d: "resolve_model_policy i = Inr d" by (auto simp: is_ok_def split: sum.splits)
    from resolve_Inr [OF d] obtain src where
      "choose_selection i (pi_policy i) = Inr (ed_selection d, src)"
      "admitted (pi_policy i) (pi_catalog i) (pi_ceiling i) (base_choice (ed_selection d))" by metis
    then have "ed_selection d = of_choice c" using t assms(1,4)
      by (auto simp: choose_selection_def result_simps of_choice_def)
    then show "c \<in> set cs" using l
        \<open>admitted (pi_policy i) (pi_catalog i) (pi_ceiling i) (base_choice (ed_selection d))\<close> by simp
  next
    assume c: "c \<in> set cs"
    then have ok: "choice_ok c" "admitted (pi_policy i) (pi_catalog i) (pi_ceiling i) c" "cs \<noteq> []"
      using l by (auto simp: list_all_iff)
    have s: "is_model_policy_suspended (pi_policy i) (pi_catalog i) (pi_ceiling i) = Inr False"
      using assms(5) ok(3) by (simp add: is_model_policy_suspended_def)
    have r: "assert_selection_allowed (of_choice c) (pi_policy i) (pi_catalog i) (pi_ceiling i) (pi_revision i) = Inr ()"
      using ok(2) by (simp add: assert_selection_allowed_iff)
    have "choose_selection i (pi_policy i) = Inr (of_choice c, SrcCaller)"
      using t ok(1) assms(1,4) by (simp add: choose_selection_def read_choice_js_same)
    then show "is_ok (resolve_model_policy i)"
      using s r l assms(2,3) by (auto simp: resolve_model_policy_def validate_policy_js Let_def)
  qed
qed

theorem discovery_is_admission_witness:
  "\<not> is_ok (resolve_model_policy (example_input (choice_js \<lparr>mc_model = ''h'', mc_effort = ''low''\<rparr>)))"
proof -
  have "list_allowed_model_selections (AutomaticPolicy CatalogVisible False) example_catalog None =
    Inr [\<lparr>mc_model = ''m'', mc_effort = ''low''\<rparr>]"
    by (simp add: list_allowed_model_selections_def policy_eval example_catalog_def ultra_def
        catalog_supports_choice_def catalog_selections_def model_choice_key_def)
  then show ?thesis
    using discovery_is_admission [of "example_input (choice_js \<lparr>mc_model = ''h'', mc_effort = ''low''\<rparr>)"
        CatalogVisible False "\<lparr>mc_model = ''h'', mc_effort = ''low''\<rparr>" "[\<lparr>mc_model = ''m'', mc_effort = ''low''\<rparr>]"]
    by (simp add: example_input_def)
qed

text \<open>C38. Saved policies. Whatever validation accepts is well formed and, written out as the object
  it stands for, validates to itself again; so the settings file and the running policy agree.\<close>
theorem policy_validation_roundtrip:
  assumes "validate_model_policy v = Inr p"
  shows "policy_ok p \<and> validate_model_policy (policy_js p) = Inr p"
  using validate_ok [OF assms] validate_policy_js by blast

theorem policy_validation_roundtrip_witness:
  "validate_model_policy (policy_js (AutomaticPolicy CatalogVisible True)) = Inr (AutomaticPolicy CatalogVisible True)"
  using policy_validation_roundtrip [of "JObj [(''mode'', JStr ''automatic''),
      (''allowedSelections'', JObj [(''kind'', JStr ''catalog-visible'')])]" "AutomaticPolicy CatalogVisible True"]
  by (simp add: policy_eval)

text \<open>Two well-formed policies count as the same exactly when they mean the same: the order of an
  explicit list is irrelevant, everything else is not.\<close>
theorem same_policy_iff_same_meaning:
  assumes "policy_ok p" "policy_ok q"
  shows "same_model_policy p q = Inr (case (p, q) of
      (AutomaticPolicy (Explicit cs) d, AutomaticPolicy (Explicit ds) e) \<Rightarrow> set cs = set ds \<and> d = e
    | _ \<Rightarrow> p = q)"
proof -
  have k: "same_model_policy p q = Inr (model_policy_key p = model_policy_key q)"
    using assms by (simp add: same_model_policy_def validate_policy_js)
  have j: "map JStr xs = map JStr ys \<longleftrightarrow> xs = ys" for xs ys
    by (rule inj_map_eq_map) (simp add: inj_def)
  have s: "sort (map model_choice_key cs) = sort (map model_choice_key ds) \<longleftrightarrow> set cs = set ds"
    if "distinct cs" "distinct ds" for cs ds :: "model_choice list"
  proof
    assume "sort (map model_choice_key cs) = sort (map model_choice_key ds)"
    then have "set (map model_choice_key cs) = set (map model_choice_key ds)" by (metis set_sort)
    then show "set cs = set ds" by (simp add: inj_image_eq_iff [OF inj_model_choice_key])
  next
    assume e: "set cs = set ds"
    show "sort (map model_choice_key cs) = sort (map model_choice_key ds)"
      by (rule sorted_distinct_set_unique) (use e that in \<open>simp_all add: distinct_keys_choices\<close>)
  qed
  have c: "mc_model a = mc_model b \<and> mc_effort a = mc_effort b \<longleftrightarrow> a = b" for a b :: model_choice
    by (auto intro: model_choice.equality)
  show ?thesis unfolding k using assms
    by (cases p rule: model_policy_key.cases; cases q rule: model_policy_key.cases) (auto simp: j s c)
qed

theorem same_policy_iff_same_meaning_witness:
  "same_model_policy (AutomaticPolicy CatalogVisible True) (AutomaticPolicy CatalogVisible False) = Inr False"
  using same_policy_iff_same_meaning [of "AutomaticPolicy CatalogVisible True" "AutomaticPolicy CatalogVisible False"]
  by simp

end
