(* ===== verification/Execution_Journal.thy ===== *)
theory Execution_Journal
  imports Js_Value
begin

text \<open>
  The execution receipts of \<open>src/src/executionJournal.ts\<close>: bounded lanes, at-most-once admission
  of a request id, the retained terminal outcome, and round-robin delivery over a link that may
  reconnect. The two \<open>Map\<close>s and the \<open>Set\<close> are insertion-ordered lists. Objects the source compares
  by identity carry a serial number (\<open>je_uid\<close>, and the number beside an auxiliary message).
  \<open>jr_out\<close> holds the messages handed to the link whose callback has not run, \<open>jr_ticks\<close> the
  outstanding \<open>setImmediate\<close> calls, \<open>jr_contained\<close> the calls of \<open>contain\<close>. \<open>bytes\<close> is
  \<open>encodedBytes\<close>, where Infinity is any value above both limits; \<open>digest\<close> is the SHA-256
  fingerprint of operation and arguments. Error texts are reduced to their codes.
\<close>

section \<open>Data\<close>

datatype lane = LExecution | LInspection | LMetadata | LControl

record jmsg =
  jm_type :: string
  jm_request :: "string option"
  jm_seq :: int
  jm_interaction :: "string option"
  jm_resolved :: "string option"
  jm_pending :: "string list option"
  jm_aux :: string
  jm_error :: "string option"
  jm_body :: js

record jentry =
  je_uid :: int
  je_fingerprint :: string
  je_retained :: bool
  je_control :: bool
  je_lane :: lane
  je_created :: int
  je_completed :: "int option"
  je_sequence :: int
  je_sent :: int
  je_events :: "(string \<times> jmsg) list"
  je_terminal :: "jmsg option"
  je_failure :: "string option"
  je_abandoned :: bool
  je_acknowledged :: bool

text \<open>What the callback of one \<open>link(message, done)\<close> call has captured.\<close>

record ticket =
  tk_epoch :: int
  tk_entry :: "int option"
  tk_aux :: "(string \<times> int) option"
  tk_msg :: jmsg

record journal =
  jr_entries :: "(string \<times> jentry) list"
  jr_acked :: "string list"
  jr_link :: bool
  jr_sending :: bool
  jr_burst :: int
  jr_epoch :: int
  jr_controller :: "string option"
  jr_aux :: "(string \<times> (int \<times> jmsg)) list"
  jr_next :: int
  jr_out :: "ticket list"
  jr_ticks :: nat
  jr_contained :: "(string \<times> js \<times> string) list"

record jrequest =
  rq_id :: string
  rq_operation :: string
  rq_args :: js
  rq_after :: int
  rq_retained :: bool

datatype admission = AdmNew | AdmExisting | AdmRejected

definition result_bytes :: int where
  "result_bytes = 8388608"

definition event_bytes :: int where
  "event_bytes = 8388608"

definition ordinary_progress_bytes :: int where
  "ordinary_progress_bytes = 65536"

fun lane_capacity :: "lane \<Rightarrow> nat" where
  "lane_capacity LExecution = 30"
| "lane_capacity LInspection = 8"
| "lane_capacity LMetadata = 8"
| "lane_capacity LControl = 6"

fun lane_full_code :: "lane \<Rightarrow> string" where
  "lane_full_code LExecution = ''EXECUTION_RETENTION_CAPACITY''"
| "lane_full_code LInspection = ''EXECUTION_INSPECTION_CAPACITY''"
| "lane_full_code LMetadata = ''EXECUTION_METADATA_CAPACITY''"
| "lane_full_code LControl = ''EXECUTION_CONTROL_CAPACITY''"

definition execution_lane :: "string \<Rightarrow> bool \<Rightarrow> lane" where
  "execution_lane op control =
     (if control then LControl
      else if op \<in> set [''callTool'', ''startThread'', ''continueThread'', ''forkThread''] then LExecution
      else if op \<in> set [''probeThread'', ''listBackgroundTerminals'', ''listLoadedBackgroundTerminals'',
                        ''listLoadedThreadIds''] then LInspection
      else LMetadata)"

definition new_journal :: journal where
  "new_journal = \<lparr>jr_entries = [], jr_acked = [], jr_link = False, jr_sending = False, jr_burst = 0,
     jr_epoch = 0, jr_controller = None, jr_aux = [], jr_next = 0, jr_out = [], jr_ticks = 0,
     jr_contained = []\<rparr>"

definition plain_message :: "string \<Rightarrow> jmsg" where
  "plain_message ty = \<lparr>jm_type = ty, jm_request = None, jm_seq = 0, jm_interaction = None,
     jm_resolved = None, jm_pending = None, jm_aux = '''', jm_error = None, jm_body = JUndef\<rparr>"

section \<open>Delivery\<close>

definition due_messages :: "jentry \<Rightarrow> jmsg list" where
  "due_messages e =
     sort_key jm_seq (filter (\<lambda>m. je_sent e < jm_seq m)
       (map snd (je_events e) @ (case je_terminal e of None \<Rightarrow> [] | Some m \<Rightarrow> [m])))"

fun first_due :: "(string \<times> jentry) list \<Rightarrow> (jentry \<times> jmsg) option" where
  "first_due [] = None"
| "first_due ((i, e) # t) = (case due_messages e of [] \<Rightarrow> first_due t | m # _ \<Rightarrow> Some (e, m))"

definition select_receipt :: "journal \<Rightarrow> (jentry \<times> jmsg) option" where
  "select_receipt j = (if 8 \<le> jr_burst j \<and> jr_aux j \<noteq> [] then None else first_due (jr_entries j))"

definition hand_over :: "ticket \<Rightarrow> journal \<Rightarrow> journal" where
  "hand_over t j = j\<lparr>jr_sending := True, jr_out := jr_out j @ [t]\<rparr>"

definition pump :: "journal \<Rightarrow> journal" where
  "pump j =
     (if jr_sending j \<or> \<not> jr_link j then j
      else case select_receipt j of
        Some (e, m) \<Rightarrow> hand_over \<lparr>tk_epoch = jr_epoch j, tk_entry = Some (je_uid e), tk_aux = None, tk_msg = m\<rparr> j
      | None \<Rightarrow>
          (case jr_aux j of
             [] \<Rightarrow> j
           | (k, u, m) # _ \<Rightarrow>
               hand_over \<lparr>tk_epoch = jr_epoch j, tk_entry = None, tk_aux = Some (k, u), tk_msg = m\<rparr> j))"

definition disconnect :: "journal \<Rightarrow> journal" where
  "disconnect j = j\<lparr>jr_epoch := jr_epoch j + 1, jr_link := False, jr_sending := False, jr_aux := []\<rparr>"

text \<open>The callback's two parts: mark the receipt sent and rotate it, drop the auxiliary message.\<close>

definition receipt_sent :: "int option \<Rightarrow> jmsg \<Rightarrow> journal \<Rightarrow> journal" where
  "receipt_sent uid m j =
     (case uid of
        None \<Rightarrow> j
      | Some u \<Rightarrow>
          let i = (case jm_request m of None \<Rightarrow> '''' | Some i \<Rightarrow> i); j1 = j\<lparr>jr_burst := jr_burst j + 1\<rparr> in
          case map_of (jr_entries j1) i of
            Some e \<Rightarrow>
              if je_uid e = u
              then j1\<lparr>jr_entries := AList.delete i (jr_entries j1) @ [(i, e\<lparr>je_sent := jm_seq m\<rparr>)]\<rparr>
              else j1
          | None \<Rightarrow> j1)"

definition aux_sent :: "(string \<times> int) option \<Rightarrow> journal \<Rightarrow> journal" where
  "aux_sent aux j =
     (case aux of
        None \<Rightarrow> j
      | Some (k, u) \<Rightarrow>
          let j1 = j\<lparr>jr_burst := 0\<rparr> in
          case map_of (jr_aux j1) k of
            Some (u', m) \<Rightarrow> if u' = u then j1\<lparr>jr_aux := AList.delete k (jr_aux j1)\<rparr> else j1
          | None \<Rightarrow> j1)"

definition link_done :: "ticket \<Rightarrow> bool \<Rightarrow> journal \<Rightarrow> journal" where
  "link_done t failed j =
     (if tk_epoch t \<noteq> jr_epoch j then j
      else let j1 = j\<lparr>jr_sending := False\<rparr> in
        if failed then disconnect j1
        else let j2 = aux_sent (tk_aux t) (receipt_sent (tk_entry t) (tk_msg t) j1)
             in j2\<lparr>jr_ticks := jr_ticks j2 + 1\<rparr>)"

definition set_aux :: "string \<Rightarrow> jmsg \<Rightarrow> journal \<Rightarrow> journal" where
  "set_aux k m j = j\<lparr>jr_aux := AList.update k (jr_next j, m) (jr_aux j), jr_next := jr_next j + 1\<rparr>"

definition reply_error :: "string \<Rightarrow> string \<Rightarrow> journal \<Rightarrow> journal" where
  "reply_error i code j =
     (let k = ''error:'' @ i in
      pump (if length (jr_aux j) < 256 \<or> k \<in> set (keys (jr_aux j))
            then set_aux k ((plain_message ''response'')\<lparr>jm_request := Some i, jm_error := Some code\<rparr>) j
            else j))"

section \<open>Operations\<close>

definition put_entry :: "string \<Rightarrow> jentry \<Rightarrow> journal \<Rightarrow> journal" where
  "put_entry i e j = j\<lparr>jr_entries := AList.update i e (jr_entries j)\<rparr>"

definition lane_used :: "lane \<Rightarrow> journal \<Rightarrow> nat" where
  "lane_used l j = length (filter (\<lambda>r. je_lane (snd r) = l) (jr_entries j))"

definition admit ::
  "(string \<Rightarrow> js \<Rightarrow> string) \<Rightarrow> int \<Rightarrow> jrequest \<Rightarrow> bool \<Rightarrow> journal \<Rightarrow> admission \<times> journal" where
  "admit digest now r control j =
     (let i = rq_id r; fp = digest (rq_operation r) (rq_args r) in
      case map_of (jr_entries j) i of
        Some e \<Rightarrow>
          (AdmExisting,
           if je_fingerprint e \<noteq> fp then reply_error i ''EXECUTION_IDENTITY_CONFLICT'' j
           else pump (put_entry i (e\<lparr>je_sent := min (je_sent e) (rq_after r)\<rparr>) j))
      | None \<Rightarrow>
          if i \<in> set (jr_acked j) then (AdmRejected, reply_error i ''EXECUTION_ALREADY_ACKNOWLEDGED'' j)
          else let l = execution_lane (rq_operation r) control in
            if lane_capacity l \<le> lane_used l j then (AdmRejected, reply_error i (lane_full_code l) j)
            else (AdmNew,
              (put_entry i \<lparr>je_uid = jr_next j, je_fingerprint = fp, je_retained = rq_retained r,
                 je_control = control, je_lane = l, je_created = now, je_completed = None, je_sequence = 0,
                 je_sent = 0, je_events = [], je_terminal = None, je_failure = None,
                 je_abandoned = False, je_acknowledged = False\<rparr> j)\<lparr>jr_next := jr_next j + 1\<rparr>))"

definition recover :: "string \<Rightarrow> int \<Rightarrow> journal \<Rightarrow> journal" where
  "recover i after j =
     (case map_of (jr_entries j) i of
        None \<Rightarrow> reply_error i ''CODEX_WORKER_LOST'' j
      | Some e \<Rightarrow> pump (put_entry i (e\<lparr>je_sent := after\<rparr>) j))"

definition remember_acked :: "string \<Rightarrow> string list \<Rightarrow> string list" where
  "remember_acked i xs =
     (let ys = (if i \<in> set xs then xs else xs @ [i]) in if 4096 < length ys then tl ys else ys)"

definition acknowledge :: "string \<Rightarrow> journal \<Rightarrow> journal" where
  "acknowledge i j =
     (case map_of (jr_entries j) i of
        None \<Rightarrow> j
      | Some e \<Rightarrow>
          if je_terminal e = None then put_entry i (e\<lparr>je_acknowledged := True\<rparr>) j
          else j\<lparr>jr_entries := AList.delete i (jr_entries j), jr_acked := remember_acked i (jr_acked j)\<rparr>)"

text \<open>A replacement controller: settled control receipts go, running ones are abandoned.\<close>

definition replace_controller :: "(string \<times> jentry) list \<Rightarrow> (string \<times> jentry) list" where
  "replace_controller t =
     map (\<lambda>(i, e). (i, if je_retained e then e else e\<lparr>je_abandoned := True\<rparr>))
       (filter (\<lambda>(i, e). je_retained e \<or> je_terminal e = None) t)"

definition connect :: "string \<Rightarrow> journal \<Rightarrow> journal" where
  "connect controller j =
     (let t = (case jr_controller j of
          Some c \<Rightarrow> if c \<noteq> '''' \<and> c \<noteq> controller then replace_controller (jr_entries j) else jr_entries j
        | None \<Rightarrow> jr_entries j) in
      pump (j\<lparr>jr_entries := map (\<lambda>(i, e). (i, e\<lparr>je_sent := max_safe_integer\<rparr>)) t,
              jr_controller := Some controller, jr_epoch := jr_epoch j + 1, jr_link := True,
              jr_sending := False\<rparr>))"

definition aux_key :: "jmsg \<Rightarrow> string" where
  "aux_key m =
     (if jm_type m = ''release-check'' then ''check:'' @ jm_aux m
      else if jm_type m = ''acknowledged'' then ''ack:'' @ (case jm_request m of None \<Rightarrow> ''undefined'' | Some i \<Rightarrow> i)
      else if jm_type m = ''late-response'' then ''late:'' @ jm_aux m
      else jm_type m)"

definition send_auxiliary :: "(jmsg \<Rightarrow> int) \<Rightarrow> jmsg \<Rightarrow> journal \<Rightarrow> journal" where
  "send_auxiliary bytes m j =
     (if 256 \<le> length (jr_aux j) \<and> aux_key m \<notin> set (keys (jr_aux j)) then j
      else pump (if bytes m \<le> result_bytes then set_aux (aux_key m) m j else j))"

definition send_response :: "(jmsg \<Rightarrow> int) \<Rightarrow> int \<Rightarrow> string \<Rightarrow> jentry \<Rightarrow> jmsg \<Rightarrow> journal \<Rightarrow> journal" where
  "send_response bytes now i e event j =
     (if je_abandoned e \<or> je_acknowledged e
      then j\<lparr>jr_entries := AList.delete i (jr_entries j)\<rparr>
      else let terminal =
             (if je_failure e \<noteq> None \<or> result_bytes < bytes event
              then (plain_message ''response'')\<lparr>jm_request := Some i, jm_seq := jm_seq event,
                jm_error := Some (case je_failure e of None \<Rightarrow> ''EXECUTION_RESPONSE_TOO_LARGE'' | Some f \<Rightarrow> f)\<rparr>
              else event)
           in pump (put_entry i (e\<lparr>je_completed := Some now, je_terminal := Some terminal,
                je_events := filter (\<lambda>r. fst r = ''assignment'') (je_events e)\<rparr>) j))"

definition input_ids :: "(string \<times> jmsg) list \<Rightarrow> string list" where
  "input_ids t = map (drop 6) (filter (starts_with ''input:'') (keys t))"

definition truthy_id :: "string option \<Rightarrow> bool" where
  "truthy_id s \<longleftrightarrow> s \<noteq> None \<and> s \<noteq> Some ''''"

definition event_key :: "jmsg \<Rightarrow> string" where
  "event_key m =
     (if jm_type m = ''assignment'' then ''assignment''
      else if truthy_id (jm_interaction m) then ''input:'' @ the (jm_interaction m)
      else if jm_resolved m \<noteq> None then ''interaction-state''
      else ''progress'')"

definition failure_code :: string where
  "failure_code = ''EXECUTION_EVENT_RETENTION_EXHAUSTED''"

definition mark_failure :: "string \<Rightarrow> jentry \<Rightarrow> jentry" where
  "mark_failure i e =
     e\<lparr>je_failure := Some failure_code, je_sequence := je_sequence e + 1,
       je_events := AList.update ''delivery-failure''
         ((plain_message ''progress'')\<lparr>jm_request := Some i, jm_seq := je_sequence e + 1\<rparr>) (je_events e)\<rparr>"

definition assignment_of :: "jentry \<Rightarrow> js" where
  "assignment_of e = (case map_of (je_events e) ''assignment'' of None \<Rightarrow> JUndef | Some m \<Rightarrow> jm_body m)"

definition contain_entry :: "string \<Rightarrow> jentry \<Rightarrow> journal \<Rightarrow> journal" where
  "contain_entry i e j =
     (case je_failure e of
        Some _ \<Rightarrow> put_entry i e j
      | None \<Rightarrow> (put_entry i (mark_failure i e) j)
          \<lparr>jr_contained := jr_contained j @ [(i, assignment_of e, failure_code)]\<rparr>)"

definition retained_bytes :: "(jmsg \<Rightarrow> int) \<Rightarrow> string \<Rightarrow> (string \<times> jmsg) list \<Rightarrow> int" where
  "retained_bytes bytes k t = sum_list (map (\<lambda>r. if fst r = k then 0 else bytes (snd r)) t)"

text \<open>A resolution withdraws the question it answers.\<close>

definition resolve_input :: "jmsg \<Rightarrow> jentry \<Rightarrow> jentry" where
  "resolve_input m e = (case jm_resolved m of None \<Rightarrow> e
     | Some r \<Rightarrow> e\<lparr>je_events := AList.delete (''input:'' @ r) (je_events e)\<rparr>)"

definition send_event :: "(jmsg \<Rightarrow> int) \<Rightarrow> string \<Rightarrow> jentry \<Rightarrow> jmsg \<Rightarrow> journal \<Rightarrow> journal" where
  "send_event bytes i e event j =
     (let e1 = resolve_input event e; k = event_key event;
          ids = input_ids (je_events e1) @ (case jm_interaction event of None \<Rightarrow> [] | Some x \<Rightarrow> [x]);
          ev = (if k = ''interaction-state'' \<or> jm_interaction event \<noteq> None
                then event\<lparr>jm_pending := Some (js_unique ids)\<rparr> else event)
      in if k = ''progress'' \<and> ordinary_progress_bytes < bytes ev then put_entry i e1 j
         else if event_bytes < bytes ev + retained_bytes bytes k (je_events e1) \<or>
           64 < length (je_events e1) + (if k \<in> set (keys (je_events e1)) then 0 else 1)
         then pump (contain_entry i e1 j)
         else pump (put_entry i (e1\<lparr>je_events := AList.update k ev (je_events e1)\<rparr>) j))"

definition send :: "(jmsg \<Rightarrow> int) \<Rightarrow> int \<Rightarrow> jmsg \<Rightarrow> journal \<Rightarrow> journal" where
  "send bytes now m j =
     (case (case jm_request m of None \<Rightarrow> None
            | Some i \<Rightarrow> if i = '''' then None else map_option (Pair i) (map_of (jr_entries j) i)) of
        None \<Rightarrow> send_auxiliary bytes m j
      | Some (i, e) \<Rightarrow>
          if jm_type m \<notin> set [''progress'', ''assignment'', ''response''] then send_auxiliary bytes m j
          else if je_terminal e \<noteq> None then j
          else let n = je_sequence e + 1; event = m\<lparr>jm_seq := n\<rparr>; e1 = e\<lparr>je_sequence := n\<rparr> in
            if jm_type m = ''response'' then send_response bytes now i e1 event j
            else send_event bytes i e1 event j)"

record lane_status =
  ls_capacity :: nat
  ls_used :: nat
  ls_active :: nat
  ls_awaiting :: nat
  ls_awaiting_commit :: nat
  ls_oldest :: int

definition lane_status_of :: "int \<Rightarrow> journal \<Rightarrow> lane \<Rightarrow> lane_status" where
  "lane_status_of now j l =
     (let es = filter (\<lambda>e. je_lane e = l) (map snd (jr_entries j));
          completed = filter (\<lambda>e. je_terminal e \<noteq> None) es in
      \<lparr>ls_capacity = lane_capacity l, ls_used = length es, ls_active = length es - length completed,
       ls_awaiting = length completed,
       ls_awaiting_commit = length (filter je_retained completed),
       ls_oldest = foldl (\<lambda>o' e. max o' (now - the (je_completed e))) 0 completed\<rparr>)"

section \<open>Runs of the journal\<close>

datatype jevent =
    JAdmit int jrequest bool
  | JRecover string int
  | JAck string
  | JConnect string
  | JDisconnect
  | JSend int jmsg
  | JDone nat bool
  | JTick

fun journal_step :: "(string \<Rightarrow> js \<Rightarrow> string) \<Rightarrow> (jmsg \<Rightarrow> int) \<Rightarrow> journal \<Rightarrow> jevent \<Rightarrow> journal" where
  "journal_step digest bytes j (JAdmit now r control) = snd (admit digest now r control j)"
| "journal_step digest bytes j (JRecover i after) = recover i after j"
| "journal_step digest bytes j (JAck i) = acknowledge i j"
| "journal_step digest bytes j (JConnect c) = connect c j"
| "journal_step digest bytes j JDisconnect = disconnect j"
| "journal_step digest bytes j (JSend now m) = send bytes now m j"
| "journal_step digest bytes j (JDone n failed) =
     (if n < length (jr_out j)
      then link_done (jr_out j ! n) failed (j\<lparr>jr_out := take n (jr_out j) @ drop (Suc n) (jr_out j)\<rparr>)
      else j)"
| "journal_step digest bytes j JTick =
     (if jr_ticks j = 0 then j else pump (j\<lparr>jr_ticks := jr_ticks j - 1\<rparr>))"

section \<open>Frame lemmas\<close>

lemma pump_frame [simp]:
  "jr_entries (pump j) = jr_entries j" "jr_acked (pump j) = jr_acked j" "jr_link (pump j) = jr_link j"
  "jr_burst (pump j) = jr_burst j" "jr_epoch (pump j) = jr_epoch j" "jr_controller (pump j) = jr_controller j"
  "jr_aux (pump j) = jr_aux j" "jr_next (pump j) = jr_next j" "jr_ticks (pump j) = jr_ticks j"
  "jr_contained (pump j) = jr_contained j"
  by (simp_all add: pump_def hand_over_def split: option.splits list.splits)

lemma set_aux_frame [simp]:
  "jr_entries (set_aux k m j) = jr_entries j" "jr_acked (set_aux k m j) = jr_acked j"
  "jr_link (set_aux k m j) = jr_link j" "jr_sending (set_aux k m j) = jr_sending j"
  "jr_epoch (set_aux k m j) = jr_epoch j" "jr_out (set_aux k m j) = jr_out j"
  "jr_aux (set_aux k m j) = AList.update k (jr_next j, m) (jr_aux j)"
  by (simp_all add: set_aux_def)

lemma reply_error_frame [simp]:
  "jr_entries (reply_error i c j) = jr_entries j" "jr_acked (reply_error i c j) = jr_acked j"
  by (simp_all add: reply_error_def Let_def)

lemma put_entry_frame [simp]:
  "jr_entries (put_entry i e j) = AList.update i e (jr_entries j)" "jr_acked (put_entry i e j) = jr_acked j"
  "jr_aux (put_entry i e j) = jr_aux j" "jr_link (put_entry i e j) = jr_link j"
  "jr_sending (put_entry i e j) = jr_sending j" "jr_epoch (put_entry i e j) = jr_epoch j"
  "jr_out (put_entry i e j) = jr_out j" "jr_ticks (put_entry i e j) = jr_ticks j"
  by (simp_all add: put_entry_def)

lemma send_auxiliary_frame [simp]:
  "jr_entries (send_auxiliary b m j) = jr_entries j" "jr_acked (send_auxiliary b m j) = jr_acked j"
  by (simp_all add: send_auxiliary_def)

lemma contain_entry_frame [simp]:
  "jr_entries (contain_entry i e j) =
     AList.update i (if je_failure e = None then mark_failure i e else e) (jr_entries j)"
  "jr_acked (contain_entry i e j) = jr_acked j" "jr_aux (contain_entry i e j) = jr_aux j"
  by (simp_all add: contain_entry_def split: option.splits)

section \<open>Capacity\<close>

definition entry_ok :: "(jmsg \<Rightarrow> int) \<Rightarrow> jentry \<Rightarrow> bool" where
  "entry_ok bytes e \<longleftrightarrow> distinct (keys (je_events e)) \<and>
     length (filter (\<lambda>k. k \<noteq> ''delivery-failure'') (keys (je_events e))) \<le> 64 \<and>
     retained_bytes bytes ''delivery-failure'' (je_events e) \<le> event_bytes \<and>
     (je_retained e \<longrightarrow> \<not> je_abandoned e)"

definition entries_ok :: "(jmsg \<Rightarrow> int) \<Rightarrow> (string \<times> jentry) list \<Rightarrow> bool" where
  "entries_ok bytes t \<longleftrightarrow> distinct (keys t) \<and>
     (\<forall>l. length (filter (\<lambda>r. je_lane (snd r) = l) t) \<le> lane_capacity l) \<and>
     (\<forall>i e. map_of t i = Some e \<longrightarrow> entry_ok bytes e)"

definition journal_inv :: "(jmsg \<Rightarrow> int) \<Rightarrow> journal \<Rightarrow> bool" where
  "journal_inv bytes j \<longleftrightarrow> entries_ok bytes (jr_entries j) \<and> length (jr_aux j) \<le> 256 \<and>
     distinct (keys (jr_aux j)) \<and> length (jr_acked j) \<le> 4096 \<and>
     set (jr_acked j) \<inter> set (keys (jr_entries j)) = {}"

lemma update_filter_length:
  "map_of t i = Some e \<Longrightarrow> P e' = P e \<Longrightarrow>
   length (filter (\<lambda>r. P (snd r)) (AList.update i e' t)) = length (filter (\<lambda>r. P (snd r)) t)"
  by (induction t) auto

lemma entries_ok_update:
  assumes "entries_ok bytes t" "map_of t i = Some e" "je_lane e' = je_lane e" "entry_ok bytes e'"
  shows "entries_ok bytes (AList.update i e' t)"
  using assms update_filter_length [of t i e "\<lambda>e. je_lane e = l" e' for l]
  by (auto simp: entries_ok_def map_of_update)

lemma entries_ok_delete: "entries_ok bytes t \<Longrightarrow> entries_ok bytes (AList.delete i t)"
proof -
  assume ok: "entries_ok bytes t"
  have "length (filter (\<lambda>r. je_lane (snd r) = l) (AList.delete i t)) \<le> length (filter (\<lambda>r. je_lane (snd r) = l) t)" for l
    by (induction t) auto
  then show ?thesis using ok by (auto simp: entries_ok_def map_of_delete intro: order_trans split: if_splits)
qed

lemma entries_ok_rotate:
  assumes "entries_ok bytes t" "map_of t i = Some e" "je_lane e' = je_lane e" "entry_ok bytes e'"
  shows "entries_ok bytes (AList.delete i t @ [(i, e')])"
proof -
  have d: "distinct (keys t)" using assms(1) by (simp add: entries_ok_def)
  have "length (filter (\<lambda>r. je_lane (snd r) = l) (AList.delete i t @ [(i, e')])) =
      length (filter (\<lambda>r. je_lane (snd r) = l) t)" for l
    using d assms(2,3) by (induction t) (auto simp: delete_notin split: if_splits)
  then show ?thesis
    using assms entries_ok_delete [OF assms(1), of i]
    by (auto simp: entries_ok_def keys_delete map_of_delete map_add_Some_iff split: if_splits)
qed

lemma retained_update:
  "(\<And>m. 0 \<le> bytes m) \<Longrightarrow> distinct (keys t) \<Longrightarrow>
   retained_bytes bytes d (AList.update k v t) \<le> bytes v + retained_bytes bytes k t"
proof (induction t)
  case (Cons r t)
  obtain k' v' where r: "r = (k', v')" by force
  have "retained_bytes bytes d t \<le> retained_bytes bytes k t" if "k \<notin> set (keys t)"
    using that Cons.prems(1) by (induction t) (auto simp: retained_bytes_def add_increasing)
  moreover have "retained_bytes bytes d (AList.update k v t) \<le> bytes v + retained_bytes bytes k t"
    using Cons by (simp add: r)
  moreover have "0 \<le> bytes v" "0 \<le> bytes v'" by (simp_all add: Cons.prems(1))
  ultimately show ?case using Cons.prems(2) r by (auto simp: retained_bytes_def)
qed (auto simp: retained_bytes_def)

lemma retained_update_same: "retained_bytes bytes d (AList.update d v t) = retained_bytes bytes d t"
  by (induction t) (auto simp: retained_bytes_def)

lemma retained_filter:
  "(\<And>m. 0 \<le> bytes m) \<Longrightarrow> retained_bytes bytes d (filter P t) \<le> retained_bytes bytes d t"
  by (induction t) (auto simp: retained_bytes_def add_increasing)

lemma delete_filter: "AList.delete k t = filter (\<lambda>r. fst r \<noteq> k) t"
  by (simp add: AList.delete_eq case_prod_unfold eq_commute)

lemma keys_filter_fst: "keys (filter (\<lambda>r. P (fst r)) t) = filter P (keys t)"
  by (induction t) auto

lemma length_filter_conj: "length (filter (\<lambda>x. P x \<and> Q x) xs) \<le> length (filter Q xs)"
  by (induction xs) auto

lemma entry_ok_filter:
  assumes "\<And>m. 0 \<le> bytes m" "entry_ok bytes e"
  shows "entry_ok bytes (e\<lparr>je_events := filter (\<lambda>r. P (fst r)) (je_events e)\<rparr>)"
proof -
  let ?t = "je_events e"
  have "length (filter (\<lambda>k. k \<noteq> ''delivery-failure'') (filter P (keys ?t))) \<le>
      length (filter (\<lambda>k. k \<noteq> ''delivery-failure'') (keys ?t))"
    by (simp add: length_filter_conj)
  moreover have "retained_bytes bytes ''delivery-failure'' (filter (\<lambda>r. P (fst r)) ?t) \<le>
      retained_bytes bytes ''delivery-failure'' ?t"
    by (rule retained_filter [OF assms(1)])
  ultimately show ?thesis using assms(2)
    by (simp add: entry_ok_def keys_filter_fst)
qed

lemma entry_ok_failure: "entry_ok bytes e \<Longrightarrow> entry_ok bytes (mark_failure i e)"
  by (cases "''delivery-failure'' \<in> set (keys (je_events e))")
    (auto simp: entry_ok_def mark_failure_def retained_update_same keys_update_old distinct_keys_update,
      auto simp: keys_update_new retained_bytes_def)

lemma entry_ok_event:
  assumes "\<And>m. 0 \<le> bytes m" "entry_ok bytes e" "bytes ev + retained_bytes bytes k (je_events e) \<le> event_bytes"
    and "length (je_events e) + (if k \<in> set (keys (je_events e)) then 0 else 1) \<le> 64"
  shows "entry_ok bytes (e\<lparr>je_events := AList.update k ev (je_events e)\<rparr>)"
proof -
  have "length (filter P (keys (AList.update k ev (je_events e)))) \<le> 64" for P
    using assms(4) length_filter_le [of P "keys (AList.update k ev (je_events e))"]
    by (simp add: keys_def update_length split: if_splits)
  then show ?thesis
    using assms(2,3) retained_update [of bytes "je_events e" "''delivery-failure''" k ev] assms(1)
    by (auto simp: entry_ok_def)
qed

lemma entry_ok_frame [simp]:
  "entry_ok bytes (e\<lparr>je_sent := n\<rparr>) = entry_ok bytes e"
  "entry_ok bytes (e\<lparr>je_sequence := n\<rparr>) = entry_ok bytes e"
  "entry_ok bytes (e\<lparr>je_acknowledged := b\<rparr>) = entry_ok bytes e"
  "entry_ok bytes (e\<lparr>je_completed := c\<rparr>) = entry_ok bytes e"
  "entry_ok bytes (e\<lparr>je_terminal := m\<rparr>) = entry_ok bytes e"
  by (simp_all add: entry_ok_def)

text \<open>What one operation may do to the table of entries.\<close>

inductive entries_move :: "(jmsg \<Rightarrow> int) \<Rightarrow> (string \<times> jentry) list \<Rightarrow> (string \<times> jentry) list \<Rightarrow> bool"
  for bytes t where
  move_same: "entries_move bytes t t"
| move_put: "map_of t i = Some e \<Longrightarrow> je_lane e' = je_lane e \<Longrightarrow> entry_ok bytes e' \<Longrightarrow>
    entries_move bytes t (AList.update i e' t)"
| move_delete: "entries_move bytes t (AList.delete i t)"
| move_rotate: "map_of t i = Some e \<Longrightarrow> je_lane e' = je_lane e \<Longrightarrow> entry_ok bytes e' \<Longrightarrow>
    entries_move bytes t (AList.delete i t @ [(i, e')])"

lemma entries_move_ok: "entries_move bytes t t' \<Longrightarrow> entries_ok bytes t \<Longrightarrow> entries_ok bytes t'"
  by (induction rule: entries_move.induct)
    (auto intro: entries_ok_update entries_ok_delete entries_ok_rotate)

lemma entries_move_keys: "entries_move bytes t t' \<Longrightarrow> set (keys t') \<subseteq> set (keys t)"
proof (induction rule: entries_move.induct)
  case (move_put i e e')
  then have "i \<in> set (keys t)" by (metis map_of_None_keys option.simps(3))
  then show ?case by (simp add: keys_update_old)
next
  case (move_rotate i e e')
  then have "i \<in> set (keys t)" by (metis map_of_None_keys option.simps(3))
  then show ?case by (auto simp: keys_delete)
qed (auto simp: keys_delete)

lemma journal_inv_move:
  assumes "journal_inv bytes j" "entries_move bytes (jr_entries j) (jr_entries j')"
    and "length (jr_aux j') \<le> 256" "distinct (keys (jr_aux j'))" "jr_acked j' = jr_acked j"
  shows "journal_inv bytes j'"
  using assms entries_move_ok [OF assms(2)] entries_move_keys [OF assms(2)]
  by (auto simp: journal_inv_def)

lemma entries_ok_entry: "entries_ok bytes t \<Longrightarrow> map_of t i = Some e \<Longrightarrow> entry_ok bytes e"
  by (simp add: entries_ok_def)

lemma entry_ok_delete:
  assumes "\<And>m. 0 \<le> bytes m" "entry_ok bytes e"
  shows "entry_ok bytes (e\<lparr>je_events := AList.delete k (je_events e)\<rparr>)"
  unfolding delete_filter using entry_ok_filter [OF assms, of "\<lambda>x. x \<noteq> k"] by simp

lemma resolved_events_ok:
  assumes "\<And>m. 0 \<le> bytes m" "entry_ok bytes e"
  shows "entry_ok bytes (resolve_input m e)"
  using assms by (auto simp: resolve_input_def split: option.splits intro: entry_ok_delete)

lemma send_event_cases:
  obtains
    (drop) "send_event bytes i e m j = put_entry i (resolve_input m e) j"
  | (contain) "send_event bytes i e m j = pump (contain_entry i (resolve_input m e) j)"
  | (store) k ev where
      "send_event bytes i e m j =
         pump (put_entry i ((resolve_input m e)\<lparr>je_events := AList.update k ev (je_events (resolve_input m e))\<rparr>) j)"
      "bytes ev + retained_bytes bytes k (je_events (resolve_input m e)) \<le> event_bytes"
      "length (je_events (resolve_input m e)) +
         (if k \<in> set (keys (je_events (resolve_input m e))) then 0 else 1) \<le> 64"
proof -
  define e1 where "e1 = resolve_input m e"
  define k where "k = event_key m"
  define ev where "ev = (let ids = input_ids (je_events e1) @ (case jm_interaction m of None \<Rightarrow> [] | Some x \<Rightarrow> [x])
    in if k = ''interaction-state'' \<or> jm_interaction m \<noteq> None
       then m\<lparr>jm_pending := Some (js_unique ids)\<rparr> else m)"
  have "send_event bytes i e m j =
    (if k = ''progress'' \<and> ordinary_progress_bytes < bytes ev then put_entry i e1 j
     else if event_bytes < bytes ev + retained_bytes bytes k (je_events e1) \<or>
       64 < length (je_events e1) + (if k \<in> set (keys (je_events e1)) then 0 else 1)
     then pump (contain_entry i e1 j)
     else pump (put_entry i (e1\<lparr>je_events := AList.update k ev (je_events e1)\<rparr>) j))"
    unfolding send_event_def Let_def e1_def [symmetric] k_def [symmetric] ev_def by simp
  then show thesis using that unfolding e1_def by (metis not_less)
qed

lemma send_event_move:
  assumes b: "\<And>m. 0 \<le> bytes m" and ok: "entry_ok bytes e" and m: "map_of (jr_entries j) i = Some e0"
    and l: "je_lane e = je_lane e0"
  shows "entries_move bytes (jr_entries j) (jr_entries (send_event bytes i e event j))"
proof -
  let ?e1 = "resolve_input event e"
  have e1: "entry_ok bytes ?e1" "je_lane ?e1 = je_lane e0"
    by (rule resolved_events_ok [OF b ok], simp add: l resolve_input_def split: option.splits)
  have c: "entry_ok bytes (mark_failure i ?e1)" "je_lane (mark_failure i ?e1) = je_lane e0"
    using e1 entry_ok_failure [OF e1(1)] by (simp_all add: mark_failure_def)
  show ?thesis
  proof (cases rule: send_event_cases [of bytes i e event j])
    case (store k ev)
    then show ?thesis using entry_ok_event [OF b e1(1) store(2,3)] e1(2)
      by (auto intro: move_put [OF m])
  qed (use move_put [OF m e1(2,1)] move_put [OF m c(2,1)] in simp_all)
qed

lemma send_response_move:
  assumes b: "\<And>m. 0 \<le> bytes m" and ok: "entry_ok bytes e" and m: "map_of (jr_entries j) i = Some e0"
    and l: "je_lane e = je_lane e0"
  shows "entries_move bytes (jr_entries j) (jr_entries (send_response bytes now i e event j))"
proof -
  have "entry_ok bytes (e\<lparr>je_events := filter (\<lambda>r. fst r = ''assignment'') (je_events e)\<rparr>)"
    by (rule entry_ok_filter [OF b ok])
  then have "entry_ok bytes (e\<lparr>je_completed := c, je_terminal := t,
      je_events := filter (\<lambda>r. fst r = ''assignment'') (je_events e)\<rparr>)" for c t
    by (simp add: entry_ok_def)
  then show ?thesis using l
    by (auto simp: send_response_def Let_def intro!: move_put [OF m] move_delete)
qed

lemma send_event_rest:
  "jr_aux (send_event bytes i e event j) = jr_aux j" "jr_acked (send_event bytes i e event j) = jr_acked j"
  "jr_aux (send_response bytes now i e event j) = jr_aux j"
  "jr_acked (send_response bytes now i e event j) = jr_acked j"
  by (simp_all add: send_event_def send_response_def Let_def)

lemma aux_bound:
  "journal_inv bytes j \<Longrightarrow> length (jr_aux j) < 256 \<or> k \<in> set (keys (jr_aux j)) \<Longrightarrow>
   length (AList.update k v (jr_aux j)) \<le> 256 \<and> distinct (keys (AList.update k v (jr_aux j)))"
  by (auto simp: journal_inv_def update_length distinct_keys_update)

lemma journal_inv_aux: "journal_inv bytes j \<Longrightarrow> length (jr_aux j) \<le> 256 \<and> distinct (keys (jr_aux j))"
  by (simp add: journal_inv_def)

lemma reply_error_inv: "journal_inv bytes j \<Longrightarrow> journal_inv bytes (reply_error i c j)"
  by (rule journal_inv_move [of bytes j])
    (auto simp: reply_error_def Let_def aux_bound journal_inv_aux intro: move_same)

lemma send_auxiliary_inv: "journal_inv bytes j \<Longrightarrow> journal_inv bytes (send_auxiliary b m j)"
  by (rule journal_inv_move [of bytes j])
    (auto simp: send_auxiliary_def aux_bound journal_inv_aux intro: move_same)

lemma send_inv:
  assumes b: "\<And>m. 0 \<le> bytes m" and inv: "journal_inv bytes j"
  shows "journal_inv bytes (send bytes now m j)"
proof (cases "case jm_request m of None \<Rightarrow> None
    | Some i \<Rightarrow> if i = '''' then None else map_option (Pair i) (map_of (jr_entries j) i)")
  case None
  then show ?thesis using send_auxiliary_inv [OF inv] by (simp add: send_def)
next
  case (Some p)
  obtain i e where p: "p = (i, e)" by force
  have m: "map_of (jr_entries j) i = Some e"
    using Some p by (auto split: option.splits if_splits)
  have ok: "entry_ok bytes (e\<lparr>je_sequence := n\<rparr>)" for n
    using entries_ok_entry [of bytes "jr_entries j" i e] inv m by (simp add: journal_inv_def)
  let ?e = "e\<lparr>je_sequence := je_sequence e + 1\<rparr>"
  let ?m = "m\<lparr>jm_seq := je_sequence e + 1\<rparr>"
  have "journal_inv bytes (send_event bytes i ?e ?m j)"
    by (rule journal_inv_move [OF inv send_event_move [OF b ok m]]) (simp_all add: send_event_rest journal_inv_aux [OF inv])
  moreover have "journal_inv bytes (send_response bytes now i ?e ?m j)"
    by (rule journal_inv_move [OF inv send_response_move [OF b ok m]]) (simp_all add: send_event_rest journal_inv_aux [OF inv])
  ultimately show ?thesis using Some p send_auxiliary_inv [OF inv] inv
    by (simp add: send_def Let_def)
qed

lemma put_entry_inv:
  assumes "journal_inv bytes j" "map_of (jr_entries j) i = Some e" "je_lane e' = je_lane e" "entry_ok bytes e'"
  shows "journal_inv bytes (pump (put_entry i e' j)) \<and> journal_inv bytes (put_entry i e' j)"
  using assms by (auto intro!: journal_inv_move [OF assms(1)] move_put simp: journal_inv_aux)

lemma admit_inv:
  assumes inv: "journal_inv bytes j"
  shows "journal_inv bytes (snd (admit digest now r control j))"
proof (cases "map_of (jr_entries j) (rq_id r)")
  case (Some e)
  have "entry_ok bytes e" using inv Some by (auto simp: journal_inv_def dest: entries_ok_entry)
  then show ?thesis using Some put_entry_inv [OF inv Some] reply_error_inv [OF inv]
    by (simp add: admit_def Let_def)
next
  case None
  let ?i = "rq_id r" and ?l = "execution_lane (rq_operation r) control"
  have n: "?i \<notin> set (keys (jr_entries j))" using None by (simp add: map_of_None_keys)
  show ?thesis
  proof (cases "?i \<notin> set (jr_acked j) \<and> lane_used ?l j < lane_capacity ?l")
    case True
    define e where "e = \<lparr>je_uid = jr_next j, je_fingerprint = digest (rq_operation r) (rq_args r),
      je_retained = rq_retained r, je_control = control, je_lane = ?l, je_created = now, je_completed = None,
      je_sequence = 0, je_sent = 0, je_events = [], je_terminal = None, je_failure = None,
      je_abandoned = False, je_acknowledged = False\<rparr>"
    have "snd (admit digest now r control j) = (put_entry ?i e j)\<lparr>jr_next := jr_next j + 1\<rparr>"
      using True None by (simp add: admit_def e_def Let_def)
    moreover have "entry_ok bytes e" "je_lane e = ?l"
      by (simp_all add: e_def entry_ok_def retained_bytes_def event_bytes_def)
    moreover have "length (filter (\<lambda>r. je_lane (snd r) = l) (jr_entries j @ [(?i, e)])) \<le> lane_capacity l" for l
      using inv True \<open>je_lane e = ?l\<close> by (auto simp: journal_inv_def entries_ok_def lane_used_def)
    ultimately show ?thesis using inv n True
      by (auto simp: journal_inv_def entries_ok_def keys_update_new map_add_Some_iff split: if_splits)
  next
    case False
    then show ?thesis using None reply_error_inv [OF inv] by (auto simp: admit_def Let_def)
  qed
qed

lemma journal_inv_entry: "journal_inv bytes j \<Longrightarrow> map_of (jr_entries j) i = Some e \<Longrightarrow> entry_ok bytes e"
  by (auto simp: journal_inv_def dest: entries_ok_entry)

lemma recover_inv: "journal_inv bytes j \<Longrightarrow> journal_inv bytes (recover i after j)"
  by (cases "map_of (jr_entries j) i")
    (simp_all add: recover_def reply_error_inv put_entry_inv journal_inv_entry)

lemma remember_acked_props:
  "length xs \<le> 4096 \<Longrightarrow> length (remember_acked i xs) \<le> 4096 \<and> set (remember_acked i xs) \<subseteq> insert i (set xs)"
  by (auto simp: remember_acked_def Let_def dest: list.set_sel(2) [rotated] split: if_splits)

lemma acknowledge_inv:
  assumes inv: "journal_inv bytes j"
  shows "journal_inv bytes (acknowledge i j)"
proof (cases "map_of (jr_entries j) i")
  case (Some e)
  have ok: "entry_ok bytes e" using inv Some by (auto simp: journal_inv_def dest: entries_ok_entry)
  have "length (remember_acked i (jr_acked j)) \<le> 4096 \<and> set (remember_acked i (jr_acked j)) \<subseteq> insert i (set (jr_acked j))"
    using inv by (intro remember_acked_props) (simp add: journal_inv_def)
  then have "journal_inv bytes (j\<lparr>jr_entries := AList.delete i (jr_entries j), jr_acked := remember_acked i (jr_acked j)\<rparr>)"
    using inv by (auto simp: journal_inv_def entries_ok_delete keys_delete)
  then show ?thesis using Some put_entry_inv [OF inv Some] ok by (simp add: acknowledge_def)
qed (simp add: acknowledge_def inv)

lemma entries_ok_map:
  assumes "entries_ok bytes t" "\<And>i e. je_lane (f i e) = je_lane e" "\<And>i e. entry_ok bytes e \<Longrightarrow> entry_ok bytes (f i e)"
  shows "entries_ok bytes (map (\<lambda>(i, e). (i, f i e)) t)"
proof -
  have "keys (map (\<lambda>(i, e). (i, f i e)) t) = keys t" by (induction t) auto
  moreover have "length (filter (\<lambda>r. je_lane (snd r) = l) (map (\<lambda>(i, e). (i, f i e)) t)) =
      length (filter (\<lambda>r. je_lane (snd r) = l) t)" for l
    by (induction t) (auto simp: assms(2))
  moreover have "map_of (map (\<lambda>(i, e). (i, f i e)) t) k = map_option (f k) (map_of t k)" for k
    by (induction t) auto
  ultimately show ?thesis using assms(1,3) by (auto simp: entries_ok_def)
qed

lemma entries_ok_filter:
  assumes "entries_ok bytes t"
  shows "entries_ok bytes (filter P t)"
proof -
  have d: "distinct (keys t)" using assms by (simp add: entries_ok_def)
  then have "distinct (keys (filter P t))" by (simp add: keys_def distinct_map_filter)
  moreover have "length (filter (\<lambda>r. je_lane (snd r) = l) (filter P t)) \<le> lane_capacity l" for l
  proof -
    have "length (filter (\<lambda>r. je_lane (snd r) = l) (filter P t)) \<le> length (filter (\<lambda>r. je_lane (snd r) = l) t)"
      by (induction t) auto
    then show ?thesis using assms by (auto simp: entries_ok_def intro: order_trans)
  qed
  moreover have "entry_ok bytes e" if "map_of (filter P t) k = Some e" for k e
  proof -
    have "map_of t k = Some e" using map_of_SomeD [OF that] d by (simp add: map_of_Some_iff_in)
    then show ?thesis using assms by (simp add: entries_ok_def)
  qed
  ultimately show ?thesis unfolding entries_ok_def by blast
qed

lemma replace_controller_ok: "entries_ok bytes t \<Longrightarrow> entries_ok bytes (replace_controller t)"
  unfolding replace_controller_def
  by (intro entries_ok_map entries_ok_filter) (auto simp: entry_ok_def)

lemma keys_map_entries: "keys (map (\<lambda>(i, e). (i, f i e)) t) = keys t"
  by (induction t) auto

lemma keys_replace_controller: "set (keys (replace_controller t)) \<subseteq> set (keys t)"
  by (force simp: replace_controller_def keys_def)

lemma connect_inv:
  assumes "journal_inv bytes j"
  shows "journal_inv bytes (connect c j)"
proof -
  define t where "t = (case jr_controller j of
      Some c' \<Rightarrow> if c' \<noteq> '''' \<and> c' \<noteq> c then replace_controller (jr_entries j) else jr_entries j
    | None \<Rightarrow> jr_entries j)"
  have t: "entries_ok bytes t" "set (keys t) \<subseteq> set (keys (jr_entries j))"
    using assms replace_controller_ok [of bytes "jr_entries j"] keys_replace_controller [of "jr_entries j"]
    by (auto simp: t_def journal_inv_def split: option.splits if_splits)
  have "entries_ok bytes (map (\<lambda>(i, e). (i, e\<lparr>je_sent := max_safe_integer\<rparr>)) t)"
    by (rule entries_ok_map [OF t(1)]) auto
  then show ?thesis using assms t(2)
    by (auto simp: connect_def t_def [symmetric] journal_inv_def Let_def keys_map_entries)
qed

lemma link_done_inv:
  assumes inv: "journal_inv bytes j"
  shows "journal_inv bytes (link_done t failed j)"
proof -
  have i1: "journal_inv bytes (j\<lparr>jr_sending := False\<rparr>)" using inv by (simp add: journal_inv_def)
  have rot: "journal_inv bytes (j\<lparr>jr_burst := n, jr_entries := AList.delete i (jr_entries j) @ [(i, e\<lparr>je_sent := s\<rparr>)]\<rparr>)"
    if "journal_inv bytes j" "map_of (jr_entries j) i = Some e" for i e s n j
    by (rule journal_inv_move [OF that(1)])
      (simp_all add: journal_inv_aux [OF that(1)] move_rotate [OF that(2)] journal_inv_entry [OF that])
  have "journal_inv bytes (j\<lparr>jr_burst := n\<rparr>)" if "journal_inv bytes j" for n j
    using that by (simp add: journal_inv_def)
  with rot have r: "journal_inv bytes (receipt_sent uid m j)" if "journal_inv bytes j" for uid m j
    using that by (simp add: receipt_sent_def Let_def split: option.splits)
  have a: "journal_inv bytes (aux_sent aux j)" if "journal_inv bytes j" for aux j
    using that by (auto simp: aux_sent_def Let_def journal_inv_def keys_delete
        intro: order_trans [OF AList.length_delete_le] split: option.splits)
  have "journal_inv bytes (disconnect (j\<lparr>jr_sending := False\<rparr>))"
    using inv by (simp add: disconnect_def journal_inv_def)
  moreover have "journal_inv bytes (j'\<lparr>jr_ticks := n\<rparr>)" if "journal_inv bytes j'" for j' n
    using that by (simp add: journal_inv_def)
  ultimately show ?thesis using inv a r i1 by (simp add: link_done_def Let_def)
qed

lemma journal_step_inv:
  assumes "\<And>m. 0 \<le> bytes m" "journal_inv bytes j"
  shows "journal_inv bytes (journal_step digest bytes j ev)"
proof -
  have "journal_inv bytes (j\<lparr>jr_out := x\<rparr>)" "journal_inv bytes (disconnect j)"
    "journal_inv bytes (pump (j\<lparr>jr_ticks := n\<rparr>))" for x n
    using assms(2) by (simp_all add: journal_inv_def disconnect_def)
  then show ?thesis using assms
    by (cases ev) (simp_all add: admit_inv recover_inv acknowledge_inv connect_inv send_inv link_done_inv)
qed

lemma new_journal_inv: "journal_inv bytes new_journal"
  by (simp add: journal_inv_def new_journal_def entries_ok_def)

section \<open>The link is never idle with work pending\<close>

definition link_base :: "journal \<Rightarrow> bool" where
  "link_base j \<longleftrightarrow> (\<not> jr_link j \<longrightarrow> \<not> jr_sending j) \<and> (\<forall>t \<in> set (jr_out j). tk_epoch t \<le> jr_epoch j) \<and>
     length (filter (\<lambda>t. tk_epoch t = jr_epoch j) (jr_out j)) = (if jr_sending j then 1 else 0)"

definition nothing_due :: "journal \<Rightarrow> bool" where
  "nothing_due j \<longleftrightarrow> jr_aux j = [] \<and> (\<forall>r \<in> set (jr_entries j). due_messages (snd r) = [])"

definition link_inv :: "journal \<Rightarrow> bool" where
  "link_inv j \<longleftrightarrow> link_base j \<and> (jr_link j \<and> \<not> jr_sending j \<longrightarrow> 0 < jr_ticks j \<or> nothing_due j)"

lemma first_due_None: "first_due t = None \<longleftrightarrow> (\<forall>r \<in> set t. due_messages (snd r) = [])"
  by (induction t rule: first_due.induct) (auto split: list.splits)

lemma due_messages_Nil:
  "due_messages e = [] \<longleftrightarrow>
     (\<forall>r \<in> set (je_events e). jm_seq (snd r) \<le> je_sent e) \<and> (\<forall>m. je_terminal e = Some m \<longrightarrow> jm_seq m \<le> je_sent e)"
proof -
  have "due_messages e = [] \<longleftrightarrow> set (due_messages e) = {}" by simp
  also have "\<dots> \<longleftrightarrow> (\<forall>r \<in> set (je_events e). jm_seq (snd r) \<le> je_sent e) \<and>
      (\<forall>m. je_terminal e = Some m \<longrightarrow> jm_seq m \<le> je_sent e)"
    by (auto simp: due_messages_def not_less split: option.splits)
  finally show ?thesis .
qed

lemma pump_link_inv:
  assumes "link_base j"
  shows "link_inv (pump j)"
proof (cases "jr_sending j \<or> \<not> jr_link j")
  case True
  then show ?thesis using assms by (auto simp: link_inv_def pump_def link_base_def)
next
  case False
  have h: "link_inv (hand_over t j)" if "tk_epoch t = jr_epoch j" for t
    using that assms False by (auto simp: link_inv_def link_base_def hand_over_def)
  show ?thesis
  proof (cases "select_receipt j")
    case None
    show ?thesis
    proof (cases "jr_aux j")
      case Nil
      then have "nothing_due j"
        using None by (auto simp: nothing_due_def select_receipt_def first_due_None split: if_splits)
      then show ?thesis using None Nil assms by (simp add: pump_def link_inv_def)
    next
      case (Cons a as)
      obtain k u m where a: "a = (k, u, m)" by (cases a)
      show ?thesis using False None Cons a h by (simp add: pump_def)
    qed
  next
    case (Some p)
    then show ?thesis using False h by (cases p) (simp add: pump_def)
  qed
qed

lemma link_base_cong:
  assumes "jr_link j' = jr_link j" "jr_sending j' = jr_sending j" "jr_epoch j' = jr_epoch j" "jr_out j' = jr_out j"
  shows "link_base j' = link_base j"
  using assms by (simp add: link_base_def)

lemma pump_cong_link_inv:
  assumes "link_base j" "jr_link j' = jr_link j" "jr_sending j' = jr_sending j" "jr_epoch j' = jr_epoch j" "jr_out j' = jr_out j"
  shows "link_inv (pump j')"
  by (rule pump_link_inv) (use assms link_base_cong [OF assms(2-5)] in simp)

lemma reply_error_link: "link_base j \<Longrightarrow> link_inv (reply_error i c j)"
  unfolding reply_error_def Let_def by (rule pump_cong_link_inv [of j]) simp_all

lemma link_inv_base: "link_inv j \<Longrightarrow> link_base j"
  by (simp add: link_inv_def)

text \<open>An operation that does not pump must not make anything due.\<close>

lemma link_inv_fewer:
  assumes "link_inv j" "jr_link j' = jr_link j" "jr_sending j' = jr_sending j" "jr_epoch j' = jr_epoch j"
    and "jr_out j' = jr_out j" "jr_ticks j' = jr_ticks j" "nothing_due j \<Longrightarrow> nothing_due j'"
  shows "link_inv j'"
  using assms link_base_cong [OF assms(2-5)] by (auto simp: link_inv_def)

lemma set_update_subset: "set (AList.update k v t) \<subseteq> insert (k, v) (set t)"
  by (induction t) auto

lemma nothing_due_put:
  "nothing_due j \<Longrightarrow> map_of (jr_entries j) i = Some e \<Longrightarrow> (due_messages e = [] \<Longrightarrow> due_messages e' = []) \<Longrightarrow>
   nothing_due (put_entry i e' j)"
  using set_update_subset [of i e' "jr_entries j"] map_of_SomeD [of "jr_entries j" i e]
  by (fastforce simp: nothing_due_def)

lemma nothing_due_delete: "nothing_due j \<Longrightarrow> nothing_due (j\<lparr>jr_entries := AList.delete i (jr_entries j), jr_acked := a\<rparr>)"
  by (auto simp: nothing_due_def delete_filter)

lemma admit_link:
  assumes "link_inv j"
  shows "link_inv (snd (admit digest now r control j))"
proof -
  note b = link_inv_base [OF assms]
  have n: "link_inv ((put_entry i e j)\<lparr>jr_next := n\<rparr>)"
    if "map_of (jr_entries j) i = None" "due_messages e = []" for i e n
    using that by (intro link_inv_fewer [OF assms]) (auto simp: nothing_due_def keys_update_new map_of_None_keys)
  have "link_inv (pump (put_entry i e j))" for i e
    by (rule pump_cong_link_inv [OF b]) simp_all
  then show ?thesis
    using reply_error_link [OF b] n by (auto simp: admit_def Let_def due_messages_Nil split: option.splits)
qed

lemma acknowledge_link:
  assumes "link_inv j"
  shows "link_inv (acknowledge i j)"
proof (cases "map_of (jr_entries j) i")
  case (Some e)
  have "nothing_due j \<Longrightarrow> nothing_due (put_entry i (e\<lparr>je_acknowledged := True\<rparr>) j)"
    by (rule nothing_due_put [OF _ Some]) (simp_all add: due_messages_Nil)
  then have "link_inv (put_entry i (e\<lparr>je_acknowledged := True\<rparr>) j)"
    by (intro link_inv_fewer [OF assms]) simp_all
  moreover have "link_inv (j\<lparr>jr_entries := AList.delete i (jr_entries j), jr_acked := a\<rparr>)" for a
    by (intro link_inv_fewer [OF assms]) (simp_all add: nothing_due_delete)
  ultimately show ?thesis by (simp add: acknowledge_def Some)
qed (simp add: acknowledge_def assms)

lemma due_messages_filter:
  "due_messages e = [] \<Longrightarrow> due_messages (e\<lparr>je_events := filter P (je_events e)\<rparr>) = []"
  by (auto simp: due_messages_Nil)

lemma send_link:
  assumes "link_inv j"
  shows "link_inv (send bytes now m j)"
proof -
  note b = link_inv_base [OF assms]
  have aux: "link_inv (send_auxiliary bytes m j)"
    unfolding send_auxiliary_def
    by (auto intro!: pump_cong_link_inv [OF b] simp: assms)
  have resp: "link_inv (send_response bytes now i e ev j)" for i e ev
  proof -
    have "link_inv (j\<lparr>jr_entries := AList.delete i (jr_entries j)\<rparr>)"
      using nothing_due_delete [of j "jr_acked j" i] by (intro link_inv_fewer [OF assms]) simp_all
    moreover have "link_inv (pump (put_entry i e' j))" for e'
      by (rule pump_cong_link_inv [OF b]) simp_all
    ultimately show ?thesis by (simp add: send_response_def Let_def)
  qed
  have event: "link_inv (send_event bytes i (e\<lparr>je_sequence := n\<rparr>) ev j)"
    if m: "map_of (jr_entries j) i = Some e" for i e n ev
  proof -
    let ?e1 = "resolve_input ev (e\<lparr>je_sequence := n\<rparr>)"
    have "due_messages ?e1 = []" if "due_messages e = []"
      using that by (auto simp: due_messages_Nil resolve_input_def delete_filter split: option.splits)
    then have "link_inv (put_entry i ?e1 j)"
      by (intro link_inv_fewer [OF assms] nothing_due_put [OF _ m]) simp_all
    moreover have "link_inv (pump (put_entry i e' j))" for e'
      by (rule pump_cong_link_inv [OF b]) simp_all
    moreover have "link_inv (pump (contain_entry i e' j))" for e'
      by (rule pump_cong_link_inv [OF b]) (simp_all add: contain_entry_def split: option.splits)
    ultimately show ?thesis
      by (cases rule: send_event_cases [of bytes i "e\<lparr>je_sequence := n\<rparr>" ev j]) simp_all
  qed
  show ?thesis
    using aux resp event assms
    by (auto simp: send_def Let_def split: option.splits)
qed

lemma connect_link: "link_inv j \<Longrightarrow> link_inv (connect c j)"
  unfolding connect_def Let_def
  by (rule pump_link_inv) (auto simp: link_inv_def link_base_def filter_empty_conv)

lemma disconnect_link: "link_inv j \<Longrightarrow> link_inv (disconnect j)"
  by (auto simp: disconnect_def link_inv_def link_base_def filter_empty_conv)

lemma link_done_link:
  assumes "link_inv j" "n < length (jr_out j)"
  shows "link_inv (link_done (jr_out j ! n) failed (j\<lparr>jr_out := take n (jr_out j) @ drop (Suc n) (jr_out j)\<rparr>))"
proof -
  let ?t = "jr_out j ! n" and ?o = "take n (jr_out j) @ drop (Suc n) (jr_out j)"
  note b = link_inv_base [OF assms(1)]
  have o: "jr_out j = take n (jr_out j) @ ?t # drop (Suc n) (jr_out j)"
    using assms(2) by (simp add: id_take_nth_drop [symmetric])
  have sub: "set ?o \<subseteq> set (jr_out j)" by (auto dest: in_set_takeD in_set_dropD)
  have cnt: "length (filter P (jr_out j)) = length (filter P ?o) + (if P ?t then 1 else 0)" for P
    by (subst o) simp
  show ?thesis
  proof (cases "tk_epoch ?t = jr_epoch j")
    case False
    then have "link_inv (j\<lparr>jr_out := ?o\<rparr>)"
      using assms(1) cnt [of "\<lambda>t. tk_epoch t = jr_epoch j"] sub
      by (auto simp: link_inv_def link_base_def nothing_due_def)
    then show ?thesis using False by (simp add: link_done_def)
  next
    case True
    then have base: "link_base (j\<lparr>jr_out := ?o, jr_sending := False\<rparr>)"
      using b cnt [of "\<lambda>t. tk_epoch t = jr_epoch j"] sub by (auto simp: link_base_def split: if_splits)
    have e: "\<forall>t \<in> set ?o. tk_epoch t \<le> jr_epoch j + 1 \<and> tk_epoch t \<noteq> jr_epoch j + 1"
      using b sub unfolding link_base_def by fastforce
    have "link_inv (disconnect (j\<lparr>jr_out := ?o, jr_sending := False\<rparr>))"
      using e by (auto simp: disconnect_def link_inv_def link_base_def filter_empty_conv)
    moreover have "link_base (aux_sent a (receipt_sent u m (j\<lparr>jr_out := ?o, jr_sending := False\<rparr>)))" for a u m
      by (rule link_base_cong [THEN iffD2, OF _ _ _ _ base])
        (simp_all add: aux_sent_def receipt_sent_def Let_def split: option.splits)
    then have "link_inv ((aux_sent a (receipt_sent u m (j\<lparr>jr_out := ?o, jr_sending := False\<rparr>)))
        \<lparr>jr_ticks := k + 1\<rparr>)" for a u m k
      by (simp add: link_inv_def link_base_def)
    ultimately show ?thesis using True by (simp add: link_done_def Let_def)
  qed
qed

lemma recover_link: "link_inv j \<Longrightarrow> link_inv (recover i after j)"
  by (auto simp: recover_def split: option.splits
      intro!: reply_error_link pump_cong_link_inv [OF link_inv_base] dest: link_inv_base)

lemma journal_step_link:
  assumes "link_inv j"
  shows "link_inv (journal_step digest bytes j ev)"
proof -
  have "link_inv (pump (j\<lparr>jr_ticks := n\<rparr>))" for n
    by (rule pump_cong_link_inv [OF link_inv_base [OF assms]]) simp_all
  then show ?thesis using assms
    by (cases ev) (simp_all add: admit_link recover_link acknowledge_link connect_link disconnect_link
        send_link link_done_link)
qed

section \<open>A retained receipt\<close>

text \<open>How an entry may change while its request is not acknowledged.\<close>

definition evolves :: "jentry \<Rightarrow> jentry \<Rightarrow> bool" where
  "evolves e e' \<longleftrightarrow> je_uid e' = je_uid e \<and> je_fingerprint e' = je_fingerprint e \<and>
     je_retained e' = je_retained e \<and> je_lane e' = je_lane e \<and>
     je_acknowledged e' = je_acknowledged e \<and>
     (\<forall>m. je_terminal e = Some m \<longrightarrow> je_terminal e' = Some m)"

lemma evolves_refl [simp]: "evolves e e"
  by (simp add: evolves_def)

definition held :: "string \<Rightarrow> journal \<Rightarrow> bool" where
  "held i j \<longleftrightarrow> (\<exists>e. map_of (jr_entries j) i = Some e \<and> je_retained e \<and> \<not> je_acknowledged e)"

lemma receipt_sent_entry:
  assumes "map_of (jr_entries j) i = Some e"
  shows "\<exists>e'. map_of (jr_entries (receipt_sent u m j)) i = Some e' \<and> evolves e e'"
  using assms
  by (auto simp: receipt_sent_def Let_def map_add_Some_iff map_of_delete evolves_def split: option.splits)

lemma aux_sent_entries [simp]: "jr_entries (aux_sent a j) = jr_entries j"
  by (simp add: aux_sent_def Let_def split: option.splits)

lemma map_of_map_entries: "map_of (map (\<lambda>(i, e). (i, f i e)) t) k = map_option (f k) (map_of t k)"
  by (induction t) auto

lemma map_of_filter_kept:
  "map_of t k = Some e \<Longrightarrow> P (k, e) \<Longrightarrow> distinct (keys t) \<Longrightarrow> map_of (filter P t) k = Some e"
  by (induction t) (auto dest: map_of_SomeD in_keys)

lemma send_keeps:
  assumes "map_of (jr_entries j) i = Some e" "\<not> je_acknowledged e" "\<not> je_abandoned e"
  shows "\<exists>e'. map_of (jr_entries (send bytes now m j)) i = Some e' \<and> evolves e e'"
proof (cases "case jm_request m of None \<Rightarrow> None
    | Some i \<Rightarrow> if i = '''' then None else map_option (Pair i) (map_of (jr_entries j) i)")
  case None
  then show ?thesis using assms by (simp add: send_def)
next
  case (Some p)
  obtain k f where p: "p = (k, f)" by force
  have f: "map_of (jr_entries j) k = Some f" using Some p by (auto split: option.splits if_splits)
  let ?f = "f\<lparr>je_sequence := je_sequence f + 1\<rparr>" and ?m = "m\<lparr>jm_seq := je_sequence f + 1\<rparr>"
  have put: "\<exists>e'. map_of (AList.update k f' (jr_entries j)) i = Some e' \<and> evolves e e'" if "k = i \<Longrightarrow> evolves e f'" for f'
    using assms(1) that by (auto simp: map_of_update)
  show ?thesis
  proof (cases "jm_type m \<notin> set [''progress'', ''assignment'', ''response''] \<or> je_terminal f \<noteq> None")
    case True
    then show ?thesis using Some p assms(1) by (auto simp: send_def)
  next
    case False
    then have s: "send bytes now m j = (if jm_type m = ''response'' then send_response bytes now k ?f ?m j
        else send_event bytes k ?f ?m j)" and t: "je_terminal f = None"
      using Some p by (auto simp: send_def Let_def)
    have "\<exists>e'. map_of (jr_entries (send_response bytes now k ?f ?m j)) i = Some e' \<and> evolves e e'"
      using assms f t by (cases "k = i")
        (auto simp: send_response_def Let_def map_of_update map_of_delete evolves_def)
    moreover have "\<exists>e'. map_of (jr_entries (send_event bytes k ?f ?m j)) i = Some e' \<and> evolves e e'"
    proof -
      have ev: "evolves e (resolve_input ?m ?f)" "evolves e (mark_failure k (resolve_input ?m ?f))"
        "evolves e ((resolve_input ?m ?f)\<lparr>je_events := x\<rparr>)" if "k = i" for x
        using that assms(1) f t
        by (auto simp: evolves_def resolve_input_def mark_failure_def split: option.splits)
      show ?thesis
        by (cases rule: send_event_cases [of bytes k ?f ?m j])
          (use put [OF ev(1)] put [OF ev(2)] put [OF ev(3)] in simp_all)
    qed
    ultimately show ?thesis using s by simp
  qed
qed

lemma journal_step_keeps:
  assumes inv: "journal_inv bytes j" and m: "map_of (jr_entries j) i = Some e"
    and h: "je_retained e" "\<not> je_acknowledged e" and ev: "ev \<noteq> JAck i"
  shows "\<exists>e'. map_of (jr_entries (journal_step digest bytes j ev)) i = Some e' \<and> evolves e e'"
proof (cases ev)
  case (JAdmit now r control)
  then show ?thesis using m
    by (auto simp: admit_def Let_def map_of_update evolves_def split: option.splits)
next
  case (JRecover k after)
  then show ?thesis using m by (auto simp: recover_def map_of_update evolves_def split: option.splits)
next
  case (JAck k)
  then show ?thesis using m ev
    by (auto simp: acknowledge_def map_of_update map_of_delete evolves_def split: option.splits)
next
  case (JConnect c)
  have d: "distinct (keys (jr_entries j))" using inv by (simp add: journal_inv_def entries_ok_def)
  have "map_of (replace_controller (jr_entries j)) i = Some e"
    unfolding replace_controller_def map_of_map_entries
    using map_of_filter_kept [OF m, of "\<lambda>(i, e). je_retained e \<or> je_terminal e = None"] d h(1) by simp
  then show ?thesis using m JConnect
    by (auto simp: connect_def Let_def map_of_map_entries evolves_def split: option.splits)
next
  case (JSend now x)
  have "\<not> je_abandoned e" using journal_inv_entry [OF inv m] h(1) by (simp add: entry_ok_def)
  then show ?thesis using send_keeps [OF m h(2)] JSend by simp
next
  case (JDone n failed)
  have "\<exists>e'. map_of (jr_entries (link_done t failed j')) i = Some e' \<and> evolves e e'"
    if "jr_entries j' = jr_entries j" for t j'
    using that m receipt_sent_entry [of "j'\<lparr>jr_sending := False\<rparr>" i e "tk_entry t" "tk_msg t"]
    by (auto simp: link_done_def Let_def disconnect_def)
  then show ?thesis using JDone m by simp
qed (use m in \<open>simp_all add: disconnect_def\<close>)

lemma held_step:
  assumes "journal_inv bytes j" "held i j" "ev \<noteq> JAck i"
  shows "held i (journal_step digest bytes j ev)"
  using assms journal_step_keeps [OF assms(1) _ _ _ assms(3), of _ digest]
  by (fastforce simp: held_def evolves_def)

text \<open>The receipt's identity, and its outcome once it has one.\<close>

definition receipt_id :: "string \<Rightarrow> journal \<Rightarrow> (int \<times> string) option" where
  "receipt_id i j = map_option (\<lambda>e. (je_uid e, je_fingerprint e)) (map_of (jr_entries j) i)"

definition settled :: "string \<Rightarrow> journal \<Rightarrow> bool" where
  "settled i j \<longleftrightarrow> held i j \<and> (\<exists>e. map_of (jr_entries j) i = Some e \<and> je_terminal e \<noteq> None)"

definition outcome :: "string \<Rightarrow> journal \<Rightarrow> jmsg option" where
  "outcome i j = (case map_of (jr_entries j) i of None \<Rightarrow> None | Some e \<Rightarrow> je_terminal e)"

lemma receipt_id_step:
  assumes "journal_inv bytes j" "held i j" "ev \<noteq> JAck i"
  shows "receipt_id i (journal_step digest bytes j ev) = receipt_id i j"
  using assms journal_step_keeps [OF assms(1) _ _ _ assms(3), of _ digest]
  by (fastforce simp: held_def receipt_id_def evolves_def)

lemma settled_step:
  assumes "journal_inv bytes j" "settled i j" "ev \<noteq> JAck i"
  shows "settled i (journal_step digest bytes j ev) \<and> outcome i (journal_step digest bytes j ev) = outcome i j"
proof -
  obtain e m where e: "map_of (jr_entries j) i = Some e" "je_retained e" "\<not> je_acknowledged e" "je_terminal e = Some m"
    using assms(2) by (auto simp: settled_def held_def)
  from journal_step_keeps [OF assms(1) e(1-3) assms(3)] obtain e' where
    "map_of (jr_entries (journal_step digest bytes j ev)) i = Some e'" "evolves e e'" by blast
  then show ?thesis using e by (simp add: settled_def held_def outcome_def evolves_def)
qed

interpretation jr: transition_system "journal_step digest (\<lambda>m. int (size_of m))" "\<lambda>ev. True"
    "\<lambda>j. journal_inv (\<lambda>m. int (size_of m)) j \<and> link_inv j"
  by unfold_locales (auto intro: journal_step_inv journal_step_link)

interpretation jr_held: absorbing_system "journal_step digest (\<lambda>m. int (size_of m))" "\<lambda>ev. ev \<noteq> JAck i"
    "journal_inv (\<lambda>m. int (size_of m))" "held i" "receipt_id i"
  by unfold_locales (auto intro: journal_step_inv held_step receipt_id_step)

interpretation jr_settled: absorbing_system "journal_step digest (\<lambda>m. int (size_of m))" "\<lambda>ev. ev \<noteq> JAck i"
    "journal_inv (\<lambda>m. int (size_of m))" "settled i" "outcome i"
  by unfold_locales (auto intro: journal_step_inv dest: settled_step)

lemma new_journal_link: "link_inv new_journal"
  by (simp add: link_inv_def link_base_def new_journal_def)

lemma journal_reachable:
  "journal_inv (\<lambda>m. int (size_of m)) (run (journal_step digest (\<lambda>m. int (size_of m))) new_journal evs) \<and>
   link_inv (run (journal_step digest (\<lambda>m. int (size_of m))) new_journal evs)"
  using jr.run_inv [of size_of new_journal evs digest]
  by (simp add: new_journal_inv new_journal_link list_all_iff)

section \<open>Properties\<close>

lemma lanes_partition:
  "length t = length (filter (\<lambda>r. je_lane (snd r) = LExecution) t) + length (filter (\<lambda>r. je_lane (snd r) = LInspection) t)
     + length (filter (\<lambda>r. je_lane (snd r) = LMetadata) t) + length (filter (\<lambda>r. je_lane (snd r) = LControl) t)"
proof (induction t)
  case (Cons r t)
  then show ?case by (cases "je_lane (snd r)") simp_all
qed simp


definition example_request :: jrequest where
  "example_request = \<lparr>rq_id = ''r1'', rq_operation = ''callTool'', rq_args = JNull, rq_after = 0, rq_retained = True\<rparr>"

definition example_response_msg :: jmsg where
  "example_response_msg = (plain_message ''response'')\<lparr>jm_request := Some ''r1'', jm_body := JStr ''done''\<rparr>"


lemma admit_new_held:
  assumes "admit digest now r control j = (AdmNew, j')" "rq_retained r"
  shows "held (rq_id r) j' \<and> receipt_id (rq_id r) j' = Some (jr_next j, digest (rq_operation r) (rq_args r))"
  using assms by (auto simp: admit_def Let_def held_def receipt_id_def map_of_update split: option.splits if_splits)



text \<open>C13. An outcome is never lost or replaced. A retained receipt that has its terminal message
  keeps exactly that message through every later operation until its acknowledgement.\<close>
theorem outcome_kept_until_acknowledged:
  fixes size_of :: "jmsg \<Rightarrow> nat" and digest :: "string \<Rightarrow> js \<Rightarrow> string"
  defines "step \<equiv> journal_step digest (\<lambda>m. int (size_of m))"
  assumes "settled i (run step new_journal evs)" "list_all (\<lambda>ev. ev \<noteq> JAck i) evs'"
  shows "outcome i (run step new_journal (evs @ evs')) = outcome i (run step new_journal evs) \<and>
    outcome i (run step new_journal evs) \<noteq> None"
proof -
  have inv: "journal_inv (\<lambda>m. int (size_of m)) (run step new_journal evs)"
    unfolding step_def by (rule conjunct1 [OF journal_reachable])
  have "outcome i (run step (run step new_journal evs) evs') = outcome i (run step new_journal evs)"
    using jr_settled.run_closed [OF inv assms(2,3)] unfolding step_def by blast
  moreover have "outcome i (run step new_journal evs) \<noteq> None"
    using assms(2) by (auto simp: settled_def outcome_def)
  ultimately show ?thesis by simp
qed

theorem outcome_kept_until_acknowledged_witness:
  "outcome ''r1'' (run (journal_step (\<lambda>op args. op) (\<lambda>m. int (length (jm_type m)))) new_journal
     ([JAdmit 0 example_request False, JSend 1 example_response_msg] @ [JConnect ''c'', JSend 2 example_response_msg])) =
   Some (example_response_msg\<lparr>jm_seq := 1\<rparr>)"
proof -
  let ?step = "journal_step (\<lambda>op args. op) (\<lambda>m. int (length (jm_type m)))"
  let ?j = "run ?step new_journal [JAdmit 0 example_request False, JSend 1 example_response_msg]"
  have o: "outcome ''r1'' ?j = Some (example_response_msg\<lparr>jm_seq := 1\<rparr>)" "settled ''r1'' ?j"
    by (simp_all add: admit_def Let_def new_journal_def example_request_def execution_lane_def lane_used_def
        put_entry_def send_def send_response_def example_response_msg_def plain_message_def result_bytes_def
        pump_def outcome_def settled_def held_def)
  show ?thesis
    using outcome_kept_until_acknowledged [OF o(2), of "[JConnect ''c'', JSend 2 example_response_msg]"] o(1)
    by simp
qed



end
