(* ===== verification/Relay_Delivery.thy ===== *)
theory Relay_Delivery
  imports Js_Value "HOL-Library.List_Lexorder" "HOL-Library.Char_ord" "HOL-Library.Product_Lexorder"
begin

text \<open>
  Delivery of Codex events to the conversation's relay card: \<open>src/src/relayDelivery.ts\<close>. The rows the
  class keeps under its key prefixes in the store's metadata table are the fields of \<open>relay_store\<close>
  (\<open>GOAL\<close>, \<open>JOB\<close>, \<open>MEMBER\<close>, \<open>READY\<close>, \<open>DEFERRED\<close>, \<open>HISTORY\<close>); \<open>rs_signals\<close> and \<open>rs_diags\<close> log
  the calls of \<open>markRelayReady\<close> and \<open>recordHistoryDiagnostic\<close>. What the class reads from other
  tables of the store is the record \<open>relay_env\<close>, an argument of each operation like the clock: the
  job snapshot, visibility, ended activities, available projects, and \<open>re_retired\<close>, the ids of
  retired work, whose rows the metadata table silently refuses. \<open>sha\<close> is the SHA-256 digest and
  \<open>input_text\<close> the canonical text of a job's pending inputs.
\<close>

section \<open>Data\<close>

datatype relay_kind = RkTerminal | RkInput
datatype relay_state = RPending | RLeased | RSending | RAccepted | RUnknown | RRejected
datatype relay_outcome = OutAccepted | OutUnknown | OutRejected | OutRetryable | OutNotSent

datatype relay_error =
    RelayOwnerRequired | RelayEventInvalid | RelayEventStale | RelayEventPaused | DirectWaitCapacity
  | ResultReviewUnavailable | RelaySourceExpired | FollowupReviewRequired

record relay_owner =
  ro_scope :: string
  ro_principal :: "string option"

record relay_goal = relay_owner +
  rg_activity :: string
  rg_project :: "string option"
  rg_root :: string
  rg_card :: "string option"
  rg_stopped :: bool
  rg_followups_stopped :: bool
  rg_ended :: bool

record relay_event =
  ev_id :: string
  ev_job :: string
  ev_kind :: relay_kind
  ev_version :: int
  ev_state :: relay_state
  ev_attempt :: "string option"
  ev_card :: "string option"
  ev_lease :: "int option"
  ev_attempts :: int
  ev_retry :: "int option"

record relay_registration = relay_owner +
  rr_job :: string
  rr_activity :: string
  rr_project :: "string option"
  rr_event :: "relay_event option"
  rr_paused :: bool
  rr_waits :: "(string \<times> int) list"
  rr_offer :: "(string \<times> int) option"
  rr_review :: "(string \<times> int \<times> int \<times> int) option"
  rr_deferred :: "int option"

datatype relay_diag = DgDelivery relay_state int | DgDecision string string

record relay_store =
  rs_goals :: "(string \<times> relay_goal) list"
  rs_jobs :: "(string \<times> relay_registration) list"
  rs_members :: "((string \<times> string) \<times> unit) list"
  rs_ready :: "((string \<times> string) \<times> string) list"
  rs_deferred :: "((string \<times> int \<times> string) \<times> string) list"
  rs_history :: "((string \<times> string) \<times> relay_event) list"
  rs_signals :: "(string \<times> string) list"
  rs_diags :: "(string \<times> relay_diag) list"

text \<open>The job snapshot of the durable store.\<close>

record event_job =
  ej_id :: string
  ej_activity :: string
  ej_scope :: string
  ej_principal :: "string option"
  ej_project :: "string option"
  ej_status :: string
  ej_version :: int
  ej_terminal_version :: "int option"
  ej_inputs :: "js list"
  ej_tracking :: "string option"
  ej_worker :: "string option"
  ej_generation :: "int option"
  ej_thread :: "string option"

record relay_env =
  re_job :: "string \<Rightarrow> event_job option"
  re_visible :: "string \<Rightarrow> bool"
  re_ended :: "string \<Rightarrow> bool"
  re_project :: "string \<Rightarrow> bool"
  re_retired :: "string \<Rightarrow> bool"
  re_followup :: "string \<Rightarrow> string \<Rightarrow> int \<Rightarrow> bool"

definition direct_wait_grace_ms :: int where
  "direct_wait_grace_ms = 10000"

definition result_review_grace_ms :: int where
  "result_review_grace_ms = 60000"

section \<open>Event identity\<close>

definition terminal_statuses :: "string list" where
  "terminal_statuses = [''completed'', ''failed'', ''interrupted'', ''cancelled'']"

definition truthy_version :: "int option \<Rightarrow> bool" where
  "truthy_version v \<longleftrightarrow> v \<noteq> None \<and> v \<noteq> Some 0"

definition is_object :: "js \<Rightarrow> bool" where
  "is_object v \<longleftrightarrow> is_record v \<or> is_array v"

fun decimal_digits :: "nat \<Rightarrow> nat \<Rightarrow> string" where
  "decimal_digits 0 n = ''''"
| "decimal_digits (Suc f) n =
     (if n < 10 then [char_of (48 + n)] else decimal_digits f (n div 10) @ [char_of (48 + n mod 10)])"

definition int_text :: "int \<Rightarrow> string" where
  "int_text n = (if n < 0 then ''-'' @ decimal_digits (Suc (nat (- n))) (nat (- n)) else decimal_digits (Suc (nat n)) (nat n))"

definition relay_event_of ::
  "(string \<Rightarrow> string) \<Rightarrow> (event_job \<Rightarrow> string) \<Rightarrow> event_job \<Rightarrow> relay_event option" where
  "relay_event_of sha input_text job =
     (let terminal = truthy_version (ej_terminal_version job) \<and> ej_status job \<in> set terminal_statuses;
          inputs = filter is_object (ej_inputs job) in
      if \<not> terminal \<and> (ej_status job \<noteq> ''running'' \<or> inputs = []) then None
      else let ident = (if terminal then ''terminal/'' @ int_text (the (ej_terminal_version job))
                        else ''input/'' @ input_text job) in
        Some \<lparr>ev_id = ''rle_'' @ filter (\<lambda>c. c \<noteq> CHR ''-'') (ej_id job) @
                sha (''codex/relay-event/v1'' @ CHR 0x00 # ident),
              ev_job = ej_id job, ev_kind = (if terminal then RkTerminal else RkInput),
              ev_version = (if ej_version job = 0 then 1 else ej_version job), ev_state = RPending,
              ev_attempt = None, ev_card = None, ev_lease = None, ev_attempts = 0, ev_retry = None\<rparr>)"

definition dispatchable :: "event_job \<Rightarrow> relay_event \<Rightarrow> bool" where
  "dispatchable job ev \<longleftrightarrow> ev_kind ev = RkTerminal \<or> ej_tracking job \<in> {None, Some '''', Some ''connected''}"

definition is_hex :: "char \<Rightarrow> bool" where
  "is_hex c \<longleftrightarrow> (let n = (of_char c :: nat) in 97 \<le> n \<and> n \<le> 102 \<or> 48 \<le> n \<and> n \<le> 57)"

definition relay_event_pattern :: "string \<Rightarrow> bool" where
  "relay_event_pattern s \<longleftrightarrow> starts_with ''rle_'' s \<and> length s = 100 \<and> list_all is_hex (drop 4 s)"

text \<open>Job ids are lower-case UUIDs; a digest is 64 hexadecimal digits.\<close>

definition uuid_text :: "string \<Rightarrow> bool" where
  "uuid_text s \<longleftrightarrow>
     (let parts = split_on (CHR ''-'') s in
      map length parts = [8, 4, 4, 4, 12] \<and> list_all (list_all is_hex) parts)"

definition digest_ok :: "(string \<Rightarrow> string) \<Rightarrow> bool" where
  "digest_ok sha \<longleftrightarrow> (\<forall>x. length (sha x) = 64 \<and> list_all is_hex (sha x))"

definition slice :: "nat \<Rightarrow> nat \<Rightarrow> 'a list \<Rightarrow> 'a list" where
  "slice a b xs = take (b - a) (drop a xs)"

definition relay_event_job_id :: "string \<Rightarrow> (relay_error, string) result" where
  "relay_event_job_id s =
     (if \<not> relay_event_pattern s then Inl RelayEventInvalid
      else let hex = slice 4 36 s in
        Inr (slice 0 8 hex @ ''-'' @ slice 8 12 hex @ ''-'' @ slice 12 16 hex @ ''-'' @ slice 16 20 hex @
             ''-'' @ drop 20 hex))"

section \<open>Rows\<close>

text \<open>\<open>setMeta\<close> drops a row that mentions retired work.\<close>

definition refused :: "relay_env \<Rightarrow> string list \<Rightarrow> bool" where
  "refused env ids \<longleftrightarrow> list_ex (re_retired env) ids"

definition option_list :: "'a option \<Rightarrow> 'a list" where
  "option_list v = (case v of None \<Rightarrow> [] | Some x \<Rightarrow> [x])"

definition save_goal :: "relay_env \<Rightarrow> relay_goal \<Rightarrow> relay_store \<Rightarrow> relay_store" where
  "save_goal env g s =
     (if refused env ([rg_activity g, rg_root g] @ option_list (rg_project g)) then s
      else s\<lparr>rs_goals := AList.update (rg_activity g) g (rs_goals s)\<rparr>)"

definition save_job :: "relay_env \<Rightarrow> relay_registration \<Rightarrow> relay_store \<Rightarrow> relay_store" where
  "save_job env r s =
     (if refused env ([rr_job r, rr_activity r] @ option_list (rr_project r)) then s
      else s\<lparr>rs_jobs := AList.update (rr_job r) r (rs_jobs s)\<rparr>)"

definition held_until :: "relay_registration \<Rightarrow> int \<Rightarrow> int" where
  "held_until r now =
     (case rr_event r of
        None \<Rightarrow> 0
      | Some ev \<Rightarrow>
          if ev_kind ev \<noteq> RkTerminal then 0
          else let review_until = (case rr_review r of
                   Some (i, v, at, until) \<Rightarrow> if i = ev_id ev \<and> v = ev_version ev then until else 0
                 | None \<Rightarrow> 0)
               in Max (set ([review_until, 0] @ filter (\<lambda>u. now < u) (map snd (rr_waits r)))))"

definition clear_index :: "relay_registration \<Rightarrow> relay_store \<Rightarrow> relay_registration \<times> relay_store" where
  "clear_index r s =
     (case rr_event r of
        None \<Rightarrow> (r, s)
      | Some ev \<Rightarrow>
          (r\<lparr>rr_deferred := None\<rparr>,
           s\<lparr>rs_ready := AList.delete (rr_activity r, ev_id ev) (rs_ready s),
             rs_deferred := (case rr_deferred r of None \<Rightarrow> rs_deferred s
               | Some u \<Rightarrow> AList.delete (rr_activity r, u, ev_id ev) (rs_deferred s))\<rparr>))"

definition mark_ready :: "string \<Rightarrow> string \<Rightarrow> relay_store \<Rightarrow> relay_store" where
  "mark_ready a j s = s\<lparr>rs_signals := rs_signals s @ [(a, j)]\<rparr>"

definition index_row ::
  "relay_env \<Rightarrow> int \<Rightarrow> relay_registration \<Rightarrow> relay_store \<Rightarrow> relay_registration \<times> relay_store" where
  "index_row env now r s =
     (case rr_event r of
        None \<Rightarrow> (r, s)
      | Some ev \<Rightarrow>
          if rr_paused r \<or> ev_state ev \<notin> {RPending, RLeased} then (r, s)
          else let until = held_until r now in
            if now < until
            then let d = max until (if ev_state ev = RLeased then (case ev_lease ev of None \<Rightarrow> 0 | Some l \<Rightarrow> l) else 0) in
              (r\<lparr>rr_deferred := Some d\<rparr>,
               if refused env [rr_activity r, rr_job r] then s
               else s\<lparr>rs_deferred := AList.update (rr_activity r, d, ev_id ev) (rr_job r) (rs_deferred s)\<rparr>)
            else (r, mark_ready (rr_activity r) (rr_job r)
               (if refused env [rr_activity r, rr_job r] then s
                else s\<lparr>rs_ready := AList.update (rr_activity r, ev_id ev) (rr_job r) (rs_ready s)\<rparr>)))"

definition diagnose :: "relay_registration \<Rightarrow> relay_store \<Rightarrow> relay_store" where
  "diagnose r s = (case rr_event r of None \<Rightarrow> s
     | Some ev \<Rightarrow> s\<lparr>rs_diags := rs_diags s @ [(rr_job r, DgDelivery (ev_state ev) (ev_attempts ev))]\<rparr>)"

definition diagnose_decision :: "relay_registration \<Rightarrow> string \<Rightarrow> string \<Rightarrow> relay_store \<Rightarrow> relay_store" where
  "diagnose_decision r d w s = s\<lparr>rs_diags := rs_diags s @ [(rr_job r, DgDecision d w)]\<rparr>"

text \<open>The sequence \<open>clearIndex; index; save\<close> most operations end with.\<close>

definition reindex :: "relay_env \<Rightarrow> int \<Rightarrow> (relay_registration \<Rightarrow> relay_registration) \<Rightarrow> relay_registration \<Rightarrow> relay_store \<Rightarrow> relay_store" where
  "reindex env now f r s =
     (case clear_index r s of (r1, s1) \<Rightarrow> case index_row env now (f r1) s1 of (r2, s2) \<Rightarrow> save_job env r2 s2)"

section \<open>Operations\<close>

definition same_owner :: "('a) relay_owner_scheme \<Rightarrow> ('b) relay_owner_scheme \<Rightarrow> bool" where
  "same_owner a b \<longleftrightarrow> ro_scope a = ro_scope b \<and> ro_principal a = ro_principal b"

definition require_goal :: "relay_env \<Rightarrow> string \<Rightarrow> relay_owner \<Rightarrow> relay_store \<Rightarrow> (relay_error, relay_goal) result" where
  "require_goal env a owner s =
     (case map_of (rs_goals s) a of
        None \<Rightarrow> Inl RelayOwnerRequired
      | Some g \<Rightarrow>
          if \<not> same_owner g owner \<or>
             (case rg_project g of None \<Rightarrow> False | Some p \<Rightarrow> p \<noteq> '''' \<and> \<not> re_project env p)
          then Inl RelayOwnerRequired else Inr g)"

definition job_owner :: "event_job \<Rightarrow> relay_owner" where
  "job_owner job = \<lparr>ro_scope = ej_scope job, ro_principal = ej_principal job\<rparr>"

definition new_goal :: "event_job \<Rightarrow> relay_goal" where
  "new_goal job = \<lparr>ro_scope = ej_scope job, ro_principal = ej_principal job, rg_activity = ej_activity job,
     rg_project = ej_project job, rg_root = ej_id job, rg_card = None, rg_stopped = False,
     rg_followups_stopped = False, rg_ended = False\<rparr>"

definition new_registration :: "event_job \<Rightarrow> relay_registration" where
  "new_registration job = \<lparr>ro_scope = ej_scope job, ro_principal = ej_principal job, rr_job = ej_id job,
     rr_activity = ej_activity job, rr_project = ej_project job, rr_event = None, rr_paused = False,
     rr_waits = [], rr_offer = None, rr_review = None, rr_deferred = None\<rparr>"

definition relay_register :: "relay_env \<Rightarrow> event_job \<Rightarrow> relay_store \<Rightarrow> relay_store" where
  "relay_register env job s =
     (if ej_activity job = '''' \<or> re_retired env (ej_id job) then s
      else if map_of (rs_jobs s) (ej_id job) \<noteq> None then s
      else let found = map_of (rs_goals s) (ej_activity job);
               g = (case found of Some g \<Rightarrow> g | None \<Rightarrow> new_goal job);
               s1 = (if found = None then save_goal env g s else s) in
        if \<not> same_owner g (job_owner job) \<or> rg_project g \<noteq> ej_project job \<or> rg_ended g \<or> rg_followups_stopped g
        then s1
        else let s2 = save_job env (new_registration job) s1 in
          if refused env [ej_activity job, ej_id job] then s2
          else s2\<lparr>rs_members := AList.update (ej_activity job, ej_id job) () (rs_members s2)\<rparr>)"

text \<open>The identity change of \<open>reconcileJob\<close>: the old event goes to the history, the new one may
  come back from it.\<close>

definition swap_event ::
  "relay_env \<Rightarrow> relay_event option \<Rightarrow> relay_registration \<Rightarrow> relay_store \<Rightarrow> relay_registration \<times> relay_store" where
  "swap_event env next r s =
     (let j = rr_job r;
          s1 = (case rr_event r of None \<Rightarrow> s
                | Some old \<Rightarrow> if refused env [j] then s
                              else s\<lparr>rs_history := AList.update (j, ev_id old) old (rs_history s)\<rparr>) in
      case next of
        None \<Rightarrow> (r\<lparr>rr_event := None\<rparr>, s1)
      | Some n \<Rightarrow>
          (r\<lparr>rr_event := Some (case map_of (rs_history s1) (j, ev_id n) of Some h \<Rightarrow> h | None \<Rightarrow> n)\<rparr>,
           s1\<lparr>rs_history := AList.delete (j, ev_id n) (rs_history s1)\<rparr>))"

definition event_ident :: "relay_event option \<Rightarrow> string option" where
  "event_ident e = map_option ev_id e"

definition reconcile_job ::
  "relay_env \<Rightarrow> (event_job \<Rightarrow> relay_event option) \<Rightarrow> int \<Rightarrow> event_job \<Rightarrow> relay_store \<Rightarrow> relay_store" where
  "reconcile_job env event_of now job s =
     (case map_of (rs_jobs s) (ej_id job) of
        None \<Rightarrow> s
      | Some r \<Rightarrow>
          (case map_of (rs_goals s) (rr_activity r) of
             None \<Rightarrow> s
           | Some g \<Rightarrow>
               if rg_ended g \<or> rg_stopped g \<or> \<not> same_owner g (job_owner job) \<or> rg_project g \<noteq> ej_project job then s
               else let next = event_of job;
                        same = (event_ident (rr_event r) = event_ident next);
                        paused = (case next of None \<Rightarrow> False | Some n \<Rightarrow> \<not> dispatchable job n) in
                 if same \<and> rr_paused r = paused then s
                 else case clear_index r s of (r1, s1) \<Rightarrow>
                   case (if same then (r1, s1) else swap_event env next r1 s1) of (r2, s2) \<Rightarrow>
                   case index_row env now (r2\<lparr>rr_paused := paused\<rparr>) s2 of (r3, s3) \<Rightarrow> save_job env r3 s3))"

definition relay_connect ::
  "relay_env \<Rightarrow> string \<Rightarrow> relay_owner \<Rightarrow> string \<Rightarrow> relay_store \<Rightarrow> (relay_error, relay_goal \<times> relay_store) result" where
  "relay_connect env a owner cid s =
     res_bind (require_goal env a owner s) (\<lambda>g.
       if rg_ended g \<or> rg_stopped g \<or> re_ended env a then Inr (g\<lparr>rg_ended := True\<rparr>, s)
       else if rg_card g \<noteq> Some cid
       then let g' = g\<lparr>rg_card := Some cid\<rparr> in Inr (g', save_goal env g' s)
       else Inr (g, s))"

definition ready_jobs :: "string \<Rightarrow> int \<Rightarrow> relay_store \<Rightarrow> string list" where
  "ready_jobs a now s =
     map snd (take 64 (sort_key (\<lambda>r. snd (fst r)) (filter (\<lambda>r. fst (fst r) = a) (rs_ready s)))) @
     map snd (filter (\<lambda>r. fst (snd (fst r)) \<le> now)
       (take 64 (sort_key (\<lambda>r. snd (fst r)) (filter (\<lambda>r. fst (fst r) = a) (rs_deferred s)))))"

definition claimable :: "relay_env \<Rightarrow> (event_job \<Rightarrow> relay_event option) \<Rightarrow> relay_goal \<Rightarrow> int \<Rightarrow> relay_registration \<Rightarrow> relay_event \<Rightarrow> bool" where
  "claimable env event_of g now r ev \<longleftrightarrow>
     (case re_job env (rr_job r) of
        None \<Rightarrow> False
      | Some cur \<Rightarrow> re_visible env (rr_job r) \<and> event_ident (event_of cur) = Some (ev_id ev) \<and> dispatchable cur ev) \<and>
     held_until r now \<le> now \<and>
     (ev_state ev = RPending \<and> (case ev_retry ev of None \<Rightarrow> 0 | Some t \<Rightarrow> t) \<le> now \<or>
      ev_state ev = RLeased \<and> ((case ev_lease ev of None \<Rightarrow> 0 | Some t \<Rightarrow> t) \<le> now \<or> ev_card ev \<noteq> rg_card g))"

definition relay_pending ::
  "relay_env \<Rightarrow> (event_job \<Rightarrow> relay_event option) \<Rightarrow> string \<Rightarrow> int \<Rightarrow> relay_store \<Rightarrow> relay_event list" where
  "relay_pending env event_of a now s =
     (case map_of (rs_goals s) a of
        None \<Rightarrow> []
      | Some g \<Rightarrow>
          if rg_ended g \<or> rg_stopped g \<or> re_ended env a then []
          else take 64 (concat (map (\<lambda>j. case map_of (rs_jobs s) j of
                 Some r \<Rightarrow> (case rr_event r of
                     Some ev \<Rightarrow> if claimable env event_of g now r ev then [ev] else []
                   | None \<Rightarrow> [])
               | None \<Rightarrow> []) (ready_jobs a now s))))"

definition require_current_event ::
  "relay_env \<Rightarrow> (event_job \<Rightarrow> relay_event option) \<Rightarrow> string \<Rightarrow> string \<Rightarrow> relay_store \<Rightarrow>
   (relay_error, relay_registration \<times> relay_event) result" where
  "require_current_event env event_of a eid s =
     res_bind (relay_event_job_id eid) (\<lambda>j.
       case map_of (rs_jobs s) j of
         None \<Rightarrow> Inl RelayEventStale
       | Some r \<Rightarrow>
           (case (rr_event r, re_job env (rr_job r)) of
              (Some ev, Some cur) \<Rightarrow>
                if rr_activity r \<noteq> a \<or> ev_id ev \<noteq> eid \<or> \<not> re_visible env (rr_job r) \<or> re_ended env a \<or>
                   event_ident (event_of cur) \<noteq> Some eid
                then Inl RelayEventStale
                else if \<not> dispatchable cur ev then Inl RelayEventPaused
                else Inr (r, ev)
            | _ \<Rightarrow> Inl RelayEventStale))"

definition grant_lease :: "relay_env \<Rightarrow> int \<Rightarrow> string \<Rightarrow> string \<Rightarrow> relay_registration \<Rightarrow> relay_event \<Rightarrow> relay_store \<Rightarrow> relay_event \<times> relay_store" where
  "grant_lease env now cid attempt r ev s =
     (let ev' = ev\<lparr>ev_state := RLeased, ev_card := Some cid, ev_attempt := Some attempt,
                   ev_lease := Some (now + 30000), ev_attempts := ev_attempts ev + 1\<rparr>;
          s1 = (if rr_deferred r \<noteq> None then diagnose_decision r ''release'' ''priority-expired'' s else s);
          s2 = reindex env now (\<lambda>r. r\<lparr>rr_event := Some ev'\<rparr>) r s1
      in (ev', diagnose_decision r ''claim'' ''eligible'' s2))"

definition relay_claim ::
  "relay_env \<Rightarrow> (event_job \<Rightarrow> relay_event option) \<Rightarrow> int \<Rightarrow> string \<Rightarrow> relay_owner \<Rightarrow> string \<Rightarrow> string \<Rightarrow> string \<Rightarrow>
   relay_store \<Rightarrow> (relay_error, relay_event option \<times> relay_store) result" where
  "relay_claim env event_of now a owner cid eid attempt s =
     res_bind (require_goal env a owner s) (\<lambda>g.
     res_bind (require_current_event env event_of a eid s) (\<lambda>(r, ev).
       if rg_card g \<noteq> Some cid \<or> rg_ended g \<or> rg_stopped g then Inr (None, s)
       else if now < held_until r now then Inr (None, s)
       else if ev_attempt ev = Some attempt then Inr (if ev_card ev = Some cid then Some ev else None, s)
       else if eid \<notin> set (map ev_id (relay_pending env event_of a now s)) then Inr (None, s)
       else case grant_lease env now cid attempt r ev s of (ev', s') \<Rightarrow> Inr (Some ev', s')))"

definition begin_sending :: "relay_env \<Rightarrow> relay_registration \<Rightarrow> relay_event \<Rightarrow> relay_store \<Rightarrow> relay_store" where
  "begin_sending env r ev s =
     (let r' = r\<lparr>rr_event := Some (ev\<lparr>ev_state := RSending\<rparr>)\<rparr>
      in case clear_index r' s of (r1, s1) \<Rightarrow> diagnose r' (save_job env r1 s1))"

definition relay_enter ::
  "relay_env \<Rightarrow> (event_job \<Rightarrow> relay_event option) \<Rightarrow> int \<Rightarrow> string \<Rightarrow> relay_owner \<Rightarrow> string \<Rightarrow> string \<Rightarrow> string \<Rightarrow>
   relay_store \<Rightarrow> (relay_error, bool \<times> relay_store) result" where
  "relay_enter env event_of now a owner cid eid attempt s =
     res_bind (require_goal env a owner s) (\<lambda>g.
     res_bind (require_current_event env event_of a eid s) (\<lambda>(r, ev).
       if rg_ended g \<or> rg_stopped g \<or> rg_card g \<noteq> Some cid \<or> ev_card ev \<noteq> Some cid \<or>
          ev_attempt ev \<noteq> Some attempt \<or> ev_state ev \<noteq> RLeased \<or>
          (case ev_lease ev of None \<Rightarrow> 0 | Some t \<Rightarrow> t) \<le> now
       then Inr (False, s)
       else if now < held_until r now then Inr (False, diagnose_decision r ''defer'' ''direct-priority'' s)
       else Inr (True, begin_sending env r ev s)))"

definition outcome_state :: "relay_outcome \<Rightarrow> int \<Rightarrow> relay_state" where
  "outcome_state out attempts =
     (if out = OutAccepted then RAccepted
      else if out = OutUnknown then RUnknown
      else if out = OutNotSent \<or> (out = OutRetryable \<and> attempts < 3) then RPending
      else RRejected)"

definition settle_attempt :: "relay_env \<Rightarrow> int \<Rightarrow> relay_outcome \<Rightarrow> relay_registration \<Rightarrow> relay_event \<Rightarrow> relay_store \<Rightarrow> relay_event \<times> relay_store" where
  "settle_attempt env now out r ev s =
     (let st = outcome_state out (ev_attempts ev);
          ev' = (if st = RPending then ev\<lparr>ev_state := st, ev_retry := Some (now + 2000 * ev_attempts ev)\<rparr>
                 else ev\<lparr>ev_state := st\<rparr>);
          r' = r\<lparr>rr_event := Some ev'\<rparr>
      in (ev', diagnose r' (reindex env now (\<lambda>r. r) r' s)))"

definition relay_acknowledge ::
  "relay_env \<Rightarrow> int \<Rightarrow> string \<Rightarrow> relay_owner \<Rightarrow> string \<Rightarrow> string \<Rightarrow> string \<Rightarrow> relay_outcome \<Rightarrow> relay_store \<Rightarrow>
   (relay_error, relay_event option \<times> relay_store) result" where
  "relay_acknowledge env now a owner cid eid attempt out s =
     res_bind (require_goal env a owner s) (\<lambda>g.
     res_bind (relay_event_job_id eid) (\<lambda>j.
       case map_of (rs_jobs s) j of
         None \<Rightarrow> Inr (None, s)
       | Some r \<Rightarrow>
           (case rr_event r of
              None \<Rightarrow> Inr (None, s)
            | Some ev \<Rightarrow>
                if rr_activity r \<noteq> a \<or> ev_id ev \<noteq> eid \<or> ev_attempt ev \<noteq> Some attempt \<or> ev_card ev \<noteq> Some cid
                then Inr (None, s)
                else if rg_ended g \<or> rg_stopped g then Inr (Some ev, s)
                else if ev_state ev \<notin> {RLeased, RSending} then Inr (Some ev, s)
                else if out = OutNotSent \<and> ev_state ev \<noteq> RLeased then Inr (Some ev, s)
                else if ev_state ev = RLeased \<and> out \<noteq> OutNotSent then Inr (Some ev, s)
                else case settle_attempt env now out r ev s of (ev', s') \<Rightarrow> Inr (Some ev', s'))))"

definition active_status :: "string \<Rightarrow> bool" where
  "active_status st \<longleftrightarrow> st = ''running'' \<or> st = ''terminating'' \<or> st = ''termination-failed''"

definition begin_direct_wait ::
  "relay_env \<Rightarrow> int \<Rightarrow> string \<Rightarrow> relay_owner \<Rightarrow> string \<Rightarrow> int \<Rightarrow> relay_store \<Rightarrow>
   (relay_error, bool \<times> relay_store) result" where
  "begin_direct_wait env now j owner wait_id wait_ms s =
     (case (map_of (rs_jobs s) j, re_job env j) of
        (Some r, Some cur) \<Rightarrow>
          if \<not> active_status (ej_status cur) \<or> \<not> re_visible env j then Inr (False, s)
          else res_bind (require_goal env (rr_activity r) owner s) (\<lambda>g.
            if rg_ended g \<or> rg_stopped g \<or> re_ended env (rr_activity r) then Inr (False, s)
            else let waits = filter (\<lambda>w. now < snd w) (rr_waits r) in
              if 16 \<le> length waits then Inl DirectWaitCapacity
              else let r' = r\<lparr>rr_waits := AList.update wait_id (now + wait_ms + direct_wait_grace_ms) waits\<rparr>
                in Inr (True, diagnose_decision r' ''hold'' ''direct-wait'' (reindex env now (\<lambda>r. r) r' s)))
      | _ \<Rightarrow> Inr (False, s))"

definition end_direct_wait :: "relay_env \<Rightarrow> int \<Rightarrow> string \<Rightarrow> string \<Rightarrow> relay_store \<Rightarrow> relay_store" where
  "end_direct_wait env now j wait_id s =
     (case map_of (rs_jobs s) j of
        None \<Rightarrow> s
      | Some r \<Rightarrow>
          (case map_of (rr_waits r) wait_id of
             None \<Rightarrow> s
           | Some until \<Rightarrow>
               let r' = r\<lparr>rr_waits := AList.update wait_id (min until (now + direct_wait_grace_ms)) (rr_waits r)\<rparr>
               in diagnose_decision r' ''hold'' ''wait-ended-grace'' (reindex env now (\<lambda>r. r) r' s)))"

definition offer_result ::
  "relay_env \<Rightarrow> (event_job \<Rightarrow> relay_event option) \<Rightarrow> string \<Rightarrow> relay_owner \<Rightarrow> string \<Rightarrow> int \<Rightarrow> relay_store \<Rightarrow>
   (relay_error, bool \<times> relay_store) result" where
  "offer_result env event_of j owner eid version s =
     (case (map_of (rs_jobs s) j, re_job env j) of
        (Some r, Some src) \<Rightarrow>
          if ej_status src \<noteq> ''completed'' \<or> \<not> re_visible env j then Inr (False, s)
          else res_bind (require_goal env (rr_activity r) owner s) (\<lambda>g.
            if rg_ended g \<or> rg_stopped g \<or> re_ended env (rr_activity r) \<or>
               (case rr_event r of None \<Rightarrow> True
                | Some ev \<Rightarrow> ev_kind ev \<noteq> RkTerminal \<or> ev_id ev \<noteq> eid \<or> ev_version ev \<noteq> version) \<or>
               event_ident (event_of src) \<noteq> Some eid
            then Inr (False, s)
            else Inr (True, save_job env (r\<lparr>rr_offer := Some (eid, version)\<rparr>) s))
      | _ \<Rightarrow> Inr (False, s))"

record review_answer =
  ra_until :: int
  ra_already :: bool
  ra_entered :: bool

definition entered :: "relay_state \<Rightarrow> bool" where
  "entered st \<longleftrightarrow> st \<in> {RSending, RUnknown, RAccepted, RRejected}"

definition reviewed_until :: "relay_registration \<Rightarrow> string \<Rightarrow> int \<Rightarrow> int option" where
  "reviewed_until r eid version = (case rr_review r of
       Some (i, v, _, until) \<Rightarrow> if i = eid \<and> v = version then Some until else None
     | None \<Rightarrow> None)"

definition review_result ::
  "relay_env \<Rightarrow> (event_job \<Rightarrow> relay_event option) \<Rightarrow> int \<Rightarrow> relay_owner \<Rightarrow> string \<Rightarrow> int \<Rightarrow> relay_store \<Rightarrow>
   (relay_error, review_answer \<times> relay_store) result" where
  "review_result env event_of now owner eid version s =
     res_bind (relay_event_job_id eid) (\<lambda>j.
       case map_of (rs_jobs s) j of
         None \<Rightarrow> Inl RelayEventStale
       | Some r0 \<Rightarrow>
           res_bind (require_goal env (rr_activity r0) owner s) (\<lambda>g.
           res_bind (require_current_event env event_of (rr_activity r0) eid s) (\<lambda>(r, ev).
             if rg_ended g \<or> rg_stopped g \<or>
                (case re_job env (rr_job r) of None \<Rightarrow> True | Some src \<Rightarrow> ej_status src \<noteq> ''completed'') \<or>
                ev_kind ev \<noteq> RkTerminal \<or> ev_version ev \<noteq> version \<or> rr_offer r \<noteq> Some (eid, version)
             then Inl ResultReviewUnavailable
             else case reviewed_until r eid version of
               Some until \<Rightarrow> Inr (\<lparr>ra_until = until, ra_already = True, ra_entered = entered (ev_state ev)\<rparr>, s)
             | None \<Rightarrow>
                 let r' = r\<lparr>rr_review := Some (eid, version, now, now + result_review_grace_ms)\<rparr> in
                   Inr (\<lparr>ra_until = now + result_review_grace_ms, ra_already = False, ra_entered = entered (ev_state ev)\<rparr>,
                        diagnose_decision r' ''hold'' ''model-review'' (reindex env now (\<lambda>r. r) r' s)))))"

definition relay_stop :: "relay_env \<Rightarrow> string \<Rightarrow> relay_owner \<Rightarrow> bool \<Rightarrow> relay_store \<Rightarrow> (relay_error, relay_store) result" where
  "relay_stop env a owner relay_mode s =
     res_bind (require_goal env a owner s) (\<lambda>g.
       let g' = (if relay_mode then g\<lparr>rg_stopped := True\<rparr> else g\<lparr>rg_followups_stopped := True\<rparr>)
       in Inr (mark_ready a (rg_root g) (save_goal env g' s)))"

definition relay_end_activity :: "relay_env \<Rightarrow> string \<Rightarrow> relay_store \<Rightarrow> relay_store" where
  "relay_end_activity env a s =
     (case map_of (rs_goals s) a of
        None \<Rightarrow> s
      | Some g \<Rightarrow>
          if rg_ended g then s
          else mark_ready a (rg_root g) (save_goal env (g\<lparr>rg_ended := True, rg_followups_stopped := True\<rparr>) s))"

definition require_followup ::
  "relay_env \<Rightarrow> (event_job \<Rightarrow> relay_event option) \<Rightarrow> string \<Rightarrow> relay_owner \<Rightarrow> int \<Rightarrow> relay_store \<Rightarrow>
   (relay_error, relay_registration) result" where
  "require_followup env event_of eid owner version s =
     res_bind (relay_event_job_id eid) (\<lambda>j.
       case map_of (rs_jobs s) j of
         None \<Rightarrow> Inl RelaySourceExpired
       | Some r0 \<Rightarrow>
           res_bind (require_goal env (rr_activity r0) owner s) (\<lambda>g.
           res_bind (require_current_event env event_of (rr_activity r0) eid s) (\<lambda>(r, ev).
             if rg_ended g \<or> rg_followups_stopped g \<or>
                (case re_job env (rr_job r0) of None \<Rightarrow> True | Some src \<Rightarrow> ej_status src \<noteq> ''completed'') \<or>
                ev_kind ev \<noteq> RkTerminal \<or> \<not> re_followup env (rr_job r0) (ro_scope owner) version
             then Inl FollowupReviewRequired else Inr r)))"

definition forget_job :: "relay_env \<Rightarrow> string \<Rightarrow> relay_store \<Rightarrow> relay_store" where
  "forget_job env j s =
     (let s1 = s\<lparr>rs_history := filter (\<lambda>row. fst (fst row) \<noteq> j) (rs_history s)\<rparr> in
      case map_of (rs_jobs s1) j of
        None \<Rightarrow> s1
      | Some r \<Rightarrow>
          let s2 = snd (clear_index r s1);
              s3 = s2\<lparr>rs_members := AList.delete (rr_activity r, j) (rs_members s2), rs_jobs := AList.delete j (rs_jobs s2)\<rparr>
          in case map_of (rs_goals s3) (rr_activity r) of
               None \<Rightarrow> s3
             | Some g \<Rightarrow>
                 if \<not> rg_stopped g \<and> \<not> rg_followups_stopped g \<and> \<not> rg_ended g \<and>
                    \<not> list_ex (\<lambda>row. fst (fst row) = rr_activity r) (rs_members s3)
                 then save_goal env (g\<lparr>rg_card := None\<rparr>) s3 else s3)"

text \<open>Recovery: one page of 32 members, in key order, after a cursor.\<close>

definition member_page :: "string \<Rightarrow> string option \<Rightarrow> relay_store \<Rightarrow> string list" where
  "member_page a after s =
     take 32 (filter (\<lambda>j. case after of None \<Rightarrow> True | Some c \<Rightarrow> c = '''' \<or> c < j)
       (sort (map (\<lambda>row. snd (fst row)) (filter (\<lambda>row. fst (fst row) = a) (rs_members s)))))"

definition needs_reconcile :: "relay_env \<Rightarrow> (event_job \<Rightarrow> relay_event option) \<Rightarrow> relay_store \<Rightarrow> event_job \<Rightarrow> bool" where
  "needs_reconcile env event_of s job \<longleftrightarrow>
     (let next = event_of job; r = map_of (rs_jobs s) (ej_id job);
          current = (case r of None \<Rightarrow> None | Some r \<Rightarrow> rr_event r);
          was = (case r of None \<Rightarrow> False | Some r \<Rightarrow> rr_paused r);
          paused = (case next of None \<Rightarrow> False | Some n \<Rightarrow> \<not> dispatchable job n)
      in event_ident next \<noteq> event_ident current \<or> was \<noteq> paused)"

definition relay_recover ::
  "relay_env \<Rightarrow> (event_job \<Rightarrow> relay_event option) \<Rightarrow> int \<Rightarrow> string \<Rightarrow> string option \<Rightarrow> relay_store \<Rightarrow>
   string option \<times> relay_store" where
  "relay_recover env event_of now a after s =
     (let page = member_page a after s;
          changes = concat (map (\<lambda>j. case re_job env j of
            Some job \<Rightarrow> if re_visible env j \<and> needs_reconcile env event_of s job then [job] else []
          | None \<Rightarrow> []) page)
      in (if length page = 32 then Some (last page) else None,
          fold (\<lambda>job. reconcile_job env event_of now job) changes s))"

section \<open>Runs\<close>

text \<open>
  One step is one operation that returned, in some environment that retires nothing the store
  holds. The label is the job a retention step forgets. \<open>event_of\<close> is \<open>relay_event_of sha input_text\<close>.
\<close>

definition live_env :: "relay_env \<Rightarrow> bool" where
  "live_env env \<longleftrightarrow> (\<forall>x. \<not> re_retired env x)"

inductive relay_step ::
  "(event_job \<Rightarrow> relay_event option) \<Rightarrow> string option \<Rightarrow> relay_store \<Rightarrow> relay_store \<Rightarrow> bool"
  for event_of where
  step_register: "live_env env \<Longrightarrow> relay_step event_of None s (relay_register env job s)"
| step_reconcile: "live_env env \<Longrightarrow> uuid_text (ej_id job) \<Longrightarrow> relay_step event_of None s (reconcile_job env event_of now job s)"
| step_connect: "live_env env \<Longrightarrow> relay_connect env a owner cid s = Inr (g, s') \<Longrightarrow> relay_step event_of None s s'"
| step_claim: "live_env env \<Longrightarrow> relay_claim env event_of now a owner cid eid attempt s = Inr (e, s') \<Longrightarrow>
    relay_step event_of None s s'"
| step_enter: "live_env env \<Longrightarrow> relay_enter env event_of now a owner cid eid attempt s = Inr (b, s') \<Longrightarrow>
    relay_step event_of None s s'"
| step_acknowledge: "live_env env \<Longrightarrow> relay_acknowledge env now a owner cid eid attempt out s = Inr (e, s') \<Longrightarrow>
    relay_step event_of None s s'"
| step_begin_wait: "live_env env \<Longrightarrow> begin_direct_wait env now j owner w ms s = Inr (b, s') \<Longrightarrow>
    relay_step event_of None s s'"
| step_end_wait: "live_env env \<Longrightarrow> relay_step event_of None s (end_direct_wait env now j w s)"
| step_offer: "live_env env \<Longrightarrow> offer_result env event_of j owner eid v s = Inr (b, s') \<Longrightarrow> relay_step event_of None s s'"
| step_review: "live_env env \<Longrightarrow> review_result env event_of now owner eid v s = Inr (ra, s') \<Longrightarrow>
    relay_step event_of None s s'"
| step_stop: "live_env env \<Longrightarrow> relay_stop env a owner m s = Inr s' \<Longrightarrow> relay_step event_of None s s'"
| step_end: "live_env env \<Longrightarrow> relay_step event_of None s (relay_end_activity env a s)"
| step_forget: "live_env env \<Longrightarrow> relay_step event_of (Some j) s (forget_job env j s)"

definition relay_move :: "(event_job \<Rightarrow> relay_event option) \<Rightarrow> string \<Rightarrow> relay_store \<Rightarrow> relay_store \<Rightarrow> bool" where
  "relay_move event_of j s s' \<longleftrightarrow> (\<exists>l. relay_step event_of l s s' \<and> l \<noteq> Some j)"

definition empty_relay :: relay_store where
  "empty_relay = \<lparr>rs_goals = [], rs_jobs = [], rs_members = [], rs_ready = [], rs_deferred = [],
     rs_history = [], rs_signals = [], rs_diags = []\<rparr>"

definition relay_reachable :: "(event_job \<Rightarrow> relay_event option) \<Rightarrow> relay_store \<Rightarrow> bool" where
  "relay_reachable event_of s \<longleftrightarrow> (\<lambda>s s'. \<exists>l. relay_step event_of l s s')\<^sup>*\<^sup>* empty_relay s"

section \<open>Frame lemmas\<close>

lemma live_refused [simp]: "live_env env \<Longrightarrow> \<not> refused env ids"
  by (simp add: refused_def live_env_def list_ex_iff)

lemma clear_index_frame [simp]:
  "rs_goals (snd (clear_index r s)) = rs_goals s" "rs_jobs (snd (clear_index r s)) = rs_jobs s"
  "rs_history (snd (clear_index r s)) = rs_history s" "rs_members (snd (clear_index r s)) = rs_members s"
  "rr_job (fst (clear_index r s)) = rr_job r" "rr_activity (fst (clear_index r s)) = rr_activity r"
  "rr_event (fst (clear_index r s)) = rr_event r" "rr_paused (fst (clear_index r s)) = rr_paused r"
  "rr_waits (fst (clear_index r s)) = rr_waits r" "rr_review (fst (clear_index r s)) = rr_review r"
  by (simp_all add: clear_index_def split: option.splits)

lemma index_row_frame [simp]:
  "rs_goals (snd (index_row env now r s)) = rs_goals s" "rs_jobs (snd (index_row env now r s)) = rs_jobs s"
  "rs_history (snd (index_row env now r s)) = rs_history s" "rs_members (snd (index_row env now r s)) = rs_members s"
  "rr_job (fst (index_row env now r s)) = rr_job r" "rr_activity (fst (index_row env now r s)) = rr_activity r"
  "rr_event (fst (index_row env now r s)) = rr_event r" "rr_paused (fst (index_row env now r s)) = rr_paused r"
  "rr_waits (fst (index_row env now r s)) = rr_waits r" "rr_review (fst (index_row env now r s)) = rr_review r"
  by (simp_all add: index_row_def mark_ready_def Let_def split: option.splits)

lemma diagnose_frame [simp]:
  "rs_goals (diagnose r s) = rs_goals s" "rs_jobs (diagnose r s) = rs_jobs s"
  "rs_history (diagnose r s) = rs_history s" "rs_ready (diagnose r s) = rs_ready s"
  "rs_deferred (diagnose r s) = rs_deferred s"
  "rs_goals (diagnose_decision r d w s) = rs_goals s" "rs_jobs (diagnose_decision r d w s) = rs_jobs s"
  "rs_history (diagnose_decision r d w s) = rs_history s" "rs_ready (diagnose_decision r d w s) = rs_ready s"
  "rs_deferred (diagnose_decision r d w s) = rs_deferred s"
  by (simp_all add: diagnose_def diagnose_decision_def split: option.splits)

lemma mark_ready_frame [simp]:
  "rs_goals (mark_ready a j s) = rs_goals s" "rs_jobs (mark_ready a j s) = rs_jobs s"
  "rs_history (mark_ready a j s) = rs_history s" "rs_ready (mark_ready a j s) = rs_ready s"
  "rs_deferred (mark_ready a j s) = rs_deferred s"
  by (simp_all add: mark_ready_def)

lemma save_job_frame [simp]:
  "rs_goals (save_job env r s) = rs_goals s" "rs_history (save_job env r s) = rs_history s"
  "rs_ready (save_job env r s) = rs_ready s" "rs_deferred (save_job env r s) = rs_deferred s"
  "live_env env \<Longrightarrow> rs_jobs (save_job env r s) = AList.update (rr_job r) r (rs_jobs s)"
  by (simp_all add: save_job_def)

lemma save_goal_frame [simp]:
  "rs_jobs (save_goal env g s) = rs_jobs s" "rs_history (save_goal env g s) = rs_history s"
  "rs_ready (save_goal env g s) = rs_ready s" "rs_deferred (save_goal env g s) = rs_deferred s"
  "live_env env \<Longrightarrow> rs_goals (save_goal env g s) = AList.update (rg_activity g) g (rs_goals s)"
  by (simp_all add: save_goal_def)

lemma reindex_frame:
  assumes "\<And>r. rr_job (f r) = rr_job r" "live_env env"
  shows "rs_goals (reindex env now f r s) = rs_goals s" "rs_history (reindex env now f r s) = rs_history s"
    "\<exists>r'. rs_jobs (reindex env now f r s) = AList.update (rr_job r) r' (rs_jobs s) \<and>
       rr_job r' = rr_job r \<and> rr_event r' = rr_event (f (fst (clear_index r s)))"
proof -
  let ?c = "clear_index r s" and ?i = "index_row env now (f (fst (clear_index r s))) (snd (clear_index r s))"
  have "reindex env now f r s = save_job env (fst ?i) (snd ?i)"
    by (simp add: reindex_def split_beta)
  then show "rs_goals (reindex env now f r s) = rs_goals s" "rs_history (reindex env now f r s) = rs_history s"
    "\<exists>r'. rs_jobs (reindex env now f r s) = AList.update (rr_job r) r' (rs_jobs s) \<and>
       rr_job r' = rr_job r \<and> rr_event r' = rr_event (f (fst (clear_index r s)))"
    using assms by auto
qed

section \<open>A stopped or ended goal\<close>

definition quiet :: "relay_goal \<Rightarrow> bool" where
  "quiet g \<longleftrightarrow> rg_ended g \<or> rg_stopped g"

definition goals_wf :: "relay_store \<Rightarrow> bool" where
  "goals_wf s \<longleftrightarrow> (\<forall>a g. map_of (rs_goals s) a = Some g \<longrightarrow> rg_activity g = a)"

lemma swap_event_frame [simp]:
  "rs_goals (snd (swap_event env n r s)) = rs_goals s" "rs_jobs (snd (swap_event env n r s)) = rs_jobs s"
  "rr_job (fst (swap_event env n r s)) = rr_job r" "rr_activity (fst (swap_event env n r s)) = rr_activity r"
  by (simp_all add: swap_event_def Let_def split: option.splits)

lemma reconcile_goals [simp]: "rs_goals (reconcile_job env event_of now job s) = rs_goals s"
  by (simp add: reconcile_job_def Let_def split_beta split: option.splits)

lemma require_goal_Inr:
  "require_goal env a owner s = Inr g \<longleftrightarrow> map_of (rs_goals s) a = Some g \<and> same_owner g owner \<and>
     (case rg_project g of None \<Rightarrow> True | Some p \<Rightarrow> p = '''' \<or> re_project env p)"
  by (auto simp: require_goal_def split: option.splits)

text \<open>What a step does to the goals: nothing, or one goal is created or updated.\<close>

definition goal_move :: "relay_store \<Rightarrow> relay_store \<Rightarrow> bool" where
  "goal_move s s' \<longleftrightarrow> rs_goals s' = rs_goals s \<or>
     (\<exists>g'. rs_goals s' = AList.update (rg_activity g') g' (rs_goals s) \<and>
        (\<forall>g. map_of (rs_goals s) (rg_activity g') = Some g \<longrightarrow> same_owner g' g \<and> (quiet g \<longrightarrow> quiet g')))"

lemma goal_move_same: "rs_goals s' = rs_goals s \<Longrightarrow> goal_move s s'"
  by (simp add: goal_move_def)

lemma goal_move_put:
  "rs_goals s' = AList.update (rg_activity g') g' (rs_goals s) \<Longrightarrow>
   (\<And>g. map_of (rs_goals s) (rg_activity g') = Some g \<Longrightarrow> same_owner g' g \<and> (quiet g \<longrightarrow> quiet g')) \<Longrightarrow> goal_move s s'"
  by (auto simp: goal_move_def)

lemma relay_register_goals: "live_env env \<Longrightarrow> goal_move s (relay_register env job s)"
proof (cases "map_of (rs_goals s) (ej_activity job)")
  case None
  assume l: "live_env env"
  have "rg_activity (new_goal job) = ej_activity job" by (simp add: new_goal_def)
  moreover have "rs_goals (relay_register env job s) = rs_goals s \<or>
      rs_goals (relay_register env job s) = AList.update (ej_activity job) (new_goal job) (rs_goals s)"
    using None l by (auto simp: relay_register_def Let_def new_goal_def)
  ultimately show ?thesis using None
    by (auto intro: goal_move_same goal_move_put [of _ "new_goal job"])
next
  case (Some g)
  then show ?thesis by (auto simp: relay_register_def Let_def intro!: goal_move_same)
qed

lemma reindex_goals [simp]: "(\<And>r. rr_job (f r) = rr_job r) \<Longrightarrow> rs_goals (reindex env now f r s) = rs_goals s"
  by (simp add: reindex_def split_beta)

text \<open>The successful outcomes of the three steps of an attempt.\<close>

lemma claim_cases:
  assumes "relay_claim env event_of now a owner cid eid attempt s = Inr (e, s')"
  obtains "s' = s"
  | r ev g where "require_current_event env event_of a eid s = Inr (r, ev)" "require_goal env a owner s = Inr g"
      "rg_card g = Some cid" "\<not> quiet g" "held_until r now \<le> now" "eid \<in> set (map ev_id (relay_pending env event_of a now s))"
      "e = Some (fst (grant_lease env now cid attempt r ev s))" "s' = snd (grant_lease env now cid attempt r ev s)"
  using assms by (auto simp: relay_claim_def result_simps quiet_def not_less split: if_splits prod.splits)

lemma enter_cases:
  assumes "relay_enter env event_of now a owner cid eid attempt s = Inr (b, s')"
  obtains "\<not> b" "\<exists>r. s' = s \<or> s' = diagnose_decision r ''defer'' ''direct-priority'' s"
  | r ev g where "b" "require_current_event env event_of a eid s = Inr (r, ev)" "require_goal env a owner s = Inr g"
      "\<not> quiet g" "rg_card g = Some cid" "ev_card ev = Some cid" "ev_attempt ev = Some attempt" "ev_state ev = RLeased"
      "held_until r now \<le> now" "s' = begin_sending env r ev s"
  using assms by (auto simp: relay_enter_def result_simps quiet_def not_less split: if_splits prod.splits)

lemma acknowledge_cases:
  assumes "relay_acknowledge env now a owner cid eid attempt out s = Inr (e, s')"
  obtains "s' = s"
  | j r ev where "relay_event_job_id eid = Inr j" "map_of (rs_jobs s) j = Some r" "rr_event r = Some ev" "ev_id ev = eid"
      "ev_attempt ev = Some attempt" "ev_card ev = Some cid" "ev_state ev \<in> {RLeased, RSending}"
      "e = Some (fst (settle_attempt env now out r ev s))" "s' = snd (settle_attempt env now out r ev s)"
proof -
  obtain g j where gj: "require_goal env a owner s = Inr g" "relay_event_job_id eid = Inr j"
    using assms by (auto simp: relay_acknowledge_def result_simps)
  show thesis
  proof (cases "map_of (rs_jobs s) j")
    case None
    then show ?thesis using assms gj that(1) by (simp add: relay_acknowledge_def)
  next
    case r: (Some r)
    show ?thesis
    proof (cases "rr_event r")
      case None
      then show ?thesis using assms gj r that(1) by (simp add: relay_acknowledge_def)
    next
      case ev: (Some ev)
      let ?c = "rr_activity r = a \<and> ev_id ev = eid \<and> ev_attempt ev = Some attempt \<and> ev_card ev = Some cid \<and>
        \<not> (rg_ended g \<or> rg_stopped g) \<and> ev_state ev \<in> {RLeased, RSending} \<and>
        \<not> (out = OutNotSent \<and> ev_state ev \<noteq> RLeased) \<and> \<not> (ev_state ev = RLeased \<and> out \<noteq> OutNotSent)"
      have u: "relay_acknowledge env now a owner cid eid attempt out s =
        (if ?c then Inr (Some (fst (settle_attempt env now out r ev s)), snd (settle_attempt env now out r ev s))
         else if rr_activity r = a \<and> ev_id ev = eid \<and> ev_attempt ev = Some attempt \<and> ev_card ev = Some cid
         then Inr (Some ev, s) else Inr (None, s))"
        using gj r ev by (simp add: relay_acknowledge_def split_beta) blast
      show ?thesis
      proof (cases ?c)
        case True
        then show ?thesis using assms that(2) [OF gj(2) r ev] by (simp add: u)
      next
        case False
        have "s' = s" using assms unfolding u if_not_P [OF False] by (simp split: if_split_asm)
        then show ?thesis by (rule that(1))
      qed
    qed
  qed
qed

lemma attempt_goals [simp]:
  "rs_goals (snd (grant_lease env now cid attempt r ev s)) = rs_goals s"
  "rs_goals (begin_sending env r ev s) = rs_goals s"
  "rs_goals (snd (settle_attempt env now out r ev s)) = rs_goals s"
  by (simp_all add: grant_lease_def begin_sending_def settle_attempt_def Let_def split_beta)

lemma claim_goals: "relay_claim env event_of now a owner cid eid attempt s = Inr (e, s') \<Longrightarrow> rs_goals s' = rs_goals s"
  by (erule claim_cases) simp_all

lemma enter_goals: "relay_enter env event_of now a owner cid eid attempt s = Inr (b, s') \<Longrightarrow> rs_goals s' = rs_goals s"
  by (erule enter_cases) auto

lemma acknowledge_goals: "relay_acknowledge env now a owner cid eid attempt out s = Inr (e, s') \<Longrightarrow> rs_goals s' = rs_goals s"
  by (erule acknowledge_cases) simp_all

lemma wait_goals:
  "begin_direct_wait env now j owner w ms s = Inr (b, s') \<Longrightarrow> rs_goals s' = rs_goals s"
  "rs_goals (end_direct_wait env now j w s) = rs_goals s"
  by (auto simp: begin_direct_wait_def end_direct_wait_def Let_def result_simps split: if_splits option.splits)

lemma offer_review_goals:
  "offer_result env event_of j owner eid v s = Inr (b, s') \<Longrightarrow> rs_goals s' = rs_goals s"
  "review_result env event_of now owner eid v s = Inr (ra, s') \<Longrightarrow> rs_goals s' = rs_goals s"
  by (auto simp: offer_result_def review_result_def Let_def result_simps split: if_splits option.splits prod.splits)

lemma relay_step_goals:
  assumes "relay_step event_of l s s'" "goals_wf s"
  shows "goal_move s s'"
  using assms
proof (induction rule: relay_step.induct)
  case (step_connect env a owner cid s g s')
  then obtain g0 where g0: "map_of (rs_goals s) a = Some g0" by (auto simp: relay_connect_def result_simps require_goal_Inr)
  then have "rg_activity g0 = a" using step_connect(3) by (simp add: goals_wf_def)
  then show ?case using step_connect(1,2) g0
    by (auto simp: relay_connect_def result_simps require_goal_Inr Let_def quiet_def same_owner_def
        intro: goal_move_same goal_move_put [of _ "g0\<lparr>rg_card := Some cid\<rparr>"] split: if_splits)
next
  case (step_stop env a owner m s s')
  then obtain g0 where g0: "map_of (rs_goals s) a = Some g0" by (auto simp: relay_stop_def result_simps require_goal_Inr)
  then have "rg_activity g0 = a" using step_stop(3) by (simp add: goals_wf_def)
  then show ?case using step_stop(1,2) g0
    by (intro goal_move_put [where g' = "if m then g0\<lparr>rg_stopped := True\<rparr> else g0\<lparr>rg_followups_stopped := True\<rparr>"])
      (auto simp: relay_stop_def result_simps require_goal_Inr quiet_def same_owner_def Let_def split: if_splits)
next
  case (step_end env s a)
  show ?case
  proof (cases "map_of (rs_goals s) a")
    case (Some g0)
    then have "rg_activity g0 = a" using step_end(2) by (simp add: goals_wf_def)
    then show ?thesis using step_end(1) Some
      by (cases "rg_ended g0") (auto simp: relay_end_activity_def quiet_def same_owner_def
          intro: goal_move_same goal_move_put [of _ "g0\<lparr>rg_ended := True, rg_followups_stopped := True\<rparr>"])
  qed (simp add: relay_end_activity_def goal_move_same)
next
  case (step_forget env j s)
  show ?case
  proof (cases "map_of (rs_jobs s) j")
    case (Some r)
    show ?thesis
    proof (cases "map_of (rs_goals s) (rr_activity r)")
      case None
      then show ?thesis using Some by (simp add: forget_job_def Let_def goal_move_same)
    next
      case g: (Some g0)
      then have "rg_activity g0 = rr_activity r" using step_forget(2) by (simp add: goals_wf_def)
      then show ?thesis using step_forget(1) Some g
        by (auto simp: forget_job_def Let_def quiet_def same_owner_def
            intro: goal_move_same goal_move_put [where g' = "g0\<lparr>rg_card := None\<rparr>"])
    qed
  qed (simp add: forget_job_def goal_move_same)
qed (auto intro: relay_register_goals goal_move_same simp: wait_goals dest: claim_goals enter_goals
    acknowledge_goals wait_goals(1) offer_review_goals)

lemma goals_wf_move: "goal_move s s' \<Longrightarrow> goals_wf s \<Longrightarrow> goals_wf s'"
  by (auto simp: goal_move_def goals_wf_def map_of_update split: if_splits)

lemma reachable_goals_wf: "relay_reachable event_of s \<Longrightarrow> goals_wf s"
  unfolding relay_reachable_def
proof (induction rule: rtranclp_induct)
  case base
  then show ?case by (simp add: goals_wf_def empty_relay_def)
next
  case (step s s')
  then show ?case using relay_step_goals goals_wf_move by blast
qed

lemma quiet_run:
  assumes "(\<lambda>s s'. \<exists>l. relay_step event_of l s s')\<^sup>*\<^sup>* s s'" "goals_wf s" "map_of (rs_goals s) a = Some g" "quiet g"
  shows "\<exists>g'. map_of (rs_goals s') a = Some g' \<and> quiet g'"
proof -
  have "goals_wf s' \<and> (\<exists>g'. map_of (rs_goals s') a = Some g' \<and> quiet g')"
    using assms
  proof (induction rule: rtranclp_induct)
    case (step s1 s2)
    then obtain l g1 where "relay_step event_of l s1 s2" "goals_wf s1" "map_of (rs_goals s1) a = Some g1" "quiet g1"
      by auto
    then have m: "goal_move s1 s2" using relay_step_goals by blast
    then show ?case using goals_wf_move [OF m \<open>goals_wf s1\<close>] \<open>map_of (rs_goals s1) a = Some g1\<close> \<open>quiet g1\<close>
      by (auto simp: goal_move_def map_of_update)
  qed auto
  then show ?thesis by simp
qed

section \<open>What a step does to one job's events\<close>

definition idents_ok :: "(event_job \<Rightarrow> relay_event option) \<Rightarrow> bool" where
  "idents_ok event_of \<longleftrightarrow>
     (\<forall>job n. uuid_text (ej_id job) \<longrightarrow> event_of job = Some n \<longrightarrow> relay_event_job_id (ev_id n) = Inr (ej_id job))"

definition relay_wf :: "relay_store \<Rightarrow> bool" where
  "relay_wf s \<longleftrightarrow>
     (\<forall>j r. map_of (rs_jobs s) j = Some r \<longrightarrow>
        rr_job r = j \<and> (\<forall>ev. rr_event r = Some ev \<longrightarrow> relay_event_job_id (ev_id ev) = Inr j)) \<and>
     (\<forall>j e h. map_of (rs_history s) (j, e) = Some h \<longrightarrow> ev_id h = e \<and> relay_event_job_id e = Inr j)"

definition final_state :: "relay_state \<Rightarrow> bool" where
  "final_state st \<longleftrightarrow> st \<in> {RAccepted, RUnknown, RRejected}"

definition event_follows :: "relay_event option \<Rightarrow> relay_event option \<Rightarrow> bool" where
  "event_follows e e' \<longleftrightarrow> e' = e \<or>
     (\<exists>ev ev'. e = Some ev \<and> e' = Some ev' \<and> ev_id ev' = ev_id ev \<and> \<not> final_state (ev_state ev))"

inductive job_move :: "string option \<Rightarrow> relay_store \<Rightarrow> relay_store \<Rightarrow> bool" where
  jm_same: "rs_jobs s' = rs_jobs s \<Longrightarrow> rs_history s' = rs_history s \<Longrightarrow> job_move l s s'"
| jm_new: "map_of (rs_jobs s) (rr_job r) = None \<Longrightarrow> rr_event r = None \<Longrightarrow>
    rs_jobs s' = AList.update (rr_job r) r (rs_jobs s) \<Longrightarrow> rs_history s' = rs_history s \<Longrightarrow> job_move None s s'"
| jm_event: "map_of (rs_jobs s) (rr_job r') = Some r \<Longrightarrow> event_follows (rr_event r) (rr_event r') \<Longrightarrow>
    rs_jobs s' = AList.update (rr_job r') r' (rs_jobs s) \<Longrightarrow> rs_history s' = rs_history s \<Longrightarrow> job_move None s s'"
| jm_swap: "map_of (rs_jobs s) (rr_job r') = Some r \<Longrightarrow> event_ident next \<noteq> event_ident (rr_event r) \<Longrightarrow>
    (\<And>n. next = Some n \<Longrightarrow> relay_event_job_id (ev_id n) = Inr (rr_job r')) \<Longrightarrow> live_env env \<Longrightarrow>
    rr_event r0 = rr_event r \<Longrightarrow> rr_job r0 = rr_job r' \<Longrightarrow> rs_history s0 = rs_history s \<Longrightarrow>
    rr_event r' = rr_event (fst (swap_event env next r0 s0)) \<Longrightarrow>
    rs_jobs s' = AList.update (rr_job r') r' (rs_jobs s) \<Longrightarrow>
    rs_history s' = rs_history (snd (swap_event env next r0 s0)) \<Longrightarrow> job_move None s s'"
| jm_forget: "rs_jobs s' = AList.delete j (rs_jobs s) \<or> (map_of (rs_jobs s) j = None \<and> rs_jobs s' = rs_jobs s) \<Longrightarrow>
    rs_history s' = filter (\<lambda>row. fst (fst row) \<noteq> j) (rs_history s) \<Longrightarrow> job_move (Some j) s s'"

lemma reindex_jobs_event:
  assumes "live_env env" "map_of (rs_jobs s) j = Some r" "rr_job r' = j" "event_follows (rr_event r) (rr_event (f r'))"
    and "\<And>x. rr_job (f x) = rr_job x" "\<And>d. rr_event (f (r'\<lparr>rr_deferred := d\<rparr>)) = rr_event (f r')"
    and "rs_jobs s0 = rs_jobs s" "rs_history s0 = rs_history s"
    and "rs_jobs s' = rs_jobs (reindex env now f r' s0)" "rs_history s' = rs_history (reindex env now f r' s0)"
  shows "job_move None s s'"
proof -
  obtain r2 where r2: "rs_jobs (reindex env now f r' s0) = AList.update j r2 (rs_jobs s)"
    "rr_job r2 = j" "rr_event r2 = rr_event (f (fst (clear_index r' s0)))"
    using reindex_frame(3) [of f env now r' s0, OF assms(5,1)] assms(3,7) by auto
  have "rr_event (f (fst (clear_index r' s0))) = rr_event (f r')"
    by (simp add: clear_index_def assms(6) split: option.splits)
  then show ?thesis using assms r2 reindex_frame(2) [of f env now r' s0, OF assms(5,1)]
    by (intro jm_event [of s r2 r]) simp_all
qed

lemma require_current_Inr:
  assumes "require_current_event env event_of a eid s = Inr (r, ev)" "relay_wf s"
  shows "\<exists>j. relay_event_job_id eid = Inr j \<and> map_of (rs_jobs s) j = Some r \<and> rr_job r = j \<and>
    rr_event r = Some ev \<and> ev_id ev = eid \<and> rr_activity r = a"
proof -
  obtain j where j: "relay_event_job_id eid = Inr j"
    using assms(1) by (auto simp: require_current_event_def result_simps)
  obtain r0 where r0: "map_of (rs_jobs s) j = Some r0"
    using assms(1) j by (cases "map_of (rs_jobs s) j") (simp_all add: require_current_event_def)
  show ?thesis using assms j r0
    by (cases "rr_event r0"; cases "re_job env (rr_job r0)")
      (auto simp: require_current_event_def relay_wf_def split: if_splits)
qed

lemma pending_event:
  assumes "ev \<in> set (relay_pending env event_of a now s)"
  shows "\<exists>j r g. map_of (rs_jobs s) j = Some r \<and> rr_event r = Some ev \<and> map_of (rs_goals s) a = Some g \<and>
    claimable env event_of g now r ev"
  using assms
  by (auto simp: relay_pending_def split: option.splits if_splits dest!: in_set_takeD) (metis (no_types))

lemma claimable_not_final: "claimable env event_of g now r ev \<Longrightarrow> \<not> final_state (ev_state ev)"
  by (auto simp: claimable_def final_state_def)

lemma grant_lease_move:
  assumes "live_env env" "map_of (rs_jobs s) (rr_job r) = Some r" "rr_event r = Some ev" "\<not> final_state (ev_state ev)"
  shows "job_move None s (snd (grant_lease env now cid attempt r ev s))"
  unfolding grant_lease_def Let_def snd_conv
  by (rule reindex_jobs_event [OF assms(1,2)]) (use assms in \<open>auto simp: event_follows_def\<close>)

lemma begin_sending_move:
  assumes "live_env env" "map_of (rs_jobs s) (rr_job r) = Some r" "rr_event r = Some ev" "\<not> final_state (ev_state ev)"
  shows "job_move None s (begin_sending env r ev s)"
proof -
  let ?r1 = "fst (clear_index (r\<lparr>rr_event := Some (ev\<lparr>ev_state := RSending\<rparr>)\<rparr>) s)"
  show ?thesis
    by (rule jm_event [of s ?r1 r]) (use assms in \<open>auto simp: begin_sending_def Let_def split_beta event_follows_def\<close>)
qed

lemma settle_attempt_move:
  assumes "live_env env" "map_of (rs_jobs s) (rr_job r) = Some r" "rr_event r = Some ev" "\<not> final_state (ev_state ev)"
  shows "job_move None s (snd (settle_attempt env now out r ev s))"
  unfolding settle_attempt_def Let_def snd_conv
  by (rule reindex_jobs_event [OF assms(1,2)]) (use assms in \<open>auto simp: event_follows_def\<close>)

lemma register_move: "live_env env \<Longrightarrow> job_move None s (relay_register env job s)"
  by (auto simp: relay_register_def Let_def new_registration_def intro: jm_same jm_new [of _ "new_registration job"])

lemma reconcile_move:
  assumes "live_env env" "relay_wf s" "idents_ok event_of" "uuid_text (ej_id job)"
  shows "job_move None s (reconcile_job env event_of now job s)"
proof (cases "map_of (rs_jobs s) (ej_id job)")
  case (Some r)
  have rj: "rr_job r = ej_id job" using assms(2) Some by (auto simp: relay_wf_def)
  let ?next = "event_of job"
  define paused where "paused = (case ?next of None \<Rightarrow> False | Some n \<Rightarrow> \<not> dispatchable job n)"
  define c where "c = clear_index r s"
  define same where "same \<longleftrightarrow> event_ident (rr_event r) = event_ident ?next"
  define w where "w = (if same then c else swap_event env ?next (fst c) (snd c))"
  define x where "x = index_row env now ((fst w)\<lparr>rr_paused := paused\<rparr>) (snd w)"
  have w: "rr_job (fst w) = ej_id job" "rs_jobs (snd w) = rs_jobs s"
    by (simp_all add: w_def c_def rj)
  have upd: "rs_jobs (save_job env (fst x) (snd x)) = AList.update (ej_id job) (fst x) (rs_jobs s)"
    "rs_history (save_job env (fst x) (snd x)) = rs_history (snd w)" "rr_event (fst x) = rr_event (fst w)"
    "rr_job (fst x) = ej_id job"
    using assms(1) w by (simp_all add: x_def)
  have "job_move None s (save_job env (fst x) (snd x))"
  proof (cases same)
    case True
    show ?thesis
      by (rule jm_event [of s "fst x" r]) (use upd Some True in \<open>auto simp: w_def c_def event_follows_def\<close>)
  next
    case False
    show ?thesis
    proof (rule jm_swap [of s "fst x" r ?next env "fst c" "snd c"])
      show "relay_event_job_id (ev_id n) = Inr (rr_job (fst x))" if "?next = Some n" for n
        using assms(3,4) that upd(4) by (auto simp: idents_ok_def)
    qed (use upd Some False assms(1) rj in \<open>auto simp: w_def c_def same_def\<close>)
  qed
  moreover have "reconcile_job env event_of now job s = s \<or>
      reconcile_job env event_of now job s = save_job env (fst x) (snd x)"
    using Some by (auto simp: reconcile_job_def Let_def split_beta x_def w_def c_def same_def paused_def
        split: option.splits)
  ultimately show ?thesis by (auto intro: jm_same)
qed (simp add: reconcile_job_def jm_same)

lemma wait_move:
  assumes "live_env env" "relay_wf s"
  shows "begin_direct_wait env now j owner w ms s = Inr (b, s') \<Longrightarrow> job_move None s s'"
    and "job_move None s (end_direct_wait env now j w s)"
proof -
  have m: "job_move None s (diagnose_decision r' d x (reindex env now (\<lambda>r. r) r' s))"
    if "map_of (rs_jobs s) j = Some r" "r' = r\<lparr>rr_waits := ws\<rparr>" for r r' ws d x
    by (rule reindex_jobs_event [OF assms(1) that(1), of r' "\<lambda>r. r"])
      (use that assms(2) in \<open>auto simp: relay_wf_def event_follows_def\<close>)
  show "job_move None s s'" if "begin_direct_wait env now j owner w ms s = Inr (b, s')"
    using that m by (auto simp: begin_direct_wait_def Let_def result_simps split: option.splits if_splits
        intro: jm_same)
  show "job_move None s (end_direct_wait env now j w s)"
    using m by (auto simp: end_direct_wait_def Let_def split: option.splits intro: jm_same)
qed

lemma offer_move:
  assumes "live_env env" "relay_wf s" "offer_result env event_of j owner eid v s = Inr (b, s')"
  shows "job_move None s s'"
proof -
  have m: "job_move None s (save_job env (r\<lparr>rr_offer := x\<rparr>) s)" if "map_of (rs_jobs s) j = Some r" for r x
    by (rule jm_event [of s "r\<lparr>rr_offer := x\<rparr>" r])
      (use that assms(1,2) in \<open>auto simp: relay_wf_def event_follows_def\<close>)
  show ?thesis
    using assms(3) m by (auto simp: offer_result_def Let_def result_simps split: option.splits if_splits
        intro: jm_same)
qed

lemma review_move:
  assumes "live_env env" "relay_wf s" "review_result env event_of now owner eid v s = Inr (ra, s')"
  shows "job_move None s s'"
proof -
  obtain j where j: "relay_event_job_id eid = Inr j"
    using assms(3) by (auto simp: review_result_def result_simps)
  obtain r0 where r0: "map_of (rs_jobs s) j = Some r0"
    using assms(3) j by (cases "map_of (rs_jobs s) j") (simp_all add: review_result_def)
  obtain r ev where r: "require_current_event env event_of (rr_activity r0) eid s = Inr (r, ev)"
    using assms(3) j r0 by (auto simp: review_result_def result_simps)
  have c: "s' = s \<or> s' = diagnose_decision (r\<lparr>rr_review := Some (eid, v, now, now + result_review_grace_ms)\<rparr>) ''hold'' ''model-review''
      (reindex env now (\<lambda>r. r) (r\<lparr>rr_review := Some (eid, v, now, now + result_review_grace_ms)\<rparr>) s)"
    using assms(3) j r0 r
    by (auto simp: review_result_def Let_def result_simps split: option.splits if_splits)
  from require_current_Inr [OF r assms(2)] have m: "map_of (rs_jobs s) (rr_job r) = Some r" by auto
  have "job_move None s (diagnose_decision r' d x (reindex env now (\<lambda>r. r) (r\<lparr>rr_review := y\<rparr>) s))" for r' d x y
    by (rule reindex_jobs_event [OF assms(1) m, of "r\<lparr>rr_review := y\<rparr>" "\<lambda>r. r"])
      (auto simp: event_follows_def)
  then show ?thesis using c by (auto intro: jm_same)
qed

lemma relay_step_jobs:
  assumes "relay_step event_of l s s'" "relay_wf s" "idents_ok event_of"
  shows "job_move l s s'"
  using assms
proof (induction rule: relay_step.induct)
  case (step_register env s job)
  then show ?case by (simp add: register_move)
next
  case (step_reconcile env job s now)
  then show ?case by (simp add: reconcile_move)
next
  case (step_claim env now a owner cid eid attempt s e s')
  from step_claim(2) show ?case
  proof (cases rule: claim_cases)
    case (2 r ev g)
    from require_current_Inr [OF 2(1) step_claim(3)] obtain j where j: "relay_event_job_id eid = Inr j"
      "map_of (rs_jobs s) j = Some r" "rr_job r = j" "rr_event r = Some ev" "ev_id ev = eid" by auto
    obtain p where p: "p \<in> set (relay_pending env event_of a now s)" "ev_id p = eid" using 2(6) by auto
    from pending_event [OF p(1)] obtain j' r' g' where q: "map_of (rs_jobs s) j' = Some r'" "rr_event r' = Some p"
      "claimable env event_of g' now r' p" by auto
    have "j' = j" using q(1,2) p(2) j(1) step_claim(3) by (auto simp: relay_wf_def)
    then have "p = ev" using q j by simp
    then have "\<not> final_state (ev_state ev)" using q(3) claimable_not_final by blast
    then show ?thesis using 2(8) j step_claim(1) by (simp add: grant_lease_move)
  qed (simp add: jm_same)
next
  case (step_enter env now a owner cid eid attempt s b s')
  from step_enter(2) show ?case
  proof (cases rule: enter_cases)
    case (2 r ev g)
    from require_current_Inr [OF 2(2) step_enter(3)] have "map_of (rs_jobs s) (rr_job r) = Some r" "rr_event r = Some ev" by auto
    then show ?thesis using 2(8,10) step_enter(1) by (simp add: begin_sending_move final_state_def)
  qed (auto intro: jm_same)
next
  case (step_acknowledge env now a owner cid eid attempt out s e s')
  from step_acknowledge(2) show ?case
  proof (cases rule: acknowledge_cases)
    case (2 j r ev)
    have "rr_job r = j" using 2(2) step_acknowledge(3) by (auto simp: relay_wf_def)
    then show ?thesis using 2 step_acknowledge(1) by (auto simp: final_state_def intro: settle_attempt_move)
  qed (simp add: jm_same)
next
  case (step_connect env a owner cid s g s')
  then show ?case by (auto simp: relay_connect_def result_simps Let_def intro: jm_same split: if_splits)
next
  case (step_stop env a owner m s s')
  then show ?case by (auto simp: relay_stop_def result_simps Let_def intro: jm_same)
next
  case (step_end env s a)
  then show ?case by (auto simp: relay_end_activity_def Let_def intro: jm_same split: option.splits)
next
  case (step_forget env j s)
  then show ?case
    by (cases "map_of (rs_jobs s) j")
      (auto simp: forget_job_def Let_def intro!: jm_forget split: option.splits)
qed (auto intro: wait_move offer_move review_move)

lemma swap_history:
  assumes "live_env env" "relay_wf s" "rs_history s0 = rs_history s" "map_of (rs_jobs s) j = Some r"
    "rr_event r0 = rr_event r" "rr_job r0 = j" "event_ident next \<noteq> event_ident (rr_event r)"
  shows "map_of (rs_history (snd (swap_event env next r0 s0))) (k, e) =
      (if k = j \<and> Some e = event_ident next then None
       else if k = j \<and> Some e = event_ident (rr_event r) then rr_event r
       else map_of (rs_history s) (k, e))"
    and "rr_event (fst (swap_event env next r0 s0)) =
      (case next of None \<Rightarrow> None | Some n \<Rightarrow>
         (case map_of (rs_history s) (j, ev_id n) of Some h \<Rightarrow> Some h | None \<Rightarrow> Some n))"
  using assms by (auto simp: swap_event_def Let_def event_ident_def map_of_update map_of_delete split: option.splits)

lemma relay_wf_move:
  assumes "job_move l s s'" "relay_wf s"
  shows "relay_wf s'"
  using assms
proof (induction rule: job_move.induct)
  case (jm_swap s r' r "next" env r0 s0 s')
  note sh = swap_history [OF jm_swap(4) jm_swap(11) jm_swap(7,1,5,6,2)]
  have h: "ev_id x = e \<and> relay_event_job_id e = Inr k" if "map_of (rs_history s') (k, e) = Some x" for k e x
    using that jm_swap(1,10,11) sh(1) [of k e]
    by (auto simp: relay_wf_def event_ident_def split: if_splits option.splits)
  have v: "relay_event_job_id (ev_id ev) = Inr (rr_job r')" if "rr_event r' = Some ev" for ev
    using that jm_swap(3,8,11) sh(2)
    by (auto simp: relay_wf_def split: option.splits)
  show ?case using h v jm_swap(9,11) by (auto simp: relay_wf_def map_of_update)
next
  case (jm_event s r' r s')
  then show ?case
    by (auto simp: relay_wf_def map_of_update event_follows_def)
next
  case (jm_forget s' j s)
  have "map_of (filter (\<lambda>row. fst (fst row) \<noteq> j) t) (k, e) = (if k = j then None else map_of t (k, e))"
    for t :: "((string \<times> string) \<times> relay_event) list" and k e
    by (induction t) auto
  then show ?case using jm_forget by (auto simp: relay_wf_def map_of_delete split: if_splits)
qed (auto simp: relay_wf_def map_of_update)

lemma hex_not_dash: "is_hex c \<Longrightarrow> c \<noteq> CHR ''-''"
  by (auto simp: is_hex_def)

text \<open>The event reference carries the job id, which is read back exactly.\<close>

lemma relay_event_job_id_roundtrip:
  assumes "uuid_text j" "length h = 64" "list_all is_hex h"
  shows "relay_event_job_id (''rle_'' @ filter (\<lambda>c. c \<noteq> CHR ''-'') j @ h) = Inr j"
proof -
  obtain a b c d e where p: "split_on (CHR ''-'') j = [a, b, c, d, e]"
    and l: "length a = 8" "length b = 4" "length c = 4" "length d = 4" "length e = 12"
    and x: "list_all is_hex (a @ b @ c @ d @ e)"
    using assms(1) by (auto simp: uuid_text_def Let_def length_Suc_conv map_eq_Cons_conv)
  have j: "j = a @ ''-'' @ b @ ''-'' @ c @ ''-'' @ d @ ''-'' @ e"
    using join_split [of "CHR ''-''" j] p by simp
  have keep: "filter (\<lambda>c. c \<noteq> CHR ''-'') w = w" if "list_all is_hex w" for w
    using that by (induction w) (auto dest: hex_not_dash)
  have f: "filter (\<lambda>c. c \<noteq> CHR ''-'') j = a @ b @ c @ d @ e"
    using x by (simp add: j keep)
  have "relay_event_pattern (''rle_'' @ (a @ b @ c @ d @ e) @ h)"
    using l x assms(2,3) by (simp add: relay_event_pattern_def starts_with_def)
  moreover have "slice 4 36 (''rle_'' @ (a @ b @ c @ d @ e) @ h) = a @ b @ c @ d @ e"
    using l by (simp add: slice_def)
  ultimately show ?thesis unfolding f
    using l by (simp add: relay_event_job_id_def slice_def j Let_def)
qed

lemma idents_ok_relay: "digest_ok sha \<Longrightarrow> idents_ok (relay_event_of sha input_text)"
  by (auto simp: idents_ok_def relay_event_of_def Let_def digest_ok_def relay_event_job_id_roundtrip [simplified]
      split: if_splits)

section \<open>A settled event stays settled\<close>

text \<open>The receipt of event \<open>eid\<close> of job \<open>j\<close>: current, or archived while another event is current.\<close>

definition receipt :: "relay_store \<Rightarrow> string \<Rightarrow> string \<Rightarrow> relay_event option" where
  "receipt s j eid =
     (case map_of (rs_jobs s) j of
        None \<Rightarrow> None
      | Some r \<Rightarrow> if event_ident (rr_event r) = Some eid then rr_event r else map_of (rs_history s) (j, eid))"

lemma receipt_move:
  assumes "job_move l s s'" "l \<noteq> Some j" "relay_wf s" "receipt s j eid = Some ev" "final_state (ev_state ev)"
  shows "receipt s' j eid = Some ev"
  using assms
proof (induction rule: job_move.induct)
  case (jm_new s r s')
  then show ?case by (auto simp: receipt_def map_of_update split: option.splits)
next
  case (jm_event s r' r s')
  show ?case
  proof (cases "rr_job r' = j")
    case True
    then show ?thesis using jm_event
      by (auto simp: receipt_def map_of_update event_follows_def event_ident_def split: if_splits)
  next
    case False
    then show ?thesis using jm_event by (auto simp: receipt_def map_of_update split: option.splits)
  qed
next
  case (jm_swap s r' r "next" env r0 s0 s')
  note sh = swap_history [OF jm_swap(4) jm_swap(12) jm_swap(7,1,5,6,2)]
  have h: "map_of (rs_history s) (j, n) = Some h \<Longrightarrow> ev_id h = n" for n h
    using jm_swap(12) by (auto simp: relay_wf_def)
  show ?case
  proof (cases "rr_job r' = j")
    case True
    then have p: "receipt s j eid = (if event_ident (rr_event r) = Some eid then rr_event r else map_of (rs_history s) (j, eid))"
      using jm_swap(1) by (simp add: receipt_def)
    have e': "rr_event r' = (case next of None \<Rightarrow> None | Some n \<Rightarrow>
        (case map_of (rs_history s) (j, ev_id n) of Some h \<Rightarrow> Some h | None \<Rightarrow> Some n))"
      unfolding jm_swap(8) sh(2) True by (rule refl)
    then have i': "event_ident (rr_event r') = event_ident next"
      using h by (auto simp: event_ident_def split: option.splits)
    have q: "receipt s' j eid = (if event_ident next = Some eid then rr_event r' else map_of (rs_history s') (j, eid))"
      using jm_swap(9) True i' by (simp add: receipt_def map_of_update)
    have hs: "map_of (rs_history s') (j, eid) = (if Some eid = event_ident next then None
        else if Some eid = event_ident (rr_event r) then rr_event r else map_of (rs_history s) (j, eid))"
      using jm_swap(10) sh(1) [of j eid] True by simp
    show ?thesis
    proof (cases "event_ident next = Some eid")
      case True
      then obtain n where n: "next = Some n" "ev_id n = eid" by (auto simp: event_ident_def)
      then show ?thesis using p q e' jm_swap(2,13) True by (auto split: option.splits)
    next
      case False
      then show ?thesis using p q hs jm_swap(13)
        by (cases "event_ident (rr_event r) = Some eid") auto
    qed
  next
    case False
    then have "map_of (rs_history s') (j, eid) = map_of (rs_history s) (j, eid)"
      using jm_swap(10) sh(1) [of j eid] by auto
    then show ?thesis using jm_swap(9,13) False by (auto simp: receipt_def map_of_update split: option.splits)
  qed
next
  case (jm_forget s' j' s)
  have "map_of (filter (\<lambda>row. fst (fst row) \<noteq> j') t) (j, e) = map_of t (j, e)"
    for t :: "((string \<times> string) \<times> relay_event) list" and e
    using jm_forget(3) by (induction t) auto
  then show ?case using jm_forget by (auto simp: receipt_def map_of_delete split: option.splits)
qed (auto simp: receipt_def split: option.splits)

lemma empty_relay_wf: "relay_wf empty_relay"
  by (simp add: relay_wf_def empty_relay_def)

lemma reachable_wf:
  assumes "relay_reachable event_of s" "idents_ok event_of"
  shows "relay_wf s"
  using assms(1) unfolding relay_reachable_def
proof (induction rule: rtranclp_induct)
  case (step s s')
  then show ?case using relay_step_jobs [OF _ _ assms(2)] relay_wf_move by blast
qed (rule empty_relay_wf)

section \<open>Properties\<close>

lemma receipt_run:
  assumes "(relay_move event_of j)\<^sup>*\<^sup>* s s'" "relay_wf s" "idents_ok event_of" "receipt s j eid = Some ev"
    "final_state (ev_state ev)"
  shows "relay_wf s' \<and> receipt s' j eid = Some ev"
  using assms(1,2,4)
proof (induction rule: rtranclp_induct)
  case (step s1 s2)
  then obtain l where l: "relay_step event_of l s1 s2" "l \<noteq> Some j" "relay_wf s1" "receipt s1 j eid = Some ev"
    by (auto simp: relay_move_def)
  have m: "job_move l s1 s2" by (rule relay_step_jobs [OF l(1,3) assms(3)])
  show ?case using relay_wf_move [OF m l(3)] receipt_move [OF m l(2-4) assms(5)] by simp
qed simp


text \<open>Stopping is final. After the user stopped the relay of an activity, or the activity ended, no
  later sequence of operations lets an event of that activity be claimed or enter sending, by any
  card, and nothing is listed as pending.\<close>
theorem stopped_relay_stays_quiet:
  assumes "relay_reachable event_of s" "map_of (rs_goals s) a = Some g" "rg_ended g \<or> rg_stopped g"
    and "(\<lambda>s s'. \<exists>l. relay_step event_of l s s')\<^sup>*\<^sup>* s s'"
  shows "relay_pending env event_of a now s' = [] \<and>
    relay_enter env event_of now a owner cid eid attempt s' \<noteq> Inr (True, s'') \<and>
    (relay_claim env event_of now a owner cid eid attempt s' = Inr (e, s'') \<longrightarrow> e = None)"
proof -
  obtain g' where g': "map_of (rs_goals s') a = Some g'" "quiet g'"
    using quiet_run [OF assms(4) reachable_goals_wf [OF assms(1)] assms(2)] assms(3) by (auto simp: quiet_def)
  have "\<not> b" if "relay_enter env event_of now a owner cid eid attempt s' = Inr (b, s'')" for b
    using that g' by (cases rule: enter_cases) (auto simp: require_goal_Inr)
  moreover have "e = None" if "relay_claim env event_of now a owner cid eid attempt s' = Inr (e, s'')" for e
    using that g' by (auto simp: relay_claim_def result_simps require_goal_Inr quiet_def)
  moreover have "relay_pending env event_of a now s' = []"
    using g' by (auto simp: relay_pending_def quiet_def)
  ultimately show ?thesis by blast
qed

text \<open>A concrete run: one finished job is registered, its event connected, claimed, sent, accepted.\<close>

definition zero_sha :: "string \<Rightarrow> string" where
  "zero_sha x = replicate 64 (CHR ''0'')"

definition example_jid :: string where
  "example_jid = ''00000000-0000-0000-0000-000000000001''"

definition example_eid :: string where
  "example_eid = ''rle_'' @ filter (\<lambda>c. c \<noteq> CHR ''-'') example_jid @ zero_sha ''''"

definition example_job :: event_job where
  "example_job = \<lparr>ej_id = example_jid, ej_activity = ''a'', ej_scope = ''s'', ej_principal = None, ej_project = None,
     ej_status = ''completed'', ej_version = 2, ej_terminal_version = Some 1, ej_inputs = [], ej_tracking = None,
     ej_worker = None, ej_generation = None, ej_thread = None\<rparr>"

definition example_env :: relay_env where
  "example_env = \<lparr>re_job = (\<lambda>j. if j = example_jid then Some example_job else None), re_visible = (\<lambda>j. True),
     re_ended = (\<lambda>a. False), re_project = (\<lambda>p. True), re_retired = (\<lambda>x. False), re_followup = (\<lambda>j s v. True)\<rparr>"

definition example_owner :: relay_owner where
  "example_owner = \<lparr>ro_scope = ''s'', ro_principal = None\<rparr>"

definition example_relay_event :: relay_event where
  "example_relay_event = \<lparr>ev_id = example_eid, ev_job = example_jid, ev_kind = RkTerminal, ev_version = 2,
     ev_state = RPending, ev_attempt = None, ev_card = None, ev_lease = None, ev_attempts = 0, ev_retry = None\<rparr>"

abbreviation example_event_of :: "event_job \<Rightarrow> relay_event option" where
  "example_event_of \<equiv> relay_event_of zero_sha (\<lambda>job. '''')"

lemma example_event: "example_event_of example_job = Some example_relay_event"
  by (simp add: relay_event_of_def example_job_def example_relay_event_def truthy_version_def
      terminal_statuses_def example_eid_def zero_sha_def)

lemma zero_sha_ok: "digest_ok zero_sha"
  by (simp add: digest_ok_def zero_sha_def list_all_iff is_hex_def)

lemma example_job_id: "uuid_text example_jid" "relay_event_job_id example_eid = Inr example_jid"
proof -
  show u: "uuid_text example_jid"
    by (simp add: uuid_text_def example_jid_def is_hex_def)
  show "relay_event_job_id example_eid = Inr example_jid"
    unfolding example_eid_def
    by (rule relay_event_job_id_roundtrip [OF u]) (simp_all add: zero_sha_def list_all_iff is_hex_def)
qed

definition relay1 :: relay_store where
  "relay1 = reconcile_job example_env example_event_of 0 example_job (relay_register example_env example_job empty_relay)"

definition relay2 :: relay_store where
  "relay2 = (case relay_connect example_env ''a'' example_owner ''c'' relay1 of Inr (_, s) \<Rightarrow> s | Inl _ \<Rightarrow> relay1)"

definition relay3 :: relay_store where
  "relay3 = (case relay_claim example_env example_event_of 1 ''a'' example_owner ''c'' example_eid ''t'' relay2
     of Inr (_, s) \<Rightarrow> s | Inl _ \<Rightarrow> relay2)"

definition relay4 :: relay_store where
  "relay4 = (case relay_enter example_env example_event_of 2 ''a'' example_owner ''c'' example_eid ''t'' relay3
     of Inr (_, s) \<Rightarrow> s | Inl _ \<Rightarrow> relay3)"

definition relay5 :: relay_store where
  "relay5 = (case relay_acknowledge example_env 3 ''a'' example_owner ''c'' example_eid ''t'' OutAccepted relay4
     of Inr (_, s) \<Rightarrow> s | Inl _ \<Rightarrow> relay4)"

lemmas relay_eval = relay_register_def reconcile_job_def relay_connect_def relay_claim_def relay_enter_def
  relay_acknowledge_def require_goal_def require_current_event_def relay_pending_def ready_jobs_def claimable_def
  reindex_def index_row_def clear_index_def swap_event_def save_job_def save_goal_def refused_def option_list_def
  held_until_def mark_ready_def diagnose_def diagnose_decision_def grant_lease_def begin_sending_def
  settle_attempt_def outcome_state_def same_owner_def job_owner_def
  event_ident_def dispatchable_def empty_relay_def example_owner_def example_event Let_def

lemma example_record_fields:
  "ej_id example_job = example_jid" "ej_activity example_job = ''a''" "ej_status example_job = ''completed''"
  "ej_scope example_job = ''s''" "ej_principal example_job = None" "ej_project example_job = None"
  "re_job example_env = (\<lambda>j. if j = example_jid then Some example_job else None)" "re_visible example_env = (\<lambda>j. True)"
  "re_ended example_env = (\<lambda>a. False)" "re_project example_env = (\<lambda>p. True)"
  "re_retired example_env = (\<lambda>x. False)" "re_followup example_env = (\<lambda>j s v. True)"
  "ev_id example_relay_event = example_eid" "ev_kind example_relay_event = RkTerminal" "ev_job example_relay_event = example_jid"
  "ev_state example_relay_event = RPending" "ev_retry example_relay_event = None"
  "ev_attempt example_relay_event = None" "ev_attempts example_relay_event = 0"
  "ev_lease example_relay_event = None" "ev_card example_relay_event = None"
  by (simp_all add: example_job_def example_relay_event_def example_env_def)

lemma example_registration_fields:
  "rr_job (new_registration example_job) = example_jid" "rr_activity (new_registration example_job) = ''a''"
  "rr_waits (new_registration example_job) = []" "rr_review (new_registration example_job) = None"
  "rr_deferred (new_registration example_job) = None" "rr_project (new_registration example_job) = None"
  "rr_paused (new_registration example_job) = False" "rr_event (new_registration example_job) = None"
  "ro_scope (new_goal example_job) = ''s''" "ro_principal (new_goal example_job) = None"
  "rg_activity (new_goal example_job) = ''a''" "rg_root (new_goal example_job) = example_jid"
  "rg_project (new_goal example_job) = None" "rg_ended (new_goal example_job) = False"
  "rg_stopped (new_goal example_job) = False" "rg_card (new_goal example_job) = None"
  "rg_followups_stopped (new_goal example_job) = False"
  by (simp_all add: new_registration_def new_goal_def example_job_def)

lemmas relay_run_eval = relay_eval example_record_fields example_registration_fields example_job_id(2)

lemma relay1_eval:
  "relay1 = \<lparr>rs_goals = [(''a'', new_goal example_job)],
     rs_jobs = [(example_jid, (new_registration example_job)\<lparr>rr_event := Some example_relay_event\<rparr>)],
     rs_members = [((''a'', example_jid), ())], rs_ready = [((''a'', example_eid), example_jid)], rs_deferred = [],
     rs_history = [], rs_signals = [(''a'', example_jid)], rs_diags = []\<rparr>"
  unfolding relay1_def by (simp add: relay_run_eval)

lemma relay2_eval: "relay2 = relay1\<lparr>rs_goals := [(''a'', (new_goal example_job)\<lparr>rg_card := Some ''c''\<rparr>)]\<rparr>"
  unfolding relay2_def relay1_eval by (simp add: relay_run_eval)

definition leased_event :: relay_event where
  "leased_event = example_relay_event\<lparr>ev_state := RLeased, ev_card := Some ''c'', ev_attempt := Some ''t'',
     ev_lease := Some 30001, ev_attempts := 1\<rparr>"

lemma relay3_eval: "relay3 = relay2\<lparr>rs_jobs := [(example_jid, (new_registration example_job)\<lparr>rr_event := Some leased_event\<rparr>)],
    rs_signals := [(''a'', example_jid), (''a'', example_jid)], rs_diags := [(example_jid, DgDecision ''claim'' ''eligible'')]\<rparr>"
  unfolding relay3_def relay2_eval relay1_eval
  by (simp add: relay_run_eval leased_event_def)

lemma relay4_eval: "relay4 = relay3\<lparr>rs_jobs := [(example_jid, (new_registration example_job)
      \<lparr>rr_event := Some (leased_event\<lparr>ev_state := RSending\<rparr>)\<rparr>)],
    rs_ready := [], rs_diags := [(example_jid, DgDecision ''claim'' ''eligible''), (example_jid, DgDelivery RSending 1)]\<rparr>"
  unfolding relay4_def relay3_eval relay2_eval relay1_eval
  by (simp add: relay_run_eval leased_event_def)

lemma relay5_eval: "relay5 = relay4\<lparr>rs_jobs := [(example_jid, (new_registration example_job)
      \<lparr>rr_event := Some (leased_event\<lparr>ev_state := RAccepted\<rparr>)\<rparr>)],
    rs_diags := [(example_jid, DgDecision ''claim'' ''eligible''), (example_jid, DgDelivery RSending 1),
      (example_jid, DgDelivery RAccepted 1)]\<rparr>"
  unfolding relay5_def relay4_eval relay3_eval relay2_eval relay1_eval
  by (simp add: relay_run_eval leased_event_def)

lemma example_live: "live_env example_env"
  by (simp add: live_env_def example_env_def)

lemma relay_reachable_step:
  "relay_reachable event_of s \<Longrightarrow> relay_step event_of l s s' \<Longrightarrow> relay_reachable event_of s'"
  unfolding relay_reachable_def by (rule rtranclp.rtrancl_into_rtrancl) (assumption, rule exI)

lemma relay2_reachable: "relay_reachable example_event_of relay2"
proof -
  have "relay_reachable example_event_of (relay_register example_env example_job empty_relay)"
    by (rule relay_reachable_step [OF _ step_register [OF example_live]]) (simp add: relay_reachable_def)
  then have 1: "relay_reachable example_event_of relay1" unfolding relay1_def
    by (rule relay_reachable_step [OF _ step_reconcile [OF example_live]])
      (simp add: example_job_id example_record_fields)
  have "\<exists>g. relay_connect example_env ''a'' example_owner ''c'' relay1 = Inr (g, relay2)"
    unfolding relay2_eval relay1_eval by (simp add: relay_run_eval)
  then show ?thesis using relay_reachable_step [OF 1 step_connect [OF example_live]] by blast
qed

lemma relay5_reachable: "relay_reachable example_event_of relay5"
proof -
  have "\<exists>e. relay_claim example_env example_event_of 1 ''a'' example_owner ''c'' example_eid ''t'' relay2 = Inr (e, relay3)"
    unfolding relay3_eval relay2_eval relay1_eval by (simp add: relay_run_eval leased_event_def)
  then have 3: "relay_reachable example_event_of relay3"
    using relay_reachable_step [OF relay2_reachable step_claim [OF example_live]] by blast
  have "relay_enter example_env example_event_of 2 ''a'' example_owner ''c'' example_eid ''t'' relay3 = Inr (True, relay4)"
    unfolding relay4_eval relay3_eval relay2_eval relay1_eval by (simp add: relay_run_eval leased_event_def)
  then have 4: "relay_reachable example_event_of relay4"
    using relay_reachable_step [OF 3 step_enter [OF example_live]] by blast
  have "\<exists>e. relay_acknowledge example_env 3 ''a'' example_owner ''c'' example_eid ''t'' OutAccepted relay4 = Inr (e, relay5)"
    unfolding relay5_eval relay4_eval relay3_eval relay2_eval relay1_eval by (simp add: relay_run_eval leased_event_def)
  then show ?thesis
    using relay_reachable_step [OF 4 step_acknowledge [OF example_live]] by blast
qed


theorem stopped_relay_stays_quiet_witness:
  "relay_pending example_env example_event_of ''a'' 5 (relay_end_activity example_env ''a'' relay2) = []"
proof -
  have r: "relay_reachable example_event_of (relay_end_activity example_env ''a'' relay2)"
    by (rule relay_reachable_step [OF relay2_reachable step_end [OF example_live]])
  have g: "map_of (rs_goals (relay_end_activity example_env ''a'' relay2)) ''a'' =
      Some ((new_goal example_job)\<lparr>rg_card := Some ''c'', rg_followups_stopped := True, rg_ended := True\<rparr>)"
    by (simp add: relay_end_activity_def relay2_eval relay1_eval relay_run_eval)
  show ?thesis
    using stopped_relay_stays_quiet [OF r g _ rtranclp.rtrancl_refl, of example_env 5] by simp
qed

end
