(* ===== verification/Bridge_State.thy ===== *)
theory Bridge_State
  imports Relay_Delivery
begin

text \<open>
  The durable tables of the state store that Activities, jobs, cancellations and the completion
  outbox share: \<open>src/src/stateStore.ts\<close> with the table definitions of \<open>src/src/stateSchema.ts\<close> and the
  enumerations of \<open>src/src/activity.ts\<close>. A table is an association list in insertion order; an
  operation takes the store and returns an error (the transaction is rolled back) or the new store.
  Payload columns that no modelled operation reads back (titles, prompts, progress text, audit
  payloads) are left out. What an operation reads from tables of other components or from helper
  code is the record \<open>store_env\<close>, an argument of each call like the clock; what it hands to other
  components is appended to \<open>bs_calls\<close>.
\<close>

section \<open>Rows\<close>

datatype activity_kind = Discussion | Investigation | Review | Implementation | OtherKind
datatype handoff_policy = HandoffNone | HandoffNotify | HandoffVerify
datatype completion_trigger = Manual | SealedJobsTerminal
datatype lifecycle = LcOpen | LcSealed | LcTerminating | LcCompleted | LcCancelled | LcAbandoned
datatype waiting_on = WaitNone | WaitCodex | WaitOrchestrator | WaitUser | WaitVerification
datatype verification = NotRequired | VerPending | Verifying | Verified | VerFailed
datatype job_status =
  JsRunning | JsTerminating | JsTerminationFailed | JsCompleted | JsFailed | JsInterrupted | JsCancelled

fun job_status_name :: "job_status \<Rightarrow> string" where
  "job_status_name JsRunning = ''running''"
| "job_status_name JsTerminating = ''terminating''"
| "job_status_name JsTerminationFailed = ''termination-failed''"
| "job_status_name JsCompleted = ''completed''"
| "job_status_name JsFailed = ''failed''"
| "job_status_name JsInterrupted = ''interrupted''"
| "job_status_name JsCancelled = ''cancelled''"

definition job_statuses :: "job_status list" where
  "job_statuses = [JsRunning, JsTerminating, JsTerminationFailed, JsCompleted, JsFailed, JsInterrupted, JsCancelled]"

definition job_status_of :: "string \<Rightarrow> job_status option" where
  "job_status_of s = find (\<lambda>x. job_status_name x = s) job_statuses"

definition is_active_status :: "job_status \<Rightarrow> bool" where
  "is_active_status s \<longleftrightarrow> s \<in> {JsRunning, JsTerminating, JsTerminationFailed}"

definition is_terminal_status :: "job_status \<Rightarrow> bool" where
  "is_terminal_status s \<longleftrightarrow> s \<in> {JsCompleted, JsFailed, JsInterrupted, JsCancelled}"

record job_counts =
  jc_total :: nat
  jc_running :: nat
  jc_completed :: nat
  jc_failed :: nat
  jc_interrupted :: nat
  jc_cancelled :: nat
  jc_terminal :: nat

record scope_row =
  sc_version :: int
  sc_updated :: int

record activity_row =
  ac_scope :: string
  ac_project :: "(string \<times> string) option"
  ac_continuation :: "string option"
  ac_kind :: activity_kind
  ac_handoff :: handoff_policy
  ac_trigger :: completion_trigger
  ac_lifecycle :: lifecycle
  ac_waiting :: waiting_on
  ac_verification :: verification
  ac_version :: int
  ac_completion :: int
  ac_legacy :: bool
  ac_created :: int
  ac_updated :: int
  ac_sealed :: "int option"
  ac_completed :: "int option"
  ac_counts :: job_counts

datatype delivery_policy = LiveCard | DirectWait | RelayCard | EventsPolicy
datatype context_mode = CtxContinue | CtxFork | CtxFresh

datatype terminal_origin =
    NormalCompletion | UpstreamFailure | AppServerInterrupted | ExplicitCancellation
  | AssignmentContainment | BridgeRestart | WorkerLoss | SdkAbort | SdkTimeout
  | AuthenticationFailure | UsageLimit | LegacyUnattributed

text \<open>A pending interaction: its id, whether it blocks, and the other fields of its payload.\<close>

record interaction_row =
  in_id :: string
  in_blocking :: bool
  in_payload :: "(string \<times> js) list"

record job_row =
  jb_scope :: string
  jb_request :: string
  jb_activity :: string
  jb_thread :: "string option"
  jb_source :: "string option"
  jb_status :: job_status
  jb_worker :: "string option"
  jb_generation :: "int option"
  jb_turn :: "string option"
  jb_terminal_version :: "int option"
  jb_agent :: "string option"
  jb_context :: "context_mode option"
  jb_cwd :: string
  jb_sandbox :: string
  jb_principal :: "string option"
  jb_tracking :: "string option"
  jb_policy :: delivery_policy
  jb_origin :: "terminal_origin option"
  jb_intent :: "string option"
  jb_created :: int
  jb_updated :: int
  jb_version :: int
  jb_archived :: "int option"
  jb_ended :: "int option"
  jb_inputs :: "interaction_row list"

datatype agent_lifecycle = AgIdle | AgActive | AgWaitingInput | AgOrphaned

record agent_row =
  ag_scope :: string
  ag_lifecycle :: agent_lifecycle
  ag_current :: "string option"
  ag_version :: int
  ag_updated :: int

record assignment_row =
  as_activity :: string
  as_agent :: string
  as_released :: "int option"

record activity_event =
  ae_activity :: string
  ae_scope :: string
  ae_version :: int
  ae_type :: string
  ae_at :: int

record job_event =
  jv_job :: string
  jv_activity :: string
  jv_scope :: string
  jv_version :: int
  jv_type :: string
  jv_status :: job_status
  jv_at :: int

datatype channel = ChNotify | ChVerify

record outbox_row =
  ob_id :: int
  ob_activity :: string
  ob_scope :: string
  ob_completion :: int
  ob_channel :: channel
  ob_attempts :: int
  ob_next :: "int option"
  ob_lease_owner :: "string option"
  ob_lease_expires :: "int option"
  ob_delivered :: "int option"
  ob_acked :: "int option"
  ob_created :: int

text \<open>The delivery receipt a job gets when it first becomes terminal.\<close>

record job_delivery =
  jd_scope :: string
  jd_terminal_version :: int
  jd_created :: int

datatype cancellation_source = ModelTool | WidgetControl | ActivityCascade | Operator | SrcContainment
datatype intent_status = IntentRecorded | IntentDispatched | IntentSucceeded | IntentFailed | IntentNoOp
datatype operation_status = OpRecorded | OpCompleted | OpFailed
datatype target_kind = TargetJob | TargetActivity

record cancellation_target =
  tg_kind :: target_kind
  tg_job :: "string option"
  tg_activity :: string
  tg_agent :: "string option"
  tg_thread :: "string option"
  tg_turn :: "string option"
  tg_presentation :: "string option"

text \<open>The columns operations and intents share: who asked, with what, for which target.\<close>

record cancellation_facts =
  cn_scope :: string
  cn_request :: string
  cn_source :: cancellation_source
  cn_tool :: string
  cn_action :: string
  cn_target :: cancellation_target
  cn_expected :: int
  cn_presentation :: "string option option"
  cn_widget :: "(string \<times> int) option"
  cn_caller_digest :: "string option"
  cn_reason_code :: string
  cn_instance :: string
  cn_created :: int

record intent_row = cancellation_facts +
  it_parent :: "string option"
  it_cascade :: string
  it_status :: intent_status
  it_dispatched :: "int option"
  it_completed :: "int option"

record operation_row = cancellation_facts +
  op_root :: string
  op_hash :: string
  op_reason :: "string option"
  op_status :: operation_status
  op_result :: "js option"
  op_completed :: "int option"

text \<open>Calls of other components inside a transaction.\<close>

datatype store_call =
    CallEventsStop string
  | CallEventsEnqueue string
  | CallEventsLifecycle string
  | CallFollowupAdmit string
  | CallThreadRecord string "job_status option"
  | CallRetentionSummary string

record bridge_state =
  bs_scopes :: "(string \<times> scope_row) list"
  bs_activities :: "(string \<times> activity_row) list"
  bs_jobs :: "(string \<times> job_row) list"
  bs_agents :: "(string \<times> agent_row) list"
  bs_assignments :: "assignment_row list"
  bs_activity_events :: "activity_event list"
  bs_job_events :: "job_event list"
  bs_outbox :: "outbox_row list"
  bs_next_outbox :: int
  bs_deliveries :: "(string \<times> job_delivery) list"
  bs_operations :: "((string \<times> string) \<times> operation_row) list"
  bs_intents :: "(string \<times> intent_row) list"
  bs_relay :: relay_store
  bs_calls :: "store_call list"

section \<open>What the store reads elsewhere\<close>

datatype store_error =
    NotUuid | UnknownActivity | UnknownAgent | UnknownJob | ActivityExists | ForeignScope
  | ProjectArchived | ProjectIdentityIncomplete | BadProjectIdentity | BadProjectFolder | BadText
  | ActivityNotOpen | ActivityEmpty | ActivityFinished lifecycle | JobsRunning
  | VerificationUnfinished | VerificationNotPassed | NotVerifyActivity | NoActiveJobs
  | NothingCompleted | VerificationState | EvidenceJobForeign | EvidenceInvalid
  | BadJobStatus | RelayOwnerChanged | RelayFollowupsStopped | RequestRetired | HandoffPending
  | CancellationProvenance | OriginMismatch | PolicyChange | JobMoved | AgentForeign
  | ProjectConflict | RequestReused | ActivityClosed | BadInteraction | FollowupRejected
  | BadJobTimes | BadJobVersion | JobNotActive | BadEventType
  | CancellationConflict | CancellationExists | CancellationTarget | CancellationClosed
  | CancellationParent | UnknownIntent | IntentTransition | UnknownOperation | OperationSettled
  | BadSource | BadTarget | BadPresentation | BadCardGeneration | BadExpectedVersion
  | BadReasonCode | BadDigest | BadTimestamp | BadRequired
  | LeaseMissing | UnknownOutbox | UniqueViolated

record store_env =
  se_experimental :: bool
  se_instance :: string
  se_legacy_activity :: "string \<Rightarrow> string"
  se_project_id :: "string \<Rightarrow> string option"
  se_project_name :: "string \<Rightarrow> string option"
  se_normal_path :: "string \<Rightarrow> string"
  se_human_text :: "nat \<Rightarrow> string \<Rightarrow> string option"
  se_project_active :: "string \<Rightarrow> bool"
  se_request_retired :: "string \<Rightarrow> string \<Rightarrow> string \<Rightarrow> bool"
  se_job_retired :: "string \<Rightarrow> bool"
  se_job_expired :: "string \<Rightarrow> bool"
  se_visible :: "string \<Rightarrow> bool"
  se_admission_blocked :: "string option \<Rightarrow> string option \<Rightarrow> bool"
  se_followup_ok :: "string \<Rightarrow> bool"
  se_followup_parent :: "string \<Rightarrow> string \<Rightarrow> int \<Rightarrow> bool"
  se_event_of :: "event_job \<Rightarrow> relay_event option"
  se_relay_retired :: "string \<Rightarrow> bool"

text \<open>
  \<open>se_instance\<close> is the bridge instance id, \<open>se_legacy_activity\<close> the id derived for a job without an
  Activity (a digest), \<open>se_project_id\<close> and \<open>se_project_name\<close> the registry's normalisations,
  \<open>se_normal_path\<close> is \<open>path.normalize\<close>, \<open>se_human_text\<close> is \<open>canonicalHumanText\<close> with a length
  bound (\<open>None\<close>: it throws), \<open>se_project_active\<close>, \<open>se_request_retired\<close> and \<open>se_job_retired\<close> read
  the project lifecycle's tables, \<open>se_job_expired\<close> and \<open>se_visible\<close> the history policy,
  \<open>se_admission_blocked\<close> the thread connections, \<open>se_followup_ok\<close> whether the followup store accepts
  the job, \<open>se_followup_parent\<close> whether a reviewed predecessor allows a followup, \<open>se_event_of\<close> is \<open>relayEvent\<close> and \<open>se_relay_retired\<close> the retired references that the
  metadata table refuses.
\<close>

section \<open>Normalised arguments\<close>

definition ascii_lower :: "string \<Rightarrow> string" where
  "ascii_lower s = map (\<lambda>c. let n = (of_char c :: nat) in if 65 \<le> n \<and> n \<le> 90 then char_of (n + 32) else c) s"

definition normalize_uuid :: "string \<Rightarrow> (store_error, string) result" where
  "normalize_uuid v = (let n = ascii_lower (js_trim v) in if uuid_text n then Inr n else Inl NotUuid)"

definition trimmed_string :: "string option \<Rightarrow> string option" where
  "trimmed_string v = (case v of None \<Rightarrow> None
     | Some s \<Rightarrow> if js_trim s = '''' then None else Some (js_trim s))"

definition required_string :: "string option \<Rightarrow> nat \<Rightarrow> (store_error, string) result" where
  "required_string v maximum =
     (case trimmed_string v of
        None \<Rightarrow> Inl BadRequired
      | Some s \<Rightarrow> if maximum < length s \<or> list_ex (\<lambda>c. (of_char c :: nat) \<in> {10, 13}) s then Inl BadRequired
                  else Inr s)"

definition bounded_text :: "store_env \<Rightarrow> string option \<Rightarrow> nat \<Rightarrow> (store_error, string option) result" where
  "bounded_text env v maximum =
     (case v of
        None \<Rightarrow> Inr None
      | Some s \<Rightarrow>
          (case se_human_text env maximum s of
             None \<Rightarrow> Inl BadText
           | Some n \<Rightarrow> Inr (if n = '''' then None else Some n)))"

definition required_text :: "store_env \<Rightarrow> string option \<Rightarrow> nat \<Rightarrow> (store_error, string) result" where
  "required_text env v maximum =
     res_bind (bounded_text env v maximum) (\<lambda>t. case t of None \<Rightarrow> Inl BadText | Some n \<Rightarrow> Inr n)"

text \<open>\<open>normalizeProjectIdentity\<close>: both the id and the name, or neither; the id is kept.\<close>

definition project_identity :: "store_env \<Rightarrow> string option \<Rightarrow> string option \<Rightarrow> (store_error, string option) result" where
  "project_identity env pid name =
     (case (pid, name) of
        (None, None) \<Rightarrow> Inr None
      | (Some p, Some n) \<Rightarrow>
          (case (se_project_id env p, se_project_name env n) of
             (Some p', Some n') \<Rightarrow> Inr (Some p')
           | _ \<Rightarrow> Inl BadProjectIdentity)
      | _ \<Rightarrow> Inl ProjectIdentityIncomplete)"

definition folder_admission :: "store_env \<Rightarrow> string \<Rightarrow> string \<Rightarrow> (store_error, string \<times> string) result" where
  "folder_admission env p folder =
     (if \<not> starts_with ''/'' folder \<or> 4000 < length folder \<or> list_ex (\<lambda>c. (of_char c :: nat) \<in> {0, 10, 13}) folder
      then Inl BadProjectFolder
      else Inr (p, se_normal_path env folder))"

definition project_admission ::
  "store_env \<Rightarrow> string option \<Rightarrow> string option \<Rightarrow> string option \<Rightarrow> (store_error, (string \<times> string) option) result" where
  "project_admission env pid name folder =
     res_bind (project_identity env pid name) (\<lambda>p.
       case (p, folder) of
         (None, None) \<Rightarrow> Inr None
       | (Some i, Some f) \<Rightarrow> res_bind (folder_admission env i f) (\<lambda>x. Inr (Some x))
       | _ \<Rightarrow> Inl ProjectIdentityIncomplete)"

section \<open>Scopes, events, snapshots\<close>

definition ensure_scope :: "string \<Rightarrow> int \<Rightarrow> bridge_state \<Rightarrow> bridge_state" where
  "ensure_scope sid now s =
     s\<lparr>bs_scopes := AList.update sid
        (case map_of (bs_scopes s) sid of
           None \<Rightarrow> \<lparr>sc_version = 0, sc_updated = now\<rparr>
         | Some r \<Rightarrow> r\<lparr>sc_updated := max (sc_updated r) now\<rparr>) (bs_scopes s)\<rparr>"

definition scope_version :: "string \<Rightarrow> bridge_state \<Rightarrow> int" where
  "scope_version sid s = (case map_of (bs_scopes s) sid of None \<Rightarrow> 0 | Some r \<Rightarrow> sc_version r)"

definition next_scope_version :: "string \<Rightarrow> int \<Rightarrow> bridge_state \<Rightarrow> bridge_state" where
  "next_scope_version sid now s =
     (let s1 = ensure_scope sid now s in
      s1\<lparr>bs_scopes := AList.update sid \<lparr>sc_version = scope_version sid s1 + 1, sc_updated = now\<rparr> (bs_scopes s1)\<rparr>)"

definition next_runtime_scope_version :: "string \<Rightarrow> int \<Rightarrow> bridge_state \<Rightarrow> bridge_state" where
  "next_runtime_scope_version sid now s =
     s\<lparr>bs_scopes := AList.update sid
        (case map_of (bs_scopes s) sid of
           None \<Rightarrow> \<lparr>sc_version = 1, sc_updated = now\<rparr>
         | Some r \<Rightarrow> \<lparr>sc_version = sc_version r + 1, sc_updated = max (sc_updated r) now\<rparr>) (bs_scopes s)\<rparr>"

definition add_activity_event :: "string \<Rightarrow> string \<Rightarrow> string \<Rightarrow> int \<Rightarrow> bridge_state \<Rightarrow> bridge_state" where
  "add_activity_event a sid kind now s =
     s\<lparr>bs_activity_events := bs_activity_events s @
        [\<lparr>ae_activity = a, ae_scope = sid, ae_version = scope_version sid s, ae_type = kind, ae_at = now\<rparr>]\<rparr>"

definition add_job_event ::
  "string \<Rightarrow> string \<Rightarrow> string \<Rightarrow> string \<Rightarrow> job_status \<Rightarrow> int \<Rightarrow> bridge_state \<Rightarrow> bridge_state" where
  "add_job_event j a sid kind st now s =
     s\<lparr>bs_job_events := bs_job_events s @
        [\<lparr>jv_job = j, jv_activity = a, jv_scope = sid, jv_version = scope_version sid s, jv_type = kind,
          jv_status = st, jv_at = now\<rparr>]\<rparr>"

definition call :: "store_call \<Rightarrow> bridge_state \<Rightarrow> bridge_state" where
  "call c s = s\<lparr>bs_calls := bs_calls s @ [c]\<rparr>"

definition call_if :: "bool \<Rightarrow> store_call \<Rightarrow> bridge_state \<Rightarrow> bridge_state" where
  "call_if b c s = (if b then call c s else s)"

definition require_activity :: "string \<Rightarrow> bridge_state \<Rightarrow> (store_error, activity_row) result" where
  "require_activity a s = (case map_of (bs_activities s) a of None \<Rightarrow> Inl UnknownActivity | Some r \<Rightarrow> Inr r)"

definition put_activity :: "string \<Rightarrow> activity_row \<Rightarrow> bridge_state \<Rightarrow> bridge_state" where
  "put_activity a r s = s\<lparr>bs_activities := AList.update a r (bs_activities s)\<rparr>"

definition put_job :: "string \<Rightarrow> job_row \<Rightarrow> bridge_state \<Rightarrow> bridge_state" where
  "put_job j r s = s\<lparr>bs_jobs := AList.update j r (bs_jobs s)\<rparr>"

definition finished :: "lifecycle \<Rightarrow> bool" where
  "finished l \<longleftrightarrow> l \<in> {LcCompleted, LcCancelled, LcAbandoned}"

definition is_event_activity_ended :: "bridge_state \<Rightarrow> string \<Rightarrow> bool" where
  "is_event_activity_ended s a =
     (case map_of (bs_activities s) a of None \<Rightarrow> True | Some r \<Rightarrow> finished (ac_lifecycle r))"

definition interaction_js :: "interaction_row \<Rightarrow> js" where
  "interaction_js i = JObj (in_payload i @ [(''interactionId'', JStr (in_id i)), (''isBlocking'', JBool (in_blocking i))])"

definition event_snapshot :: "bridge_state \<Rightarrow> string \<Rightarrow> job_row \<Rightarrow> event_job option" where
  "event_snapshot s j r =
     (case map_of (bs_activities s) (jb_activity r) of
        None \<Rightarrow> None
      | Some a \<Rightarrow> Some \<lparr>ej_id = j, ej_activity = jb_activity r, ej_scope = jb_scope r, ej_principal = jb_principal r,
          ej_project = map_option fst (ac_project a), ej_status = job_status_name (jb_status r),
          ej_version = jb_version r, ej_terminal_version = jb_terminal_version r,
          ej_inputs = map interaction_js (jb_inputs r), ej_tracking = jb_tracking r, ej_worker = jb_worker r,
          ej_generation = jb_generation r, ej_thread = jb_thread r\<rparr>)"

definition get_event_job_snapshot :: "bridge_state \<Rightarrow> string \<Rightarrow> event_job option" where
  "get_event_job_snapshot s j =
     (case map_of (bs_jobs s) j of
        None \<Rightarrow> None
      | Some r \<Rightarrow> if jb_archived r \<noteq> None then None else event_snapshot s j r)"

definition get_relay_job_snapshot :: "store_env \<Rightarrow> bridge_state \<Rightarrow> string \<Rightarrow> event_job option" where
  "get_relay_job_snapshot env s j =
     (case map_of (bs_jobs s) j of
        None \<Rightarrow> None
      | Some r \<Rightarrow> if se_visible env j then event_snapshot s j r else None)"

text \<open>What the relay store reads from these tables.\<close>

definition relay_env_of :: "store_env \<Rightarrow> bridge_state \<Rightarrow> relay_env" where
  "relay_env_of env s =
     \<lparr>re_job = get_relay_job_snapshot env s,
      re_visible = (\<lambda>j. map_of (bs_jobs s) j \<noteq> None \<and> se_visible env j),
      re_ended = is_event_activity_ended s, re_project = se_project_active env,
      re_retired = se_relay_retired env,
      re_followup = se_followup_parent env\<rparr>"

definition end_relay :: "store_env \<Rightarrow> string \<Rightarrow> bridge_state \<Rightarrow> bridge_state" where
  "end_relay env a s = s\<lparr>bs_relay := relay_end_activity (relay_env_of env s) a (bs_relay s)\<rparr>"

definition stop_events :: "store_env \<Rightarrow> string \<Rightarrow> bridge_state \<Rightarrow> bridge_state" where
  "stop_events env a s = call_if (se_experimental env) (CallEventsStop a) s"

end
