(* ===== verification/Activity.thy ===== *)
theory Activity
  imports Bridge_State
begin

text \<open>
  Activities: the derived state of \<open>src/src/activity.ts\<close> and the operations of \<open>src/src/stateStore.ts\<close>
  that create, seal, complete, verify, terminate, cancel and abandon an Activity, with the completion
  outbox rows and the relay stop they write in the same transaction.
\<close>

section \<open>The barrier\<close>

definition count_jobs :: "job_status list \<Rightarrow> job_counts" where
  "count_jobs l = \<lparr>jc_total = length l, jc_running = length (filter is_active_status l),
     jc_completed = length (filter (\<lambda>x. x = JsCompleted) l), jc_failed = length (filter (\<lambda>x. x = JsFailed) l),
     jc_interrupted = length (filter (\<lambda>x. x = JsInterrupted) l),
     jc_cancelled = length (filter (\<lambda>x. x = JsCancelled) l),
     jc_terminal = length (filter is_terminal_status l)\<rparr>"

definition activity_statuses :: "string \<Rightarrow> (string \<times> job_row) list \<Rightarrow> job_status list" where
  "activity_statuses a t = map (\<lambda>x. jb_status (snd x)) (filter (\<lambda>x. jb_activity (snd x) = a) t)"

definition count_activity_jobs :: "string \<Rightarrow> bridge_state \<Rightarrow> job_counts" where
  "count_activity_jobs a s = count_jobs (activity_statuses a (bs_jobs s))"

definition empty_counts :: job_counts where
  "empty_counts = count_jobs []"

definition counts_for_single_status :: "job_status option \<Rightarrow> job_counts" where
  "counts_for_single_status st = count_jobs (case st of None \<Rightarrow> [] | Some x \<Rightarrow> [x])"

record barrier_decision =
  bd_lifecycle :: lifecycle
  bd_waiting :: waiting_on
  bd_verification :: verification
  bd_channel :: "channel option"
  bd_attention :: bool

definition keep_decision :: "activity_row \<Rightarrow> waiting_on \<Rightarrow> bool \<Rightarrow> barrier_decision" where
  "keep_decision a w attention = \<lparr>bd_lifecycle = ac_lifecycle a, bd_waiting = w,
     bd_verification = ac_verification a, bd_channel = None, bd_attention = attention\<rparr>"

definition derive_activity_barrier :: "activity_row \<Rightarrow> job_counts \<Rightarrow> barrier_decision" where
  "derive_activity_barrier a c =
     (if finished (ac_lifecycle a) then keep_decision a (ac_waiting a) False
      else let attention = 0 < jc_failed c + jc_interrupted c + jc_cancelled c in
        if 0 < jc_running c then keep_decision a WaitCodex attention
        else let barrier = 0 < jc_total c \<and> jc_terminal c = jc_total c in
          if ac_lifecycle a \<noteq> LcSealed \<or> ac_trigger a \<noteq> SealedJobsTerminal \<or> \<not> barrier \<or> attention
          then keep_decision a (if 0 < jc_total c then WaitOrchestrator else WaitNone) attention
          else case ac_handoff a of
            HandoffNotify \<Rightarrow> \<lparr>bd_lifecycle = LcCompleted, bd_waiting = WaitNone, bd_verification = NotRequired,
              bd_channel = Some ChNotify, bd_attention = False\<rparr>
          | HandoffVerify \<Rightarrow> \<lparr>bd_lifecycle = LcSealed, bd_waiting = WaitVerification, bd_verification = VerPending,
              bd_channel = Some ChVerify, bd_attention = False\<rparr>
          | HandoffNone \<Rightarrow> \<lparr>bd_lifecycle = LcSealed, bd_waiting = WaitOrchestrator,
              bd_verification = ac_verification a, bd_channel = None, bd_attention = False\<rparr>)"

section \<open>The completion outbox\<close>

text \<open>A row is inserted once per Activity, completion version and channel.\<close>

definition insert_completion_outbox ::
  "string \<Rightarrow> string \<Rightarrow> int \<Rightarrow> channel \<Rightarrow> int \<Rightarrow> bridge_state \<Rightarrow> bridge_state" where
  "insert_completion_outbox a sid v ch now s =
     (if list_ex (\<lambda>r. ob_activity r = a \<and> ob_completion r = v \<and> ob_channel r = ch) (bs_outbox s) then s
      else s\<lparr>bs_outbox := bs_outbox s @
          [\<lparr>ob_id = bs_next_outbox s, ob_activity = a, ob_scope = sid, ob_completion = v, ob_channel = ch,
            ob_attempts = 0, ob_next = None, ob_lease_owner = None, ob_lease_expires = None,
            ob_delivered = None, ob_acked = None, ob_created = now\<rparr>],
        bs_next_outbox := bs_next_outbox s + 1\<rparr>)"

definition acknowledge_completion_outbox :: "string \<Rightarrow> channel option \<Rightarrow> int \<Rightarrow> bridge_state \<Rightarrow> bridge_state" where
  "acknowledge_completion_outbox a ch now s =
     s\<lparr>bs_outbox := map (\<lambda>r.
        if ob_activity r = a \<and> (case ch of None \<Rightarrow> True | Some c \<Rightarrow> ob_channel r = c) \<and> ob_acked r = None
        then r\<lparr>ob_acked := Some now\<rparr> else r) (bs_outbox s)\<rparr>"

section \<open>Reconciliation\<close>

definition completion_transition :: "activity_row \<Rightarrow> barrier_decision \<Rightarrow> bool" where
  "completion_transition before d \<longleftrightarrow> bd_channel d \<noteq> None \<and>
     (ac_lifecycle before \<noteq> bd_lifecycle d \<or> ac_waiting before \<noteq> bd_waiting d \<or>
      ac_verification before \<noteq> bd_verification d)"

definition or_else :: "int option \<Rightarrow> int \<Rightarrow> int option" where
  "or_else v d = (case v of None \<Rightarrow> Some d | Some x \<Rightarrow> Some (if x = 0 then d else x))"

definition truthy_time :: "int option \<Rightarrow> int option" where
  "truthy_time v = (if v = Some 0 then None else v)"

definition reconciled_row :: "activity_row \<Rightarrow> job_counts \<Rightarrow> int \<Rightarrow> activity_row" where
  "reconciled_row before c now =
     (let d = derive_activity_barrier before c in
      before\<lparr>ac_lifecycle := bd_lifecycle d, ac_waiting := bd_waiting d, ac_verification := bd_verification d,
        ac_version := ac_version before + 1,
        ac_completion := ac_completion before + (if completion_transition before d then 1 else 0),
        ac_updated := now,
        ac_completed := truthy_time (if bd_lifecycle d = LcCompleted then or_else (ac_completed before) now
                                     else ac_completed before),
        ac_counts := c\<rparr>)"

definition reconcile_event_type :: "activity_row \<Rightarrow> barrier_decision \<Rightarrow> string" where
  "reconcile_event_type before d =
     (if completion_transition before d
      then if bd_channel d = Some ChVerify then ''verification-pending'' else ''activity-completed''
      else if bd_attention d then ''attention-required'' else ''child-jobs-changed'')"

definition reconcile_activity :: "store_env \<Rightarrow> string \<Rightarrow> int \<Rightarrow> bridge_state \<Rightarrow> (store_error, bridge_state) result" where
  "reconcile_activity env a now s =
     res_bind (require_activity a s) (\<lambda>before.
       let c = count_activity_jobs a s; d = derive_activity_barrier before c;
           row = reconciled_row before c now;
           s1 = add_activity_event a (ac_scope before) (reconcile_event_type before d) now (put_activity a row s);
           s2 = (if bd_lifecycle d = LcCompleted then stop_events env a (end_relay env a s1) else s1)
       in Inr (if completion_transition before d
           then insert_completion_outbox a (ac_scope before) (ac_completion row) (the (bd_channel d)) now s2
           else s2))"

section \<open>Operations\<close>

record create_input =
  ci_activity :: string
  ci_scope :: string
  ci_kind :: activity_kind
  ci_handoff :: handoff_policy
  ci_trigger :: completion_trigger
  ci_project_id :: "string option"
  ci_project_name :: "string option"
  ci_project_cwd :: "string option"
  ci_continuation :: "string option"
  ci_title :: "string option"
  ci_legacy :: bool

definition fresh_activity ::
  "string \<Rightarrow> (string \<times> string) option \<Rightarrow> string option \<Rightarrow> activity_kind \<Rightarrow> handoff_policy \<Rightarrow> completion_trigger \<Rightarrow> bool \<Rightarrow> int \<Rightarrow>
   activity_row" where
  "fresh_activity sid project continuation kind handoff trigger is_legacy now =
     \<lparr>ac_scope = sid, ac_project = project, ac_continuation = continuation, ac_kind = kind, ac_handoff = handoff,
      ac_trigger = trigger, ac_lifecycle = LcOpen, ac_waiting = WaitNone, ac_verification = NotRequired,
      ac_version = 1, ac_completion = 0, ac_legacy = is_legacy, ac_created = now, ac_updated = now,
      ac_sealed = None, ac_completed = None, ac_counts = counts_for_single_status None\<rparr>"

text \<open>\<open>Some ''''\<close> is falsy: no continuation is requested.\<close>

definition continuation_source ::
  "string option \<Rightarrow> string \<Rightarrow> bridge_state \<Rightarrow> (store_error, (string \<times> activity_row) option) result" where
  "continuation_source c sid s =
     (case c of
        None \<Rightarrow> Inr None
      | Some raw \<Rightarrow> if raw = '''' then Inr None else
          res_bind (normalize_uuid raw) (\<lambda>cid.
          res_bind (require_activity cid s) (\<lambda>src.
            if ac_scope src \<noteq> sid then Inl ForeignScope else Inr (Some (cid, src)))))"

definition assert_project_active :: "store_env \<Rightarrow> string option \<Rightarrow> (store_error, unit) result" where
  "assert_project_active env p =
     throw_if (case p of None \<Rightarrow> False | Some i \<Rightarrow> i \<noteq> '''' \<and> \<not> se_project_active env i) ProjectArchived"

definition create_activity ::
  "store_env \<Rightarrow> create_input \<Rightarrow> int \<Rightarrow> bridge_state \<Rightarrow> (store_error, bridge_state) result" where
  "create_activity env i now s =
     res_bind (normalize_uuid (ci_activity i)) (\<lambda>aid.
     res_bind (normalize_uuid (ci_scope i)) (\<lambda>sid.
     res_bind (project_admission env (ci_project_id i) (ci_project_name i) (ci_project_cwd i)) (\<lambda>given.
     res_bind (throw_if (map_of (bs_activities s) aid \<noteq> None) ActivityExists) (\<lambda>_.
     let s1 = ensure_scope sid now s in
     res_bind (continuation_source (ci_continuation i) sid s1) (\<lambda>src.
     let project = (case given of Some p \<Rightarrow> Some p
       | None \<Rightarrow> (case src of None \<Rightarrow> None | Some (_, r) \<Rightarrow> ac_project r)) in
     res_bind (assert_project_active env (map_option fst project)) (\<lambda>_.
     res_bind (required_text env (Some (case ci_title i of None \<Rightarrow> ''Codex activity''
         | Some t \<Rightarrow> if t = '''' then ''Codex activity'' else t)) 120) (\<lambda>_.
     let s2 = next_scope_version sid now s1 in
     Inr (add_activity_event aid sid ''activity-created'' now
       (put_activity aid (fresh_activity sid project (map_option fst src) (ci_kind i) (ci_handoff i) (ci_trigger i)
          (ci_legacy i) now) s2)))))))))"

definition set_activity_policy ::
  "string \<Rightarrow> activity_kind option \<Rightarrow> handoff_policy option \<Rightarrow> completion_trigger option \<Rightarrow> int \<Rightarrow> bridge_state \<Rightarrow>
   (store_error, bridge_state) result" where
  "set_activity_policy a kind handoff trigger now s =
     res_bind (require_activity a s) (\<lambda>r.
       if ac_lifecycle r \<noteq> LcOpen then Inl ActivityNotOpen
       else let h = (case handoff of None \<Rightarrow> ac_handoff r | Some x \<Rightarrow> x);
                r' = r\<lparr>ac_kind := (case kind of None \<Rightarrow> ac_kind r | Some x \<Rightarrow> x), ac_handoff := h,
                  ac_trigger := (case trigger of None \<Rightarrow> ac_trigger r | Some x \<Rightarrow> x),
                  ac_verification := (if h = HandoffVerify then ac_verification r else NotRequired),
                  ac_version := ac_version r + 1, ac_updated := now\<rparr>
       in Inr (add_activity_event a (ac_scope r) ''policy-updated'' now
            (put_activity a r' (next_scope_version (ac_scope r) now s))))"

definition seal_activity :: "store_env \<Rightarrow> string \<Rightarrow> int \<Rightarrow> bridge_state \<Rightarrow> (store_error, bridge_state) result" where
  "seal_activity env a now s =
     res_bind (require_activity a s) (\<lambda>r.
       if ac_lifecycle r \<noteq> LcOpen then Inl ActivityNotOpen
       else if jc_total (ac_counts r) = 0 then Inl ActivityEmpty
       else reconcile_activity env a now
         (add_activity_event a (ac_scope r) ''activity-sealed'' now
           (put_activity a (r\<lparr>ac_lifecycle := LcSealed, ac_sealed := Some now, ac_updated := now,
               ac_version := ac_version r + 1\<rparr>)
             (next_scope_version (ac_scope r) now s))))"

definition require_mutable_activity :: "string \<Rightarrow> bridge_state \<Rightarrow> (store_error, activity_row) result" where
  "require_mutable_activity a s =
     res_bind (require_activity a s) (\<lambda>r.
       if finished (ac_lifecycle r) then Inl (ActivityFinished (ac_lifecycle r)) else Inr r)"

definition assert_no_running_jobs :: "activity_row \<Rightarrow> (store_error, unit) result" where
  "assert_no_running_jobs r = throw_if (0 < jc_running (ac_counts r)) JobsRunning"

definition completed_row :: "verification \<Rightarrow> int \<Rightarrow> activity_row \<Rightarrow> activity_row" where
  "completed_row v now r =
     r\<lparr>ac_lifecycle := LcCompleted, ac_waiting := WaitNone, ac_verification := v, ac_version := ac_version r + 1,
       ac_completion := ac_completion r + 1, ac_updated := now, ac_completed := Some now\<rparr>"

definition complete_activity ::
  "store_env \<Rightarrow> string \<Rightarrow> string option \<Rightarrow> int \<Rightarrow> bridge_state \<Rightarrow> (store_error, bridge_state) result" where
  "complete_activity env a reason now s =
     res_bind (require_mutable_activity a s) (\<lambda>r.
     res_bind (assert_no_running_jobs r) (\<lambda>_.
       if ac_verification r \<in> {VerPending, Verifying} then Inl VerificationUnfinished
       else if ac_handoff r = HandoffVerify \<and> ac_verification r \<noteq> Verified then Inl VerificationNotPassed
       else res_bind (bounded_text env reason 2000) (\<lambda>_.
         let s1 = add_activity_event a (ac_scope r) ''activity-completed'' now
               (put_activity a (completed_row NotRequired now r) (next_scope_version (ac_scope r) now s));
             s2 = stop_events env a (end_relay env a s1)
         in Inr (if ac_handoff r = HandoffNotify
                 then insert_completion_outbox a (ac_scope r) (ac_completion r + 1) ChNotify now s2 else s2))))"

definition transition_activity_terminal ::
  "store_env \<Rightarrow> string \<Rightarrow> activity_row \<Rightarrow> lifecycle \<Rightarrow> string \<Rightarrow> int \<Rightarrow> bridge_state \<Rightarrow> bridge_state" where
  "transition_activity_terminal env a r target event_type now s =
     stop_events env a (end_relay env a (acknowledge_completion_outbox a None now
       (add_activity_event a (ac_scope r) event_type now
         (put_activity a (r\<lparr>ac_lifecycle := target, ac_waiting := WaitNone, ac_verification := NotRequired,
             ac_version := ac_version r + 1, ac_updated := now\<rparr>)
           (next_scope_version (ac_scope r) now s)))))"

definition abandon_activity ::
  "store_env \<Rightarrow> string \<Rightarrow> string option \<Rightarrow> int \<Rightarrow> bridge_state \<Rightarrow> (store_error, bridge_state) result" where
  "abandon_activity env a reason now s =
     res_bind (require_mutable_activity a s) (\<lambda>r.
     res_bind (assert_no_running_jobs r) (\<lambda>_.
     res_bind (bounded_text env reason 2000) (\<lambda>_.
       Inr (transition_activity_terminal env a r LcAbandoned ''activity-abandoned'' now s))))"

definition cancel_activity ::
  "store_env \<Rightarrow> string \<Rightarrow> string option \<Rightarrow> int \<Rightarrow> bridge_state \<Rightarrow> (store_error, bridge_state) result" where
  "cancel_activity env a reason now s =
     res_bind (require_mutable_activity a s) (\<lambda>r.
     res_bind (assert_no_running_jobs r) (\<lambda>_.
     res_bind (bounded_text env reason 2000) (\<lambda>_.
       Inr (transition_activity_terminal env a r LcCancelled ''activity-cancelled'' now s))))"

definition begin_activity_termination ::
  "store_env \<Rightarrow> string \<Rightarrow> string option \<Rightarrow> int \<Rightarrow> bridge_state \<Rightarrow> (store_error, bridge_state) result" where
  "begin_activity_termination env a reason now s =
     res_bind (require_mutable_activity a s) (\<lambda>r.
       if ac_lifecycle r = LcTerminating then Inr s
       else if jc_running (ac_counts r) = 0 then Inl NoActiveJobs
       else res_bind (bounded_text env reason 2000) (\<lambda>_.
         Inr (add_activity_event a (ac_scope r) ''activity-terminating'' now
           (put_activity a (r\<lparr>ac_lifecycle := LcTerminating, ac_waiting := WaitCodex,
               ac_version := ac_version r + 1, ac_updated := now\<rparr>)
             (next_scope_version (ac_scope r) now s)))))"

definition start_activity_verification :: "string \<Rightarrow> int \<Rightarrow> bridge_state \<Rightarrow> (store_error, bridge_state) result" where
  "start_activity_verification a now s =
     res_bind (require_mutable_activity a s) (\<lambda>r.
       if ac_handoff r \<noteq> HandoffVerify then Inl NotVerifyActivity
       else res_bind (assert_no_running_jobs r) (\<lambda>_.
         if jc_total (ac_counts r) = 0 then Inl ActivityEmpty
         else if jc_completed (ac_counts r) = 0 then Inl NothingCompleted
         else if ac_verification r \<notin> {NotRequired, VerPending, VerFailed} then Inl VerificationState
         else Inr (acknowledge_completion_outbox a (Some ChVerify) now
           (add_activity_event a (ac_scope r) ''verification-started'' now
             (put_activity a (r\<lparr>ac_lifecycle := LcSealed,
                 ac_sealed := (case ac_sealed r of None \<Rightarrow> Some now | Some t \<Rightarrow> Some t),
                 ac_waiting := WaitVerification, ac_verification := Verifying,
                 ac_version := ac_version r + 1, ac_updated := now\<rparr>)
               (next_scope_version (ac_scope r) now s))))))"

text \<open>The evidence of a passed verification: its summary and the lists it may carry.\<close>

record verification_evidence =
  ve_summary :: "string option"
  ve_jobs :: "string list option"
  ve_tests :: "string list option"
  ve_artifacts :: "string list option"
  ve_references :: "string list option"

definition evidence_list :: "store_env \<Rightarrow> string list option \<Rightarrow> nat \<Rightarrow> nat \<Rightarrow> (store_error, string list) result" where
  "evidence_list env v max_items max_length =
     (case v of
        None \<Rightarrow> Inr []
      | Some l \<Rightarrow> if max_items < length l then Inl EvidenceInvalid
                  else res_mapM (\<lambda>x. required_text env (Some x) max_length) l)"

text \<open>The normalised job ids; the other lists are only checked.\<close>

definition normalize_verification_evidence ::
  "store_env \<Rightarrow> verification_evidence \<Rightarrow> (store_error, string list) result" where
  "normalize_verification_evidence env e =
     res_bind (required_text env (ve_summary e) 1000) (\<lambda>_.
     res_bind (evidence_list env (ve_jobs e) 30 200) (\<lambda>jobs.
     res_bind (evidence_list env (ve_tests e) 20 300) (\<lambda>_.
     res_bind (evidence_list env (ve_artifacts e) 20 500) (\<lambda>_.
     res_bind (evidence_list env (ve_references e) 20 500) (\<lambda>_. Inr jobs)))))"

definition evidence_jobs_belong :: "string \<Rightarrow> string list \<Rightarrow> bridge_state \<Rightarrow> bool" where
  "evidence_jobs_belong a jobs s \<longleftrightarrow>
     list_all (\<lambda>j. case map_of (bs_jobs s) j of None \<Rightarrow> False | Some r \<Rightarrow> jb_activity r = a) jobs"

definition pass_activity_verification ::
  "store_env \<Rightarrow> string \<Rightarrow> verification_evidence \<Rightarrow> int \<Rightarrow> bridge_state \<Rightarrow> (store_error, bridge_state) result" where
  "pass_activity_verification env a e now s =
     res_bind (require_mutable_activity a s) (\<lambda>r.
       if ac_lifecycle r \<noteq> LcSealed \<or> ac_verification r \<noteq> Verifying then Inl VerificationState
       else res_bind (assert_no_running_jobs r) (\<lambda>_.
         res_bind (normalize_verification_evidence env e) (\<lambda>jobs.
           if \<not> evidence_jobs_belong a jobs s then Inl EvidenceJobForeign
           else Inr (stop_events env a (end_relay env a
             (add_activity_event a (ac_scope r) ''verification-passed'' now
               (put_activity a (completed_row Verified now r) (next_scope_version (ac_scope r) now s))))))))"

definition fail_activity_verification ::
  "store_env \<Rightarrow> string \<Rightarrow> string \<Rightarrow> int \<Rightarrow> bridge_state \<Rightarrow> (store_error, bridge_state) result" where
  "fail_activity_verification env a reason now s =
     res_bind (require_mutable_activity a s) (\<lambda>r.
       if ac_verification r \<notin> {VerPending, Verifying} then Inl VerificationState
       else res_bind (required_text env (Some reason) 2000) (\<lambda>_.
         Inr (acknowledge_completion_outbox a (Some ChVerify) now
           (add_activity_event a (ac_scope r) ''verification-failed'' now
             (put_activity a (r\<lparr>ac_lifecycle := LcOpen, ac_sealed := None, ac_waiting := WaitOrchestrator,
                 ac_verification := VerFailed, ac_version := ac_version r + 1, ac_updated := now,
                 ac_completed := None\<rparr>)
               (next_scope_version (ac_scope r) now s))))))"

end
