(* ===== verification/Job_Store.thy ===== *)
theory Job_Store
  imports Activity
begin

text \<open>
  Durable job rows of \<open>src/src/stateStore.ts\<close>: \<open>upsertJobInternal\<close> with the checks that precede the
  write, the Agent state that follows it, progress and telemetry writes, and registry archival.
\<close>

section \<open>The input of a write\<close>

record job_input =
  ji_id :: string
  ji_activity :: "string option"
  ji_scope :: string
  ji_request :: string
  ji_status :: string
  ji_thread :: "string option"
  ji_session_thread :: "string option"
  ji_source :: "string option"
  ji_worker :: "string option"
  ji_generation :: "int option"
  ji_turn :: "string option"
  ji_terminal_version :: "int option"
  ji_agent :: "string option"
  ji_context :: "context_mode option"
  ji_project_id :: "string option"
  ji_project_name :: "string option"
  ji_cwd :: "string option"
  ji_sandbox :: "string option"
  ji_principal :: "string option"
  ji_tracking :: "string option"
  ji_policy :: "delivery_policy option"
  ji_origin :: "terminal_origin option"
  ji_intent :: "string option"
  ji_created :: "int option"
  ji_updated :: int
  ji_version :: "int option"
  ji_inputs :: "js list"

text \<open>\<open>x || y\<close> on optional strings, whose empty value is falsy.\<close>

definition truthy_string :: "string option \<Rightarrow> string option" where
  "truthy_string v = (if v = Some '''' then None else v)"

definition or_string :: "string option \<Rightarrow> string option \<Rightarrow> string option" where
  "or_string v w = (case truthy_string v of None \<Rightarrow> w | Some x \<Rightarrow> Some x)"

text \<open>A row for the pending interaction a snapshot lists.\<close>

definition interaction_of :: "js \<Rightarrow> (store_error, interaction_row) result" where
  "interaction_of v =
     (case (v, jget v ''interactionId'') of
        (JObj fs, JStr i) \<Rightarrow>
          if i = '''' then Inl BadInteraction
          else Inr \<lparr>in_id = i, in_blocking = (jget v ''isBlocking'' \<noteq> JBool False),
                 in_payload = filter (\<lambda>f. fst f \<noteq> ''interactionId'' \<and> fst f \<noteq> ''isBlocking'') fs\<rparr>
      | _ \<Rightarrow> Inl BadInteraction)"

definition interactions_of :: "js list \<Rightarrow> (store_error, interaction_row list) result" where
  "interactions_of l =
     res_bind (res_mapM interaction_of l) (\<lambda>rows.
       if distinct (map in_id rows) then Inr rows else Inl BadInteraction)"

text \<open>\<open>hasBlockingInteraction\<close> of the snapshot.\<close>

definition blocks :: "js \<Rightarrow> bool" where
  "blocks v \<longleftrightarrow> \<not> is_object v \<or> jget v ''isBlocking'' \<noteq> JBool False"

section \<open>Checks before the write\<close>

definition origin_status :: "terminal_origin \<Rightarrow> job_status option" where
  "origin_status t =
     (case t of
        NormalCompletion \<Rightarrow> Some JsCompleted
      | UpstreamFailure \<Rightarrow> Some JsFailed
      | AppServerInterrupted \<Rightarrow> Some JsInterrupted
      | ExplicitCancellation \<Rightarrow> Some JsCancelled
      | AssignmentContainment \<Rightarrow> Some JsInterrupted
      | BridgeRestart \<Rightarrow> Some JsInterrupted
      | WorkerLoss \<Rightarrow> Some JsInterrupted
      | _ \<Rightarrow> None)"

definition coalesce_option :: "'a option \<Rightarrow> 'a option \<Rightarrow> 'a option" where
  "coalesce_option v w = (case v of None \<Rightarrow> w | Some x \<Rightarrow> Some x)"

definition intent_targets :: "intent_row \<Rightarrow> string \<Rightarrow> string \<Rightarrow> bool" where
  "intent_targets i j sid \<longleftrightarrow>
     tg_kind (cn_target i) = TargetJob \<and> tg_job (cn_target i) = Some j \<and> cn_scope i = sid"

text \<open>
  Provenance of a cancellation: the intent the row names must target this job, a new cancelled status
  needs an intent and the explicit origin, and every origin fixes the status it can produce.
\<close>

definition check_provenance ::
  "bridge_state \<Rightarrow> job_input \<Rightarrow> job_status \<Rightarrow> job_row option \<Rightarrow> terminal_origin option \<Rightarrow> string option \<Rightarrow>
   (store_error, unit) result" where
  "check_provenance s i st previous origin intent =
     (let newly_cancelled = st = JsCancelled \<and> map_option jb_status previous \<noteq> Some JsCancelled in
      if (case intent of None \<Rightarrow> False
          | Some x \<Rightarrow> (case map_of (bs_intents s) x of None \<Rightarrow> True
              | Some row \<Rightarrow> \<not> intent_targets row (ji_id i) (ji_scope i))) then Inl CancellationProvenance
      else if newly_cancelled \<and> intent = None then Inl CancellationProvenance
      else if origin = Some ExplicitCancellation \<and> intent = None then Inl CancellationProvenance
      else if (case origin of None \<Rightarrow> False
          | Some t \<Rightarrow> (case origin_status t of None \<Rightarrow> False | Some x \<Rightarrow> st \<noteq> x)) then Inl OriginMismatch
      else if origin = Some AppServerInterrupted \<and> intent \<noteq> None then Inl OriginMismatch
      else if newly_cancelled \<and> origin \<noteq> Some ExplicitCancellation then Inl OriginMismatch
      else Inr ())"

text \<open>A write to a row that exists keeps its scope, Activity, Agent, project and delivery policy.\<close>

definition normalized_option :: "string option \<Rightarrow> (store_error, string option) result" where
  "normalized_option v = (case truthy_string v of None \<Rightarrow> Inr None
     | Some x \<Rightarrow> res_bind (normalize_uuid x) (\<lambda>n. Inr (Some n)))"

definition check_agent ::
  "bridge_state \<Rightarrow> string \<Rightarrow> job_row option \<Rightarrow> string option \<Rightarrow> (store_error, unit) result" where
  "check_agent s sid previous agent =
     (if (case previous of None \<Rightarrow> False | Some p \<Rightarrow> jb_agent p \<noteq> None \<and> agent \<noteq> jb_agent p) then Inl JobMoved
      else case agent of
        None \<Rightarrow> Inr ()
      | Some g \<Rightarrow> throw_if (case map_of (bs_agents s) g of None \<Rightarrow> True | Some row \<Rightarrow> ag_scope row \<noteq> sid) AgentForeign)"

definition request_reused :: "bridge_state \<Rightarrow> string \<Rightarrow> string \<Rightarrow> string \<Rightarrow> bool" where
  "request_reused s sid rid j \<longleftrightarrow>
     list_ex (\<lambda>(k, r). jb_scope r = sid \<and> jb_request r = rid \<and> k \<noteq> j) (bs_jobs s)"

text \<open>New work: the relay goal of the Activity keeps its owner and still accepts work, the request is
  not retired, the project is in use, and no handoff of the thread or Agent is pending.\<close>

definition check_relay_goal :: "bridge_state \<Rightarrow> string \<Rightarrow> string \<Rightarrow> string option \<Rightarrow> (store_error, unit) result" where
  "check_relay_goal s a sid who =
     (case map_of (rs_goals (bs_relay s)) a of
        None \<Rightarrow> Inr ()
      | Some g \<Rightarrow> if ro_scope g \<noteq> sid \<or> ro_principal g \<noteq> who then Inl RelayOwnerChanged
                  else throw_if (rg_followups_stopped g) RelayFollowupsStopped)"

definition activity_project :: "bridge_state \<Rightarrow> string \<Rightarrow> (string \<times> string) option" where
  "activity_project s a = (case map_of (bs_activities s) a of None \<Rightarrow> None | Some r \<Rightarrow> ac_project r)"

definition check_new_work ::
  "store_env \<Rightarrow> bridge_state \<Rightarrow> job_input \<Rightarrow> job_status \<Rightarrow> string \<Rightarrow> string \<Rightarrow> (store_error, unit) result" where
  "check_new_work env s i st a sid =
     res_bind (check_relay_goal s a sid (ji_principal i)) (\<lambda>_.
     res_bind (throw_if (se_request_retired env ''task'' sid (ji_request i)) RequestRetired) (\<lambda>_.
     res_bind (assert_project_active env (or_string (ji_project_id i) (map_option fst (activity_project s a)))) (\<lambda>_.
       throw_if (st = JsRunning \<and> se_admission_blocked env (truthy_string (ji_agent i))
         (or_string (ji_thread i) (or_string (ji_session_thread i) (ji_source i)))) HandoffPending)))"

section \<open>The row\<close>

definition valid_sandbox :: "string option \<Rightarrow> string \<Rightarrow> string" where
  "valid_sandbox given fallback =
     (case given of None \<Rightarrow> fallback
      | Some x \<Rightarrow> if x \<in> {''read-only'', ''danger-full-access'', ''workspace-write''} then x else fallback)"

definition next_terminal_version :: "job_row option \<Rightarrow> job_status \<Rightarrow> int option \<Rightarrow> int option" where
  "next_terminal_version previous st given =
     (let old = (case previous of None \<Rightarrow> None | Some p \<Rightarrow> jb_terminal_version p);
          nonzero = (\<lambda>v. case v of None \<Rightarrow> 0 | Some x \<Rightarrow> x) in
      if \<not> is_terminal_status st then None
      else if (case previous of None \<Rightarrow> False | Some p \<Rightarrow> is_terminal_status (jb_status p))
      then Some (if nonzero old \<noteq> 0 then nonzero old else if nonzero given \<noteq> 0 then nonzero given else 1)
      else Some (max (nonzero old) (nonzero given) + 1))"

record admitted_job =
  ad_status :: job_status
  ad_activity :: string
  ad_scope :: string
  ad_origin :: "terminal_origin option"
  ad_intent :: "string option"
  ad_policy :: delivery_policy
  ad_agent :: "string option"
  ad_context :: "context_mode option"
  ad_project :: "string option"
  ad_inputs :: "interaction_row list"

definition old :: "(job_row \<Rightarrow> 'a option) \<Rightarrow> job_row option \<Rightarrow> 'a option" where
  "old f previous = (case previous of None \<Rightarrow> None | Some p \<Rightarrow> f p)"

definition new_job_row :: "job_input \<Rightarrow> admitted_job \<Rightarrow> job_row option \<Rightarrow> string option \<Rightarrow> job_row" where
  "new_job_row i ad previous folder =
     \<lparr>jb_scope = ad_scope ad, jb_request = ji_request i, jb_activity = ad_activity ad,
      jb_thread = trimmed_string (or_string (ji_thread i) (ji_session_thread i)),
      jb_source = coalesce_option (trimmed_string (ji_source i)) (old jb_source previous),
      jb_status = ad_status ad, jb_worker = trimmed_string (ji_worker i), jb_generation = ji_generation i,
      jb_turn = trimmed_string (ji_turn i),
      jb_terminal_version = next_terminal_version previous (ad_status ad) (ji_terminal_version i),
      jb_agent = ad_agent ad, jb_context = ad_context ad,
      jb_cwd = (case trimmed_string folder of Some f \<Rightarrow> f
        | None \<Rightarrow> (case previous of Some p \<Rightarrow> if jb_cwd p = '''' then ''/'' else jb_cwd p | None \<Rightarrow> ''/'')),
      jb_sandbox = valid_sandbox (ji_sandbox i)
        (case previous of Some p \<Rightarrow> if jb_sandbox p = '''' then ''workspace-write'' else jb_sandbox p | None \<Rightarrow> ''workspace-write''),
      jb_principal = ji_principal i, jb_tracking = ji_tracking i, jb_policy = ad_policy ad,
      jb_origin = ad_origin ad, jb_intent = ad_intent ad,
      jb_created = (case previous of Some p \<Rightarrow> jb_created p
        | None \<Rightarrow> (case ji_created i of Some t \<Rightarrow> t | None \<Rightarrow> ji_updated i)),
      jb_updated = ji_updated i,
      jb_version = (case ji_version i of Some v \<Rightarrow> if 1 \<le> v then v
          else (case previous of Some p \<Rightarrow> jb_version p | None \<Rightarrow> 1)
        | None \<Rightarrow> (case previous of Some p \<Rightarrow> jb_version p | None \<Rightarrow> 1)),
      jb_archived = None,
      jb_ended = (if is_terminal_status (ad_status ad)
        then coalesce_option (old jb_ended previous) (Some (ji_updated i)) else old jb_ended previous),
      jb_inputs = ad_inputs ad\<rparr>"

section \<open>The Activity of the write\<close>

definition activity_admission :: "store_env \<Rightarrow> bridge_state \<Rightarrow> string \<Rightarrow> (store_error, (string \<times> string) option) result" where
  "activity_admission env s a =
     (case activity_project s a of
        None \<Rightarrow> Inr None
      | Some (p, f) \<Rightarrow> res_bind (folder_admission env p f) (\<lambda>x. Inr (Some x)))"

text \<open>An Activity that does not exist is created for the job; a new job needs an open one.\<close>

definition admit_activity ::
  "store_env \<Rightarrow> job_input \<Rightarrow> string \<Rightarrow> string \<Rightarrow> string option \<Rightarrow> bool \<Rightarrow> bridge_state \<Rightarrow>
   (store_error, bool \<times> bridge_state) result" where
  "admit_activity env i a sid project existing s =
     (case map_of (bs_activities s) a of
        None \<Rightarrow>
          res_bind (case project of None \<Rightarrow> Inr None
            | Some p \<Rightarrow> res_bind (required_string (ji_cwd i) 4000) (\<lambda>f.
                res_bind (folder_admission env p f) (\<lambda>x. Inr (Some x)))) (\<lambda>pin.
            Inr (True, put_activity a (fresh_activity sid pin None OtherKind HandoffNone Manual True (ji_updated i)) s))
      | Some r \<Rightarrow>
          if ac_scope r \<noteq> sid then Inl ForeignScope
          else if \<not> existing \<and> ac_lifecycle r \<noteq> LcOpen then Inl ActivityClosed
          else Inr (False, s))"

definition activity_jobs_use_cwd :: "string \<Rightarrow> string \<Rightarrow> bridge_state \<Rightarrow> bool" where
  "activity_jobs_use_cwd a cwd s =
     (let rows = filter (\<lambda>x. jb_activity (snd x) = a) (bs_jobs s) in
      rows \<noteq> [] \<and> list_all (\<lambda>x. jb_cwd (snd x) = cwd) rows)"

text \<open>The project an Activity is pinned to by its first project job, and the folder its jobs must use.\<close>

definition pin_project ::
  "store_env \<Rightarrow> job_input \<Rightarrow> string \<Rightarrow> string option \<Rightarrow> bool \<Rightarrow> bridge_state \<Rightarrow>
   (store_error, string option \<times> bridge_state) result" where
  "pin_project env i a project existing s =
     res_bind (activity_admission env s a) (\<lambda>pin.
     res_bind (case (pin, project) of
         (Some (q, _), Some p) \<Rightarrow> if q \<noteq> p then Inl ProjectConflict else Inr s
       | (None, Some p) \<Rightarrow>
           res_bind (required_string (ji_cwd i) 4000) (\<lambda>f.
             case map_of (bs_activities s) a of
               None \<Rightarrow> Inl UnknownActivity
             | Some r \<Rightarrow>
                 if 0 < jc_total (ac_counts r) \<and> \<not> existing \<and> \<not> activity_jobs_use_cwd a f s then Inl ProjectConflict
                 else Inr (put_activity a (r\<lparr>ac_project := Some (p, f)\<rparr>) s))
       | _ \<Rightarrow> Inr s) (\<lambda>s1.
     res_bind (activity_admission env s1 a) (\<lambda>pinned.
       case pinned of
         None \<Rightarrow> Inr (ji_cwd i, s1)
       | Some (_, f) \<Rightarrow>
           if ji_cwd i \<noteq> None \<and> ji_cwd i \<noteq> Some f then Inl ProjectConflict else Inr (Some f, s1))))"

section \<open>The Agent of a job\<close>

fun latest_active :: "string \<Rightarrow> (string \<times> job_row) list \<Rightarrow> (string \<times> job_row) option" where
  "latest_active g [] = None"
| "latest_active g ((j, r) # t) =
     (let rest = latest_active g t in
      if jb_agent r = Some g \<and> jb_archived r = None \<and> is_active_status (jb_status r)
      then (case rest of None \<Rightarrow> Some (j, r)
            | Some (j', r') \<Rightarrow> if jb_updated r' \<le> jb_updated r then Some (j, r) else rest)
      else rest)"

definition release_assignment :: "string \<Rightarrow> string \<Rightarrow> int \<Rightarrow> assignment_row \<Rightarrow> assignment_row" where
  "release_assignment a g now x =
     (if as_activity x = a \<and> as_agent x = g \<and> as_released x = None then x\<lparr>as_released := Some now\<rparr> else x)"

definition held_assignment :: "string \<Rightarrow> string \<Rightarrow> assignment_row \<Rightarrow> bool" where
  "held_assignment a g x \<longleftrightarrow> as_activity x = a \<and> as_agent x = g \<and> as_released x = None"

definition sync_agent_for_job ::
  "string \<Rightarrow> job_status \<Rightarrow> js list \<Rightarrow> string \<Rightarrow> string \<Rightarrow> int \<Rightarrow> bridge_state \<Rightarrow>
   (store_error, bool \<times> bridge_state) result" where
  "sync_agent_for_job j st inputs g a now s =
     (case map_of (bs_agents s) g of
        None \<Rightarrow> Inl UnknownAgent
      | Some row \<Rightarrow>
          let active = is_active_status st; other = latest_active g (bs_jobs s);
              lc = (if active then if list_ex blocks inputs then AgWaitingInput else AgActive
                    else case other of
                      Some (_, r) \<Rightarrow> if list_ex in_blocking (jb_inputs r) then AgWaitingInput else AgActive
                    | None \<Rightarrow> if ag_lifecycle row = AgOrphaned then AgOrphaned else AgIdle);
              current = (if active then Some j else map_option fst other);
              released = (\<not> active \<and> list_ex (held_assignment a g) (bs_assignments s));
              s1 = (if active then s
                    else s\<lparr>bs_assignments := map (release_assignment a g now) (bs_assignments s)\<rparr>)
          in if ag_lifecycle row = lc \<and> ag_current row = current then Inr (released, s1)
             else Inr (True, s1\<lparr>bs_agents := AList.update g
               (row\<lparr>ag_lifecycle := lc, ag_current := current, ag_version := ag_version row + 1, ag_updated := now\<rparr>)
               (bs_agents s1)\<rparr>))"

section \<open>The write\<close>

definition relay_policy :: "admitted_job \<Rightarrow> bool \<Rightarrow> string \<Rightarrow> bridge_state \<Rightarrow> bool" where
  "relay_policy ad existing j s \<longleftrightarrow>
     ad_policy ad = RelayCard \<or> map_of (rs_jobs (bs_relay s)) j \<noteq> None \<or>
     (\<not> existing \<and> ad_policy ad \<noteq> EventsPolicy \<and> ad_policy ad \<noteq> LiveCard \<and>
      map_of (rs_goals (bs_relay s)) (ad_activity ad) \<noteq> None)"

definition reconcile_relay :: "store_env \<Rightarrow> int \<Rightarrow> event_job \<Rightarrow> bridge_state \<Rightarrow> bridge_state" where
  "reconcile_relay env now snap s =
     s\<lparr>bs_relay := reconcile_job (relay_env_of env s) (se_event_of env) now snap (bs_relay s)\<rparr>"

definition register_relay :: "store_env \<Rightarrow> int \<Rightarrow> string \<Rightarrow> bridge_state \<Rightarrow> bridge_state" where
  "register_relay env now j s =
     (case get_event_job_snapshot s j of
        None \<Rightarrow> s
      | Some snap \<Rightarrow> reconcile_relay env now snap
          (s\<lparr>bs_relay := relay_register (relay_env_of env s) snap (bs_relay s)\<rparr>))"

definition add_delivery :: "string \<Rightarrow> admitted_job \<Rightarrow> int option \<Rightarrow> job_row option \<Rightarrow> int \<Rightarrow> bridge_state \<Rightarrow> bridge_state" where
  "add_delivery j ad version previous now s =
     (case version of
        None \<Rightarrow> s
      | Some v \<Rightarrow>
          if is_terminal_status (ad_status ad) \<and> v \<noteq> 0 \<and>
            \<not> (case previous of None \<Rightarrow> False | Some p \<Rightarrow> is_terminal_status (jb_status p)) \<and>
            map_of (bs_deliveries s) j = None
          then s\<lparr>bs_deliveries := bs_deliveries s @
            [(j, \<lparr>jd_scope = ad_scope ad, jd_terminal_version = v, jd_created = now\<rparr>)]\<rparr>
          else s)"

text \<open>The row, its delivery receipt, and the hand-over to the relay and the other components.\<close>

definition write_job_row ::
  "store_env \<Rightarrow> int \<Rightarrow> job_input \<Rightarrow> admitted_job \<Rightarrow> job_row option \<Rightarrow> string option \<Rightarrow> bridge_state \<Rightarrow>
   (store_error, bridge_state) result" where
  "write_job_row env now i ad previous folder s =
     (let j = ji_id i; row = new_job_row i ad previous folder;
          s1 = add_delivery j ad (jb_terminal_version row) previous (ji_updated i) (put_job j row s) in
      res_bind (throw_if (\<not> se_followup_ok env j) FollowupRejected) (\<lambda>_.
      let s2 = call (CallFollowupAdmit j) s1;
          s3 = call_if (is_terminal_status (ad_status ad) \<and> se_experimental env) (CallEventsEnqueue j) s2;
          s4 = call_if (se_experimental env) (CallEventsLifecycle j) s3
      in Inr (if relay_policy ad (previous \<noteq> None) j s4 then register_relay env now j s4 else s4)))"

definition job_event_type :: "job_row option \<Rightarrow> job_status \<Rightarrow> string" where
  "job_event_type previous st =
     (case previous of
        None \<Rightarrow> ''job-started''
      | Some p \<Rightarrow> if jb_status p \<noteq> st then ''job-'' @ job_status_name st
                  else if truthy_time (jb_archived p) \<noteq> None then ''job-retained-again'' else ''thread-linked'')"

text \<open>A write that changed something visible is recorded and its Activity reconciled.\<close>

definition record_job_change ::
  "store_env \<Rightarrow> job_input \<Rightarrow> admitted_job \<Rightarrow> job_row option \<Rightarrow> bool \<Rightarrow> bridge_state \<Rightarrow>
   (store_error, bridge_state) result" where
  "record_job_change env i ad previous created s =
     (let a = ad_activity ad; sid = ad_scope ad; now = ji_updated i;
          s1 = next_scope_version sid now s;
          s2 = (if created then add_activity_event a sid ''compatibility-activity-created'' now s1 else s1);
          s3 = add_job_event (ji_id i) a sid (job_event_type previous (ad_status ad)) (ad_status ad) now s2
      in reconcile_activity env a now s3)"

definition visible_change :: "job_row option \<Rightarrow> job_row \<Rightarrow> bool" where
  "visible_change previous row =
     (case previous of
        None \<Rightarrow> True
      | Some p \<Rightarrow> jb_status p \<noteq> jb_status row \<or> truthy_string (jb_thread p) \<noteq> jb_thread row \<or>
                  truthy_time (jb_archived p) \<noteq> None)"

definition commit_job ::
  "store_env \<Rightarrow> int \<Rightarrow> job_input \<Rightarrow> admitted_job \<Rightarrow> job_row option \<Rightarrow> string option \<Rightarrow> bool \<Rightarrow> bridge_state \<Rightarrow>
   (store_error, bridge_state) result" where
  "commit_job env now i ad previous folder created s =
     res_bind (write_job_row env now i ad previous folder s) (\<lambda>s1.
     res_bind (case ad_agent ad of None \<Rightarrow> Inr (False, s1)
       | Some g \<Rightarrow> sync_agent_for_job (ji_id i) (ad_status ad) (ji_inputs i) g (ad_activity ad) (ji_updated i) s1)
       (\<lambda>(agent_changed, s2).
         let s3 = call (CallRetentionSummary (ji_id i))
               (call (CallThreadRecord (ji_id i) (map_option jb_status previous)) s2) in
         if created \<or> agent_changed \<or> visible_change previous (new_job_row i ad previous folder)
         then record_job_change env i ad previous created s3
         else Inr s3))"

definition admit_job ::
  "store_env \<Rightarrow> job_input \<Rightarrow> job_status \<Rightarrow> string \<Rightarrow> string \<Rightarrow> job_row option \<Rightarrow> bridge_state \<Rightarrow>
   (store_error, admitted_job) result" where
  "admit_job env i st a sid previous s =
     res_bind (if previous = None then check_new_work env s i st a sid else Inr ()) (\<lambda>_.
     let origin = coalesce_option (ji_origin i) (old jb_origin previous) in
     res_bind (case truthy_string (ji_intent i) of None \<Rightarrow> Inr (truthy_string (old jb_intent previous))
       | Some x \<Rightarrow> normalized_option (Some x)) (\<lambda>intent.
     res_bind (check_provenance s i st previous origin intent) (\<lambda>_.
     let policy = (case ji_policy i of Some p \<Rightarrow> p
       | None \<Rightarrow> (case previous of Some r \<Rightarrow> jb_policy r | None \<Rightarrow> LiveCard)) in
     res_bind (throw_if (case previous of None \<Rightarrow> False | Some r \<Rightarrow> jb_policy r \<noteq> policy) PolicyChange) (\<lambda>_.
     res_bind (throw_if (case previous of None \<Rightarrow> False
       | Some r \<Rightarrow> jb_scope r \<noteq> sid \<or> jb_activity r \<noteq> a) JobMoved) (\<lambda>_.
     res_bind (case truthy_string (ji_agent i) of None \<Rightarrow> Inr (truthy_string (old jb_agent previous))
       | Some x \<Rightarrow> normalized_option (Some x)) (\<lambda>agent.
     res_bind (check_agent s sid previous agent) (\<lambda>_.
     res_bind (project_identity env (ji_project_id i) (ji_project_name i)) (\<lambda>given.
     let pinned = (case previous of None \<Rightarrow> None | Some r \<Rightarrow> map_option fst (activity_project s (jb_activity r))) in
     res_bind (throw_if (case (pinned, given) of (Some p, Some q) \<Rightarrow> p \<noteq> q | _ \<Rightarrow> False) ProjectConflict) (\<lambda>_.
     res_bind (throw_if (request_reused s sid (ji_request i) (ji_id i)) RequestReused) (\<lambda>_.
     res_bind (interactions_of (ji_inputs i)) (\<lambda>rows.
       Inr \<lparr>ad_status = st, ad_activity = a, ad_scope = sid, ad_origin = origin, ad_intent = intent,
         ad_policy = policy, ad_agent = agent,
         ad_context = coalesce_option (ji_context i) (old jb_context previous),
         ad_project = coalesce_option pinned given, ad_inputs = rows\<rparr>)))))))))))"

definition place_job ::
  "store_env \<Rightarrow> int \<Rightarrow> job_input \<Rightarrow> admitted_job \<Rightarrow> job_row option \<Rightarrow> bridge_state \<Rightarrow>
   (store_error, bridge_state) result" where
  "place_job env now i ad previous s =
     res_bind (admit_activity env i (ad_activity ad) (ad_scope ad) (ad_project ad) (previous \<noteq> None)
        (ensure_scope (ad_scope ad) (ji_updated i) s)) (\<lambda>(created, s1).
     res_bind (pin_project env i (ad_activity ad) (ad_project ad) (previous \<noteq> None) s1) (\<lambda>(folder, s2).
       commit_job env now i ad previous folder created s2))"

text \<open>
  \<open>upsertJobInternal\<close>: a snapshot of retired or expired work, or of an active state after a terminal
  one, is ignored.
\<close>

definition upsert_job :: "store_env \<Rightarrow> int \<Rightarrow> job_input \<Rightarrow> bridge_state \<Rightarrow> (store_error, bridge_state) result" where
  "upsert_job env now i s =
     (if se_job_retired env (ji_id i) \<or> se_job_expired env (ji_id i) then Inr s
      else case job_status_of (ji_status i) of
        None \<Rightarrow> Inl BadJobStatus
      | Some st \<Rightarrow>
          res_bind (normalize_uuid (case truthy_string (ji_activity i) of
              None \<Rightarrow> se_legacy_activity env (ji_id i) | Some x \<Rightarrow> x)) (\<lambda>a.
          res_bind (normalize_uuid (ji_scope i)) (\<lambda>sid.
            let previous = map_of (bs_jobs s) (ji_id i) in
            if (case previous of None \<Rightarrow> False | Some p \<Rightarrow> is_terminal_status (jb_status p) \<and> is_active_status st)
            then Inr s
            else res_bind (admit_job env i st a sid previous s) (\<lambda>ad. place_job env now i ad previous s))))"

section \<open>Progress\<close>

record progress_input =
  pg_updated :: int
  pg_last :: int
  pg_version :: int
  pg_inputs :: "js list"

definition resumed_row :: "progress_input \<Rightarrow> interaction_row list \<Rightarrow> job_row \<Rightarrow> job_row" where
  "resumed_row p rows r =
     r\<lparr>jb_updated := pg_updated p, jb_version := pg_version p, jb_inputs := rows,
       jb_status := (if jb_status r = JsTerminationFailed then JsRunning else jb_status r)\<rparr>"

text \<open>Whether the worker resumed, whether the Agent changed, and the row as it was.\<close>

definition update_job_progress ::
  "string \<Rightarrow> progress_input \<Rightarrow> bridge_state \<Rightarrow> (store_error, (bool \<times> bool \<times> job_row) \<times> bridge_state) result" where
  "update_job_progress j p s =
     (if pg_version p < 1 then Inl BadJobVersion
      else case map_of (bs_jobs s) j of
        None \<Rightarrow> Inl JobNotActive
      | Some r \<Rightarrow>
          if jb_archived r \<noteq> None \<or> \<not> is_active_status (jb_status r) then Inl JobNotActive
          else res_bind (interactions_of (pg_inputs p)) (\<lambda>rows.
            let s1 = put_job j (resumed_row p rows r) s; resumed = (jb_status r = JsTerminationFailed) in
            case jb_agent r of
              None \<Rightarrow> Inr ((resumed, False, r), s1)
            | Some g \<Rightarrow>
                res_bind (sync_agent_for_job j (jb_status (resumed_row p rows r)) (pg_inputs p) g (jb_activity r)
                  (pg_updated p) s1) (\<lambda>(changed, s2). Inr ((resumed, changed, r), s2))))"

definition notify_progress :: "store_env \<Rightarrow> int \<Rightarrow> string \<Rightarrow> bridge_state \<Rightarrow> bridge_state" where
  "notify_progress env now j s =
     (case get_event_job_snapshot s j of
        None \<Rightarrow> s
      | Some snap \<Rightarrow> reconcile_relay env now snap (call_if (se_experimental env) (CallEventsLifecycle j) s))"

definition job_running_event :: "bool \<Rightarrow> string \<Rightarrow> job_row \<Rightarrow> int \<Rightarrow> bridge_state \<Rightarrow> bridge_state" where
  "job_running_event resumed j r now s =
     (if resumed then add_job_event j (jb_activity r) (jb_scope r) ''job-running'' JsRunning now s else s)"

definition update_job_progress_state ::
  "store_env \<Rightarrow> int \<Rightarrow> string \<Rightarrow> progress_input \<Rightarrow> bridge_state \<Rightarrow> (store_error, bridge_state) result" where
  "update_job_progress_state env now j p s =
     res_bind (update_job_progress j p s) (\<lambda>((resumed, changed, r), s1).
       let s2 = (if pg_inputs p \<noteq> [] \<or> changed then notify_progress env now j s1 else s1) in
       if \<not> resumed \<and> \<not> changed then Inr s2
       else Inr (job_running_event resumed j r (pg_updated p)
         (next_runtime_scope_version (jb_scope r) (pg_updated p) s2)))"

section \<open>Telemetry and archival\<close>

definition word_char :: "char \<Rightarrow> bool" where
  "word_char c \<longleftrightarrow> (let n = (of_char c :: nat) in
     48 \<le> n \<and> n \<le> 57 \<or> 65 \<le> n \<and> n \<le> 90 \<or> 97 \<le> n \<and> n \<le> 122)"

definition normalize_event_type :: "string \<Rightarrow> (store_error, string) result" where
  "normalize_event_type v =
     (case take 120 (js_trim v) of
        [] \<Rightarrow> Inl BadEventType
      | c # cs \<Rightarrow>
          if word_char c \<and> list_all (\<lambda>d. word_char d \<or> d \<in> set ''._:-'') cs then Inr (c # cs) else Inl BadEventType)"

text \<open>\<open>tm_interaction\<close>: the payload's details carry an interaction or the id of a resolved one.\<close>

record telemetry_input =
  tm_type :: string
  tm_interaction :: bool
  tm_at :: int
  tm_waiting :: "waiting_on option"
  tm_state :: "progress_input option"

definition progress_or_row ::
  "string \<Rightarrow> progress_input option \<Rightarrow> bridge_state \<Rightarrow> (store_error, (bool \<times> job_row) \<times> bridge_state) result" where
  "progress_or_row j state s =
     (case state of
        Some p \<Rightarrow> res_bind (update_job_progress j p s) (\<lambda>((resumed, _, r), s1). Inr ((resumed, r), s1))
      | None \<Rightarrow>
          (case map_of (bs_jobs s) j of
             None \<Rightarrow> Inl UnknownJob
           | Some r \<Rightarrow> if jb_archived r \<noteq> None then Inl UnknownJob else Inr ((False, r), s)))"

definition set_waiting :: "string \<Rightarrow> string \<Rightarrow> waiting_on \<Rightarrow> int \<Rightarrow> bridge_state \<Rightarrow> bridge_state" where
  "set_waiting a sid w now s =
     add_activity_event a sid (if w = WaitUser then ''activity-waiting-user'' else ''activity-waiting-codex'') now
       (case map_of (bs_activities s) a of
          None \<Rightarrow> s
        | Some r \<Rightarrow> if finished (ac_lifecycle r) then s
                    else put_activity a (r\<lparr>ac_waiting := w, ac_updated := now, ac_version := ac_version r + 1\<rparr>) s)"

definition input_event_type :: "string \<Rightarrow> bool" where
  "input_event_type t \<longleftrightarrow> starts_with ''app-input-required-'' t \<or> starts_with ''app-approval-required-'' t"

definition record_job_telemetry ::
  "store_env \<Rightarrow> int \<Rightarrow> string \<Rightarrow> telemetry_input \<Rightarrow> bridge_state \<Rightarrow> (store_error, bridge_state) result" where
  "record_job_telemetry env now j t s =
     res_bind (progress_or_row j (tm_state t) s) (\<lambda>((resumed, r), s1).
     res_bind (normalize_event_type (tm_type t)) (\<lambda>kind.
       let a = jb_activity r; sid = jb_scope r;
           s2 = next_runtime_scope_version sid (tm_at t) s1;
           s3 = job_running_event resumed j r (case tm_state t of Some p \<Rightarrow> pg_updated p | None \<Rightarrow> tm_at t) s2;
           s4 = add_job_event j a sid kind (if resumed then JsRunning else jb_status r) (tm_at t) s3;
           s5 = (case tm_waiting t of None \<Rightarrow> s4 | Some w \<Rightarrow> set_waiting a sid w (tm_at t) s4)
       in Inr (if input_event_type (tm_type t) \<or> tm_interaction t then notify_progress env now j s5 else s5)))"

definition touch_activity :: "string \<Rightarrow> int \<Rightarrow> string \<Rightarrow> bridge_state \<Rightarrow> (store_error, bridge_state) result" where
  "touch_activity a now kind s =
     res_bind (require_activity a s) (\<lambda>r.
       Inr (add_activity_event a (ac_scope r) kind now
         (put_activity a (r\<lparr>ac_version := ac_version r + 1, ac_updated := now\<rparr>) s)))"

definition retention_protection :: "string \<Rightarrow> bridge_state \<Rightarrow> bool" where
  "retention_protection j s =
     (case map_of (bs_jobs s) j of None \<Rightarrow> False | Some r \<Rightarrow> is_active_status (jb_status r))"

text \<open>\<open>deleteJob\<close> archives the registry entry of a job that is not active; the row stays.\<close>

definition delete_job :: "string \<Rightarrow> int \<Rightarrow> bridge_state \<Rightarrow> (store_error, bool \<times> bridge_state) result" where
  "delete_job j now s =
     (if retention_protection j s then Inr (False, s)
      else case map_of (bs_jobs s) j of
        None \<Rightarrow> Inr (False, s)
      | Some r \<Rightarrow>
          if jb_archived r \<noteq> None then Inr (False, s)
          else res_bind (touch_activity (jb_activity r) now ''job-retention-pruned''
              (add_job_event j (jb_activity r) (jb_scope r) ''retention-pruned'' (jb_status r) now
                (put_job j (r\<lparr>jb_archived := Some now\<rparr>) (next_scope_version (jb_scope r) now s)))) (\<lambda>s1.
            Inr (True, s1)))"

record retention_candidate =
  rc_job :: string
  rc_updated :: int
  rc_version :: int
  rc_protected :: bool

datatype disposition = DispSkipped | DispProtected | DispRetained | DispRemoved

record retention_command =
  rk_candidates :: "retention_candidate list"
  rk_reservations :: int
  rk_max_removed :: nat
  rk_cutoff :: int
  rk_target :: int
  rk_now :: int

text \<open>What becomes of a candidate, given the admission reservations that remain before it.\<close>

definition current_candidate :: "retention_candidate \<Rightarrow> bridge_state \<Rightarrow> bool" where
  "current_candidate c s =
     (case map_of (bs_jobs s) (rc_job c) of
        None \<Rightarrow> False
      | Some r \<Rightarrow> jb_archived r = None \<and> is_terminal_status (jb_status r) \<and> jb_updated r = rc_updated c \<and>
                  jb_version r = rc_version c)"

text \<open>
  The loop over the candidates. \<open>in_time\<close> says before each candidate but the first whether the deadline
  is still ahead.
\<close>

fun retention_loop ::
  "retention_command \<Rightarrow> bool list \<Rightarrow> retention_candidate list \<Rightarrow> nat \<Rightarrow> int \<Rightarrow> (string \<times> disposition) list \<Rightarrow>
   bridge_state \<Rightarrow> (store_error, ((string \<times> disposition) list \<times> int) \<times> bridge_state) result" where
  "retention_loop k in_time [] removed left out s = Inr ((out, left), s)"
| "retention_loop k in_time (c # cs) removed left out s =
     (if rk_max_removed k \<le> removed \<or> out \<noteq> [] \<and> \<not> (case in_time of [] \<Rightarrow> True | b # _ \<Rightarrow> b) then Inr ((out, left), s)
      else if \<not> current_candidate c s
      then retention_loop k (tl in_time) cs removed left (out @ [(rc_job c, DispSkipped)]) s
      else if retention_protection (rc_job c) s
      then retention_loop k (tl in_time) cs removed (if rc_protected c then left else max 0 (left - 1))
        (out @ [(rc_job c, DispProtected)]) s
      else let left1 = (if rc_protected c then left + 1 else left) in
        if rk_cutoff k \<le> rc_updated c \<and> left1 \<le> rk_target k
        then retention_loop k (tl in_time) cs removed left1 (out @ [(rc_job c, DispRetained)]) s
        else res_bind (delete_job (rc_job c) (rk_now k) s) (\<lambda>(gone, s1).
          if gone then retention_loop k (tl in_time) cs (removed + 1) (max 0 (left1 - 1))
            (out @ [(rc_job c, DispRemoved)]) s1
          else retention_loop k (tl in_time) cs removed left1 (out @ [(rc_job c, DispProtected)]) s1))"

definition maintain_job_retention ::
  "retention_command \<Rightarrow> bool list \<Rightarrow> bridge_state \<Rightarrow>
   (store_error, ((string \<times> disposition) list \<times> int) \<times> bridge_state) result" where
  "maintain_job_retention k in_time s =
     retention_loop k in_time (rk_candidates k) 0 (rk_reservations k) [] s"

end
