(* ===== verification/Cancellation.thy ===== *)
theory Cancellation
  imports Job_Store
begin

text \<open>
  Cancellation provenance: \<open>src/src/cancellation.ts\<close> and the operations of \<open>src/src/stateStore.ts\<close> that
  record a cancellation operation with its root intent, further intents of the same cascade, and
  their outcomes.
\<close>

section \<open>Normalised input\<close>

record cancel_request =
  cr_scope :: string
  cr_request :: string
  cr_source :: string
  cr_tool :: string
  cr_action :: string
  cr_target_kind :: string
  cr_target_job :: "string option"
  cr_target_activity :: string
  cr_target_agent :: "string option"
  cr_target_thread :: "string option"
  cr_target_turn :: "string option"
  cr_target_presentation :: "string option"
  cr_expected :: int
  cr_presentation :: "(string \<times> string option) option"
  cr_widget :: "(string \<times> int) option"
  cr_caller_digest :: "string option"
  cr_reason_code :: string
  cr_now :: int

fun source_name :: "cancellation_source \<Rightarrow> string" where
  "source_name ModelTool = ''model-tool''"
| "source_name WidgetControl = ''widget-control''"
| "source_name ActivityCascade = ''activity-cascade''"
| "source_name Operator = ''operator''"
| "source_name SrcContainment = ''assignment-containment''"

definition cancellation_sources :: "cancellation_source list" where
  "cancellation_sources = [ModelTool, WidgetControl, ActivityCascade, Operator, SrcContainment]"

definition normalize_source :: "string \<Rightarrow> (store_error, cancellation_source) result" where
  "normalize_source v =
     (case find (\<lambda>x. source_name x = v) cancellation_sources of None \<Rightarrow> Inl BadSource | Some x \<Rightarrow> Inr x)"

definition optional_with :: "(string \<Rightarrow> (store_error, string) result) \<Rightarrow> string option \<Rightarrow> (store_error, string option) result" where
  "optional_with f v = (case truthy_string v of None \<Rightarrow> Inr None | Some x \<Rightarrow> res_bind (f x) (\<lambda>n. Inr (Some n)))"

definition normalize_target :: "cancel_request \<Rightarrow> (store_error, cancellation_target) result" where
  "normalize_target r =
     (if cr_target_kind r \<notin> {''job'', ''activity''} then Inl BadTarget
      else res_bind (optional_with (\<lambda>x. required_string (Some x) 200) (cr_target_job r)) (\<lambda>job.
        if (cr_target_kind r = ''job'') \<noteq> (job \<noteq> None) then Inl BadTarget
        else res_bind (normalize_uuid (cr_target_activity r)) (\<lambda>a.
        res_bind (optional_with normalize_uuid (cr_target_agent r)) (\<lambda>g.
        res_bind (optional_with (\<lambda>x. required_string (Some x) 200) (cr_target_thread r)) (\<lambda>t.
        res_bind (optional_with (\<lambda>x. required_string (Some x) 200) (cr_target_turn r)) (\<lambda>u.
        res_bind (optional_with normalize_uuid (cr_target_presentation r)) (\<lambda>p.
          Inr \<lparr>tg_kind = (if cr_target_kind r = ''job'' then TargetJob else TargetActivity), tg_job = job,
            tg_activity = a, tg_agent = g, tg_thread = t, tg_turn = u, tg_presentation = p\<rparr>)))))))"

text \<open>\<open>Some None\<close> is an explicit presentation, \<open>Some (Some p)\<close> the automatic presentation \<open>p\<close>.\<close>

definition normalize_presentation ::
  "(string \<times> string option) option \<Rightarrow> (store_error, string option option) result" where
  "normalize_presentation v =
     (case v of
        None \<Rightarrow> Inr None
      | Some (kind, p) \<Rightarrow>
          if kind = ''explicit'' then if truthy_string p \<noteq> None then Inl BadPresentation else Inr (Some None)
          else if kind \<noteq> ''automatic'' \<or> truthy_string p = None then Inl BadPresentation
          else res_bind (normalize_uuid (the p)) (\<lambda>n. Inr (Some (Some n))))"

definition normalize_digest :: "string \<Rightarrow> (store_error, string) result" where
  "normalize_digest v =
     res_bind (required_string (Some v) 64) (\<lambda>t.
       let n = ascii_lower t in if length n = 64 \<and> list_all is_hex n then Inr n else Inl BadDigest)"

definition normalize_widget :: "(string \<times> int) option \<Rightarrow> (store_error, (string \<times> int) option) result" where
  "normalize_widget v =
     (case v of
        None \<Rightarrow> Inr None
      | Some (d, generation) \<Rightarrow>
          if generation < 1 then Inl BadCardGeneration
          else res_bind (normalize_digest d) (\<lambda>n. Inr (Some (n, generation))))"

definition normalize_expected :: "int \<Rightarrow> (store_error, int) result" where
  "normalize_expected v = (if v < 1 then Inl BadExpectedVersion else Inr v)"

text \<open>The pattern of a reason code: one to 80 lower-case letters, digits, dots, underscores, hyphens.\<close>

definition lower_or_digit :: "char \<Rightarrow> bool" where
  "lower_or_digit c \<longleftrightarrow> (let n = (of_char c :: nat) in 48 \<le> n \<and> n \<le> 57 \<or> 97 \<le> n \<and> n \<le> 122)"

definition bounded_reason_code :: "string \<Rightarrow> bool" where
  "bounded_reason_code v =
     (case v of [] \<Rightarrow> False
      | c # cs \<Rightarrow> lower_or_digit c \<and> length cs \<le> 79 \<and> list_all (\<lambda>d. lower_or_digit d \<or> d \<in> set ''._-'') cs)"

definition normalize_reason_code :: "string \<Rightarrow> (store_error, string) result" where
  "normalize_reason_code v = (if bounded_reason_code v then Inr v else Inl BadReasonCode)"

definition normalize_timestamp :: "int \<Rightarrow> (store_error, int) result" where
  "normalize_timestamp v = (if is_safe_integer v \<and> 0 \<le> v then Inr v else Inl BadTimestamp)"

definition normalize_facts :: "store_env \<Rightarrow> cancel_request \<Rightarrow> (store_error, cancellation_facts) result" where
  "normalize_facts env r =
     res_bind (normalize_uuid (cr_scope r)) (\<lambda>sid.
     res_bind (normalize_uuid (cr_request r)) (\<lambda>rid.
     res_bind (normalize_source (cr_source r)) (\<lambda>src.
     res_bind (required_string (Some (cr_tool r)) 100) (\<lambda>tool.
     res_bind (required_string (Some (cr_action r)) 100) (\<lambda>action.
     res_bind (normalize_target r) (\<lambda>target.
     res_bind (normalize_expected (cr_expected r)) (\<lambda>expected.
     res_bind (normalize_presentation (cr_presentation r)) (\<lambda>presentation.
     res_bind (normalize_widget (cr_widget r)) (\<lambda>widget.
     res_bind (optional_with normalize_digest (cr_caller_digest r)) (\<lambda>caller.
     res_bind (normalize_reason_code (cr_reason_code r)) (\<lambda>code.
     res_bind (normalize_timestamp (cr_now r)) (\<lambda>now.
       Inr \<lparr>cn_scope = sid, cn_request = rid, cn_source = src, cn_tool = tool, cn_action = action,
         cn_target = target, cn_expected = expected, cn_presentation = presentation, cn_widget = widget,
         cn_caller_digest = caller, cn_reason_code = code, cn_instance = se_instance env, cn_created = now\<rparr>))))))))))))"

section \<open>Operations\<close>

text \<open>A target must exist in the scope and still be what the caller saw.\<close>

definition mismatch :: "string option \<Rightarrow> string option \<Rightarrow> bool" where
  "mismatch wanted actual \<longleftrightarrow> truthy_string wanted \<noteq> None \<and> actual \<noteq> wanted"

definition assert_cancellation_target :: "string \<Rightarrow> cancellation_target \<Rightarrow> bridge_state \<Rightarrow> (store_error, unit) result" where
  "assert_cancellation_target sid t s =
     (case map_of (bs_activities s) (tg_activity t) of
        None \<Rightarrow> Inl CancellationTarget
      | Some a \<Rightarrow>
          if ac_scope a \<noteq> sid then Inl CancellationTarget
          else if tg_kind t = TargetActivity then throw_if (truthy_string (tg_job t) \<noteq> None) CancellationTarget
          else (case truthy_string (tg_job t) of
            None \<Rightarrow> Inl CancellationTarget
          | Some j \<Rightarrow>
              (case map_of (bs_jobs s) j of
                 None \<Rightarrow> Inl CancellationTarget
               | Some r \<Rightarrow>
                   throw_if (jb_archived r \<noteq> None \<or> jb_scope r \<noteq> sid \<or> jb_activity r \<noteq> tg_activity t \<or>
                     mismatch (tg_agent t) (jb_agent r) \<or> mismatch (tg_thread t) (jb_thread r) \<or>
                     mismatch (tg_turn t) (jb_turn r)) CancellationTarget)))"

definition require_intent :: "string \<Rightarrow> bridge_state \<Rightarrow> (store_error, intent_row) result" where
  "require_intent i s = (case map_of (bs_intents s) i of None \<Rightarrow> Inl UnknownIntent | Some r \<Rightarrow> Inr r)"

definition put_intent :: "string \<Rightarrow> intent_row \<Rightarrow> bridge_state \<Rightarrow> bridge_state" where
  "put_intent i r s = s\<lparr>bs_intents := AList.update i r (bs_intents s)\<rparr>"

definition put_operation :: "operation_row \<Rightarrow> bridge_state \<Rightarrow> bridge_state" where
  "put_operation r s = s\<lparr>bs_operations := AList.update (cn_scope r, cn_request r) r (bs_operations s)\<rparr>"

definition intent_row_of :: "cancellation_facts \<Rightarrow> string option \<Rightarrow> string \<Rightarrow> intent_row" where
  "intent_row_of f parent cascade = cancellation_facts.extend f
     \<lparr>it_parent = parent, it_cascade = cascade, it_status = IntentRecorded, it_dispatched = None, it_completed = None\<rparr>"

definition insert_intent ::
  "string \<Rightarrow> cancellation_facts \<Rightarrow> string option \<Rightarrow> string \<Rightarrow> bridge_state \<Rightarrow> (store_error, bridge_state) result" where
  "insert_intent i f parent cascade s =
     (if map_of (bs_intents s) i \<noteq> None then Inl UniqueViolated
      else Inr (put_intent i (intent_row_of f parent cascade) s))"

definition record_intent_event :: "intent_row \<Rightarrow> string \<Rightarrow> int \<Rightarrow> bridge_state \<Rightarrow> (store_error, bridge_state) result" where
  "record_intent_event r kind now s =
     (let s1 = next_scope_version (cn_scope r) now s; t = cn_target r in
      case (tg_kind t, truthy_string (tg_job t)) of
        (TargetJob, Some j) \<Rightarrow>
          (case map_of (bs_jobs s1) j of
             None \<Rightarrow> Inl UnknownJob
           | Some row \<Rightarrow> Inr (add_job_event j (tg_activity t) (cn_scope r) kind (jb_status row) now s1))
      | _ \<Rightarrow> Inr (add_activity_event (tg_activity t) (cn_scope r) kind now s1))"

fun intent_status_name :: "intent_status \<Rightarrow> string" where
  "intent_status_name IntentRecorded = ''recorded''"
| "intent_status_name IntentDispatched = ''dispatched''"
| "intent_status_name IntentSucceeded = ''succeeded''"
| "intent_status_name IntentFailed = ''failed''"
| "intent_status_name IntentNoOp = ''no-op''"

definition intent_event_type :: "intent_status \<Rightarrow> string" where
  "intent_event_type st = ''cancellation-intent-'' @ intent_status_name st"

text \<open>\<open>i\<close> is the intent id the operation draws at random.\<close>

definition begin_cancellation_operation ::
  "store_env \<Rightarrow> cancel_request \<Rightarrow> string \<Rightarrow> string option \<Rightarrow> string \<Rightarrow> bridge_state \<Rightarrow>
   (store_error, bridge_state) result" where
  "begin_cancellation_operation env req digest reason i s =
     res_bind (normalize_facts env req) (\<lambda>f.
     res_bind (normalize_digest digest) (\<lambda>h.
     res_bind (bounded_text env reason 500) (\<lambda>why.
     res_bind (throw_if (se_request_retired env ''cancellation'' (cn_scope f) (cn_request f)) RequestRetired) (\<lambda>_.
       case map_of (bs_operations s) (cn_scope f, cn_request f) of
         Some o' \<Rightarrow> if op_hash o' \<noteq> h then Inl CancellationConflict else Inl CancellationExists
       | None \<Rightarrow>
           let s1 = ensure_scope (cn_scope f) (cn_created f) s in
           res_bind (assert_cancellation_target (cn_scope f) (cn_target f) s1) (\<lambda>_.
           let op = cancellation_facts.extend f \<lparr>op_root = i, op_hash = h, op_reason = why, op_status = OpRecorded,
                 op_result = None, op_completed = None\<rparr> in
           res_bind (insert_intent i f None i (put_operation op s1)) (\<lambda>s2.
             record_intent_event (intent_row_of f None i) (intent_event_type IntentRecorded) (cn_created f) s2))))))"

definition create_cancellation_intent ::
  "store_env \<Rightarrow> cancel_request \<Rightarrow> string \<Rightarrow> string \<Rightarrow> string \<Rightarrow> bridge_state \<Rightarrow> (store_error, bridge_state) result" where
  "create_cancellation_intent env req parent cascade i s =
     res_bind (normalize_facts env req) (\<lambda>f.
     res_bind (normalize_uuid parent) (\<lambda>pid.
     res_bind (normalize_uuid cascade) (\<lambda>cid.
       case map_of (bs_operations s) (cn_scope f, cn_request f) of
         None \<Rightarrow> Inl CancellationProvenance
       | Some o' \<Rightarrow>
           if op_status o' \<noteq> OpRecorded then Inl CancellationClosed
           else res_bind (require_intent pid s) (\<lambda>p.
             if cn_scope p \<noteq> cn_scope f \<or> cn_request p \<noteq> cn_request f \<or> it_cascade p \<noteq> cid then Inl CancellationParent
             else res_bind (assert_cancellation_target (cn_scope f) (cn_target f) s) (\<lambda>_.
               res_bind (insert_intent i f (Some pid) cid s) (\<lambda>s1.
                 record_intent_event (intent_row_of f (Some pid) cid) (intent_event_type IntentRecorded)
                   (cn_created f) s1))))))"

definition intent_settled :: "intent_status \<Rightarrow> bool" where
  "intent_settled st \<longleftrightarrow> st \<in> {IntentSucceeded, IntentFailed, IntentNoOp}"

definition stamped :: "bool \<Rightarrow> int \<Rightarrow> int option \<Rightarrow> int option" where
  "stamped b now v = (if b then coalesce_option v (Some now) else v)"

definition set_cancellation_intent_status ::
  "string \<Rightarrow> intent_status \<Rightarrow> int \<Rightarrow> bridge_state \<Rightarrow> (store_error, bridge_state) result" where
  "set_cancellation_intent_status i st now s =
     res_bind (require_intent i s) (\<lambda>r.
       if it_status r = st then Inr s
       else if intent_settled (it_status r) \<or> it_status r = IntentRecorded \<and> st = IntentSucceeded
       then Inl IntentTransition
       else let r' = r\<lparr>it_status := st, it_dispatched := stamped (st = IntentDispatched) now (it_dispatched r),
              it_completed := stamped (intent_settled st) now (it_completed r)\<rparr>
         in record_intent_event r' (intent_event_type st) now (put_intent i r' s))"

definition complete_cancellation_operation ::
  "string \<Rightarrow> string \<Rightarrow> js \<Rightarrow> operation_status \<Rightarrow> int \<Rightarrow> bridge_state \<Rightarrow> (store_error, bridge_state) result" where
  "complete_cancellation_operation sid rid result st now s =
     (case map_of (bs_operations s) (sid, rid) of
        None \<Rightarrow> Inl UnknownOperation
      | Some o' \<Rightarrow>
          if op_status o' \<noteq> OpRecorded then if op_status o' = st then Inr s else Inl OperationSettled
          else Inr (s\<lparr>bs_operations := AList.update (sid, rid)
            (o'\<lparr>op_status := st, op_result := Some result, op_completed := Some now\<rparr>) (bs_operations s)\<rparr>))"

section \<open>Worker termination\<close>

definition bounded_identifier :: "js \<Rightarrow> bool" where
  "bounded_identifier v \<longleftrightarrow> is_string v \<and> string_of v \<noteq> '''' \<and> length (string_of v) \<le> 200"

definition assert_termination_correlation :: "js \<Rightarrow> (store_error, unit) result" where
  "assert_termination_correlation v =
     (let k = jget v ''kind''; reason = jget v ''reasonCode'' in
      if \<not> is_object v then Inl CancellationProvenance
      else if k = JStr ''execution-containment'' \<and> truthy (jget v ''correlationId'') \<and>
        reason = JStr ''EXECUTION_EVENT_RETENTION_EXHAUSTED'' then Inr ()
      else if k = JStr ''cancellation-intent'' \<and> bounded_identifier (jget v ''intentId'') \<and>
        bounded_identifier (jget v ''requestId'') \<and>
        list_ex (\<lambda>x. jget v ''source'' = JStr (source_name x)) cancellation_sources \<and>
        is_string reason \<and> bounded_reason_code (string_of reason) then Inr ()
      else if k = JStr ''assignment-containment'' \<and> bounded_identifier (jget v ''correlationId'') \<and>
        reason = JStr ''assignment-persistence-failed'' then Inr ()
      else Inl CancellationProvenance)"

definition termination_correlation :: "string \<Rightarrow> intent_row \<Rightarrow> js" where
  "termination_correlation i r = JObj [(''kind'', JStr ''cancellation-intent''), (''intentId'', JStr i),
     (''requestId'', JStr (cn_request r)), (''source'', JStr (source_name (cn_source r))),
     (''reasonCode'', JStr (cn_reason_code r))]"

section \<open>Reads\<close>

definition matches_filter :: "string option \<Rightarrow> string \<Rightarrow> bool" where
  "matches_filter wanted actual \<longleftrightarrow> truthy_string wanted = None \<or> wanted = Some actual"

text \<open>\<open>ORDER BY created_at, rowid\<close>: a stable sort of the rows in insertion order.\<close>

definition list_cancellation_intents ::
  "string option \<Rightarrow> string option \<Rightarrow> string option \<Rightarrow> string option \<Rightarrow> bridge_state \<Rightarrow> (string \<times> intent_row) list" where
  "list_cancellation_intents scope request job activity s =
     sort_key (\<lambda>x. cn_created (snd x)) (filter (\<lambda>x. let r = snd x in
       matches_filter scope (cn_scope r) \<and> matches_filter request (cn_request r) \<and>
       (truthy_string job = None \<or> tg_job (cn_target r) = job) \<and>
       matches_filter activity (tg_activity (cn_target r))) (bs_intents s))"

definition list_cancellation_operations :: "string option \<Rightarrow> bridge_state \<Rightarrow> operation_row list" where
  "list_cancellation_operations scope s =
     sort_key cn_created (filter (\<lambda>r. matches_filter scope (cn_scope r)) (map snd (bs_operations s)))"

end
