(* ===== verification/Completion_Outbox.thy ===== *)
theory Completion_Outbox
  imports Activity
begin

text \<open>
  Delivery of completion hand-offs: the claim, delivery, release and hold operations of the completion
  outbox in \<open>src/src/stateStore.ts\<close>, and the retry schedule of \<open>src/src/completionDelivery.ts\<close>.
  \<open>kept\<close> is the history predicate on a row (not expired and newer than the retention cutoff).
\<close>

definition uncertain_hold_at :: int where
  "uncertain_hold_at = 8640000000000000"

definition native_completion_retry_ms :: "int \<Rightarrow> int" where
  "native_completion_retry_ms attempts = min 300000 (5000 * 2 ^ nat (max 0 (min 6 (attempts - 1))))"

datatype delivery_route = NativeNotification | RoutePending

definition select_completion_delivery_route :: "bool \<Rightarrow> delivery_route" where
  "select_completion_delivery_route native = (if native then NativeNotification else RoutePending)"

definition due :: "int option \<Rightarrow> int \<Rightarrow> bool" where
  "due t now \<longleftrightarrow> (case t of None \<Rightarrow> True | Some x \<Rightarrow> x \<le> now)"

definition lease_passed :: "outbox_row \<Rightarrow> int \<Rightarrow> bool" where
  "lease_passed r now \<longleftrightarrow> (case ob_lease_expires r of None \<Rightarrow> False | Some t \<Rightarrow> t \<le> now)"

definition undelivered :: "outbox_row \<Rightarrow> bool" where
  "undelivered r \<longleftrightarrow> ob_delivered r = None \<and> ob_acked r = None"

text \<open>The rows an operation may change, and the change.\<close>

definition update_rows ::
  "(outbox_row \<Rightarrow> bool) \<Rightarrow> (outbox_row \<Rightarrow> outbox_row) \<Rightarrow> bridge_state \<Rightarrow> nat \<times> bridge_state" where
  "update_rows p f s =
     (length (filter p (bs_outbox s)), s\<lparr>bs_outbox := map (\<lambda>r. if p r then f r else r) (bs_outbox s)\<rparr>)"

definition find_row :: "int \<Rightarrow> bridge_state \<Rightarrow> outbox_row option" where
  "find_row i s = find (\<lambda>r. ob_id r = i) (bs_outbox s)"

definition is_row :: "int \<Rightarrow> string \<Rightarrow> outbox_row \<Rightarrow> bool" where
  "is_row i sid r \<longleftrightarrow> ob_id r = i \<and> ob_scope r = sid"

definition claimable_row :: "(outbox_row \<Rightarrow> bool) \<Rightarrow> int \<Rightarrow> string \<Rightarrow> string \<Rightarrow> int \<Rightarrow> outbox_row \<Rightarrow> bool" where
  "claimable_row kept i sid who now r \<longleftrightarrow>
     is_row i sid r \<and> kept r \<and> undelivered r \<and> due (ob_next r) now \<and>
     (ob_lease_owner r = None \<or> lease_passed r now \<or> ob_lease_owner r = Some who)"

definition lease_row :: "string \<Rightarrow> int \<Rightarrow> outbox_row \<Rightarrow> outbox_row" where
  "lease_row who expires r = r\<lparr>ob_lease_owner := Some who, ob_lease_expires := Some expires, ob_next := None,
     ob_attempts := ob_attempts r + 1\<rparr>"

definition claim_completion_outbox ::
  "(outbox_row \<Rightarrow> bool) \<Rightarrow> int \<Rightarrow> string \<Rightarrow> string \<Rightarrow> int \<Rightarrow> int \<Rightarrow> bridge_state \<Rightarrow> outbox_row option \<times> bridge_state" where
  "claim_completion_outbox kept i sid who lease_ms now s =
     (case update_rows (claimable_row kept i sid who now) (lease_row who (now + lease_ms)) s of
        (n, s1) \<Rightarrow> if n \<noteq> 1 then (None, s1)
          else ((case find_row i s1 of None \<Rightarrow> None | Some r \<Rightarrow> if kept r then Some r else None), s1))"

definition markable_row :: "int \<Rightarrow> string \<Rightarrow> string \<Rightarrow> outbox_row \<Rightarrow> bool" where
  "markable_row i sid who r \<longleftrightarrow> is_row i sid r \<and> (ob_lease_owner r = Some who \<or> ob_delivered r \<noteq> None)"

definition deliver_row :: "int \<Rightarrow> outbox_row \<Rightarrow> outbox_row" where
  "deliver_row now r = r\<lparr>ob_delivered := (case ob_delivered r of None \<Rightarrow> Some now | Some t \<Rightarrow> Some t),
     ob_lease_owner := None, ob_lease_expires := None, ob_next := None\<rparr>"

definition mark_completion_outbox_delivered ::
  "int \<Rightarrow> string \<Rightarrow> string \<Rightarrow> int \<Rightarrow> bridge_state \<Rightarrow> (store_error, bridge_state) result" where
  "mark_completion_outbox_delivered i sid who now s =
     (case update_rows (markable_row i sid who) (deliver_row now) s of
        (n, s1) \<Rightarrow> if n \<noteq> 1 then Inl LeaseMissing
          else case find_row i s1 of None \<Rightarrow> Inl UnknownOutbox | Some _ \<Rightarrow> Inr s1)"

definition release_completion_outbox :: "int \<Rightarrow> string \<Rightarrow> string \<Rightarrow> bridge_state \<Rightarrow> bridge_state" where
  "release_completion_outbox i sid who s =
     snd (update_rows (\<lambda>r. is_row i sid r \<and> ob_lease_owner r = Some who \<and> ob_delivered r = None)
       (\<lambda>r. r\<lparr>ob_lease_owner := None, ob_lease_expires := None\<rparr>) s)"

definition release_native_completion_outbox :: "outbox_row \<Rightarrow> string \<Rightarrow> int \<Rightarrow> bridge_state \<Rightarrow> bool \<times> bridge_state" where
  "release_native_completion_outbox item who now s =
     (case update_rows (\<lambda>r. is_row (ob_id item) (ob_scope item) r \<and> ob_channel r = ChNotify \<and>
          ob_lease_owner r = Some who \<and> undelivered r)
        (\<lambda>r. r\<lparr>ob_lease_owner := None, ob_lease_expires := None,
               ob_next := Some (now + native_completion_retry_ms (ob_attempts item))\<rparr>) s of
        (n, s1) \<Rightarrow> (n = 1, s1))"

definition mark_completion_outbox_uncertain ::
  "int \<Rightarrow> string \<Rightarrow> string \<Rightarrow> bridge_state \<Rightarrow> (store_error, bridge_state) result" where
  "mark_completion_outbox_uncertain i sid who s =
     (case update_rows (\<lambda>r. is_row i sid r \<and> ob_lease_owner r = Some who \<and> undelivered r)
        (\<lambda>r. r\<lparr>ob_lease_owner := None, ob_lease_expires := None, ob_next := Some uncertain_hold_at\<rparr>) s of
        (n, s1) \<Rightarrow> if n \<noteq> 1 then Inl LeaseMissing
          else case find_row i s1 of None \<Rightarrow> Inl UnknownOutbox | Some _ \<Rightarrow> Inr s1)"

section \<open>Reads\<close>

definition page_size :: "int \<Rightarrow> nat" where
  "page_size limit = nat (max 0 (min 100 limit))"

definition list_pending_completion_outbox ::
  "(outbox_row \<Rightarrow> bool) \<Rightarrow> string \<Rightarrow> int \<Rightarrow> int \<Rightarrow> bridge_state \<Rightarrow> outbox_row list" where
  "list_pending_completion_outbox kept sid limit now s =
     take (page_size limit) (sort_key ob_created
       (filter (\<lambda>r. ob_scope r = sid \<and> kept r \<and> undelivered r \<and> due (ob_next r) now) (bs_outbox s)))"

definition list_pending_notify_completion_outbox ::
  "(outbox_row \<Rightarrow> bool) \<Rightarrow> int \<Rightarrow> int \<Rightarrow> bridge_state \<Rightarrow> outbox_row list" where
  "list_pending_notify_completion_outbox kept limit now s =
     take (page_size limit) (sort_key ob_created
       (filter (\<lambda>r. kept r \<and> ob_channel r = ChNotify \<and> undelivered r \<and> due (ob_next r) now \<and>
          (ob_lease_owner r = None \<or> lease_passed r now)) (bs_outbox s)))"

definition row_due_at :: "outbox_row \<Rightarrow> int" where
  "row_due_at r =
     max (case ob_next r of None \<Rightarrow> 0 | Some t \<Rightarrow> t)
         (if ob_lease_owner r = None then 0 else case ob_lease_expires r of None \<Rightarrow> 0 | Some t \<Rightarrow> t)"

record availability =
  av_available :: bool
  av_next :: "int option"

definition native_completion_availability :: "(outbox_row \<Rightarrow> bool) \<Rightarrow> int \<Rightarrow> bridge_state \<Rightarrow> availability" where
  "native_completion_availability kept now s =
     (case map row_due_at (filter (\<lambda>r. kept r \<and> ob_channel r = ChNotify \<and> undelivered r) (bs_outbox s)) of
        [] \<Rightarrow> \<lparr>av_available = False, av_next = None\<rparr>
      | t # ts \<Rightarrow> let d = foldl min t ts in \<lparr>av_available = (d \<le> now), av_next = Some (max now d)\<rparr>)"

text \<open>\<open>SELECT DISTINCT \<dots> ORDER BY activity_id\<close>.\<close>

definition list_pending_completion_activity_ids ::
  "(outbox_row \<Rightarrow> bool) \<Rightarrow> string \<Rightarrow> bridge_state \<Rightarrow> (store_error, string list) result" where
  "list_pending_completion_activity_ids kept scope s =
     res_bind (normalize_uuid scope) (\<lambda>sid.
       Inr (sort (remdups (map ob_activity (filter (\<lambda>r. ob_scope r = sid \<and> kept r \<and> undelivered r) (bs_outbox s))))))"

end
