(* ===== verification/Ledger.thy ===== *)
theory Ledger
  imports Cancellation Completion_Outbox
begin

text \<open>
  The abstract specification of the store: the rows of a \<open>bridge_state\<close> that carry decisions
  (Activities, jobs, outbox, delivery receipts, cancellation intents) and the moves they can make,
  with the invariant of these rows and what no move ever takes back. \<open>Store_Runs\<close> shows that every
  operation of the store is a sequence of such moves.
\<close>

record ledger =
  lg_activities :: "(string \<times> activity_row) list"
  lg_jobs :: "(string \<times> job_row) list"
  lg_outbox :: "outbox_row list"
  lg_next :: int
  lg_deliveries :: "(string \<times> job_delivery) list"
  lg_intents :: "(string \<times> intent_row) list"

definition ledger_of :: "bridge_state \<Rightarrow> ledger" where
  "ledger_of s = \<lparr>lg_activities = bs_activities s, lg_jobs = bs_jobs s, lg_outbox = bs_outbox s,
     lg_next = bs_next_outbox s, lg_deliveries = bs_deliveries s, lg_intents = bs_intents s\<rparr>"

section \<open>Moves\<close>

definition statuses :: "string \<Rightarrow> ledger \<Rightarrow> job_status list" where
  "statuses a l = activity_statuses a (lg_jobs l)"

definition lease_ok :: "outbox_row \<Rightarrow> bool" where
  "lease_ok r \<longleftrightarrow> (ob_lease_owner r = None \<longleftrightarrow> ob_lease_expires r = None)"

definition new_entry :: "int \<Rightarrow> string \<Rightarrow> int \<Rightarrow> channel \<Rightarrow> outbox_row \<Rightarrow> bool" where
  "new_entry n a v ch r \<longleftrightarrow> ob_id r = n \<and> ob_activity r = a \<and> ob_completion r = v \<and> ob_channel r = ch \<and>
     ob_delivered r = None \<and> ob_acked r = None \<and> lease_ok r"

text \<open>An announcement: a new row, unless the Activity has one for this version and channel.\<close>

inductive announce :: "string \<Rightarrow> int \<Rightarrow> channel \<Rightarrow> ledger \<Rightarrow> ledger \<Rightarrow> bool" for a v ch where
  announce_new: "\<forall>r \<in> set (lg_outbox l). \<not> (ob_activity r = a \<and> ob_completion r = v \<and> ob_channel r = ch) \<Longrightarrow>
     new_entry (lg_next l) a v ch r \<Longrightarrow>
     announce a v ch l (l\<lparr>lg_outbox := lg_outbox l @ [r], lg_next := lg_next l + 1\<rparr>)"
| announce_old: "\<exists>r \<in> set (lg_outbox l). ob_activity r = a \<and> ob_completion r = v \<and> ob_channel r = ch \<Longrightarrow>
     announce a v ch l l"

definition set_activity :: "string \<Rightarrow> activity_row \<Rightarrow> ledger \<Rightarrow> ledger" where
  "set_activity a r l = l\<lparr>lg_activities := AList.update a r (lg_activities l)\<rparr>"

definition same_course :: "activity_row \<Rightarrow> activity_row \<Rightarrow> bool" where
  "same_course r r' \<longleftrightarrow> ac_handoff r' = ac_handoff r \<and> ac_completion r' = ac_completion r \<and> ac_counts r' = ac_counts r"

text \<open>Reconciliation of one Activity with its jobs.\<close>

inductive settle :: "string \<Rightarrow> ledger \<Rightarrow> ledger \<Rightarrow> bool" for a where
  settle_quiet: "map_of (lg_activities l) a = Some r \<Longrightarrow>
     \<not> completion_transition r (derive_activity_barrier r (count_jobs (statuses a l))) \<Longrightarrow>
     settle a l (set_activity a (reconciled_row r (count_jobs (statuses a l)) now) l)"
| settle_announced: "map_of (lg_activities l) a = Some r \<Longrightarrow>
     d = derive_activity_barrier r (count_jobs (statuses a l)) \<Longrightarrow> completion_transition r d \<Longrightarrow>
     announce a (ac_completion r + 1) (the (bd_channel d))
       (set_activity a (reconciled_row r (count_jobs (statuses a l)) now) l) l' \<Longrightarrow>
     settle a l l'"

definition authorized :: "(string \<times> intent_row) list \<Rightarrow> string \<Rightarrow> job_row \<Rightarrow> bool" where
  "authorized intents j r \<longleftrightarrow> (case truthy_string (jb_intent r) of None \<Rightarrow> False
     | Some i \<Rightarrow> (case map_of intents i of None \<Rightarrow> False | Some it \<Rightarrow> intent_targets it j (jb_scope r)))"

text \<open>What a row may become: nothing terminal becomes active again, and the version is kept.\<close>

definition row_follows :: "job_row option \<Rightarrow> job_row \<Rightarrow> bool" where
  "row_follows previous r \<longleftrightarrow>
     (\<exists>given. jb_terminal_version r = next_terminal_version previous (jb_status r) given) \<and>
     (case previous of None \<Rightarrow> True
      | Some p \<Rightarrow> jb_scope r = jb_scope p \<and> jb_activity r = jb_activity p \<and> jb_created r = jb_created p \<and>
          (is_terminal_status (jb_status p) \<longrightarrow> is_terminal_status (jb_status r)))"

inductive write_job :: "string \<Rightarrow> job_row \<Rightarrow> ledger \<Rightarrow> ledger \<Rightarrow> bool" for j r where
  write_job: "map_of (lg_activities l) (jb_activity r) = Some act \<Longrightarrow>
     map_of (lg_jobs l) j = previous \<Longrightarrow> previous = None \<longrightarrow> ac_lifecycle act = LcOpen \<Longrightarrow>
     row_follows previous r \<Longrightarrow> jb_status r = JsCancelled \<longrightarrow> authorized (lg_intents l) j r \<Longrightarrow>
     receipts =
       (if is_terminal_status (jb_status r) \<and> map_of (lg_deliveries l) j = None \<and>
           \<not> (case previous of None \<Rightarrow> False | Some p \<Rightarrow> is_terminal_status (jb_status p))
        then lg_deliveries l @ [(j, d)] else lg_deliveries l) \<Longrightarrow>
     jd_terminal_version d = (case jb_terminal_version r of None \<Rightarrow> 0 | Some v \<Rightarrow> v) \<Longrightarrow>
     write_job j r l (l\<lparr>lg_jobs := AList.update j r (lg_jobs l), lg_deliveries := receipts\<rparr>)"

definition same_entry :: "outbox_row \<Rightarrow> outbox_row \<Rightarrow> bool" where
  "same_entry r r' \<longleftrightarrow> ob_id r' = ob_id r \<and> ob_activity r' = ob_activity r \<and> ob_scope r' = ob_scope r \<and>
     ob_completion r' = ob_completion r \<and> ob_channel r' = ob_channel r \<and> ob_created r' = ob_created r \<and>
     (ob_delivered r \<noteq> None \<longrightarrow> ob_delivered r' = ob_delivered r) \<and> (ob_acked r \<noteq> None \<longrightarrow> ob_acked r' = ob_acked r) \<and>
     (lease_ok r \<longrightarrow> lease_ok r')"

definition intent_facts_ok :: "intent_row \<Rightarrow> bool" where
  "intent_facts_ok r \<longleftrightarrow> uuid_text (cn_scope r) \<and> uuid_text (cn_request r) \<and> bounded_reason_code (cn_reason_code r)"

definition intent_follows :: "intent_row option \<Rightarrow> intent_row \<Rightarrow> bool" where
  "intent_follows previous r \<longleftrightarrow>
     (case previous of
        None \<Rightarrow> intent_facts_ok r \<and> it_status r = IntentRecorded
      | Some p \<Rightarrow> cancellation_facts.truncate r = cancellation_facts.truncate p \<and> it_parent r = it_parent p \<and>
          it_cascade r = it_cascade p \<and> \<not> intent_settled (it_status p) \<and>
          \<not> (it_status p = IntentRecorded \<and> it_status r = IntentSucceeded))"

inductive ledger_move :: "ledger \<Rightarrow> ledger \<Rightarrow> bool" where
  move_create: "map_of (lg_activities l) a = None \<Longrightarrow> ac_lifecycle r = LcOpen \<Longrightarrow> ac_verification r = NotRequired \<Longrightarrow>
     ac_completion r = 0 \<Longrightarrow> ac_counts r = empty_counts \<Longrightarrow> ledger_move l (set_activity a r l)"
| move_edit: "map_of (lg_activities l) a = Some r \<Longrightarrow> same_course r r' \<Longrightarrow> ac_lifecycle r' = ac_lifecycle r \<Longrightarrow>
     ac_verification r' = ac_verification r \<Longrightarrow> (finished (ac_lifecycle r) \<longrightarrow> ac_waiting r' = ac_waiting r) \<Longrightarrow>
     ledger_move l (set_activity a r' l)"
| move_policy: "map_of (lg_activities l) a = Some r \<Longrightarrow> ac_lifecycle r = LcOpen \<Longrightarrow> ac_lifecycle r' = LcOpen \<Longrightarrow>
     ac_completion r' = ac_completion r \<Longrightarrow> ac_counts r' = ac_counts r \<Longrightarrow>
     ac_verification r' \<in> {ac_verification r, NotRequired} \<Longrightarrow>
     (ac_verification r' \<noteq> NotRequired \<longrightarrow> ac_handoff r' = HandoffVerify) \<Longrightarrow> ledger_move l (set_activity a r' l)"
| move_phase: "map_of (lg_activities l) a = Some r \<Longrightarrow> same_course r r' \<Longrightarrow> \<not> finished (ac_lifecycle r) \<Longrightarrow>
     \<not> finished (ac_lifecycle r') \<Longrightarrow> ac_verification r' \<in> {ac_verification r, Verifying, VerFailed} \<Longrightarrow>
     (ac_verification r' \<noteq> NotRequired \<longrightarrow> ac_handoff r = HandoffVerify) \<Longrightarrow> ledger_move l (set_activity a r' l)"
| move_close: "map_of (lg_activities l) a = Some r \<Longrightarrow> same_course r r' \<Longrightarrow> \<not> finished (ac_lifecycle r) \<Longrightarrow>
     jc_running (ac_counts r) = 0 \<Longrightarrow> ac_lifecycle r' \<in> {LcCancelled, LcAbandoned} \<Longrightarrow>
     ac_verification r' = NotRequired \<Longrightarrow> ledger_move l (set_activity a r' l)"
| move_complete: "map_of (lg_activities l) a = Some r \<Longrightarrow> \<not> finished (ac_lifecycle r) \<Longrightarrow>
     jc_running (ac_counts r) = 0 \<Longrightarrow> v = (if ac_handoff r = HandoffVerify then Verified else NotRequired) \<Longrightarrow> l1 = set_activity a (completed_row v now r) l \<Longrightarrow>
     (if ac_handoff r = HandoffNotify then announce a (ac_completion r + 1) ChNotify l1 l' else l' = l1) \<Longrightarrow>
     ledger_move l l'"
| move_settle: "settle a l l' \<Longrightarrow> ledger_move l l'"
| move_job_kept: "write_job j r l l' \<Longrightarrow> map_of (lg_jobs l) j = Some p \<Longrightarrow>
     jb_status r = jb_status p \<or> is_active_status (jb_status r) \<and> is_active_status (jb_status p) \<Longrightarrow> ledger_move l l'"
| move_job_changed: "write_job j r l l1 \<Longrightarrow> settle (jb_activity r) l1 l' \<Longrightarrow> ledger_move l l'"
| move_outbox: "list_all2 same_entry (lg_outbox l) out \<Longrightarrow> ledger_move l (l\<lparr>lg_outbox := out\<rparr>)"
| move_intent: "intent_follows (map_of (lg_intents l) i) r \<Longrightarrow>
     ledger_move l (l\<lparr>lg_intents := AList.update i r (lg_intents l)\<rparr>)"

section \<open>The invariant\<close>

definition counts_ok :: "ledger \<Rightarrow> string \<Rightarrow> activity_row \<Rightarrow> bool" where
  "counts_ok l a r \<longleftrightarrow> ac_counts r = count_jobs (statuses a l)"

text \<open>A finished Activity has no running job; only a verify Activity is verified, verification passes
  only into completion, and a verify Activity completes only that way.\<close>

definition verification_ok :: "verification \<Rightarrow> handoff_policy \<Rightarrow> lifecycle \<Rightarrow> bool" where
  "verification_ok v h lc =
     (case v of
        NotRequired \<Rightarrow> \<not> (h = HandoffVerify \<and> lc = LcCompleted)
      | Verified \<Rightarrow> h = HandoffVerify \<and> lc = LcCompleted
      | _ \<Rightarrow> h = HandoffVerify \<and> lc \<noteq> LcCompleted)"

definition course_ok :: "ledger \<Rightarrow> string \<Rightarrow> activity_row \<Rightarrow> bool" where
  "course_ok l a r \<longleftrightarrow>
     (finished (ac_lifecycle r) \<longrightarrow> jc_running (count_jobs (statuses a l)) = 0) \<and>
     verification_ok (ac_verification r) (ac_handoff r) (ac_lifecycle r)"

definition entry_of :: "outbox_row \<Rightarrow> string \<times> int \<times> channel" where
  "entry_of r = (ob_activity r, ob_completion r, ob_channel r)"

text \<open>Announcements are never ahead of the Activity, and a notification exists exactly when it completed.\<close>

definition announced_ok :: "ledger \<Rightarrow> string \<Rightarrow> activity_row \<Rightarrow> bool" where
  "announced_ok l a r \<longleftrightarrow>
     (\<forall>e \<in> set (lg_outbox l). ob_activity e = a \<longrightarrow> ob_completion e \<le> ac_completion r \<and>
        (ob_channel e = ChNotify \<longrightarrow>
           ac_lifecycle r = LcCompleted \<and> ac_handoff r = HandoffNotify \<and> ob_completion e = ac_completion r)) \<and>
     (ac_lifecycle r = LcCompleted \<and> ac_handoff r = HandoffNotify \<longrightarrow>
        (a, ac_completion r, ChNotify) \<in> entry_of ` set (lg_outbox l))"

definition receipt_ok :: "job_row \<Rightarrow> job_delivery option \<Rightarrow> bool" where
  "receipt_ok r d \<longleftrightarrow>
     (if is_terminal_status (jb_status r)
      then \<exists>v. jb_terminal_version r = Some v \<and> 1 \<le> v \<and> map_option jd_terminal_version d = Some v
      else jb_terminal_version r = None \<and> d = None)"

definition job_ok :: "ledger \<Rightarrow> string \<Rightarrow> job_row \<Rightarrow> bool" where
  "job_ok l j r \<longleftrightarrow>
     map_of (lg_activities l) (jb_activity r) \<noteq> None \<and> receipt_ok r (map_of (lg_deliveries l) j) \<and>
     (jb_status r = JsCancelled \<longrightarrow> authorized (lg_intents l) j r)"

definition tables_ok :: "ledger \<Rightarrow> bool" where
  "tables_ok l \<longleftrightarrow>
     distinct (keys (lg_jobs l)) \<and> distinct (keys (lg_deliveries l)) \<and>
     distinct (map entry_of (lg_outbox l)) \<and> distinct (map ob_id (lg_outbox l)) \<and>
     (\<forall>e \<in> set (lg_outbox l).
        ob_id e < lg_next l \<and> map_of (lg_activities l) (ob_activity e) \<noteq> None \<and> lease_ok e) \<and>
     (\<forall>j. map_of (lg_jobs l) j = None \<longrightarrow> map_of (lg_deliveries l) j = None) \<and>
     (\<forall>i it. map_of (lg_intents l) i = Some it \<longrightarrow> intent_facts_ok it)"

definition ledger_base :: "ledger \<Rightarrow> bool" where
  "ledger_base l \<longleftrightarrow> tables_ok l \<and>
     (\<forall>a r. map_of (lg_activities l) a = Some r \<longrightarrow> course_ok l a r \<and> announced_ok l a r) \<and>
     (\<forall>j r. map_of (lg_jobs l) j = Some r \<longrightarrow> job_ok l j r)"

definition counts_but :: "string set \<Rightarrow> ledger \<Rightarrow> bool" where
  "counts_but A l \<longleftrightarrow> (\<forall>a r. a \<notin> A \<longrightarrow> map_of (lg_activities l) a = Some r \<longrightarrow> counts_ok l a r)"

definition ledger_inv :: "ledger \<Rightarrow> bool" where
  "ledger_inv l \<longleftrightarrow> ledger_base l \<and> counts_but {} l"

section \<open>Counting\<close>

lemma count_jobs_sel [simp]:
  "jc_total (count_jobs l) = length l" "jc_running (count_jobs l) = length (filter is_active_status l)"
  "jc_terminal (count_jobs l) = length (filter is_terminal_status l)"
  by (simp_all add: count_jobs_def)

lemma active_or_terminal: "is_active_status s \<longleftrightarrow> \<not> is_terminal_status s"
  by (cases s) (simp_all add: is_active_status_def is_terminal_status_def)

lemma statuses_other:
  assumes "b \<noteq> jb_activity r" "case map_of t j of None \<Rightarrow> True | Some p \<Rightarrow> jb_activity p = jb_activity r"
  shows "activity_statuses b (AList.update j r t) = activity_statuses b t"
  using assms by (induction t) (auto simp: activity_statuses_def split: if_splits)

lemma filter_statuses_same:
  assumes "map_of t j = Some p" "jb_activity r = jb_activity p" "P (jb_status r) \<longleftrightarrow> P (jb_status p)"
  shows "length (filter P (activity_statuses a (AList.update j r t))) = length (filter P (activity_statuses a t))"
  using assms by (induction t) (auto simp: activity_statuses_def)

lemma length_statuses_same:
  assumes "map_of t j = Some p" "jb_activity r = jb_activity p"
  shows "length (activity_statuses a (AList.update j r t)) = length (activity_statuses a t)"
  using filter_statuses_same [OF assms, of "\<lambda>_. True"] by simp

lemma count_same:
  assumes "map_of t j = Some p" "jb_activity r = jb_activity p"
    "jb_status r = jb_status p \<or> is_active_status (jb_status r) \<and> is_active_status (jb_status p)"
  shows "count_jobs (activity_statuses a (AList.update j r t)) = count_jobs (activity_statuses a t)"
proof -
  have "length (filter P (activity_statuses a (AList.update j r t))) = length (filter P (activity_statuses a t))"
    if "P (jb_status r) \<longleftrightarrow> P (jb_status p)" for P
    by (rule filter_statuses_same [where P = P, OF assms(1,2) that])
  note same = this
  have "is_active_status (jb_status r) \<longleftrightarrow> is_active_status (jb_status p)"
    "is_terminal_status (jb_status r) \<longleftrightarrow> is_terminal_status (jb_status p)"
    "x \<in> {JsCompleted, JsFailed, JsInterrupted, JsCancelled} \<Longrightarrow> jb_status r = x \<longleftrightarrow> jb_status p = x" for x
    using assms(3) by (auto simp: is_active_status_def is_terminal_status_def)
  then show ?thesis
    unfolding count_jobs_def by (simp add: same length_statuses_same [OF assms(1,2)])
qed

lemma statuses_member: "map_of t j = Some p \<Longrightarrow> jb_status p \<in> set (activity_statuses (jb_activity p) t)"
  by (induction t) (auto simp: activity_statuses_def split: if_splits)

section \<open>Reconciled rows\<close>

lemma reconciled_frame [simp]:
  "ac_handoff (reconciled_row r c now) = ac_handoff r" "ac_counts (reconciled_row r c now) = c"
  by (simp_all add: reconciled_row_def Let_def)

lemma reconciled_cases:
  fixes r :: activity_row and c :: job_counts and now :: int
  defines "d \<equiv> derive_activity_barrier r c" and "r' \<equiv> reconciled_row r c now"
  obtains (over) "finished (ac_lifecycle r)" "ac_lifecycle r' = ac_lifecycle r" "ac_verification r' = ac_verification r"
      "ac_waiting r' = ac_waiting r" "ac_completion r' = ac_completion r" "\<not> completion_transition r d"
  | (going) "\<not> finished (ac_lifecycle r)" "\<not> finished (ac_lifecycle r')" "ac_verification r' \<in> {ac_verification r, VerPending}"
      "ac_completion r' = ac_completion r + (if completion_transition r d then 1 else 0)"
      "completion_transition r d \<Longrightarrow> bd_channel d = Some ChVerify"
      "ac_verification r' = ac_verification r \<or> ac_handoff r = HandoffVerify"
  | (reached) "\<not> finished (ac_lifecycle r)" "ac_lifecycle r' = LcCompleted" "ac_verification r' = NotRequired"
      "ac_handoff r = HandoffNotify" "jc_running c = 0" "completion_transition r d" "bd_channel d = Some ChNotify"
      "ac_completion r' = ac_completion r + 1"
proof (cases "finished (ac_lifecycle r)")
  case True
  then show ?thesis
    by (intro over) (simp_all add: d_def r'_def reconciled_row_def derive_activity_barrier_def keep_decision_def
        completion_transition_def Let_def)
next
  case False
  show ?thesis
  proof (cases "bd_channel d = Some ChNotify")
    case True
    then have "d = \<lparr>bd_lifecycle = LcCompleted, bd_waiting = WaitNone, bd_verification = NotRequired,
        bd_channel = Some ChNotify, bd_attention = False\<rparr>" "ac_handoff r = HandoffNotify" "jc_running c = 0"
      by (auto simp: d_def derive_activity_barrier_def keep_decision_def Let_def split: if_splits handoff_policy.splits)
    moreover have "r' = reconciled_row r c now" "derive_activity_barrier r c = d" by (simp_all add: r'_def d_def)
    moreover have "ac_lifecycle r \<noteq> LcCompleted" using False by (auto simp: finished_def)
    ultimately show ?thesis using False
      by (intro reached) (simp_all add: reconciled_row_def completion_transition_def Let_def)
  next
    case no: False
    then have "bd_lifecycle d = ac_lifecycle r \<and> bd_verification d \<in> {ac_verification r, VerPending} \<and>
        bd_channel d \<in> {None, Some ChVerify} \<and> (bd_verification d = ac_verification r \<or> ac_handoff r = HandoffVerify)"
      using False by (auto simp: d_def derive_activity_barrier_def keep_decision_def Let_def
          split: if_splits handoff_policy.splits)
    moreover have "r' = reconciled_row r c now" "derive_activity_barrier r c = d" by (simp_all add: r'_def d_def)
    ultimately show ?thesis using False
      by (intro going) (auto simp: reconciled_row_def completion_transition_def Let_def)
  qed
qed

lemma verification_ok_going:
  assumes "verification_ok v h lc" "\<not> finished lc" "\<not> finished lc'" "v' \<in> {v, VerPending}" "v' = v \<or> h = HandoffVerify"
  shows "verification_ok v' h lc'"
  using assms by (auto simp: verification_ok_def finished_def split: verification.splits)

section \<open>The invariant is kept\<close>

lemma set_activity_frame [simp]:
  "lg_jobs (set_activity a r l) = lg_jobs l" "lg_outbox (set_activity a r l) = lg_outbox l"
  "lg_next (set_activity a r l) = lg_next l" "lg_deliveries (set_activity a r l) = lg_deliveries l"
  "lg_intents (set_activity a r l) = lg_intents l"
  "map_of (lg_activities (set_activity a r l)) = (map_of (lg_activities l))(a \<mapsto> r)"
  by (simp_all add: set_activity_def map_of_update)

lemma statuses_set_activity [simp]: "statuses b (set_activity a r l) = statuses b l"
  by (simp add: statuses_def)

lemma ledger_baseD:
  assumes "ledger_base l"
  shows "tables_ok l" "map_of (lg_activities l) a = Some r \<Longrightarrow> course_ok l a r"
    "map_of (lg_activities l) a = Some r \<Longrightarrow> announced_ok l a r" "map_of (lg_jobs l) j = Some x \<Longrightarrow> job_ok l j x"
  using assms by (simp_all add: ledger_base_def)

lemma base_set_activity:
  assumes "ledger_base l" "course_ok l a r" "announced_ok l a r"
  shows "ledger_base (set_activity a r l)"
proof -
  have "tables_ok (set_activity a r l)" using ledger_baseD(1) [OF assms(1)] by (auto simp: tables_ok_def)
  moreover have "course_ok (set_activity a r l) b x \<and> announced_ok (set_activity a r l) b x"
    if "map_of (lg_activities (set_activity a r l)) b = Some x" for b x
    using that assms(2,3) ledger_baseD(2,3) [OF assms(1), of b x]
    by (simp add: course_ok_def announced_ok_def split: if_splits)
  moreover have "job_ok (set_activity a r l) j x" if "map_of (lg_jobs l) j = Some x" for j x
    using ledger_baseD(4) [OF assms(1) that] by (auto simp: job_ok_def)
  ultimately show ?thesis by (simp add: ledger_base_def)
qed

lemma counts_set_activity:
  assumes "counts_but A l" "counts_ok l a r \<or> a \<in> A"
  shows "counts_but A (set_activity a r l)"
  using assms by (auto simp: counts_but_def counts_ok_def)

text \<open>An Activity without notifications yet, whose next version is announced on a channel.\<close>

lemma announce_base:
  assumes "announce a (ac_completion r + 1) ch (set_activity a r' l) l'" "ledger_base l"
    and "map_of (lg_activities l) a = Some r" "\<not> finished (ac_lifecycle r)" "course_ok l a r'"
    and "ac_completion r' = ac_completion r + 1" "ch = ChNotify \<longleftrightarrow> ac_lifecycle r' = LcCompleted"
    and "ch = ChNotify \<longrightarrow> ac_handoff r' = HandoffNotify"
  shows "ledger_base l' \<and> lg_activities l' = lg_activities (set_activity a r' l) \<and> lg_jobs l' = lg_jobs l"
proof -
  have older: "\<forall>e \<in> set (lg_outbox l). ob_activity e = a \<longrightarrow> ob_completion e \<le> ac_completion r \<and> ob_channel e \<noteq> ChNotify"
    using ledger_baseD(3) [OF assms(2,3)] assms(4) by (auto simp: announced_ok_def finished_def)
  from assms(1) obtain e where e: "new_entry (lg_next l) a (ac_completion r + 1) ch e"
      "l' = (set_activity a r' l)\<lparr>lg_outbox := lg_outbox l @ [e], lg_next := lg_next l + 1\<rparr>"
    by cases (use older in fastforce)+
  have st: "statuses b l' = statuses b l" for b by (simp add: e(2) statuses_def)
  have "tables_ok l'"
    using ledger_baseD(1) [OF assms(2)] e older assms(3)
    by (auto simp: tables_ok_def new_entry_def entry_of_def)
  moreover have "course_ok l' b x \<and> announced_ok l' b x" if "map_of (lg_activities l') b = Some x" for b x
  proof (cases "b = a")
    case True
    then have "x = r'" using that by (simp add: e(2))
    moreover have "announced_ok l' a r'"
      using older e assms(6-8) by (cases ch) (fastforce simp: announced_ok_def new_entry_def entry_of_def)+
    ultimately show ?thesis using True assms(5) by (simp add: course_ok_def st)
  next
    case False
    then have "map_of (lg_activities l) b = Some x" using that by (simp add: e(2))
    then have "course_ok l' b x" "announced_ok l b x"
      using ledger_baseD(2,3) [OF assms(2)] by (simp_all add: course_ok_def st)
    moreover have "announced_ok l' b x"
      using \<open>announced_ok l b x\<close> False e by (auto simp: announced_ok_def new_entry_def entry_of_def)
    ultimately show ?thesis by simp
  qed
  moreover have "job_ok l' j x" if "map_of (lg_jobs l') j = Some x" for j x
    using ledger_baseD(4) [OF assms(2), of j x] that by (auto simp: job_ok_def e(2))
  ultimately show ?thesis using e(2) by (simp add: ledger_base_def)
qed

lemma announced_ok_same:
  assumes "announced_ok l a r" "ac_completion r' = ac_completion r"
    and "ac_lifecycle r' = ac_lifecycle r \<and> ac_handoff r' = ac_handoff r \<or>
      \<not> finished (ac_lifecycle r) \<and> ac_lifecycle r' \<noteq> LcCompleted"
  shows "announced_ok l a r'"
  using assms by (auto simp: announced_ok_def finished_def)

lemma settle_inv:
  assumes "settle a l l'" "ledger_base l" "counts_but {a} l"
  shows "ledger_inv l'"
  using assms(1)
proof cases
  case (settle_quiet r now)
  let ?c = "count_jobs (statuses a l)" let ?r = "reconciled_row r ?c now"
  have old: "course_ok l a r" "announced_ok l a r"
    using ledger_baseD(2,3) [OF assms(2) settle_quiet(2)] by simp_all
  have "course_ok l a ?r \<and> announced_ok l a ?r"
  proof (cases rule: reconciled_cases [of r ?c now])
    case over
    then show ?thesis using old
      by (auto simp: course_ok_def intro!: announced_ok_same [OF old(2)])
  next
    case going
    have "course_ok l a ?r" using going(1-3,6) old(1) unfolding course_ok_def
      by (auto intro: verification_ok_going)
    then show ?thesis using going settle_quiet(3)
      by (auto simp: finished_def intro!: announced_ok_same [OF old(2)])
  next
    case reached
    then show ?thesis using settle_quiet(3) by simp
  qed
  then have "ledger_base l'" using base_set_activity [OF assms(2)] settle_quiet(1) by simp
  moreover have "counts_but {} l'"
    using counts_set_activity [OF assms(3), of a ?r] settle_quiet(1) by (auto simp: counts_but_def counts_ok_def)
  ultimately show ?thesis by (simp add: ledger_inv_def)
next
  case (settle_announced r d now)
  let ?c = "count_jobs (statuses a l)" let ?r = "reconciled_row r ?c now"
  have old: "course_ok l a r" using ledger_baseD(2) [OF assms(2) settle_announced(1)] .
  have f: "\<not> finished (ac_lifecycle r) \<and> course_ok l a ?r \<and> ac_completion ?r = ac_completion r + 1 \<and>
      (the (bd_channel d) = ChNotify \<longleftrightarrow> ac_lifecycle ?r = LcCompleted) \<and>
      (the (bd_channel d) = ChNotify \<longrightarrow> ac_handoff ?r = HandoffNotify)"
  proof (cases rule: reconciled_cases [of r ?c now])
    case over
    then show ?thesis using settle_announced(2,3) by simp
  next
    case going
    have "course_ok l a ?r" using going(1-3,6) old unfolding course_ok_def by (auto intro: verification_ok_going)
    then show ?thesis using going settle_announced(2,3) by (auto simp: finished_def)
  next
    case reached
    then show ?thesis using settle_announced(2,3) by (auto simp: course_ok_def finished_def verification_ok_def)
  qed
  then have n: "ledger_base l' \<and> lg_activities l' = lg_activities (set_activity a ?r l) \<and> lg_jobs l' = lg_jobs l"
    using announce_base [OF settle_announced(4) assms(2) settle_announced(1)] by simp
  have "counts_but {} l'"
    using counts_set_activity [OF assms(3), of a ?r] n by (auto simp: counts_but_def counts_ok_def statuses_def)
  then show ?thesis using n by (simp add: ledger_inv_def)
qed

lemma next_terminal_version_first:
  assumes "is_terminal_status st"
    and "case previous of None \<Rightarrow> True | Some p \<Rightarrow> \<not> is_terminal_status (jb_status p) \<and> jb_terminal_version p = None"
  shows "\<exists>v. next_terminal_version previous st given = Some v \<and> 1 \<le> v"
  using assms by (auto simp: next_terminal_version_def Let_def split: option.splits)

lemma next_terminal_version_again:
  assumes "is_terminal_status st" "is_terminal_status (jb_status p)" "jb_terminal_version p = Some v" "1 \<le> v"
  shows "next_terminal_version (Some p) st given = Some v"
  using assms by (simp add: next_terminal_version_def Let_def)

lemma write_job_receipt:
  assumes "write_job j r l l'" "ledger_base l"
  shows "receipt_ok r (map_of (lg_deliveries l') j)"
  using assms(1)
proof cases
  case (write_job act previous receipts d)
  obtain given where tv: "jb_terminal_version r = next_terminal_version previous (jb_status r) given"
    using write_job(5) by (auto simp: row_follows_def)
  have first: "map_of (lg_deliveries l) j = None"
    if "case previous of None \<Rightarrow> True | Some p \<Rightarrow> \<not> is_terminal_status (jb_status p)"
    using that ledger_baseD(1,4) [OF assms(2)] write_job(3)
    by (cases previous) (auto simp: tables_ok_def job_ok_def receipt_ok_def)
  show ?thesis
  proof (cases "is_terminal_status (jb_status r)")
    case False
    then have "case previous of None \<Rightarrow> True | Some p \<Rightarrow> \<not> is_terminal_status (jb_status p)"
      using write_job(5) by (auto simp: row_follows_def split: option.splits)
    with False first write_job(1,7) tv show ?thesis by (simp add: receipt_ok_def next_terminal_version_def Let_def)
  next
    case terminal: True
    show ?thesis
    proof (cases "case previous of None \<Rightarrow> True | Some p \<Rightarrow> \<not> is_terminal_status (jb_status p)")
      case True
      then have "case previous of None \<Rightarrow> True
          | Some p \<Rightarrow> \<not> is_terminal_status (jb_status p) \<and> jb_terminal_version p = None"
        using ledger_baseD(4) [OF assms(2)] write_job(3)
        by (auto simp: job_ok_def receipt_ok_def split: option.splits)
      from next_terminal_version_first [OF terminal this, of given] tv obtain v where
        "jb_terminal_version r = Some v" "1 \<le> v" by auto
      with True first [OF True] terminal write_job(1,7,8) show ?thesis
        by (auto simp: receipt_ok_def map_add_def split: option.splits)
    next
      case False
      then obtain p where p: "previous = Some p" "is_terminal_status (jb_status p)" by (auto split: option.splits)
      then have "receipt_ok p (map_of (lg_deliveries l) j)"
        using ledger_baseD(4) [OF assms(2)] write_job(3) by (auto simp: job_ok_def)
      with p terminal tv write_job(1,7) show ?thesis
        by (auto simp: receipt_ok_def next_terminal_version_again)
    qed
  qed
qed

lemma write_job_frame:
  assumes "write_job j r l l'"
  shows "lg_activities l' = lg_activities l" "lg_outbox l' = lg_outbox l" "lg_next l' = lg_next l"
    "lg_intents l' = lg_intents l" "lg_jobs l' = AList.update j r (lg_jobs l)"
    "k \<noteq> j \<Longrightarrow> map_of (lg_deliveries l') k = map_of (lg_deliveries l) k"
    "map_of (lg_deliveries l) j = None \<or> lg_deliveries l' = lg_deliveries l"
    "distinct (keys (lg_deliveries l)) \<Longrightarrow> distinct (keys (lg_deliveries l'))"
proof -
  obtain receipts d where l': "l' = l\<lparr>lg_jobs := AList.update j r (lg_jobs l), lg_deliveries := receipts\<rparr>"
    and d: "receipts = lg_deliveries l \<or> map_of (lg_deliveries l) j = None \<and> receipts = lg_deliveries l @ [(j, d)]"
    using assms
  proof cases
    case (write_job act previous receipts d)
    show ?thesis by (rule that [OF write_job(1), of d]) (use write_job(7) in presburger)
  qed
  show "lg_activities l' = lg_activities l" "lg_outbox l' = lg_outbox l" "lg_next l' = lg_next l"
    "lg_intents l' = lg_intents l" "lg_jobs l' = AList.update j r (lg_jobs l)"
    by (simp_all add: l')
  show "map_of (lg_deliveries l') k = map_of (lg_deliveries l) k" if "k \<noteq> j"
    using d that by (auto simp: l' map_add_def split: option.splits)
  show "map_of (lg_deliveries l) j = None \<or> lg_deliveries l' = lg_deliveries l"
    using d by (auto simp: l')
  show "distinct (keys (lg_deliveries l'))" if "distinct (keys (lg_deliveries l))"
    using d that by (auto simp: l' map_of_None_keys)
qed

lemma write_job_base:
  assumes "write_job j r l l'" "ledger_inv l"
  shows "ledger_base l' \<and> counts_but {jb_activity r} l'"
proof -
  have base: "ledger_base l" and counts: "counts_but {} l" using assms(2) by (simp_all add: ledger_inv_def)
  note fr = write_job_frame [OF assms(1)]
  obtain act previous where w: "map_of (lg_activities l) (jb_activity r) = Some act" "map_of (lg_jobs l) j = previous"
      "previous = None \<longrightarrow> ac_lifecycle act = LcOpen" "row_follows previous r"
      "jb_status r = JsCancelled \<longrightarrow> authorized (lg_intents l) j r"
    using assms(1) by cases auto
  have other: "statuses b l' = statuses b l" if "b \<noteq> jb_activity r" for b
    unfolding statuses_def fr(5)
    by (rule statuses_other [OF that]) (use w(2,4) in \<open>auto simp: row_follows_def split: option.splits\<close>)
  have "tables_ok l'"
    using ledger_baseD(1) [OF base] fr(1-5,8) fr(6) by (auto simp: tables_ok_def map_of_update)
  moreover have "course_ok l' b x \<and> announced_ok l' b x" if "map_of (lg_activities l') b = Some x" for b x
  proof -
    have ok: "course_ok l b x" "announced_ok l b x" using that fr(1) ledger_baseD(2,3) [OF base] by simp_all
    have "jc_running (count_jobs (statuses b l')) = 0" if fin: "finished (ac_lifecycle x)"
    proof (cases "b = jb_activity r")
      case True
      then have "previous \<noteq> None" using w(1,3) fin \<open>map_of (lg_activities l') b = Some x\<close> fr(1) by (auto simp: finished_def)
      then obtain p where p: "previous = Some p" by blast
      have none: "filter is_active_status (statuses b l) = []" using ok(1) fin by (simp add: course_ok_def)
      have "jb_status p \<in> set (statuses b l)"
        using statuses_member [of "lg_jobs l" j p] w(2,4) p True by (simp add: statuses_def row_follows_def)
      then have "\<not> is_active_status (jb_status p)" using none by (auto simp: filter_empty_conv)
      then have "\<not> is_active_status (jb_status r)" using w(4) p by (simp add: row_follows_def active_or_terminal)
      then have "length (filter is_active_status (statuses b l')) = length (filter is_active_status (statuses b l))"
        unfolding statuses_def fr(5) using \<open>\<not> is_active_status (jb_status p)\<close> w(2,4) p
        by (intro filter_statuses_same [where p = p]) (simp_all add: row_follows_def)
      then show ?thesis using none by simp
    qed (use ok(1) fin other in \<open>simp add: course_ok_def\<close>)
    then show ?thesis using ok fr(2) by (simp add: course_ok_def announced_ok_def)
  qed
  moreover have "job_ok l' k x" if "map_of (lg_jobs l') k = Some x" for k x
  proof (cases "k = j")
    case True
    then show ?thesis using that fr w write_job_receipt [OF assms(1) base] by (simp add: job_ok_def map_of_update)
  next
    case False
    then show ?thesis using that fr(1,4,5) fr(6) [OF False] ledger_baseD(4) [OF base, of k x]
      by (simp add: job_ok_def map_of_update)
  qed
  moreover have "counts_but {jb_activity r} l'"
    using counts fr(1) other by (auto simp: counts_but_def counts_ok_def)
  ultimately show ?thesis by (simp add: ledger_base_def)
qed

lemma write_job_kept:
  assumes "write_job j r l l'" "ledger_inv l" "map_of (lg_jobs l) j = Some p"
    and "jb_status r = jb_status p \<or> is_active_status (jb_status r) \<and> is_active_status (jb_status p)"
  shows "ledger_inv l'"
proof -
  have "jb_activity r = jb_activity p" using assms(1,3) by cases (simp add: row_follows_def)
  then have "count_jobs (statuses b l') = count_jobs (statuses b l)" for b
    unfolding statuses_def write_job_frame(5) [OF assms(1)] using assms(3,4) by (intro count_same)
  then have "counts_but {} l'"
    using assms(2) write_job_frame(1) [OF assms(1)] by (simp add: ledger_inv_def counts_but_def counts_ok_def)
  then show ?thesis using write_job_base [OF assms(1,2)] by (simp add: ledger_inv_def)
qed

lemma inv_set_activity:
  assumes "ledger_inv l" "map_of (lg_activities l) a = Some r" "ac_counts r' = ac_counts r"
    and "course_ok l a r'" "announced_ok l a r'"
  shows "ledger_inv (set_activity a r' l)"
proof -
  have "counts_ok l a r'" using assms(1-3) by (simp add: ledger_inv_def counts_but_def counts_ok_def)
  then show ?thesis
    using assms(1) base_set_activity [OF _ assms(4,5)] counts_set_activity by (simp add: ledger_inv_def)
qed

lemma inv_activityD:
  assumes "ledger_inv l" "map_of (lg_activities l) a = Some r"
  shows "course_ok l a r" "announced_ok l a r" "ac_counts r = count_jobs (statuses a l)"
  using assms by (simp_all add: ledger_inv_def ledger_base_def counts_but_def counts_ok_def)

lemma same_entry_lists:
  assumes "list_all2 same_entry t t'"
  shows "map entry_of t' = map entry_of t" "map ob_id t' = map ob_id t"
  using assms by (induction rule: list_all2_induct) (simp_all add: same_entry_def entry_of_def)

lemma same_entry_member:
  "list_all2 same_entry t t' \<Longrightarrow> e' \<in> set t' \<Longrightarrow> \<exists>e \<in> set t. same_entry e e'"
  by (induction rule: list_all2_induct) auto

lemma inv_outbox:
  assumes "ledger_inv l" "list_all2 same_entry (lg_outbox l) t"
  shows "ledger_inv (l\<lparr>lg_outbox := t\<rparr>)"
proof -
  note old = same_entry_lists [OF assms(2)] same_entry_member [OF assms(2)]
  have keys: "entry_of ` set t = entry_of ` set (lg_outbox l)" using old(1) by (metis list.set_map)
  have "tables_ok (l\<lparr>lg_outbox := t\<rparr>)"
    using assms(1) old(1,2) old(3) by (fastforce simp: ledger_inv_def ledger_base_def tables_ok_def same_entry_def)
  moreover have "announced_ok (l\<lparr>lg_outbox := t\<rparr>) a r" if "map_of (lg_activities l) a = Some r" for a r
    using inv_activityD(2) [OF assms(1) that] old(3) by (fastforce simp: announced_ok_def same_entry_def keys)
  ultimately show ?thesis
    using assms(1) by (simp add: ledger_inv_def ledger_base_def course_ok_def counts_but_def counts_ok_def
        statuses_def job_ok_def)
qed

lemma intent_follows_target:
  assumes "intent_follows (Some p) r"
  shows "cn_target r = cn_target p" "cn_scope r = cn_scope p" "intent_facts_ok r = intent_facts_ok p"
  using assms by (auto simp: intent_follows_def intent_facts_ok_def cancellation_facts.defs)

lemma inv_intent:
  assumes "ledger_inv l" "intent_follows (map_of (lg_intents l) i) r"
  shows "ledger_inv (l\<lparr>lg_intents := AList.update i r (lg_intents l)\<rparr>)"
proof -
  let ?l = "l\<lparr>lg_intents := AList.update i r (lg_intents l)\<rparr>"
  have uuid: "intent_facts_ok r"
    using assms by (cases "map_of (lg_intents l) i")
      (auto simp: intent_follows_target ledger_inv_def ledger_base_def tables_ok_def, simp add: intent_follows_def)
  have auth: "authorized (AList.update i r (lg_intents l)) j x" if "authorized (lg_intents l) j x" for j x
    using that assms(2) by (auto simp: authorized_def map_of_update intent_targets_def intent_follows_target
        split: option.splits if_splits)
  have "tables_ok ?l"
    using assms(1) uuid by (auto simp: ledger_inv_def ledger_base_def tables_ok_def map_of_update)
  then show ?thesis
    using assms(1) auth by (simp add: ledger_inv_def ledger_base_def course_ok_def counts_but_def counts_ok_def
        statuses_def job_ok_def announced_ok_def)
qed

lemma inv_create:
  assumes "ledger_inv l" "map_of (lg_activities l) a = None" "ac_lifecycle r = LcOpen"
    and "ac_verification r = NotRequired" "ac_counts r = empty_counts"
  shows "ledger_inv (set_activity a r l)"
proof -
  have base: "ledger_base l" using assms(1) by (simp add: ledger_inv_def)
  have "jb_activity x \<noteq> a" if "(j, x) \<in> set (lg_jobs l)" for j x
    using that assms(2) ledger_baseD(4) [OF base, of j x] ledger_baseD(1) [OF base]
    by (auto simp: tables_ok_def job_ok_def map_of_Some_iff_in)
  then have "statuses a l = []" by (force simp: statuses_def activity_statuses_def filter_empty_conv)
  then have "counts_ok l a r" "course_ok l a r"
    using assms(3-5) by (simp_all add: counts_ok_def empty_counts_def course_ok_def finished_def verification_ok_def)
  moreover have "announced_ok l a r"
    using ledger_baseD(1) [OF base] assms(2,3) by (auto simp: tables_ok_def announced_ok_def)
  ultimately show ?thesis
    using assms(1) base_set_activity [OF base] counts_set_activity by (simp add: ledger_inv_def)
qed

lemma inv_complete:
  assumes "ledger_inv l" "map_of (lg_activities l) a = Some r" "\<not> finished (ac_lifecycle r)"
    and "jc_running (ac_counts r) = 0" "v = (if ac_handoff r = HandoffVerify then Verified else NotRequired)"
    and "l1 = set_activity a (completed_row v now r) l"
    and "if ac_handoff r = HandoffNotify then announce a (ac_completion r + 1) ChNotify l1 l' else l' = l1"
  shows "ledger_inv l'"
proof -
  let ?r = "completed_row v now r"
  note d = inv_activityD [OF assms(1,2)]
  have base: "ledger_base l" using assms(1) by (simp add: ledger_inv_def)
  have c: "course_ok l a ?r" using d assms(4,5) by (auto simp: course_ok_def completed_row_def verification_ok_def)
  have n: "counts_but {} (set_activity a ?r l)"
    using assms(1) d(3) by (intro counts_set_activity) (auto simp: ledger_inv_def counts_ok_def completed_row_def)
  show ?thesis
  proof (cases "ac_handoff r = HandoffNotify")
    case True
    then have "ledger_base l' \<and> lg_activities l' = lg_activities (set_activity a ?r l) \<and> lg_jobs l' = lg_jobs l"
      using announce_base [of a r ChNotify ?r l l'] assms(2,3,6,7) base c by (simp add: completed_row_def)
    then show ?thesis using n by (auto simp: ledger_inv_def counts_but_def counts_ok_def statuses_def)
  next
    case False
    then have "announced_ok l a ?r"
      using d(2) assms(3) by (fastforce simp: announced_ok_def completed_row_def finished_def)
    then show ?thesis using False assms(6,7) base_set_activity [OF base c] n by (simp add: ledger_inv_def)
  qed
qed

theorem ledger_move_inv: "ledger_move l l' \<Longrightarrow> ledger_inv l \<Longrightarrow> ledger_inv l'"
proof (induction rule: ledger_move.induct)
  case (move_edit l a r r')
  note d = inv_activityD [OF move_edit(6,1)]
  show ?case by (rule inv_set_activity [OF move_edit(6,1)])
    (use move_edit d in \<open>auto simp: same_course_def course_ok_def intro!: announced_ok_same [OF d(2)]\<close>)
next
  case (move_policy l a r r')
  note d = inv_activityD [OF move_policy(8,1)]
  show ?case by (rule inv_set_activity [OF move_policy(8,1)])
    (use move_policy d in \<open>auto simp: course_ok_def finished_def verification_ok_def split: verification.splits
      intro!: announced_ok_same [OF d(2)]\<close>)
next
  case (move_phase l a r r')
  note d = inv_activityD [OF move_phase(7,1)]
  show ?case by (rule inv_set_activity [OF move_phase(7,1)])
    (use move_phase d in \<open>auto simp: same_course_def course_ok_def finished_def verification_ok_def
      split: verification.splits intro!: announced_ok_same [OF d(2)]\<close>)
next
  case (move_close l a r r')
  note d = inv_activityD [OF move_close(7,1)]
  show ?case by (rule inv_set_activity [OF move_close(7,1)])
    (use move_close d in \<open>auto simp: same_course_def course_ok_def finished_def verification_ok_def
      intro!: announced_ok_same [OF d(2)]\<close>)
next
  case (move_settle a l l')
  then show ?case using settle_inv [of a l l'] by (auto simp: ledger_inv_def counts_but_def)
next
  case (move_job_changed j r l l1 l')
  then show ?case using settle_inv write_job_base by blast
qed (blast intro: inv_create inv_complete write_job_kept inv_outbox inv_intent)+

section \<open>What no move takes back\<close>

definition activity_kept :: "activity_row \<Rightarrow> activity_row \<Rightarrow> bool" where
  "activity_kept r r' \<longleftrightarrow> ac_completion r \<le> ac_completion r' \<and>
     (finished (ac_lifecycle r) \<longrightarrow> ac_lifecycle r' = ac_lifecycle r \<and> ac_verification r' = ac_verification r \<and>
        ac_completion r' = ac_completion r \<and> ac_handoff r' = ac_handoff r \<and> ac_waiting r' = ac_waiting r)"

definition job_kept :: "job_row \<Rightarrow> job_row \<Rightarrow> bool" where
  "job_kept p r \<longleftrightarrow> jb_scope r = jb_scope p \<and> jb_activity r = jb_activity p \<and> jb_created r = jb_created p \<and>
     (is_terminal_status (jb_status p) \<longrightarrow>
        is_terminal_status (jb_status r) \<and> jb_terminal_version r = jb_terminal_version p)"

definition intent_kept :: "intent_row \<Rightarrow> intent_row \<Rightarrow> bool" where
  "intent_kept p r \<longleftrightarrow> cancellation_facts.truncate r = cancellation_facts.truncate p \<and> it_parent r = it_parent p \<and>
     it_cascade r = it_cascade p \<and> (intent_settled (it_status p) \<longrightarrow> it_status r = it_status p)"

definition rows_kept :: "('v \<Rightarrow> 'v \<Rightarrow> bool) \<Rightarrow> ('k \<times> 'v) list \<Rightarrow> ('k \<times> 'v) list \<Rightarrow> bool" where
  "rows_kept R t t' \<longleftrightarrow> (\<forall>k v. map_of t k = Some v \<longrightarrow> (\<exists>v'. map_of t' k = Some v' \<and> R v v'))"

definition ledger_le :: "ledger \<Rightarrow> ledger \<Rightarrow> bool" where
  "ledger_le l l' \<longleftrightarrow>
     rows_kept activity_kept (lg_activities l) (lg_activities l') \<and> rows_kept job_kept (lg_jobs l) (lg_jobs l') \<and>
     rows_kept (=) (lg_deliveries l) (lg_deliveries l') \<and> rows_kept intent_kept (lg_intents l) (lg_intents l') \<and>
     (\<forall>e \<in> set (lg_outbox l). \<exists>e' \<in> set (lg_outbox l'). same_entry e e')"

lemma rows_kept_refl: "(\<And>v. R v v) \<Longrightarrow> rows_kept R t t"
  by (simp add: rows_kept_def)

lemma rows_kept_trans:
  "rows_kept R t u \<Longrightarrow> rows_kept R u v \<Longrightarrow> (\<And>x y z. R x y \<Longrightarrow> R y z \<Longrightarrow> R x z) \<Longrightarrow> rows_kept R t v"
  unfolding rows_kept_def by metis

lemma rows_kept_update:
  "(\<And>v. R v v) \<Longrightarrow> (\<And>v. map_of t k = Some v \<Longrightarrow> R v v') \<Longrightarrow> rows_kept R t (AList.update k v' t)"
  by (auto simp: rows_kept_def map_of_update)

lemma kept_refl [simp]: "activity_kept r r" "job_kept p p" "intent_kept i i" "same_entry e e"
  by (simp_all add: activity_kept_def job_kept_def intent_kept_def same_entry_def)

lemma kept_trans:
  "activity_kept r1 r2 \<Longrightarrow> activity_kept r2 r3 \<Longrightarrow> activity_kept r1 r3"
  "job_kept p1 p2 \<Longrightarrow> job_kept p2 p3 \<Longrightarrow> job_kept p1 p3"
  "intent_kept i1 i2 \<Longrightarrow> intent_kept i2 i3 \<Longrightarrow> intent_kept i1 i3"
  "same_entry e1 e2 \<Longrightarrow> same_entry e2 e3 \<Longrightarrow> same_entry e1 e3"
  by (auto simp: activity_kept_def job_kept_def intent_kept_def same_entry_def)

lemma same_entries: "\<forall>e \<in> set t. \<exists>e' \<in> set t. same_entry e e'"
  by (blast intro: kept_refl)

lemma ledger_le_refl: "ledger_le l l"
  by (auto simp: ledger_le_def same_entries intro: rows_kept_refl)

lemma ledger_le_trans: "ledger_le l1 l2 \<Longrightarrow> ledger_le l2 l3 \<Longrightarrow> ledger_le l1 l3"
  unfolding ledger_le_def
  by (intro conjI; (elim conjE)?; (blast intro: rows_kept_trans kept_trans | (erule rows_kept_trans, assumption, simp)))

lemma le_set_activity:
  "(\<And>r. map_of (lg_activities l) a = Some r \<Longrightarrow> activity_kept r r') \<Longrightarrow> ledger_le l (set_activity a r' l)"
  by (simp add: ledger_le_def set_activity_def same_entries rows_kept_refl rows_kept_update)

lemma le_announce: "announce a v ch l l' \<Longrightarrow> ledger_le l l'"
  by (cases rule: announce.cases, assumption) (auto simp: ledger_le_def intro: rows_kept_refl kept_refl)

lemma reconciled_kept: "activity_kept r (reconciled_row r c now)"
  by (cases rule: reconciled_cases [of r c now]) (auto simp: activity_kept_def)

lemma le_settle: "settle a l l' \<Longrightarrow> ledger_le l l'"
proof (cases rule: settle.cases, assumption)
  fix r now
  assume "map_of (lg_activities l) a = Some r"
    "l' = set_activity a (reconciled_row r (count_jobs (statuses a l)) now) l"
  then show "ledger_le l l'" using reconciled_kept by (auto intro: le_set_activity)
next
  fix r d now
  assume r: "map_of (lg_activities l) a = Some r"
    and an: "announce a (ac_completion r + 1) (the (bd_channel d))
      (set_activity a (reconciled_row r (count_jobs (statuses a l)) now) l) l'"
  have "ledger_le l (set_activity a (reconciled_row r (count_jobs (statuses a l)) now) l)"
    using r reconciled_kept by (auto intro: le_set_activity)
  then show "ledger_le l l'" using le_announce [OF an] ledger_le_trans by blast
qed

lemma le_write_job:
  assumes "write_job j r l l'" "ledger_inv l"
  shows "ledger_le l l'"
proof -
  note fr = write_job_frame [OF assms(1)]
  have kept: "job_kept p r" if p: "map_of (lg_jobs l) j = Some p" for p
  proof -
    have "row_follows (Some p) r" using assms(1) p by cases simp
    moreover have "receipt_ok p (map_of (lg_deliveries l) j)"
      using assms(2) p by (simp add: ledger_inv_def ledger_base_def job_ok_def)
    ultimately show ?thesis
      by (auto simp: row_follows_def job_kept_def receipt_ok_def next_terminal_version_again)
  qed
  have "rows_kept (=) (lg_deliveries l) (lg_deliveries l')"
    unfolding rows_kept_def using fr(6,7) by (metis option.distinct(1))
  then show ?thesis
    using kept fr(1-5) by (auto simp: ledger_le_def intro: rows_kept_refl rows_kept_update kept_refl)
qed

lemma le_outbox:
  assumes "list_all2 same_entry (lg_outbox l) t"
  shows "ledger_le l (l\<lparr>lg_outbox := t\<rparr>)"
proof -
  have "\<forall>e \<in> set (lg_outbox l). \<exists>e' \<in> set t. same_entry e e'"
    using assms by (induction rule: list_all2_induct) auto
  then show ?thesis by (simp add: ledger_le_def rows_kept_refl)
qed

lemma le_intent:
  "intent_follows (map_of (lg_intents l) i) r \<Longrightarrow> ledger_le l (l\<lparr>lg_intents := AList.update i r (lg_intents l)\<rparr>)"
  by (simp add: ledger_le_def same_entries rows_kept_refl)
    (rule rows_kept_update, simp, auto simp: intent_follows_def intent_kept_def)

lemma le_complete:
  assumes "map_of (lg_activities l) a = Some r" "\<not> finished (ac_lifecycle r)"
    and "l1 = set_activity a (completed_row v now r) l"
    and "if ac_handoff r = HandoffNotify then announce a (ac_completion r + 1) ChNotify l1 l' else l' = l1"
  shows "ledger_le l l'"
proof -
  have "ledger_le l l1" unfolding assms(3)
    by (rule le_set_activity) (use assms(1,2) in \<open>simp add: activity_kept_def completed_row_def\<close>)
  then show ?thesis using assms(4) le_announce ledger_le_trans by (metis (full_types))
qed

theorem ledger_move_le: "ledger_move l l' \<Longrightarrow> ledger_inv l \<Longrightarrow> ledger_le l l'"
proof (induction rule: ledger_move.induct)
  case (move_job_changed j r l l1 l')
  then show ?case using le_write_job le_settle ledger_le_trans by blast
next
  case (move_complete l a r v l1 now l')
  then show ?case by (blast intro: le_complete)
next
  case (move_create l a r)
  then show ?case by (intro le_set_activity) simp
next
  case (move_edit l a r r')
  then show ?case by (intro le_set_activity) (simp add: activity_kept_def same_course_def)
next
  case (move_policy l a r r')
  then show ?case by (intro le_set_activity) (simp add: activity_kept_def finished_def)
next
  case (move_phase l a r r')
  then show ?case by (intro le_set_activity) (simp add: activity_kept_def same_course_def)
next
  case (move_close l a r r')
  then show ?case by (intro le_set_activity) (simp add: activity_kept_def same_course_def)
qed (blast intro: le_settle le_write_job le_outbox le_intent)+

definition ledger_moves :: "ledger \<Rightarrow> ledger \<Rightarrow> bool" where
  "ledger_moves = ledger_move\<^sup>*\<^sup>*"

lemma ledger_moves_sound: "ledger_moves l l' \<Longrightarrow> ledger_inv l \<Longrightarrow> ledger_inv l' \<and> ledger_le l l'"
  unfolding ledger_moves_def
proof (induction rule: rtranclp_induct)
  case base
  then show ?case by (simp add: ledger_le_refl)
next
  case (step l2 l3)
  then show ?case using ledger_move_inv ledger_move_le ledger_le_trans by blast
qed

end
