(* ===== verification/Store_Runs.thy ===== *)
theory Store_Runs
  imports Ledger
begin

text \<open>
  The store as a transition system: one event per public operation of \<open>src/src/stateStore.ts\<close> that
  writes Activities, jobs, cancellations or the completion outbox, each run as a transaction (an
  operation that throws changes nothing). Every operation refines the moves of \<open>Ledger\<close>.
\<close>

datatype store_event =
    EvCreate create_input
  | EvPolicy string "activity_kind option" "handoff_policy option" "completion_trigger option"
  | EvSeal string
  | EvComplete string "string option"
  | EvAbandon string "string option"
  | EvCancel string "string option"
  | EvTerminate string "string option"
  | EvStartVerification string
  | EvPassVerification string verification_evidence
  | EvFailVerification string string
  | EvUpsert job_input
  | EvProgress string progress_input
  | EvTelemetry string telemetry_input
  | EvDelete string
  | EvRetention retention_command "bool list"
  | EvBeginCancellation cancel_request string "string option" string
  | EvCreateIntent cancel_request string string string
  | EvIntentStatus string intent_status
  | EvFinishOperation string string js operation_status
  | EvClaim "outbox_row \<Rightarrow> bool" int string string int
  | EvDelivered int string string
  | EvRelease int string string
  | EvReleaseNative outbox_row string
  | EvUncertain int string string

definition new_state :: "('e, 'a \<times> bridge_state) result \<Rightarrow> ('e, bridge_state) result" where
  "new_state r = res_bind r (\<lambda>(_, s). Inr s)"

fun store_op :: "store_env \<Rightarrow> int \<Rightarrow> store_event \<Rightarrow> bridge_state \<Rightarrow> (store_error, bridge_state) result" where
  "store_op env now (EvCreate i) s = create_activity env i now s"
| "store_op env now (EvPolicy a kind handoff trigger) s = set_activity_policy a kind handoff trigger now s"
| "store_op env now (EvSeal a) s = seal_activity env a now s"
| "store_op env now (EvComplete a why) s = complete_activity env a why now s"
| "store_op env now (EvAbandon a why) s = abandon_activity env a why now s"
| "store_op env now (EvCancel a why) s = cancel_activity env a why now s"
| "store_op env now (EvTerminate a why) s = begin_activity_termination env a why now s"
| "store_op env now (EvStartVerification a) s = start_activity_verification a now s"
| "store_op env now (EvPassVerification a e) s = pass_activity_verification env a e now s"
| "store_op env now (EvFailVerification a why) s = fail_activity_verification env a why now s"
| "store_op env now (EvUpsert i) s = upsert_job env now i s"
| "store_op env now (EvProgress j p) s = update_job_progress_state env now j p s"
| "store_op env now (EvTelemetry j t) s = record_job_telemetry env now j t s"
| "store_op env now (EvDelete j) s = new_state (delete_job j now s)"
| "store_op env now (EvRetention k in_time) s = new_state (maintain_job_retention k in_time s)"
| "store_op env now (EvBeginCancellation req digest why i) s = begin_cancellation_operation env req digest why i s"
| "store_op env now (EvCreateIntent req parent cascade i) s = create_cancellation_intent env req parent cascade i s"
| "store_op env now (EvIntentStatus i st) s = set_cancellation_intent_status i st now s"
| "store_op env now (EvFinishOperation sid rid v st) s = complete_cancellation_operation sid rid v st now s"
| "store_op env now (EvClaim kept i sid who lease) s = Inr (snd (claim_completion_outbox kept i sid who lease now s))"
| "store_op env now (EvDelivered i sid who) s = mark_completion_outbox_delivered i sid who now s"
| "store_op env now (EvRelease i sid who) s = Inr (release_completion_outbox i sid who s)"
| "store_op env now (EvReleaseNative item who) s = Inr (snd (release_native_completion_outbox item who now s))"
| "store_op env now (EvUncertain i sid who) s = mark_completion_outbox_uncertain i sid who s"

text \<open>\<open>transaction\<close>: commit on success, roll back when the operation throws.\<close>

definition transact :: "(bridge_state \<Rightarrow> (store_error, bridge_state) result) \<Rightarrow> bridge_state \<Rightarrow> bridge_state" where
  "transact f s = (case f s of Inl _ \<Rightarrow> s | Inr s' \<Rightarrow> s')"

type_synonym store_call_event = "store_env \<times> int \<times> store_event"

definition store_step :: "bridge_state \<Rightarrow> store_call_event \<Rightarrow> bridge_state" where
  "store_step s e = (case e of (env, now, ev) \<Rightarrow> transact (store_op env now ev) s)"

section \<open>Frames\<close>

named_theorems frames \<open>what an auxiliary write leaves alone\<close>

lemma ledger_of_sel [simp]:
  "lg_activities (ledger_of s) = bs_activities s" "lg_jobs (ledger_of s) = bs_jobs s"
  "lg_outbox (ledger_of s) = bs_outbox s" "lg_next (ledger_of s) = bs_next_outbox s"
  "lg_deliveries (ledger_of s) = bs_deliveries s" "lg_intents (ledger_of s) = bs_intents s"
  by (simp_all add: ledger_of_def)

lemma ledger_of_scopes [frames]:
  "ledger_of (ensure_scope sid now s) = ledger_of s" "ledger_of (next_scope_version sid now s) = ledger_of s"
  "ledger_of (next_runtime_scope_version sid now s) = ledger_of s"
  by (simp_all add: ledger_of_def ensure_scope_def next_scope_version_def next_runtime_scope_version_def Let_def)

lemma ledger_of_events [frames]:
  "ledger_of (add_activity_event a sid kind now s) = ledger_of s"
  "ledger_of (add_job_event j a sid kind st now s) = ledger_of s"
  "ledger_of (job_running_event resumed j r now s) = ledger_of s"
  by (simp_all add: ledger_of_def add_activity_event_def add_job_event_def job_running_event_def)

lemma ledger_of_calls [frames]:
  "ledger_of (call c s) = ledger_of s" "ledger_of (call_if b c s) = ledger_of s"
  "ledger_of (end_relay env a s) = ledger_of s" "ledger_of (stop_events env a s) = ledger_of s"
  "ledger_of (reconcile_relay env now snap s) = ledger_of s"
  by (simp_all add: ledger_of_def call_def call_if_def end_relay_def stop_events_def reconcile_relay_def)

lemma ledger_of_relay [frames]:
  "ledger_of (register_relay env now j s) = ledger_of s" "ledger_of (notify_progress env now j s) = ledger_of s"
  "ledger_of (put_operation r s) = ledger_of s"
  by (simp_all add: ledger_of_def register_relay_def notify_progress_def reconcile_relay_def put_operation_def
      call_if_def call_def split: option.splits)

lemma ledger_of_writes [frames]:
  "ledger_of (put_activity a r s) = set_activity a r (ledger_of s)"
  "ledger_of (put_job j x s) = (ledger_of s)\<lparr>lg_jobs := AList.update j x (bs_jobs s)\<rparr>"
  "ledger_of (put_intent i r' s) = (ledger_of s)\<lparr>lg_intents := AList.update i r' (bs_intents s)\<rparr>"
  by (simp_all add: ledger_of_def put_activity_def put_job_def put_intent_def set_activity_def)

lemma ledger_of_sync [frames]:
  "sync_agent_for_job j st inputs g a now s = Inr (changed, s') \<Longrightarrow> ledger_of s' = ledger_of s"
  by (auto simp: sync_agent_for_job_def Let_def ledger_of_def split: option.splits if_splits)

lemma ledger_of_intent_event [frames]:
  "record_intent_event r kind now s = Inr s' \<Longrightarrow> ledger_of s' = ledger_of s"
  by (auto simp: record_intent_event_def Let_def frames split: option.splits target_kind.splits)

lemma ledger_of_frame:
  assumes "ledger_of s' = ledger_of s"
  shows "bs_activities s' = bs_activities s" "bs_jobs s' = bs_jobs s" "bs_outbox s' = bs_outbox s"
    "bs_next_outbox s' = bs_next_outbox s" "bs_deliveries s' = bs_deliveries s" "bs_intents s' = bs_intents s"
  using assms by (simp_all add: ledger_of_def)

lemma require_activity_Inr [simp]: "require_activity a s = Inr r \<longleftrightarrow> map_of (bs_activities s) a = Some r"
  by (simp add: require_activity_def split: option.splits)

section \<open>Runs of moves\<close>

lemma moves_refl [simp]: "ledger_moves l l"
  by (simp add: ledger_moves_def)

lemma moves_one: "ledger_move l l' \<Longrightarrow> ledger_moves l l'"
  by (auto simp: ledger_moves_def)

lemma moves_trans [trans]: "ledger_moves l l' \<Longrightarrow> ledger_moves l' l'' \<Longrightarrow> ledger_moves l l''"
  by (simp add: ledger_moves_def)

lemma moves_inv: "ledger_moves l l' \<Longrightarrow> ledger_inv l \<Longrightarrow> ledger_inv l'"
  using ledger_moves_sound by blast

section \<open>The outbox\<close>

lemma moves_rows:
  assumes "\<And>r. r \<in> set (bs_outbox s) \<Longrightarrow> same_entry r (f r)"
  shows "ledger_moves (ledger_of s) (ledger_of (s\<lparr>bs_outbox := map f (bs_outbox s)\<rparr>))"
proof -
  have "list_all2 same_entry (bs_outbox s) (map f (bs_outbox s))"
    using assms by (simp add: list_all2_conv_all_nth)
  then have "ledger_move (ledger_of s) ((ledger_of s)\<lparr>lg_outbox := map f (bs_outbox s)\<rparr>)"
    by (intro move_outbox) simp
  then show ?thesis by (auto simp: ledger_of_def intro: moves_one)
qed

lemma moves_update_rows:
  assumes "update_rows p f s = (n, s')" "\<And>r. p r \<Longrightarrow> same_entry r (f r)"
  shows "ledger_moves (ledger_of s) (ledger_of s')"
proof -
  have "s' = s\<lparr>bs_outbox := map (\<lambda>r. if p r then f r else r) (bs_outbox s)\<rparr>"
    using assms(1) by (simp add: update_rows_def)
  then show ?thesis using assms(2) by (auto intro!: moves_rows)
qed

lemma moves_acknowledge: "ledger_moves (ledger_of s) (ledger_of (acknowledge_completion_outbox a ch now s))"
  unfolding acknowledge_completion_outbox_def by (rule moves_rows) (simp add: same_entry_def lease_ok_def)

lemma moves_claim: "ledger_moves (ledger_of s) (ledger_of (snd (claim_completion_outbox kept i sid who lease now s)))"
proof -
  obtain n s' where u: "update_rows (claimable_row kept i sid who now) (lease_row who (now + lease)) s = (n, s')"
    by force
  then have "snd (claim_completion_outbox kept i sid who lease now s) = s'"
    by (simp add: claim_completion_outbox_def)
  then show ?thesis
    using moves_update_rows [OF u] by (simp add: same_entry_def lease_ok_def lease_row_def)
qed

lemma moves_delivered:
  assumes "mark_completion_outbox_delivered i sid who now s = Inr s'"
  shows "ledger_moves (ledger_of s) (ledger_of s')"
proof -
  obtain n s1 where u: "update_rows (markable_row i sid who) (deliver_row now) s = (n, s1)" by force
  then have "s' = s1"
    using assms by (auto simp: mark_completion_outbox_delivered_def split: if_splits option.splits)
  then show ?thesis
    using moves_update_rows [OF u] by (auto simp: same_entry_def lease_ok_def deliver_row_def split: option.splits)
qed

lemma moves_release: "ledger_moves (ledger_of s) (ledger_of (release_completion_outbox i sid who s))"
  unfolding release_completion_outbox_def
  by (rule moves_update_rows [OF prod.collapse [symmetric]]) (simp add: same_entry_def lease_ok_def)

lemma moves_release_native:
  "ledger_moves (ledger_of s) (ledger_of (snd (release_native_completion_outbox item who now s)))"
  unfolding release_native_completion_outbox_def prod.case_distrib [of snd] snd_conv case_prod_beta
  by (rule moves_update_rows [OF prod.collapse [symmetric]]) (simp add: same_entry_def lease_ok_def)

lemma moves_uncertain:
  assumes "mark_completion_outbox_uncertain i sid who s = Inr s'"
  shows "ledger_moves (ledger_of s) (ledger_of s')"
proof -
  let ?p = "\<lambda>r. is_row i sid r \<and> ob_lease_owner r = Some who \<and> undelivered r"
  let ?f = "\<lambda>r. r\<lparr>ob_lease_owner := None, ob_lease_expires := None, ob_next := Some uncertain_hold_at\<rparr>"
  obtain n s1 where u: "update_rows ?p ?f s = (n, s1)" by force
  then have "s' = s1"
    using assms by (auto simp: mark_completion_outbox_uncertain_def split: if_splits option.splits)
  then show ?thesis using moves_update_rows [OF u] by (simp add: same_entry_def lease_ok_def)
qed

section \<open>Activities\<close>

lemma insert_announces:
  "announce a v ch (ledger_of s) (ledger_of (insert_completion_outbox a sid v ch now s))"
proof (cases "list_ex (\<lambda>r. ob_activity r = a \<and> ob_completion r = v \<and> ob_channel r = ch) (bs_outbox s)")
  case True
  then show ?thesis
    by (auto simp: insert_completion_outbox_def list_ex_iff intro!: announce_old)
next
  case False
  let ?r = "\<lparr>ob_id = bs_next_outbox s, ob_activity = a, ob_scope = sid, ob_completion = v, ob_channel = ch,
    ob_attempts = 0, ob_next = None, ob_lease_owner = None, ob_lease_expires = None, ob_delivered = None,
    ob_acked = None, ob_created = now\<rparr>"
  have "announce a v ch (ledger_of s)
      ((ledger_of s)\<lparr>lg_outbox := lg_outbox (ledger_of s) @ [?r], lg_next := lg_next (ledger_of s) + 1\<rparr>)"
    by (rule announce_new) (use False in \<open>auto simp: list_ex_iff new_entry_def lease_ok_def\<close>)
  moreover have "ledger_of (insert_completion_outbox a sid v ch now s) =
      (ledger_of s)\<lparr>lg_outbox := lg_outbox (ledger_of s) @ [?r], lg_next := lg_next (ledger_of s) + 1\<rparr>"
    using False by (simp add: insert_completion_outbox_def ledger_of_def)
  ultimately show ?thesis by simp
qed

lemma reconcile_settles:
  assumes "reconcile_activity env a now s = Inr s'"
  shows "settle a (ledger_of s) (ledger_of s')"
proof -
  obtain r where r: "map_of (bs_activities s) a = Some r"
    using assms by (auto simp: reconcile_activity_def result_simps)
  let ?c = "count_jobs (statuses a (ledger_of s))"
  let ?d = "derive_activity_barrier r ?c" and ?row = "reconciled_row r ?c now"
  have c: "count_activity_jobs a s = ?c" by (simp add: count_activity_jobs_def statuses_def)
  define s2 where "s2 = (if bd_lifecycle ?d = LcCompleted
    then stop_events env a (end_relay env a (add_activity_event a (ac_scope r) (reconcile_event_type r ?d) now (put_activity a ?row s)))
    else add_activity_event a (ac_scope r) (reconcile_event_type r ?d) now (put_activity a ?row s))"
  have l2: "ledger_of s2 = set_activity a ?row (ledger_of s)" by (simp add: s2_def frames)
  have s': "s' = (if completion_transition r ?d
      then insert_completion_outbox a (ac_scope r) (ac_completion ?row) (the (bd_channel ?d)) now s2 else s2)"
    unfolding s2_def
    by (rule sym) (use assms r in
        \<open>simp add: reconcile_activity_def Let_def c result_simps require_activity_def split del: if_split\<close>)
  show ?thesis
  proof (cases "completion_transition r ?d")
    case True
    have "ac_completion ?row = ac_completion r + 1"
      using True by (simp add: reconciled_row_def Let_def)
    then have "announce a (ac_completion r + 1) (the (bd_channel ?d)) (set_activity a ?row (ledger_of s)) (ledger_of s')"
      using insert_announces [of a "ac_completion ?row" "the (bd_channel ?d)" s2] True s' l2 by simp
    then show ?thesis using True r by (intro settle_announced [where r = r and d = ?d]) simp_all
  next
    case False
    then have "ledger_of s' = set_activity a ?row (ledger_of s)" using s' l2 by simp
    then show ?thesis using settle_quiet [of "ledger_of s" a r now] False r by simp
  qed
qed

lemma moves_set:
  assumes "ledger_move (ledger_of s) (set_activity a r (ledger_of s))" "ledger_of s' = set_activity a r (ledger_of s)"
  shows "ledger_moves (ledger_of s) (ledger_of s')"
  using assms by (simp add: moves_one)

lemma fresh_activity_frame [simp]:
  fixes sid project src kind handoff trigger is_legacy now
  defines "r \<equiv> fresh_activity sid project src kind handoff trigger is_legacy now"
  shows "ac_lifecycle r = LcOpen" "ac_verification r = NotRequired" "ac_completion r = 0" "ac_counts r = empty_counts"
    "ac_scope r = sid" "ac_handoff r = handoff"
  by (simp_all add: r_def fresh_activity_def counts_for_single_status_def empty_counts_def)

lemma moves_create:
  assumes "create_activity env i now s = Inr s'"
  shows "ledger_moves (ledger_of s) (ledger_of s')"
proof -
  obtain aid sid project src where "map_of (bs_activities s) aid = None"
      "s' = add_activity_event aid sid ''activity-created'' now (put_activity aid
         (fresh_activity sid project src (ci_kind i) (ci_handoff i) (ci_trigger i) (ci_legacy i) now)
         (next_scope_version sid now (ensure_scope sid now s)))"
    using assms unfolding create_activity_def Let_def res_bind_Inr_iff throw_if_Inr_iff by blast
  then show ?thesis
    by (intro moves_set [of s aid _ s'] move_create) (auto simp: frames fresh_activity_frame)
qed

lemma moves_policy:
  assumes "set_activity_policy a kind handoff trigger now s = Inr s'"
  shows "ledger_moves (ledger_of s) (ledger_of s')"
proof -
  from assms obtain r where r: "map_of (bs_activities s) a = Some r" "ac_lifecycle r = LcOpen"
    by (auto simp: set_activity_policy_def result_simps split: if_splits)
  let ?h = "case handoff of None \<Rightarrow> ac_handoff r | Some x \<Rightarrow> x"
  let ?r = "r\<lparr>ac_kind := (case kind of None \<Rightarrow> ac_kind r | Some x \<Rightarrow> x), ac_handoff := ?h,
    ac_trigger := (case trigger of None \<Rightarrow> ac_trigger r | Some x \<Rightarrow> x),
    ac_verification := (if ?h = HandoffVerify then ac_verification r else NotRequired),
    ac_version := ac_version r + 1, ac_updated := now\<rparr>"
  have "ledger_of s' = set_activity a ?r (ledger_of s)"
    using assms r by (auto simp: set_activity_policy_def require_activity_def Let_def frames)
  then show ?thesis
    by (intro moves_set [of s a ?r s'] move_policy [of _ a r]) (use r in simp_all)
qed

lemma moves_phase:
  assumes "map_of (bs_activities s) a = Some r" "same_course r r'" "\<not> finished (ac_lifecycle r)"
    "\<not> finished (ac_lifecycle r')" "ac_verification r' \<in> {ac_verification r, Verifying, VerFailed}"
    "ledger_of s' = set_activity a r' (ledger_of s)" "ledger_inv (ledger_of s)"
    "ac_verification r' = ac_verification r \<or> ac_handoff r = HandoffVerify"
  shows "ledger_moves (ledger_of s) (ledger_of s')"
proof -
  have "ac_verification r' \<noteq> NotRequired \<longrightarrow> ac_handoff r = HandoffVerify"
    using assms(8) inv_activityD(1) [OF assms(7), of a r] assms(1)
    by (auto simp: course_ok_def verification_ok_def split: verification.splits)
  then show ?thesis using assms(1-6) by (intro moves_set [of s a r' s'] move_phase [of _ a r]) simp_all
qed

lemma require_mutable_Inr:
  "require_mutable_activity a s = Inr r \<longleftrightarrow> map_of (bs_activities s) a = Some r \<and> \<not> finished (ac_lifecycle r)"
  by (auto simp: require_mutable_activity_def result_simps split: if_splits)

lemma moves_seal:
  assumes "seal_activity env a now s = Inr s'" "ledger_inv (ledger_of s)"
  shows "ledger_moves (ledger_of s) (ledger_of s')"
proof -
  from assms obtain r where r: "map_of (bs_activities s) a = Some r" "ac_lifecycle r = LcOpen"
    by (auto simp: seal_activity_def result_simps split: if_splits)
  let ?r = "r\<lparr>ac_lifecycle := LcSealed, ac_sealed := Some now, ac_updated := now, ac_version := ac_version r + 1\<rparr>"
  let ?s = "add_activity_event a (ac_scope r) ''activity-sealed'' now (put_activity a ?r (next_scope_version (ac_scope r) now s))"
  have "reconcile_activity env a now ?s = Inr s'"
    using assms(1) r by (auto simp: seal_activity_def result_simps require_activity_def split: if_splits)
  then have "ledger_moves (ledger_of ?s) (ledger_of s')"
    by (intro moves_one move_settle reconcile_settles)
  moreover have "ledger_moves (ledger_of s) (ledger_of ?s)"
    by (rule moves_phase [OF r(1), of ?r]) (use r assms(2) in \<open>simp_all add: same_course_def finished_def frames\<close>)
  ultimately show ?thesis by (rule moves_trans [rotated])
qed

lemma moves_terminate:
  assumes "begin_activity_termination env a why now s = Inr s'" "ledger_inv (ledger_of s)"
  shows "ledger_moves (ledger_of s) (ledger_of s')"
proof -
  from assms(1) obtain r where r: "map_of (bs_activities s) a = Some r" "\<not> finished (ac_lifecycle r)"
    by (auto simp: begin_activity_termination_def result_simps require_mutable_Inr)
  let ?r = "r\<lparr>ac_lifecycle := LcTerminating, ac_waiting := WaitCodex, ac_version := ac_version r + 1, ac_updated := now\<rparr>"
  from assms(1) r have "s' = s \<or> ledger_of s' = set_activity a ?r (ledger_of s)"
    by (auto simp: begin_activity_termination_def result_simps require_mutable_Inr frames split: if_splits)
  then show ?thesis
    using moves_phase [OF r(1), of ?r s'] r(2) assms(2) by (auto simp: same_course_def finished_def)
qed

lemma moves_start_verification:
  assumes "start_activity_verification a now s = Inr s'" "ledger_inv (ledger_of s)"
  shows "ledger_moves (ledger_of s) (ledger_of s')"
proof -
  from assms(1) obtain r where r: "map_of (bs_activities s) a = Some r" "\<not> finished (ac_lifecycle r)"
      "ac_handoff r = HandoffVerify"
    by (auto simp: start_activity_verification_def result_simps require_mutable_Inr split: if_splits)
  let ?r = "r\<lparr>ac_lifecycle := LcSealed, ac_sealed := (case ac_sealed r of None \<Rightarrow> Some now | Some t \<Rightarrow> Some t),
    ac_waiting := WaitVerification, ac_verification := Verifying, ac_version := ac_version r + 1, ac_updated := now\<rparr>"
  let ?s = "add_activity_event a (ac_scope r) ''verification-started'' now
    (put_activity a ?r (next_scope_version (ac_scope r) now s))"
  have "s' = acknowledge_completion_outbox a (Some ChVerify) now ?s"
    by (rule sym) (use assms(1) r in \<open>auto simp: start_activity_verification_def result_simps require_mutable_Inr split: if_splits\<close>)
  moreover have "ledger_moves (ledger_of s) (ledger_of ?s)"
    by (rule moves_phase [OF r(1), of ?r]) (use r assms(2) in \<open>simp_all add: finished_def same_course_def frames\<close>)
  ultimately show ?thesis using moves_acknowledge [of ?s] by (simp add: moves_trans)
qed

lemma moves_fail_verification:
  assumes "fail_activity_verification env a why now s = Inr s'" "ledger_inv (ledger_of s)"
  shows "ledger_moves (ledger_of s) (ledger_of s')"
proof -
  from assms(1) obtain r where r: "map_of (bs_activities s) a = Some r" "\<not> finished (ac_lifecycle r)"
      "ac_verification r \<in> {VerPending, Verifying}"
    by (auto simp: fail_activity_verification_def result_simps require_mutable_Inr split: if_splits)
  then have verify: "ac_handoff r = HandoffVerify"
    using inv_activityD(1) [OF assms(2), of a r] by (auto simp: course_ok_def verification_ok_def)
  let ?r = "r\<lparr>ac_lifecycle := LcOpen, ac_sealed := None, ac_waiting := WaitOrchestrator, ac_verification := VerFailed,
    ac_version := ac_version r + 1, ac_updated := now, ac_completed := None\<rparr>"
  let ?s = "add_activity_event a (ac_scope r) ''verification-failed'' now
    (put_activity a ?r (next_scope_version (ac_scope r) now s))"
  have "s' = acknowledge_completion_outbox a (Some ChVerify) now ?s"
    by (rule sym) (use assms(1) r in \<open>auto simp: fail_activity_verification_def result_simps require_mutable_Inr split: if_splits\<close>)
  moreover have "ledger_moves (ledger_of s) (ledger_of ?s)"
    by (rule moves_phase [OF r(1), of ?r]) (use r verify assms(2) in \<open>simp_all add: finished_def same_course_def frames\<close>)
  ultimately show ?thesis using moves_acknowledge [of ?s] by (simp add: moves_trans)
qed

lemma moves_transition:
  assumes "map_of (bs_activities s) a = Some r" "\<not> finished (ac_lifecycle r)" "jc_running (ac_counts r) = 0"
    "target \<in> {LcCancelled, LcAbandoned}"
  shows "ledger_moves (ledger_of s) (ledger_of (transition_activity_terminal env a r target kind now s))"
proof -
  let ?r = "r\<lparr>ac_lifecycle := target, ac_waiting := WaitNone, ac_verification := NotRequired,
    ac_version := ac_version r + 1, ac_updated := now\<rparr>"
  let ?s = "add_activity_event a (ac_scope r) kind now (put_activity a ?r (next_scope_version (ac_scope r) now s))"
  have "ledger_move (ledger_of s) (set_activity a ?r (ledger_of s))"
    by (rule move_close [of _ a r]) (use assms in \<open>simp_all add: same_course_def\<close>)
  then have "ledger_moves (ledger_of s) (ledger_of ?s)" by (intro moves_one) (simp add: frames)
  then show ?thesis
    using moves_acknowledge [of ?s] by (simp add: transition_activity_terminal_def frames moves_trans)
qed

lemma moves_abandon:
  assumes "abandon_activity env a why now s = Inr s'"
  shows "ledger_moves (ledger_of s) (ledger_of s')"
  using assms
  by (auto simp: abandon_activity_def result_simps require_mutable_Inr assert_no_running_jobs_def
      intro!: moves_transition split: if_splits)

lemma moves_cancel:
  assumes "cancel_activity env a why now s = Inr s'"
  shows "ledger_moves (ledger_of s) (ledger_of s')"
  using assms
  by (auto simp: cancel_activity_def result_simps require_mutable_Inr assert_no_running_jobs_def
      intro!: moves_transition split: if_splits)

lemma moves_complete:
  assumes "complete_activity env a why now s = Inr s'" "ledger_inv (ledger_of s)"
  shows "ledger_moves (ledger_of s) (ledger_of s')"
proof -
  from assms(1) obtain r where r: "map_of (bs_activities s) a = Some r" "\<not> finished (ac_lifecycle r)"
      "jc_running (ac_counts r) = 0" "ac_handoff r = HandoffVerify \<longrightarrow> ac_verification r = Verified"
    by (auto simp: complete_activity_def result_simps require_mutable_Inr assert_no_running_jobs_def split: if_splits)
  have plain: "ac_handoff r \<noteq> HandoffVerify"
    using r(2,4) inv_activityD(1) [OF assms(2), of a r] r(1)
    by (auto simp: course_ok_def verification_ok_def finished_def)
  let ?s = "stop_events env a (end_relay env a (add_activity_event a (ac_scope r) ''activity-completed'' now
    (put_activity a (completed_row NotRequired now r) (next_scope_version (ac_scope r) now s))))"
  have s': "s' = (if ac_handoff r = HandoffNotify
      then insert_completion_outbox a (ac_scope r) (ac_completion r + 1) ChNotify now ?s else ?s)"
    by (rule sym) (use assms(1) r in \<open>auto simp: complete_activity_def result_simps require_mutable_Inr Let_def split: if_splits\<close>)
  have l: "ledger_of ?s = set_activity a (completed_row NotRequired now r) (ledger_of s)" by (simp add: frames)
  have "ledger_move (ledger_of s) (ledger_of s')"
  proof (rule move_complete [of _ a r NotRequired "ledger_of ?s" now])
    show "if ac_handoff r = HandoffNotify then announce a (ac_completion r + 1) ChNotify (ledger_of ?s) (ledger_of s')
      else ledger_of s' = ledger_of ?s"
      using insert_announces [of a "ac_completion r + 1" ChNotify ?s] s' by simp
  qed (use r plain l in simp_all)
  then show ?thesis by (rule moves_one)
qed

lemma moves_pass_verification:
  assumes "pass_activity_verification env a e now s = Inr s'" "ledger_inv (ledger_of s)"
  shows "ledger_moves (ledger_of s) (ledger_of s')"
proof -
  from assms(1) obtain r where r: "map_of (bs_activities s) a = Some r" "\<not> finished (ac_lifecycle r)"
      "jc_running (ac_counts r) = 0" "ac_verification r = Verifying"
    by (auto simp: pass_activity_verification_def result_simps require_mutable_Inr assert_no_running_jobs_def
        split: if_splits)
  have l: "ledger_of s' = set_activity a (completed_row Verified now r) (ledger_of s)"
    using assms(1) r by (auto simp: pass_activity_verification_def result_simps require_mutable_Inr
        assert_no_running_jobs_def frames split: if_splits)
  have "ac_handoff r = HandoffVerify"
    using r(4) inv_activityD(1) [OF assms(2), of a r] r(1) by (auto simp: course_ok_def verification_ok_def)
  then have "ledger_move (ledger_of s) (ledger_of s')"
    by (intro move_complete [of _ a r Verified "ledger_of s'" now]) (use r l in simp_all)
  then show ?thesis by (rule moves_one)
qed

section \<open>Normalised ids\<close>

lemma uuid_char:
  assumes "uuid_text s" "c \<in> set s"
  shows "is_hex c \<or> c = CHR ''-''"
proof -
  have "set (join_with [d] ws) \<subseteq> insert d (\<Union> (set ` set ws))" for d ws
    by (induction "[d]" ws rule: join_with.induct) auto
  then have "set s \<subseteq> insert (CHR ''-'') (\<Union> (set ` set (split_on (CHR ''-'') s)))"
    using join_split by metis
  then show ?thesis using assms by (auto simp: uuid_text_def Let_def list_all_iff)
qed

lemma uuid_plain:
  assumes "uuid_text s"
  shows "js_trim s = s" "ascii_lower s = s"
proof -
  have plain: "\<not> js_space c \<and> \<not> (65 \<le> (of_char c :: nat) \<and> (of_char c :: nat) \<le> 90)" if "c \<in> set s" for c
    using uuid_char [OF assms that] by (auto simp: is_hex_def js_space_def Let_def)
  have id: "dropWhile js_space t = t" if "\<And>c. c \<in> set t \<Longrightarrow> \<not> js_space c" for t
    using that by (cases t) auto
  have "dropWhile js_space s = s" "dropWhile js_space (rev s) = rev s"
    by (rule id; use plain in simp)+
  then show "js_trim s = s" unfolding js_trim_def by simp
  show "ascii_lower s = s" unfolding ascii_lower_def by (rule map_idI) (use plain in \<open>auto simp: Let_def\<close>)
qed

lemma normalize_uuid_idem: "uuid_text s \<Longrightarrow> normalize_uuid s = Inr s"
  by (simp add: normalize_uuid_def uuid_plain Let_def)

lemma normalize_uuid_text: "normalize_uuid v = Inr s \<Longrightarrow> uuid_text s"
  by (auto simp: normalize_uuid_def Let_def split: if_splits)

section \<open>Cancellations\<close>

lemma normalize_facts_ok:
  assumes "normalize_facts env r = Inr f"
  shows "uuid_text (cn_scope f)" "uuid_text (cn_request f)" "bounded_reason_code (cn_reason_code f)"
  using assms by (auto simp: normalize_facts_def res_bind_Inr_iff normalize_reason_code_def intro: normalize_uuid_text
      split: if_splits)

lemma intent_row_sel [simp]:
  "cn_scope (intent_row_of f p c) = cn_scope f" "it_status (intent_row_of f p c) = IntentRecorded"
  "cn_target (intent_row_of f p c) = cn_target f" "cn_request (intent_row_of f p c) = cn_request f"
  "cn_reason_code (intent_row_of f p c) = cn_reason_code f"
  by (simp_all add: intent_row_of_def cancellation_facts.defs)

lemma moves_insert_intent:
  assumes "insert_intent i f p c s = Inr s'" "normalize_facts env req = Inr f"
  shows "ledger_moves (ledger_of s) (ledger_of s')"
proof -
  have n: "map_of (bs_intents s) i = None" and "s' = put_intent i (intent_row_of f p c) s"
    using assms(1) by (auto simp: insert_intent_def split: if_splits)
  moreover have "intent_follows (map_of (lg_intents (ledger_of s)) i) (intent_row_of f p c)"
    using n normalize_facts_ok [OF assms(2)] by (simp add: intent_follows_def intent_facts_ok_def)
  ultimately show ?thesis using move_intent [of "ledger_of s" i "intent_row_of f p c"] by (simp add: frames moves_one)
qed

lemma moves_begin_cancellation:
  assumes "begin_cancellation_operation env req digest why i s = Inr s'"
  shows "ledger_moves (ledger_of s) (ledger_of s')"
proof -
  from assms obtain f op s1 s2 where "normalize_facts env req = Inr f"
      "insert_intent i f None i (put_operation op (ensure_scope (cn_scope f) (cn_created f) s)) = Inr s1"
      "record_intent_event (intent_row_of f None i) (intent_event_type IntentRecorded) (cn_created f) s1 = Inr s'"
    unfolding begin_cancellation_operation_def res_bind_Inr_iff Let_def
    by (auto simp: res_bind_Inr_iff split: option.splits if_splits)
  then show ?thesis
    using moves_insert_intent by (fastforce simp: frames)
qed

lemma moves_create_intent:
  assumes "create_cancellation_intent env req parent cascade i s = Inr s'"
  shows "ledger_moves (ledger_of s) (ledger_of s')"
proof -
  from assms obtain f pid cid s1 where "normalize_facts env req = Inr f" "insert_intent i f (Some pid) cid s = Inr s1"
      "record_intent_event (intent_row_of f (Some pid) cid) (intent_event_type IntentRecorded) (cn_created f) s1 = Inr s'"
    unfolding create_cancellation_intent_def res_bind_Inr_iff Let_def
    by (auto simp: res_bind_Inr_iff split: option.splits if_splits)
  then show ?thesis
    using moves_insert_intent by (fastforce simp: frames)
qed

lemma moves_intent_status:
  assumes "set_cancellation_intent_status i st now s = Inr s'"
  shows "ledger_moves (ledger_of s) (ledger_of s')"
proof -
  obtain p where p: "map_of (bs_intents s) i = Some p"
    using assms by (auto simp: set_cancellation_intent_status_def result_simps require_intent_def split: option.splits)
  let ?r = "p\<lparr>it_status := st, it_dispatched := stamped (st = IntentDispatched) now (it_dispatched p),
    it_completed := stamped (intent_settled st) now (it_completed p)\<rparr>"
  show ?thesis
  proof (cases "it_status p = st")
    case True
    then show ?thesis using assms p by (simp add: set_cancellation_intent_status_def require_intent_def)
  next
    case False
    then have ok: "\<not> (intent_settled (it_status p) \<or> it_status p = IntentRecorded \<and> st = IntentSucceeded)"
      and e: "record_intent_event ?r (intent_event_type st) now (put_intent i ?r s) = Inr s'"
      using assms p by (auto simp: set_cancellation_intent_status_def require_intent_def Let_def split: if_splits)
    have "intent_follows (map_of (lg_intents (ledger_of s)) i) ?r"
      using ok p by (simp add: intent_follows_def cancellation_facts.defs)
    from move_intent [OF this] ledger_of_intent_event [OF e] show ?thesis by (simp add: frames moves_one)
  qed
qed

lemma ledger_of_finish_operation:
  "complete_cancellation_operation sid rid v st now s = Inr s' \<Longrightarrow> ledger_of s' = ledger_of s"
  by (auto simp: complete_cancellation_operation_def ledger_of_def split: option.splits if_splits)

section \<open>Jobs\<close>

text \<open>Writing the row of an admitted job, with its delivery receipt.\<close>

lemma add_delivery_ledger:
  "ledger_of (add_delivery j ad v previous now s) = (ledger_of s)\<lparr>lg_deliveries :=
     (if v \<noteq> None \<and> v \<noteq> Some 0 \<and> is_terminal_status (ad_status ad) \<and>
         \<not> (case previous of None \<Rightarrow> False | Some p \<Rightarrow> is_terminal_status (jb_status p)) \<and> map_of (bs_deliveries s) j = None
      then bs_deliveries s @ [(j, \<lparr>jd_scope = ad_scope ad, jd_terminal_version = the v, jd_created = now\<rparr>)]
      else bs_deliveries s)\<rparr>"
  by (auto simp: add_delivery_def ledger_of_def split: option.splits)

lemma write_row_moves:
  fixes i :: job_input and ad :: admitted_job and previous :: "job_row option" and folder :: "string option"
  defines "r \<equiv> new_job_row i ad previous folder"
  assumes "write_job_row env now i ad previous folder s = Inr s'" "previous = map_of (bs_jobs s) (ji_id i)"
    and "map_of (bs_activities s) (ad_activity ad) = Some act" "previous = None \<longrightarrow> ac_lifecycle act = LcOpen"
    and "\<And>p. previous = Some p \<Longrightarrow> ad_scope ad = jb_scope p \<and> ad_activity ad = jb_activity p \<and>
      (is_terminal_status (jb_status p) \<longrightarrow> is_terminal_status (ad_status ad))"
    and "ad_status ad = JsCancelled \<longrightarrow> authorized (bs_intents s) (ji_id i) r"
    and "ledger_inv (ledger_of s)"
  shows "write_job (ji_id i) r (ledger_of s) (ledger_of s')"
proof -
  let ?v = "jb_terminal_version r" and ?j = "ji_id i"
  have r: "jb_scope r = ad_scope ad" "jb_activity r = ad_activity ad" "jb_status r = ad_status ad"
    "?v = next_terminal_version previous (ad_status ad) (ji_terminal_version i)"
    by (simp_all add: r_def new_job_row_def)
  let ?new = "is_terminal_status (jb_status r) \<and> map_of (bs_deliveries s) ?j = None \<and>
    \<not> (case previous of None \<Rightarrow> False | Some p \<Rightarrow> is_terminal_status (jb_status p))"
  let ?d = "\<lparr>jd_scope = ad_scope ad, jd_terminal_version = (case ?v of None \<Rightarrow> 0 | Some v \<Rightarrow> v), jd_created = ji_updated i\<rparr>"
  have "receipt_ok p (map_of (bs_deliveries s) ?j)" if "previous = Some p" for p
    using assms(8) that assms(3) by (simp add: ledger_inv_def ledger_base_def job_ok_def)
  then have "\<exists>v. ?v = Some v \<and> 1 \<le> v" if ?new
    unfolding r(4) using that r(3)
    by (intro next_terminal_version_first) (auto simp: receipt_ok_def split: option.splits)
  note first = this
  have "ledger_of s' = ledger_of (add_delivery ?j ad ?v previous (ji_updated i) (put_job ?j r s))"
    using assms(2) by (auto simp: write_job_row_def Let_def frames r_def [symmetric] split: if_splits)
  moreover have "bs_deliveries (put_job ?j r s) = bs_deliveries s" by (simp add: put_job_def)
  moreover have "(?v \<noteq> None \<and> ?v \<noteq> Some 0 \<and> is_terminal_status (ad_status ad) \<and>
      \<not> (case previous of None \<Rightarrow> False | Some p \<Rightarrow> is_terminal_status (jb_status p)) \<and>
      map_of (bs_deliveries s) ?j = None) \<longleftrightarrow> ?new"
    using first r(3) by auto
  ultimately have l': "ledger_of s' = (ledger_of s)\<lparr>lg_jobs := AList.update ?j r (bs_jobs s), lg_deliveries :=
      (if ?new then bs_deliveries s @ [(?j, ?d)] else bs_deliveries s)\<rparr>"
    using first by (auto simp: add_delivery_ledger frames)
  have created: "jb_created r = jb_created p" if "previous = Some p" for p
    using that by (simp add: r_def new_job_row_def)
  have rows: "row_follows previous r"
    unfolding row_follows_def using r assms(6) created by (auto split: option.splits)
  have "write_job ?j r (ledger_of s) ((ledger_of s)\<lparr>lg_jobs := AList.update ?j r (lg_jobs (ledger_of s)),
      lg_deliveries := (if ?new then bs_deliveries s @ [(?j, ?d)] else bs_deliveries s)\<rparr>)"
    by (rule write_job.intros [where act = act and previous = previous and d = ?d])
      (use assms(3-5,7) r rows in simp_all)
  then show ?thesis by (simp add: l')
qed

lemma record_change_settles:
  "record_job_change env i ad previous created s = Inr s' \<Longrightarrow> settle (ad_activity ad) (ledger_of s) (ledger_of s')"
  by (auto simp: record_job_change_def Let_def frames dest!: reconcile_settles split: if_splits)

lemma commit_moves:
  assumes "commit_job env now i ad previous folder created s = Inr s'" "previous = map_of (bs_jobs s) (ji_id i)"
    and "map_of (bs_activities s) (ad_activity ad) = Some act" "previous = None \<longrightarrow> ac_lifecycle act = LcOpen"
    and "\<And>p. previous = Some p \<Longrightarrow> ad_scope ad = jb_scope p \<and> ad_activity ad = jb_activity p \<and>
      (is_terminal_status (jb_status p) \<longrightarrow> is_terminal_status (ad_status ad))"
    and "ad_status ad = JsCancelled \<longrightarrow> authorized (bs_intents s) (ji_id i) (new_job_row i ad previous folder)"
    and "ledger_inv (ledger_of s)"
  shows "ledger_moves (ledger_of s) (ledger_of s')"
proof -
  let ?r = "new_job_row i ad previous folder"
  from assms(1) obtain s1 changed s2 where w: "write_job_row env now i ad previous folder s = Inr s1"
      and sync: "(case ad_agent ad of None \<Rightarrow> Inr (False, s1)
        | Some g \<Rightarrow> sync_agent_for_job (ji_id i) (ad_status ad) (ji_inputs i) g (ad_activity ad) (ji_updated i) s1) =
        Inr (changed, s2)"
      and rest: "(let s3 = call (CallRetentionSummary (ji_id i)) (call (CallThreadRecord (ji_id i) (map_option jb_status previous)) s2)
        in if created \<or> changed \<or> visible_change previous ?r then record_job_change env i ad previous created s3
        else Inr s3) = Inr s'"
    unfolding commit_job_def res_bind_Inr_iff by (auto simp: Let_def)
  have job: "write_job (ji_id i) ?r (ledger_of s) (ledger_of s1)"
    using write_row_moves [OF w assms(2-5)] assms(6,7) by simp
  have l2: "ledger_of s2 = ledger_of s1"
    using sync by (auto dest: ledger_of_sync split: option.splits)
  show ?thesis
  proof (cases "created \<or> changed \<or> visible_change previous ?r")
    case True
    then have "settle (jb_activity ?r) (ledger_of s1) (ledger_of s')"
      using rest by (auto simp: Let_def frames l2 new_job_row_def dest!: record_change_settles)
    with job show ?thesis by (intro moves_one move_job_changed)
  next
    case False
    then obtain p where p: "previous = Some p" "jb_status p = jb_status ?r"
      by (auto simp: visible_change_def split: option.splits)
    have "ledger_of s' = ledger_of s1" using rest False by (auto simp: Let_def frames l2)
    then show ?thesis
      using move_job_kept [OF job, of p] p assms(2) by (simp add: moves_one)
  qed
qed

lemma admit_activity_moves:
  assumes "admit_activity env i a sid project existing s = Inr (created, s')"
  shows "ledger_moves (ledger_of s) (ledger_of s') \<and> bs_jobs s' = bs_jobs s \<and> bs_intents s' = bs_intents s \<and>
    (\<exists>act. map_of (bs_activities s') a = Some act \<and> (\<not> existing \<longrightarrow> ac_lifecycle act = LcOpen))"
proof (cases "map_of (bs_activities s) a")
  case None
  then obtain pin where s': "s' = put_activity a (fresh_activity sid pin None OtherKind HandoffNone Manual True (ji_updated i)) s"
    using assms by (auto simp: admit_activity_def res_bind_Inr_iff split: option.splits)
  then have "ledger_moves (ledger_of s) (ledger_of s')"
    using None by (intro moves_set [of s a _ s'] move_create) (auto simp: frames)
  then show ?thesis using s' by (simp add: put_activity_def map_of_update)
next
  case (Some r)
  then show ?thesis using assms by (auto simp: admit_activity_def split: if_splits)
qed

lemma pin_project_moves:
  assumes "pin_project env i a project existing s = Inr (folder, s')"
  shows "ledger_moves (ledger_of s) (ledger_of s') \<and> bs_jobs s' = bs_jobs s \<and> bs_intents s' = bs_intents s \<and>
    (\<forall>act. map_of (bs_activities s) a = Some act \<longrightarrow>
      (\<exists>act'. map_of (bs_activities s') a = Some act' \<and> ac_lifecycle act' = ac_lifecycle act))"
proof -
  have "s' = s \<or> (\<exists>r p. map_of (bs_activities s) a = Some r \<and> s' = put_activity a (r\<lparr>ac_project := Some p\<rparr>) s)"
    using assms unfolding pin_project_def res_bind_Inr_iff
  proof (elim exE conjE, goal_cases)
    case (1 pin s1 pinned)
    from 1(4) have "s' = s1" by (auto split: option.splits prod.splits if_splits)
    with 1(2) show ?case
      by (cases pin; cases project; cases "map_of (bs_activities s) a") (auto simp: res_bind_Inr_iff split: if_splits)
  qed
  then show ?thesis
  proof
    assume "\<exists>r p. map_of (bs_activities s) a = Some r \<and> s' = put_activity a (r\<lparr>ac_project := Some p\<rparr>) s"
    then obtain r p where r: "map_of (bs_activities s) a = Some r" "s' = put_activity a (r\<lparr>ac_project := Some p\<rparr>) s"
      by blast
    have "ledger_moves (ledger_of s) (ledger_of s')"
      by (intro moves_set [of s a "r\<lparr>ac_project := Some p\<rparr>" s'] move_edit [of _ a r])
        (use r in \<open>simp_all add: same_course_def frames\<close>)
    then show ?thesis using r by (simp add: put_activity_def map_of_update)
  qed simp
qed

lemma truthy_string_idem [simp]: "truthy_string (truthy_string v) = truthy_string v"
  by (simp add: truthy_string_def)

lemma normalized_truthy:
  assumes "normalized_option (Some x) = Inr v" "truthy_string y = Some x"
  shows "\<exists>n. v = Some n \<and> n \<noteq> ''''"
proof -
  have "x \<noteq> ''''" using assms(2) by (auto simp: truthy_string_def split: if_splits)
  then obtain n where "v = Some n" "uuid_text n"
    using assms(1) by (auto simp: normalized_option_def truthy_string_def res_bind_Inr_iff intro: normalize_uuid_text)
  moreover have "\<not> uuid_text ''''" by (simp add: uuid_text_def)
  ultimately show ?thesis by blast
qed

text \<open>What admission guarantees: the row stays in its scope and Activity, and a cancelled one is authorized.\<close>

lemma admit_job_facts:
  assumes "admit_job env i st a sid previous s = Inr ad" "normalize_uuid (ji_scope i) = Inr sid"
    and "previous = map_of (bs_jobs s) (ji_id i)" "ledger_inv (ledger_of s)"
  shows "ad_status ad = st \<and> ad_activity ad = a \<and> ad_scope ad = sid \<and>
    (\<forall>p. previous = Some p \<longrightarrow> jb_scope p = sid \<and> jb_activity p = a) \<and>
    (st = JsCancelled \<longrightarrow> authorized (bs_intents s) (ji_id i) (new_job_row i ad previous folder))"
proof -
  let ?origin = "coalesce_option (ji_origin i) (old jb_origin previous)"
  from assms(1) obtain intent where
      intent: "(case truthy_string (ji_intent i) of None \<Rightarrow> Inr (truthy_string (old jb_intent previous))
        | Some x \<Rightarrow> normalized_option (Some x)) = (Inr intent :: (store_error, _) result)"
      and prov: "check_provenance s i st previous ?origin intent = Inr ()"
      and moved: "\<not> (case previous of None \<Rightarrow> False | Some r \<Rightarrow> jb_scope r \<noteq> sid \<or> jb_activity r \<noteq> a)"
      and ad: "ad_status ad = st" "ad_activity ad = a" "ad_scope ad = sid" "ad_intent ad = intent"
    unfolding admit_job_def res_bind_Inr_iff throw_if_Inr_iff Let_def by (auto simp: throw_if_Inr_iff)
  have truthy: "truthy_string intent = intent"
  proof (cases "truthy_string (ji_intent i)")
    case None
    then show ?thesis using intent by auto
  next
    case (Some x)
    then obtain n where "intent = Some n" "n \<noteq> ''''" using intent normalized_truthy [of x intent "ji_intent i"] by auto
    then show ?thesis by (simp add: truthy_string_def)
  qed
  have "authorized (bs_intents s) (ji_id i) (new_job_row i ad previous folder)" if st: "st = JsCancelled"
  proof -
    have "intent \<noteq> None"
    proof (cases "map_option jb_status previous = Some JsCancelled")
      case True
      then obtain p where p: "previous = Some p" "jb_status p = JsCancelled" by (cases previous) auto
      then have "authorized (bs_intents s) (ji_id i) p"
        using assms(3,4) by (simp add: ledger_inv_def ledger_base_def job_ok_def)
      then obtain y where "truthy_string (jb_intent p) = Some y" by (auto simp: authorized_def split: option.splits)
      then show ?thesis
        using intent p normalized_truthy [of _ intent "ji_intent i"]
        by (auto simp: old_def split: option.splits, metis)
    qed (use prov st in \<open>auto simp: check_provenance_def Let_def split: if_splits\<close>)
    then obtain x where x: "intent = Some x" by blast
    then obtain row where row: "map_of (bs_intents s) x = Some row" "intent_targets row (ji_id i) (ji_scope i)"
      using prov by (auto simp: check_provenance_def Let_def split: if_splits option.splits)
    moreover have "uuid_text (cn_scope row)"
      using assms(4) row(1) by (simp add: ledger_inv_def ledger_base_def tables_ok_def intent_facts_ok_def)
    ultimately have "uuid_text (ji_scope i)" by (simp add: intent_targets_def)
    then have "sid = ji_scope i" using assms(2) normalize_uuid_idem by simp
    then show ?thesis using x row truthy ad by (simp add: authorized_def new_job_row_def)
  qed
  then show ?thesis using ad moved by (auto split: option.splits)
qed

lemma moves_upsert:
  assumes "upsert_job env now i s = Inr s'" "ledger_inv (ledger_of s)"
  shows "ledger_moves (ledger_of s) (ledger_of s')"
proof (cases "s' = s")
  case False
  let ?previous = "map_of (bs_jobs s) (ji_id i)"
  from assms(1) False obtain st a sid ad where
      st: "\<not> (case ?previous of None \<Rightarrow> False | Some p \<Rightarrow> is_terminal_status (jb_status p) \<and> is_active_status st)"
      and sid: "normalize_uuid (ji_scope i) = Inr sid"
      and admit: "admit_job env i st a sid ?previous s = Inr ad" and place: "place_job env now i ad ?previous s = Inr s'"
    by (auto simp: upsert_job_def res_bind_Inr_iff Let_def split: option.splits if_splits)
  let ?s0 = "ensure_scope (ad_scope ad) (ji_updated i) s"
  from place obtain created s1 folder s2 where
      a1: "admit_activity env i (ad_activity ad) (ad_scope ad) (ad_project ad) (?previous \<noteq> None) ?s0 = Inr (created, s1)"
      and a2: "pin_project env i (ad_activity ad) (ad_project ad) (?previous \<noteq> None) s1 = Inr (folder, s2)"
      and a3: "commit_job env now i ad ?previous folder created s2 = Inr s'"
    unfolding place_job_def res_bind_Inr_iff split_paired_Ex prod.case by blast
  note m1 = admit_activity_moves [OF a1] and m2 = pin_project_moves [OF a2]
  have l0: "ledger_of ?s0 = ledger_of s" by (simp add: frames)
  note same = ledger_of_frame [OF l0]
  have m: "ledger_moves (ledger_of s) (ledger_of s2)" using m1 m2 l0 by (auto intro: moves_trans)
  note facts = admit_job_facts [OF admit sid refl assms(2), of folder]
  obtain act where act: "map_of (bs_activities s2) (ad_activity ad) = Some act"
      "?previous = None \<longrightarrow> ac_lifecycle act = LcOpen"
    using m1 m2 by auto
  have "ledger_moves (ledger_of s2) (ledger_of s')"
  proof (rule commit_moves [OF a3 _ act])
    show "?previous = map_of (bs_jobs s2) (ji_id i)" using m1 m2 same by simp
    show "ad_status ad = JsCancelled \<longrightarrow> authorized (bs_intents s2) (ji_id i) (new_job_row i ad ?previous folder)"
      using facts m1 m2 same by simp
    show "ledger_inv (ledger_of s2)" using moves_inv [OF m assms(2)] .
  qed (use facts st in \<open>auto simp: active_or_terminal\<close>)
  with m show ?thesis by (rule moves_trans)
qed simp

text \<open>A write that keeps the phase of the row.\<close>

lemma moves_put_job:
  assumes "map_of (bs_jobs s) j = Some p" "jb_scope r = jb_scope p" "jb_activity r = jb_activity p"
    "jb_created r = jb_created p" "jb_terminal_version r = jb_terminal_version p" "jb_intent r = jb_intent p"
    "jb_status r = jb_status p \<or> is_active_status (jb_status r) \<and> is_active_status (jb_status p)"
    "ledger_inv (ledger_of s)"
  shows "ledger_moves (ledger_of s) (ledger_of (put_job j r s))"
proof -
  have ok: "job_ok (ledger_of s) j p" using assms(1,8) by (simp add: ledger_inv_def ledger_base_def)
  then obtain act where act: "map_of (bs_activities s) (jb_activity r) = Some act"
    using assms(3) by (auto simp: job_ok_def)
  have phase: "is_terminal_status (jb_status r) \<longleftrightarrow> is_terminal_status (jb_status p)"
    using assms(7) by (auto simp: active_or_terminal)
  have "\<exists>given. jb_terminal_version r = next_terminal_version (Some p) (jb_status r) given"
  proof (cases "is_terminal_status (jb_status p)")
    case True
    then show ?thesis using ok assms(5) phase
      by (auto simp: job_ok_def receipt_ok_def next_terminal_version_again)
  next
    case False
    then show ?thesis using ok assms(5) phase
      by (simp add: job_ok_def receipt_ok_def next_terminal_version_def Let_def)
  qed
  then have rows: "row_follows (Some p) r" using assms(2-4) phase by (simp add: row_follows_def)
  have auth: "jb_status r = JsCancelled \<longrightarrow> authorized (bs_intents s) j r"
    using ok assms(7) unfolding job_ok_def authorized_def assms(2,6) ledger_of_sel by (auto simp: is_active_status_def)
  have "write_job j r (ledger_of s)
      ((ledger_of s)\<lparr>lg_jobs := AList.update j r (lg_jobs (ledger_of s)), lg_deliveries := bs_deliveries s\<rparr>)"
    by (rule write_job.intros [where act = act and previous = "Some p" and
        d = "\<lparr>jd_scope = [], jd_terminal_version = (case jb_terminal_version r of None \<Rightarrow> 0 | Some v \<Rightarrow> v), jd_created = 0\<rparr>"])
      (use assms(1) act rows auth phase in simp_all)
  moreover have "(ledger_of s)\<lparr>lg_jobs := AList.update j r (lg_jobs (ledger_of s)), lg_deliveries := bs_deliveries s\<rparr> =
      ledger_of (put_job j r s)" by (simp add: ledger_of_def put_job_def)
  ultimately show ?thesis using move_job_kept [of j r "ledger_of s" _ p] assms(1,7) by (simp add: moves_one)
qed

lemma moves_progress:
  assumes "update_job_progress j p s = Inr ((resumed, changed, r), s')" "ledger_inv (ledger_of s)"
  shows "ledger_moves (ledger_of s) (ledger_of s')"
proof -
  obtain q where q: "map_of (bs_jobs s) j = Some q" "is_active_status (jb_status q)"
    using assms(1) by (auto simp: update_job_progress_def split: if_splits option.splits)
  then obtain rows where s': "ledger_of s' = ledger_of (put_job j (resumed_row p rows q) s)"
    using assms(1) by (auto simp: update_job_progress_def res_bind_Inr_iff Let_def split: if_splits option.splits
        dest!: ledger_of_sync)
  have "ledger_moves (ledger_of s) (ledger_of (put_job j (resumed_row p rows q) s))"
    by (rule moves_put_job [OF q(1)])
      (use q assms(2) in \<open>auto simp: resumed_row_def is_active_status_def\<close>)
  with s' show ?thesis by simp
qed

lemma moves_progress_state:
  assumes "update_job_progress_state env now j p s = Inr s'" "ledger_inv (ledger_of s)"
  shows "ledger_moves (ledger_of s) (ledger_of s')"
proof -
  obtain resumed changed r s1 where u: "update_job_progress j p s = Inr ((resumed, changed, r), s1)"
      and "ledger_of s' = ledger_of s1"
    using assms(1) unfolding update_job_progress_state_def res_bind_Inr_iff split_paired_Ex prod.case
    by (auto simp: Let_def frames split: if_splits)
  then show ?thesis using moves_progress [OF u assms(2)] by simp
qed

lemma moves_waiting: "ledger_moves (ledger_of s) (ledger_of (set_waiting a sid w now s))"
proof (cases "map_of (bs_activities s) a")
  case (Some r)
  let ?r = "r\<lparr>ac_waiting := w, ac_updated := now, ac_version := ac_version r + 1\<rparr>"
  show ?thesis
  proof (cases "finished (ac_lifecycle r)")
    case False
    then have "ledger_of (set_waiting a sid w now s) = set_activity a ?r (ledger_of s)"
      using Some by (simp add: set_waiting_def frames)
    then show ?thesis
      by (intro moves_set [of s a ?r] move_edit [of _ a r]) (use Some False in \<open>simp_all add: same_course_def\<close>)
  qed (use Some in \<open>simp add: set_waiting_def frames\<close>)
qed (simp add: set_waiting_def frames)

lemma moves_waiting_after:
  "ledger_of s2 = ledger_of s1 \<Longrightarrow> ledger_moves (ledger_of s1) (ledger_of (set_waiting a sid w now s2))"
  using moves_waiting [of s2] by simp

lemma moves_telemetry:
  assumes "record_job_telemetry env now j t s = Inr s'" "ledger_inv (ledger_of s)"
  shows "ledger_moves (ledger_of s) (ledger_of s')"
  using assms(1) unfolding record_job_telemetry_def res_bind_Inr_iff split_paired_Ex prod.case Let_def
proof (elim exE conjE, goal_cases)
  case (1 resumed r s1 kind)
  have "ledger_moves (ledger_of s) (ledger_of s1)"
    using 1(1) moves_progress [OF _ assms(2)]
    by (auto simp: progress_or_row_def res_bind_Inr_iff split: option.splits if_splits)
  moreover have "ledger_moves (ledger_of s1) (ledger_of s')"
    using 1(3) by (cases "tm_waiting t") (auto simp: frames intro!: moves_waiting_after split: if_splits)
  ultimately show ?case by (rule moves_trans)
qed

lemma moves_delete:
  assumes "delete_job j now s = Inr (gone, s')" "ledger_inv (ledger_of s)"
  shows "ledger_moves (ledger_of s) (ledger_of s')"
proof (cases "s' = s")
  case False
  then obtain p where p: "map_of (bs_jobs s) j = Some p"
    using assms(1) by (auto simp: delete_job_def split: if_splits option.splits)
  let ?r = "p\<lparr>jb_archived := Some now\<rparr>"
  let ?s = "add_job_event j (jb_activity p) (jb_scope p) ''retention-pruned'' (jb_status p) now
    (put_job j ?r (next_scope_version (jb_scope p) now s))"
  have frame: "bs_activities ?s = bs_activities s" "ledger_of ?s = ledger_of (put_job j ?r s)"
    using ledger_of_scopes(2) [of "jb_scope p" now s]
    by (simp_all add: add_job_event_def put_job_def ledger_of_def)
  have "ledger_moves (ledger_of s) (ledger_of ?s)"
    unfolding frame(2) by (rule moves_put_job [OF p]) (use assms(2) in simp_all)
  moreover have "touch_activity (jb_activity p) now ''job-retention-pruned'' ?s = Inr s'"
    using assms(1) False p by (auto simp: delete_job_def res_bind_Inr_iff split: if_splits)
  then obtain r where r: "map_of (bs_activities ?s) (jb_activity p) = Some r"
      and s': "ledger_of s' = set_activity (jb_activity p) (r\<lparr>ac_version := ac_version r + 1, ac_updated := now\<rparr>) (ledger_of ?s)"
    by (auto simp: touch_activity_def res_bind_Inr_iff frames)
  have "ledger_moves (ledger_of ?s) (ledger_of s')"
    by (intro moves_set [OF _ s'] move_edit [of _ "jb_activity p" r]) (use r in \<open>simp_all add: same_course_def\<close>)
  ultimately show ?thesis by (rule moves_trans)
qed simp

lemma retention_step:
  assumes "retention_loop k in_time (c # cs) removed left out s = Inr (res, s')"
  obtains (stopped) "s' = s"
  | (kept) t n m l where "retention_loop k t cs n m l s = Inr (res, s')"
  | (deleted) gone s1 t n m l where "delete_job (rc_job c) (rk_now k) s = Inr (gone, s1)"
      "retention_loop k t cs n m l s1 = Inr (res, s')"
  using assms unfolding retention_loop.simps Let_def
  by (simp only: split: if_split_asm) (auto simp: res_bind_Inr_iff split: if_splits)

lemma moves_retention:
  "retention_loop k in_time cs removed left out s = Inr (res, s') \<Longrightarrow> ledger_inv (ledger_of s) \<Longrightarrow>
   ledger_moves (ledger_of s) (ledger_of s')"
proof (induction cs arbitrary: in_time removed left out s)
  case (Cons c cs)
  from Cons.prems(1) show ?case
  proof (cases rule: retention_step)
    case kept
    then show ?thesis using Cons by blast
  next
    case (deleted gone s1)
    note m = moves_delete [OF deleted(1) Cons.prems(2)]
    then show ?thesis using Cons.IH [OF deleted(2) moves_inv [OF m Cons.prems(2)]] by (rule moves_trans)
  qed simp
qed simp

section \<open>Every operation refines the ledger\<close>

lemma new_state_Inr: "new_state r = Inr s' \<longleftrightarrow> (\<exists>x. r = Inr (x, s'))"
  by (auto simp: new_state_def res_bind_Inr_iff)

lemmas store_moves = moves_create moves_policy moves_seal moves_complete moves_abandon moves_cancel moves_terminate
  moves_start_verification moves_pass_verification moves_fail_verification moves_upsert moves_progress_state
  moves_telemetry moves_delete moves_begin_cancellation moves_create_intent moves_intent_status
  moves_claim moves_delivered moves_release moves_release_native moves_uncertain

lemma store_op_moves:
  assumes "store_op env now ev s = Inr s'" "ledger_inv (ledger_of s)"
  shows "ledger_moves (ledger_of s) (ledger_of s')"
proof (cases ev)
  case (EvRetention k in_time)
  then show ?thesis using assms by (auto simp: new_state_Inr maintain_job_retention_def dest: moves_retention)
next
  case (EvFinishOperation sid rid v st)
  then show ?thesis using assms(1) by (simp add: ledger_of_finish_operation)
qed (use assms in \<open>auto simp: new_state_Inr intro: store_moves\<close>)

definition store_inv :: "bridge_state \<Rightarrow> bool" where
  "store_inv s \<longleftrightarrow> ledger_inv (ledger_of s)"

lemma store_step_moves: "store_inv s \<Longrightarrow> ledger_moves (ledger_of s) (ledger_of (store_step s e))"
  by (cases e) (auto simp: store_inv_def store_step_def transact_def split: sum.splits dest: store_op_moves)

text \<open>A store before its first Activity: whatever Agents there are.\<close>

definition empty_store :: "(string \<times> agent_row) list \<Rightarrow> assignment_row list \<Rightarrow> bridge_state" where
  "empty_store agents held = \<lparr>bs_scopes = [], bs_activities = [], bs_jobs = [], bs_agents = agents,
     bs_assignments = held, bs_activity_events = [], bs_job_events = [], bs_outbox = [], bs_next_outbox = 1,
     bs_deliveries = [], bs_operations = [], bs_intents = [], bs_relay = empty_relay, bs_calls = []\<rparr>"

lemma empty_store_inv: "store_inv (empty_store agents held)"
  by (simp add: store_inv_def empty_store_def ledger_inv_def ledger_base_def tables_ok_def counts_but_def ledger_of_def)

interpretation store: transition_system store_step "\<lambda>_. True" store_inv
  by unfold_locales (use moves_inv store_step_moves store_inv_def in blast)

lemma reachable_inv: "store_inv (run store_step (empty_store agents held) es)"
  by (rule store.run_inv [OF empty_store_inv]) (simp add: list_all_iff)

lemma run_moves: "store_inv s \<Longrightarrow> ledger_moves (ledger_of s) (ledger_of (run store_step s es))"
proof (induction es arbitrary: s)
  case (Cons e es)
  note m = store_step_moves [OF Cons.prems, of e]
  have "store_inv (store_step s e)" using store.step_inv Cons.prems by blast
  from moves_trans [OF m Cons.IH [OF this]] show ?case by simp
qed simp

lemma run_le: "store_inv s \<Longrightarrow> ledger_le (ledger_of s) (ledger_of (run store_step s es))"
  using ledger_moves_sound run_moves store_inv_def by blast

text \<open>Once an Activity is finished its course is closed.\<close>

definition activity_over :: "string \<Rightarrow> bridge_state \<Rightarrow> bool" where
  "activity_over a s \<longleftrightarrow> (\<exists>r. map_of (bs_activities s) a = Some r \<and> finished (ac_lifecycle r))"

definition activity_outcome ::
  "string \<Rightarrow> bridge_state \<Rightarrow> (lifecycle \<times> verification \<times> handoff_policy \<times> int) option" where
  "activity_outcome a s =
     map_option (\<lambda>r. (ac_lifecycle r, ac_verification r, ac_handoff r, ac_completion r)) (map_of (bs_activities s) a)"

lemma step_le: "store_inv s \<Longrightarrow> ledger_le (ledger_of s) (ledger_of (store_step s e))"
  using ledger_moves_sound store_step_moves store_inv_def by blast

lemma ledger_leD:
  assumes "ledger_le (ledger_of s) (ledger_of s')"
  shows "map_of (bs_activities s) a = Some r \<Longrightarrow> \<exists>r'. map_of (bs_activities s') a = Some r' \<and> activity_kept r r'"
    "map_of (bs_jobs s) j = Some p \<Longrightarrow> \<exists>p'. map_of (bs_jobs s') j = Some p' \<and> job_kept p p'"
    "map_of (bs_deliveries s) j = Some d \<Longrightarrow> map_of (bs_deliveries s') j = Some d"
    "map_of (bs_intents s) i = Some it \<Longrightarrow> \<exists>it'. map_of (bs_intents s') i = Some it' \<and> intent_kept it it'"
    "e \<in> set (bs_outbox s) \<Longrightarrow> \<exists>e' \<in> set (bs_outbox s'). same_entry e e'"
  using assms by (simp_all add: ledger_le_def rows_kept_def)

interpretation over: absorbing_system store_step "\<lambda>_. True" store_inv "activity_over a" "activity_outcome a" for a
proof
  fix s e
  assume "store_inv s" "activity_over a s"
  then obtain r r' where "map_of (bs_activities s) a = Some r" "finished (ac_lifecycle r)"
      "map_of (bs_activities (store_step s e)) a = Some r'" "activity_kept r r'"
    using ledger_leD(1) [OF step_le] unfolding activity_over_def by meson
  then show "activity_over a (store_step s e)" "activity_outcome a (store_step s e) = activity_outcome a s"
    by (simp_all add: activity_over_def activity_outcome_def activity_kept_def)
qed

end
