(* ===== verification/Thread_Connections.thy ===== *)
theory Thread_Connections
  imports Store_Runs
begin

text \<open>
  Conversation threads and who holds them: \<open>src/src/threadConnections.ts\<close>. \<open>ThreadConnectionStore\<close> is
  a table of durable connection intents keyed by thread, written by the job transaction, by handoff
  requests and by project retirement; \<open>ThreadConnectionController\<close> releases connections in sweeps
  whose steps interleave with all of those. The last section composes both with the store, whose job
  admission reads the table.
\<close>

section \<open>Rows\<close>

datatype persistence = Persistent | Ephemeral | PersistenceUnknown
datatype connection_phase = PhConnected | PhWaiting | PhReleasing | PhUnsubscribed | PhReleased | PhBlocked
datatype release_evidence = ThreadUnloaded | WorkerExited | ConnectionAbsent

record connection =
  tc_agent :: "string option"
  tc_scope :: string
  tc_persistence :: persistence
  tc_phase :: connection_phase
  tc_handoff :: bool
  tc_finished :: "int option"
  tc_job :: "string option"
  tc_pid :: "int option"
  tc_revision :: int
  tc_updated :: int
  tc_reason :: "string option"
  tc_evidence :: "release_evidence option"

text \<open>The rows, and the threads whose project was retired.\<close>

record thread_table =
  tt_rows :: "(string \<times> connection) list"
  tt_retired :: "string list"

datatype thread_error = PersistenceConflict | ConnectionUnknown | ReleaseInProgress

definition put_row :: "string \<Rightarrow> connection \<Rightarrow> thread_table \<Rightarrow> thread_table" where
  "put_row tid c t = t\<lparr>tt_rows := AList.update tid c (tt_rows t)\<rparr>"

section \<open>Registration\<close>

record thread_registration =
  tr_thread :: string
  tr_agent :: "string option"
  tr_scope :: string
  tr_persistence :: "persistence option"
  tr_pid :: "int option"

definition registered_persistence :: "persistence option \<Rightarrow> connection option \<Rightarrow> persistence" where
  "registered_persistence given previous =
     (if given = None \<or> given = Some PersistenceUnknown
      then (case previous of None \<Rightarrow> PersistenceUnknown | Some p \<Rightarrow> tc_persistence p)
      else the given)"

definition register_thread :: "int \<Rightarrow> thread_registration \<Rightarrow> thread_table \<Rightarrow> (thread_error, thread_table) result" where
  "register_thread now i t =
     (let tid = tr_thread i; previous = map_of (tt_rows t) tid;
          persistence = registered_persistence (tr_persistence i) previous;
          agent = truthy_string (tr_agent i); pid = truthy_time (tr_pid i) in
      if tid \<in> set (tt_retired t) then Inr t
      else case previous of
        None \<Rightarrow> Inr (put_row tid \<lparr>tc_agent = agent, tc_scope = tr_scope i, tc_persistence = persistence,
          tc_phase = PhConnected, tc_handoff = False, tc_finished = None, tc_job = None, tc_pid = pid,
          tc_revision = 1, tc_updated = now, tc_reason = None, tc_evidence = None\<rparr> t)
      | Some p \<Rightarrow>
          if tc_persistence p \<noteq> PersistenceUnknown \<and> persistence \<noteq> tc_persistence p then Inl PersistenceConflict
          else Inr (put_row tid (p\<lparr>tc_agent := coalesce_option agent (tc_agent p), tc_scope := tr_scope i,
            tc_persistence := persistence, tc_pid := coalesce_option pid (tc_pid p)\<rparr>) t))"

section \<open>Admission\<close>

definition release_pending :: "connection \<Rightarrow> bool" where
  "release_pending c \<longleftrightarrow> tc_phase c = PhReleasing \<or> tc_handoff c \<and> tc_phase c \<noteq> PhReleased"

definition admission_blocked :: "thread_table \<Rightarrow> string option \<Rightarrow> string option \<Rightarrow> bool" where
  "admission_blocked t agent thread \<longleftrightarrow>
     list_ex (\<lambda>(tid, c). (truthy_string thread = Some tid \<or> truthy_string agent \<noteq> None \<and> tc_agent c = agent) \<and>
       release_pending c) (tt_rows t)"

definition superseded :: "string \<Rightarrow> string \<Rightarrow> int \<Rightarrow> string \<Rightarrow> connection \<Rightarrow> connection" where
  "superseded agent current now tid c =
     (if tc_agent c = Some agent \<and> tid \<noteq> current \<and> tc_handoff c \<and> tc_phase c \<noteq> PhReleasing
      then c\<lparr>tc_handoff := False, tc_phase := PhBlocked, tc_reason := Some ''target-changed'', tc_evidence := None,
        tc_revision := tc_revision c + 1, tc_updated := now\<rparr>
      else c)"

definition supersede_handoffs :: "string \<Rightarrow> string \<Rightarrow> int \<Rightarrow> thread_table \<Rightarrow> thread_table" where
  "supersede_handoffs agent current now t =
     t\<lparr>tt_rows := map (\<lambda>(tid, c). (tid, superseded agent current now tid c)) (tt_rows t)\<rparr>"

section \<open>Updates\<close>

record connection_patch =
  pa_phase :: connection_phase
  pa_handoff :: "bool option"
  pa_reason :: "string option"
  pa_evidence :: "release_evidence option"

definition patched :: "connection_patch \<Rightarrow> int \<Rightarrow> connection \<Rightarrow> connection" where
  "patched p now c =
     c\<lparr>tc_phase := pa_phase p, tc_handoff := (case pa_handoff p of None \<Rightarrow> tc_handoff c | Some h \<Rightarrow> h),
       tc_reason := truthy_string (pa_reason p), tc_evidence := pa_evidence p,
       tc_revision := tc_revision c + 1, tc_updated := now\<rparr>"

text \<open>\<open>update\<close>: with an expected revision, only the row that was read is written.\<close>

definition update_connection ::
  "string \<Rightarrow> connection_patch \<Rightarrow> int \<Rightarrow> int option \<Rightarrow> thread_table \<Rightarrow> connection option \<times> thread_table" where
  "update_connection tid p now expected t =
     (case map_of (tt_rows t) tid of
        None \<Rightarrow> (None, t)
      | Some c \<Rightarrow>
          if expected \<noteq> None \<and> expected \<noteq> Some (tc_revision c) then (None, t)
          else (Some (patched p now c), put_row tid (patched p now c) t))"

definition request_handoff :: "string \<Rightarrow> int \<Rightarrow> thread_table \<Rightarrow> (thread_error, thread_table) result" where
  "request_handoff tid now t =
     (case map_of (tt_rows t) tid of
        None \<Rightarrow> Inl ConnectionUnknown
      | Some c \<Rightarrow>
          if tc_handoff c then Inr t
          else Inr (snd (update_connection tid
            \<lparr>pa_phase = (if tc_phase c = PhReleased then PhReleased else PhWaiting), pa_handoff = Some True,
             pa_reason = None, pa_evidence = tc_evidence c\<rparr> now None t)))"

definition cancel_handoff :: "string \<Rightarrow> int \<Rightarrow> thread_table \<Rightarrow> (thread_error, thread_table) result" where
  "cancel_handoff tid now t =
     (case map_of (tt_rows t) tid of
        None \<Rightarrow> Inl ConnectionUnknown
      | Some c \<Rightarrow>
          if tc_phase c = PhReleasing then Inl ReleaseInProgress
          else Inr (snd (update_connection tid
            \<lparr>pa_phase = (if tc_phase c \<in> {PhUnsubscribed, PhReleased} then tc_phase c else PhConnected),
             pa_handoff = Some False, pa_reason = None, pa_evidence = tc_evidence c\<rparr> now None t)))"

section \<open>Jobs\<close>

record thread_job =
  tj_id :: string
  tj_agent :: "string option"
  tj_scope :: string
  tj_backend :: "string option"
  tj_thread :: "string option"
  tj_session :: "string option"
  tj_status :: job_status
  tj_updated :: int
  tj_pid :: "int option"
  tj_turn :: "string option"
  tj_persistence :: "persistence option"
  tj_origin :: "terminal_origin option"
  tj_error :: "string option"

definition externally_owned :: "thread_job \<Rightarrow> bool" where
  "externally_owned j \<longleftrightarrow> tj_status j = JsFailed \<and>
     (case tj_error j of None \<Rightarrow> False | Some e \<Rightarrow> starts_with ''THREAD_EXTERNALLY_OWNED'' e)"

definition turn_started :: "int \<Rightarrow> connection \<Rightarrow> connection" where
  "turn_started now c = c\<lparr>tc_phase := PhConnected, tc_handoff := False, tc_reason := None, tc_evidence := None,
     tc_revision := tc_revision c + 1, tc_updated := now\<rparr>"

definition turn_finished :: "string \<Rightarrow> int \<Rightarrow> connection \<Rightarrow> connection" where
  "turn_finished j now c = c\<lparr>tc_finished := Some now, tc_job := Some j,
     tc_revision := tc_revision c + 1, tc_updated := now\<rparr>"

definition alter_row :: "bool \<Rightarrow> string \<Rightarrow> (connection \<Rightarrow> connection) \<Rightarrow> thread_table \<Rightarrow> thread_table" where
  "alter_row b tid f t =
     (if b then (case map_of (tt_rows t) tid of None \<Rightarrow> t | Some c \<Rightarrow> put_row tid (f c) t) else t)"

definition record_job :: "thread_job \<Rightarrow> job_status option \<Rightarrow> thread_table \<Rightarrow> (thread_error, thread_table) result" where
  "record_job j previous t =
     (case truthy_string (or_string (tj_thread j) (tj_session j)) of
        None \<Rightarrow> Inr t
      | Some tid \<Rightarrow>
          if tj_backend j \<noteq> Some ''app-server'' then Inr t
          else res_bind (register_thread (tj_updated j) \<lparr>tr_thread = tid, tr_agent = tj_agent j, tr_scope = tj_scope j,
              tr_persistence = tj_persistence j, tr_pid = tj_pid j\<rparr> t) (\<lambda>t1.
            let t2 = alter_row (externally_owned j) tid (patched \<lparr>pa_phase = PhBlocked, pa_handoff = None,
                  pa_reason = Some ''external-owner'', pa_evidence = None\<rparr> (tj_updated j)) t1;
                t3 = alter_row (tj_status j = JsRunning \<and> previous = None) tid (turn_started (tj_updated j)) t2;
                t4 = alter_row (is_terminal_status (tj_status j) \<and>
                    (case previous of None \<Rightarrow> False | Some p \<Rightarrow> \<not> is_terminal_status p) \<and>
                    truthy_string (tj_turn j) \<noteq> None \<and> tj_origin j \<noteq> Some BridgeRestart)
                  tid (turn_finished (tj_id j) (tj_updated j)) t3
            in Inr t4))"

section \<open>Unfinished work\<close>

text \<open>\<open>THREAD_UNFINISHED_WORK_SQL\<close>: a retained job of the thread, of a fork from it or of its Agent that
  is active, waits for input or is still to be cancelled.\<close>

definition job_on_thread :: "thread_table \<Rightarrow> string \<Rightarrow> job_row \<Rightarrow> bool" where
  "job_on_thread t tid r \<longleftrightarrow> jb_archived r = None \<and>
     (jb_thread r = Some tid \<or> jb_source r = Some tid \<or>
      (case map_of (tt_rows t) tid of None \<Rightarrow> False | Some c \<Rightarrow> tc_agent c \<noteq> None \<and> jb_agent r = tc_agent c))"

definition cancellation_open :: "bridge_state \<Rightarrow> string \<Rightarrow> job_row \<Rightarrow> bool" where
  "cancellation_open s j r \<longleftrightarrow> list_ex (\<lambda>(_, i).
     (tg_job (cn_target i) = Some j \<or>
      tg_kind (cn_target i) = TargetActivity \<and> tg_activity (cn_target i) = jb_activity r) \<and>
     it_status i \<in> {IntentRecorded, IntentDispatched}) (bs_intents s)"

definition has_unfinished_work :: "bridge_state \<Rightarrow> thread_table \<Rightarrow> string \<Rightarrow> bool" where
  "has_unfinished_work s t tid \<longleftrightarrow> list_ex (\<lambda>(j, r). job_on_thread t tid r \<and>
     (is_active_status (jb_status r) \<or> list_ex in_blocking (jb_inputs r) \<or> cancellation_open s j r)) (bs_jobs s)"

section \<open>Lists\<close>

definition at_most :: "nat \<Rightarrow> int \<Rightarrow> nat" where
  "at_most bound limit = nat (max 1 (min (int bound) limit))"

definition list_for_worker :: "int \<Rightarrow> int \<Rightarrow> string \<Rightarrow> thread_table \<Rightarrow> (string \<times> connection) list" where
  "list_for_worker pid limit except t =
     take (at_most 32 limit) (sort_key fst (filter (\<lambda>(tid, c). tc_pid c = Some pid \<and> tc_persistence c = Persistent \<and>
       tc_phase c \<notin> {PhReleased, PhReleasing} \<and> tid \<noteq> except) (tt_rows t)))"

definition protected_thread_ids :: "thread_table \<Rightarrow> string list" where
  "protected_thread_ids t = map fst (filter (\<lambda>(_, c). tc_handoff c \<or> tc_phase c \<noteq> PhConnected) (tt_rows t))"

definition handoff_candidates :: "string \<Rightarrow> int \<Rightarrow> thread_table \<Rightarrow> (string \<times> connection) list" where
  "handoff_candidates after limit t =
     take (at_most 16 limit) (sort_key fst (filter (\<lambda>(tid, c). tc_handoff c \<and> tc_phase c \<noteq> PhReleased \<and> after < tid)
       (tt_rows t)))"

definition finished_at :: "connection \<Rightarrow> int" where
  "finished_at c = (case tc_finished c of None \<Rightarrow> 0 | Some f \<Rightarrow> f)"

definition idle_candidates :: "int \<times> string \<Rightarrow> int \<Rightarrow> int \<Rightarrow> thread_table \<Rightarrow> (string \<times> connection) list" where
  "idle_candidates after due_at limit t =
     take (at_most 16 limit) (sort_key (\<lambda>(tid, c). (finished_at c, tid))
       (filter (\<lambda>(tid, c). tc_persistence c = Persistent \<and> tc_phase c \<noteq> PhReleased \<and> tc_finished c \<noteq> None \<and>
          finished_at c \<le> due_at \<and> (fst after < finished_at c \<or> fst after = finished_at c \<and> snd after < tid)) (tt_rows t)))"

section \<open>The controller\<close>

text \<open>
  A sweep visits its candidates one by one; \<open>sw_taken\<close> is the candidate between taking it and reading
  its current row, \<open>sw_waiting\<close> the thread and revision whose release was handed to the App Server.
  Between any two steps other operations run. \<open>tcf_supported\<close>: the upstream can release connections.
\<close>

record thread_config =
  tcf_idle_ms :: int
  tcf_supported :: bool

record sweep =
  sw_todo :: "(string \<times> connection) list"
  sw_candidates :: "string list"
  sw_handoffs :: "string list"
  sw_idles :: "string list"
  sw_taken :: "string option"
  sw_waiting :: "(string \<times> int) option"

record controller =
  cc_cursor :: string
  cc_idle_cursor :: "int \<times> string"
  cc_idle_first :: bool
  cc_closed :: bool
  cc_sweep :: "sweep option"

definition new_controller :: controller where
  "new_controller = \<lparr>cc_cursor = '''', cc_idle_cursor = (0, ''''), cc_idle_first = False, cc_closed = False, cc_sweep = None\<rparr>"

definition eligible :: "thread_config \<Rightarrow> int \<Rightarrow> bridge_state \<Rightarrow> thread_table \<Rightarrow> string \<Rightarrow> connection \<Rightarrow> bool" where
  "eligible cfg now s t tid c \<longleftrightarrow>
     tc_persistence c = Persistent \<and> \<not> has_unfinished_work s t tid \<and>
     (tc_handoff c \<or> 0 < tcf_idle_ms cfg \<and>
       (case tc_finished c of None \<Rightarrow> False | Some f \<Rightarrow> tcf_idle_ms cfg \<le> now - f))"

fun interleave :: "'a list \<Rightarrow> 'a list \<Rightarrow> 'a list" where
  "interleave [] ys = ys"
| "interleave (x # xs) [] = x # xs"
| "interleave (x # xs) (y # ys) = x # y # interleave xs ys"

text \<open>The two lanes, each from its cursor or from the start when nothing is left behind it.\<close>

definition handoff_lane :: "thread_table \<Rightarrow> controller \<Rightarrow> (string \<times> connection) list \<times> string" where
  "handoff_lane t c =
     (let h = handoff_candidates (cc_cursor c) 16 t in
      if h = [] \<and> cc_cursor c \<noteq> '''' then (handoff_candidates '''' 16 t, '''') else (h, cc_cursor c))"

definition idle_lane :: "thread_config \<Rightarrow> int \<Rightarrow> thread_table \<Rightarrow> controller \<Rightarrow> (string \<times> connection) list \<times> (int \<times> string)" where
  "idle_lane cfg now t c =
     (let due_at = now - tcf_idle_ms cfg;
          h = (if 0 < tcf_idle_ms cfg then idle_candidates (cc_idle_cursor c) due_at 16 t else []) in
      if h = [] \<and> 0 < fst (cc_idle_cursor c) \<and> 0 < tcf_idle_ms cfg
      then (idle_candidates (0, '''') due_at 16 t, (0, '''')) else (h, cc_idle_cursor c))"

definition sweep_start :: "thread_config \<Rightarrow> int \<Rightarrow> thread_table \<Rightarrow> controller \<Rightarrow> controller" where
  "sweep_start cfg now t c =
     (if cc_closed c \<or> cc_sweep c \<noteq> None then c
      else let (handoffs, cursor) = handoff_lane t c; (idles, idle_cursor) = idle_lane cfg now t c;
          found = fold (\<lambda>(tid, r). AList.update tid r)
            (if cc_idle_first c then interleave idles handoffs else interleave handoffs idles) []
        in c\<lparr>cc_cursor := cursor, cc_idle_cursor := idle_cursor, cc_idle_first := \<not> cc_idle_first c,
             cc_sweep := Some \<lparr>sw_todo = found, sw_candidates = keys found, sw_handoffs = map fst handoffs,
               sw_idles = map fst idles, sw_taken = None, sw_waiting = None\<rparr>\<rparr>)"

text \<open>Taking the next candidate; \<open>budget\<close> is whether the work slice still has room.\<close>

definition sweep_take :: "bool \<Rightarrow> controller \<Rightarrow> controller" where
  "sweep_take budget c =
     (case cc_sweep c of
        None \<Rightarrow> c
      | Some w \<Rightarrow>
          if sw_taken w \<noteq> None \<or> sw_waiting w \<noteq> None then c
          else case sw_todo w of
            [] \<Rightarrow> c\<lparr>cc_sweep := None\<rparr>
          | (tid, r) # rest \<Rightarrow>
              if cc_closed c \<or> \<not> budget then c\<lparr>cc_sweep := None\<rparr>
              else c\<lparr>cc_cursor := (if tid \<in> set (sw_handoffs w) then tid else cc_cursor c),
                cc_idle_cursor := (if tid \<in> set (sw_idles w) then (finished_at r, tid) else cc_idle_cursor c),
                cc_sweep := Some (w\<lparr>sw_todo := rest, sw_taken := Some tid\<rparr>)\<rparr>)"

definition release_obstacle :: "thread_config \<Rightarrow> bridge_state \<Rightarrow> thread_table \<Rightarrow> string \<Rightarrow> connection \<Rightarrow> string option" where
  "release_obstacle cfg s t tid c =
     (if tc_persistence c = Ephemeral then Some ''ephemeral''
      else if tc_persistence c \<noteq> Persistent then Some ''persistence-unknown''
      else if has_unfinished_work s t tid then Some ''active-work''
      else if \<not> tcf_supported cfg then Some ''unsupported'' else None)"

text \<open>The candidate's current row decides: skip it, note what blocks its release, or claim it by
  writing \<open>releasing\<close> and hand it to the App Server.\<close>

definition sweep_examine ::
  "thread_config \<Rightarrow> int \<Rightarrow> bridge_state \<Rightarrow> thread_table \<Rightarrow> controller \<Rightarrow> thread_table \<times> controller" where
  "sweep_examine cfg now s t c =
     (case cc_sweep c of
        None \<Rightarrow> (t, c)
      | Some w \<Rightarrow> (case sw_taken w of
          None \<Rightarrow> (t, c)
        | Some tid \<Rightarrow>
            let go = c\<lparr>cc_sweep := Some (w\<lparr>sw_taken := None\<rparr>)\<rparr> in
            (case map_of (tt_rows t) tid of
               None \<Rightarrow> (t, c\<lparr>cc_sweep := None\<rparr>)
             | Some r \<Rightarrow>
                 if tc_phase r = PhReleased then (t, go)
                 else (case release_obstacle cfg s t tid r of
                   Some why \<Rightarrow>
                     if tc_phase r \<noteq> PhBlocked \<or> tc_reason r \<noteq> Some why
                     then (snd (update_connection tid \<lparr>pa_phase = PhBlocked, pa_handoff = None, pa_reason = Some why,
                       pa_evidence = None\<rparr> now None t), go)
                     else (t, go)
                 | None \<Rightarrow>
                     if \<not> eligible cfg now s t tid r then (t, go)
                     else (case update_connection tid \<lparr>pa_phase = PhReleasing, pa_handoff = None, pa_reason = None,
                         pa_evidence = None\<rparr> now (Some (tc_revision r)) t of
                       (None, t') \<Rightarrow> (t', go)
                     | (Some r', t') \<Rightarrow>
                         (t', c\<lparr>cc_sweep := Some (w\<lparr>sw_taken := None, sw_waiting := Some (tid, tc_revision r')\<rparr>)\<rparr>))))))"

text \<open>What the App Server answers; \<open>an_released\<close> lists the peers it unloaded with the thread. A release
  without evidence, or a call that throws, is not confirmed.\<close>

datatype answer_phase = AnBlocked | AnUnsubscribed | AnReleased

record release_answer =
  an_phase :: answer_phase
  an_reason :: "string option"
  an_evidence :: "release_evidence option"
  an_released :: "string list"

definition unconfirmed :: release_answer where
  "unconfirmed = \<lparr>an_phase = AnBlocked, an_reason = Some ''release-unconfirmed'', an_evidence = None, an_released = []\<rparr>"

definition accepted_answer :: "release_answer option \<Rightarrow> release_answer" where
  "accepted_answer a =
     (case a of None \<Rightarrow> unconfirmed
      | Some r \<Rightarrow> if an_phase r = AnReleased \<and> an_evidence r = None then unconfirmed else r)"

definition phase_of :: "answer_phase \<Rightarrow> connection_phase" where
  "phase_of p = (case p of AnBlocked \<Rightarrow> PhBlocked | AnUnsubscribed \<Rightarrow> PhUnsubscribed | AnReleased \<Rightarrow> PhReleased)"

definition can_release :: "thread_config \<Rightarrow> int \<Rightarrow> bridge_state \<Rightarrow> controller \<Rightarrow> thread_table \<Rightarrow> string \<Rightarrow> bool" where
  "can_release cfg now s c t tid \<longleftrightarrow> \<not> cc_closed c \<and>
     (case map_of (tt_rows t) tid of None \<Rightarrow> False | Some r \<Rightarrow> eligible cfg now s t tid r)"

definition release_peer ::
  "thread_config \<Rightarrow> int \<Rightarrow> bridge_state \<Rightarrow> controller \<Rightarrow> string \<Rightarrow> release_evidence option \<Rightarrow> string \<Rightarrow>
   thread_table \<Rightarrow> thread_table" where
  "release_peer cfg now s c main ev tid t =
     (if tid \<noteq> main \<and> can_release cfg now s c t tid
      then snd (update_connection tid \<lparr>pa_phase = PhReleased, pa_handoff = None, pa_reason = None, pa_evidence = ev\<rparr>
        now None t)
      else t)"

definition sweep_done ::
  "thread_config \<Rightarrow> int \<Rightarrow> bridge_state \<Rightarrow> release_answer option \<Rightarrow> thread_table \<Rightarrow> controller \<Rightarrow> thread_table \<times> controller" where
  "sweep_done cfg now s answer t c =
     (case cc_sweep c of
        None \<Rightarrow> (t, c)
      | Some w \<Rightarrow> (case sw_waiting w of
          None \<Rightarrow> (t, c)
        | Some (tid, revision) \<Rightarrow>
            if cc_closed c then (t, c\<lparr>cc_sweep := None\<rparr>)
            else let r = accepted_answer answer;
                t1 = snd (update_connection tid \<lparr>pa_phase = phase_of (an_phase r), pa_handoff = None,
                  pa_reason = an_reason r, pa_evidence = an_evidence r\<rparr> now (Some revision) t);
                t2 = (if an_evidence r = None then t1
                  else fold (release_peer cfg now s c tid (an_evidence r)) (an_released r) t1)
              in (t2, c\<lparr>cc_sweep := Some (w\<lparr>sw_waiting := None\<rparr>)\<rparr>)))"

section \<open>The store with its threads\<close>

record bridge_threads =
  bt_store :: bridge_state
  bt_table :: thread_table
  bt_control :: controller

text \<open>What a job snapshot says of its thread beyond the fields of \<open>job_input\<close>.\<close>

record thread_facts =
  tf_backend :: "string option"
  tf_pid :: "int option"
  tf_persistence :: "persistence option"
  tf_error :: "string option"

datatype thread_event =
    TeStore store_env int store_event thread_facts
  | TeRegister int thread_registration
  | TeSupersede string string int
  | TeRequest string int
  | TeCancel string int
  | TeRetireRelease string release_evidence int
  | TeRetireForget string
  | TeSweepStart int
  | TeTake bool
  | TeExamine int
  | TeDone "release_answer option" int
  | TeClose

definition with_threads :: "thread_table \<Rightarrow> store_env \<Rightarrow> store_env" where
  "with_threads t env = env\<lparr>se_admission_blocked := admission_blocked t\<rparr>"

definition thread_job_of :: "job_input \<Rightarrow> thread_facts \<Rightarrow> job_row \<Rightarrow> thread_job" where
  "thread_job_of i f r =
     \<lparr>tj_id = ji_id i, tj_agent = jb_agent r, tj_scope = jb_scope r, tj_backend = tf_backend f, tj_thread = jb_thread r,
      tj_session = ji_session_thread i, tj_status = jb_status r, tj_updated = ji_updated i, tj_pid = tf_pid f,
      tj_turn = ji_turn i, tj_persistence = tf_persistence f, tj_origin = jb_origin r, tj_error = tf_error f\<rparr>"

definition thread_records :: "bridge_state \<Rightarrow> (string \<times> job_status option) list" where
  "thread_records s = List.map_filter (\<lambda>c. case c of CallThreadRecord j p \<Rightarrow> Some (j, p) | _ \<Rightarrow> None) (bs_calls s)"

text \<open>\<open>recordJob\<close> runs in the transaction of the job write that called it, and its error rolls both back.\<close>

definition record_call ::
  "thread_facts \<Rightarrow> store_event \<Rightarrow> bridge_state \<Rightarrow> bridge_state \<Rightarrow> thread_table \<Rightarrow> (thread_error, thread_table) result" where
  "record_call f ev s s' t =
     (case (ev, drop (length (thread_records s)) (thread_records s')) of
        (EvUpsert i, (j, previous) # _) \<Rightarrow> (case map_of (bs_jobs s') j of
            None \<Rightarrow> Inr t
          | Some r \<Rightarrow> record_job (thread_job_of i f r) previous t)
      | _ \<Rightarrow> Inr t)"

definition store_with_threads ::
  "store_env \<Rightarrow> int \<Rightarrow> store_event \<Rightarrow> thread_facts \<Rightarrow> bridge_state \<Rightarrow> thread_table \<Rightarrow> bridge_state \<times> thread_table" where
  "store_with_threads env now ev f s t =
     (case store_op (with_threads t env) now ev s of
        Inl _ \<Rightarrow> (s, t)
      | Inr s' \<Rightarrow> (case record_call f ev s s' t of Inl _ \<Rightarrow> (s, t) | Inr t' \<Rightarrow> (s', t')))"

text \<open>A table operation that throws changes nothing.\<close>

definition attempt :: "('e, 's) result \<Rightarrow> 's \<Rightarrow> 's" where
  "attempt r s = (case r of Inl _ \<Rightarrow> s | Inr s' \<Rightarrow> s')"

text \<open>\<open>ProjectLifecycle\<close> retires the threads of an archived project: it marks them released once that
  is confirmed, and finally forgets them for good.\<close>

definition retire_release :: "string \<Rightarrow> release_evidence \<Rightarrow> int \<Rightarrow> thread_table \<Rightarrow> thread_table" where
  "retire_release tid ev now t = snd (update_connection tid
     \<lparr>pa_phase = PhReleased, pa_handoff = None, pa_reason = None, pa_evidence = Some ev\<rparr> now None t)"

definition retire_forget :: "string \<Rightarrow> thread_table \<Rightarrow> thread_table" where
  "retire_forget tid t =
     t\<lparr>tt_rows := AList.delete tid (tt_rows t),
       tt_retired := (if tid \<in> set (tt_retired t) then tt_retired t else tt_retired t @ [tid])\<rparr>"

fun threads_step :: "thread_config \<Rightarrow> bridge_threads \<Rightarrow> thread_event \<Rightarrow> bridge_threads" where
  "threads_step cfg b (TeStore env now ev f) =
     (case store_with_threads env now ev f (bt_store b) (bt_table b) of (s, t) \<Rightarrow> b\<lparr>bt_store := s, bt_table := t\<rparr>)"
| "threads_step cfg b (TeRegister now i) = b\<lparr>bt_table := attempt (register_thread now i (bt_table b)) (bt_table b)\<rparr>"
| "threads_step cfg b (TeSupersede agent current now) = b\<lparr>bt_table := supersede_handoffs agent current now (bt_table b)\<rparr>"
| "threads_step cfg b (TeRequest tid now) = b\<lparr>bt_table := attempt (request_handoff tid now (bt_table b)) (bt_table b)\<rparr>"
| "threads_step cfg b (TeCancel tid now) = b\<lparr>bt_table := attempt (cancel_handoff tid now (bt_table b)) (bt_table b)\<rparr>"
| "threads_step cfg b (TeRetireRelease tid ev now) = b\<lparr>bt_table := retire_release tid ev now (bt_table b)\<rparr>"
| "threads_step cfg b (TeRetireForget tid) = b\<lparr>bt_table := retire_forget tid (bt_table b)\<rparr>"
| "threads_step cfg b (TeSweepStart now) = b\<lparr>bt_control := sweep_start cfg now (bt_table b) (bt_control b)\<rparr>"
| "threads_step cfg b (TeTake budget) = b\<lparr>bt_control := sweep_take budget (bt_control b)\<rparr>"
| "threads_step cfg b (TeExamine now) =
     (case sweep_examine cfg now (bt_store b) (bt_table b) (bt_control b) of (t, c) \<Rightarrow> b\<lparr>bt_table := t, bt_control := c\<rparr>)"
| "threads_step cfg b (TeDone answer now) =
     (case sweep_done cfg now (bt_store b) answer (bt_table b) (bt_control b) of (t, c) \<Rightarrow> b\<lparr>bt_table := t, bt_control := c\<rparr>)"
| "threads_step cfg b TeClose = b\<lparr>bt_control := (bt_control b)\<lparr>cc_closed := True\<rparr>\<rparr>"

end
