(* ===== verification/Thread_Safety.thy ===== *)
theory Thread_Safety
  imports Thread_Connections
begin

text \<open>
  What the thread connections guarantee: rows only move forward (a revision identifies what a client
  saw of a row), a release needs evidence and an undisturbed claim, and while a handoff is pending no
  new turn is admitted on the thread.
\<close>

section \<open>Rows move forward\<close>

text \<open>What a client that read a revision has seen.\<close>

definition seen :: "connection \<Rightarrow> connection_phase \<times> bool \<times> string option \<times> release_evidence option \<times> int option \<times> string option" where
  "seen c = (tc_phase c, tc_handoff c, tc_reason c, tc_evidence c, tc_finished c, tc_job c)"

definition row_le :: "connection \<Rightarrow> connection \<Rightarrow> bool" where
  "row_le c c' \<longleftrightarrow> tc_revision c \<le> tc_revision c' \<and>
     (tc_revision c = tc_revision c' \<longrightarrow> seen c = seen c') \<and>
     (tc_persistence c = PersistenceUnknown \<or> tc_persistence c' = tc_persistence c)"

definition row_ok :: "connection \<Rightarrow> bool" where
  "row_ok c \<longleftrightarrow> (tc_phase c = PhReleased \<longrightarrow> tc_evidence c \<noteq> None) \<and>
     (tc_phase c = PhReleasing \<longrightarrow> tc_persistence c = Persistent)"

lemma row_le_refl [simp]: "row_le c c"
  by (simp add: row_le_def)

lemma row_le_trans: "row_le a b \<Longrightarrow> row_le b c \<Longrightarrow> row_le a c"
  by (auto simp: row_le_def)

text \<open>One operation on a table: rows appear only for threads that were not retired, disappear only
  when their thread is retired, and otherwise move forward.\<close>

definition table_le :: "thread_table \<Rightarrow> thread_table \<Rightarrow> bool" where
  "table_le t t' \<longleftrightarrow> set (tt_retired t) \<subseteq> set (tt_retired t') \<and>
     (\<forall>tid c. map_of (tt_rows t) tid = Some c \<longrightarrow>
       (case map_of (tt_rows t') tid of None \<Rightarrow> tid \<in> set (tt_retired t') | Some c' \<Rightarrow> row_le c c'))"

definition table_ok :: "thread_table \<Rightarrow> bool" where
  "table_ok t \<longleftrightarrow> (\<forall>tid c. map_of (tt_rows t) tid = Some c \<longrightarrow> row_ok c \<and> tid \<notin> set (tt_retired t))"

lemma table_le_refl [simp]: "table_le t t"
  by (simp add: table_le_def split: option.splits)

lemma table_le_trans:
  assumes "table_le t u" "table_le u v" "table_ok v"
  shows "table_le t v"
  unfolding table_le_def
proof (intro conjI allI impI)
  show "set (tt_retired t) \<subseteq> set (tt_retired v)" using assms by (auto simp: table_le_def)
  fix tid c
  assume "map_of (tt_rows t) tid = Some c"
  then have u: "case map_of (tt_rows u) tid of None \<Rightarrow> tid \<in> set (tt_retired u) | Some c' \<Rightarrow> row_le c c'"
    using assms(1) by (simp add: table_le_def)
  show "case map_of (tt_rows v) tid of None \<Rightarrow> tid \<in> set (tt_retired v) | Some c' \<Rightarrow> row_le c c'"
  proof (cases "map_of (tt_rows u) tid")
    case None
    then have "tid \<in> set (tt_retired v)" using u assms(2) by (auto simp: table_le_def)
    then show ?thesis using assms(3) by (auto simp: table_ok_def split: option.splits)
  next
    case (Some d)
    then have "case map_of (tt_rows v) tid of None \<Rightarrow> tid \<in> set (tt_retired v) | Some c' \<Rightarrow> row_le d c'"
      using assms(2) by (simp add: table_le_def)
    then show ?thesis using u Some row_le_trans by (auto split: option.splits)
  qed
qed

text \<open>Writing one row.\<close>

definition row_written :: "string \<Rightarrow> thread_table \<Rightarrow> connection \<Rightarrow> bool" where
  "row_written tid t c \<longleftrightarrow> row_ok c \<and> tid \<notin> set (tt_retired t) \<and>
     (case map_of (tt_rows t) tid of None \<Rightarrow> True | Some was \<Rightarrow> row_le was c)"

lemma map_of_put_row [simp]: "map_of (tt_rows (put_row tid c t)) = (map_of (tt_rows t))(tid \<mapsto> c)"
  by (simp add: put_row_def map_of_update)

lemma retired_put_row [simp]: "tt_retired (put_row tid c t) = tt_retired t"
  by (simp add: put_row_def)

lemma put_row_moves: "table_ok t \<Longrightarrow> row_written tid t c \<Longrightarrow> table_ok (put_row tid c t) \<and> table_le t (put_row tid c t)"
  by (auto simp: table_ok_def table_le_def row_written_def split: option.splits if_splits)

lemma patched_le: "row_le c (patched p now c)"
  by (simp add: row_le_def patched_def)

definition patch_ok :: "connection_patch \<Rightarrow> connection \<Rightarrow> bool" where
  "patch_ok p c \<longleftrightarrow> (pa_phase p = PhReleased \<longrightarrow> pa_evidence p \<noteq> None) \<and>
     (pa_phase p = PhReleasing \<longrightarrow> tc_persistence c = Persistent)"

lemma update_moves:
  assumes "table_ok t" "\<And>c. map_of (tt_rows t) tid = Some c \<Longrightarrow> patch_ok p c"
    "update_connection tid p now expected t = (r, t')"
  shows "table_ok t' \<and> table_le t t'"
proof (cases "map_of (tt_rows t) tid")
  case (Some c)
  have "row_written tid t (patched p now c)"
    using assms(1,2) Some patched_le
    by (auto simp: row_written_def table_ok_def row_ok_def patch_ok_def patched_def row_le_def)
  then show ?thesis
    using assms(1,3) Some put_row_moves [of t tid "patched p now c"] by (auto simp: update_connection_def split: if_splits)
qed (use assms in \<open>simp add: update_connection_def\<close>)

lemma update_snd_moves:
  "table_ok t \<Longrightarrow> (\<And>c. map_of (tt_rows t) tid = Some c \<Longrightarrow> patch_ok p c) \<Longrightarrow>
   table_ok (snd (update_connection tid p now expected t)) \<and> table_le t (snd (update_connection tid p now expected t))"
  by (metis prod.collapse update_moves)

lemma register_written:
  assumes "table_ok t" "register_thread now i t = Inr t'"
  obtains "t' = t" | c where "t' = put_row (tr_thread i) c t" "row_written (tr_thread i) t c"
proof (cases "tr_thread i \<in> set (tt_retired t)")
  case True
  then show ?thesis using assms(2) that(1) by (simp add: register_thread_def Let_def)
next
  case False
  show ?thesis
  proof (cases "map_of (tt_rows t) (tr_thread i)")
    case None
    then show ?thesis
      using assms(2) False by (intro that(2)) (auto simp: register_thread_def Let_def row_written_def row_ok_def)
  next
    case (Some p)
    let ?c = "p\<lparr>tc_agent := coalesce_option (truthy_string (tr_agent i)) (tc_agent p), tc_scope := tr_scope i,
      tc_persistence := registered_persistence (tr_persistence i) (Some p),
      tc_pid := coalesce_option (truthy_time (tr_pid i)) (tc_pid p)\<rparr>"
    have w: "t' = put_row (tr_thread i) ?c t"
      and k: "tc_persistence p = PersistenceUnknown \<or> registered_persistence (tr_persistence i) (Some p) = tc_persistence p"
      using assms(2) False Some by (auto simp: register_thread_def Let_def split: if_splits)
    have "row_ok p" using assms(1) Some by (simp add: table_ok_def)
    then have "row_ok ?c" "row_le p ?c" using k by (auto simp: row_ok_def row_le_def seen_def)
    then show ?thesis using w False Some by (intro that(2) [of ?c]) (simp_all add: row_written_def)
  qed
qed

lemma register_moves: "table_ok t \<Longrightarrow> register_thread now i t = Inr t' \<Longrightarrow> table_ok t' \<and> table_le t t'"
  by (rule register_written) (auto dest: put_row_moves)

lemma alter_moves:
  assumes "table_ok t" "\<And>c. map_of (tt_rows t) tid = Some c \<Longrightarrow> row_ok c \<Longrightarrow> row_le c (f c) \<and> row_ok (f c)"
  shows "table_ok (alter_row b tid f t) \<and> table_le t (alter_row b tid f t)"
proof (cases "b \<and> map_of (tt_rows t) tid \<noteq> None")
  case True
  then obtain c where c: "map_of (tt_rows t) tid = Some c" by auto
  then have "row_written tid t (f c)" using assms by (auto simp: table_ok_def row_written_def)
  then show ?thesis using assms(1) c True put_row_moves by (simp add: alter_row_def)
qed (use assms(1) in \<open>auto simp: alter_row_def\<close>)

lemma turn_moves:
  "row_ok c \<Longrightarrow> row_le c (turn_started now c) \<and> row_ok (turn_started now c)"
  "row_ok c \<Longrightarrow> row_le c (turn_finished j now c) \<and> row_ok (turn_finished j now c)"
  "row_ok c \<Longrightarrow> pa_phase p = PhBlocked \<Longrightarrow> row_le c (patched p now c) \<and> row_ok (patched p now c)"
  by (auto simp: row_ok_def row_le_def turn_started_def turn_finished_def patched_def)

abbreviation owner_patch :: connection_patch where
  "owner_patch \<equiv> \<lparr>pa_phase = PhBlocked, pa_handoff = None, pa_reason = Some ''external-owner'', pa_evidence = None\<rparr>"

text \<open>A job write registers its thread and then notes an external owner, a new turn, a finished turn.\<close>

lemma record_cases:
  assumes "record_job j previous t = Inr t'"
  obtains (other) "t' = t"
  | (written) tid i t1 q1 q3 where "truthy_string (or_string (tj_thread j) (tj_session j)) = Some tid" "tr_thread i = tid"
      "register_thread (tj_updated j) i t = Inr t1"
      "t' = alter_row q3 tid (turn_finished (tj_id j) (tj_updated j))
        (alter_row (tj_status j = JsRunning \<and> previous = None) tid (turn_started (tj_updated j))
          (alter_row q1 tid (patched owner_patch (tj_updated j)) t1))"
proof (cases "truthy_string (or_string (tj_thread j) (tj_session j))")
  case None
  then show ?thesis using assms other by (simp add: record_job_def)
next
  case (Some tid)
  let ?i = "\<lparr>tr_thread = tid, tr_agent = tj_agent j, tr_scope = tj_scope j, tr_persistence = tj_persistence j,
    tr_pid = tj_pid j\<rparr>"
  show ?thesis
  proof (cases "tj_backend j = Some ''app-server''")
    case True
    let ?q3 = "is_terminal_status (tj_status j) \<and> (case previous of None \<Rightarrow> False | Some p \<Rightarrow> \<not> is_terminal_status p) \<and>
      truthy_string (tj_turn j) \<noteq> None \<and> tj_origin j \<noteq> Some BridgeRestart"
    obtain t1 where t1: "register_thread (tj_updated j) ?i t = Inr t1"
      using True assms Some by (auto simp: record_job_def res_bind_Inr_iff)
    have "t' = alter_row ?q3 tid (turn_finished (tj_id j) (tj_updated j))
        (alter_row (tj_status j = JsRunning \<and> previous = None) tid (turn_started (tj_updated j))
          (alter_row (externally_owned j) tid (patched owner_patch (tj_updated j)) t1))"
      using assms Some True t1 by (simp add: record_job_def Let_def)
    then show ?thesis by (intro written [OF Some _ t1]) simp_all
  next
    case False
    then show ?thesis using assms Some other by (simp add: record_job_def)
  qed
qed

lemma record_moves:
  assumes "table_ok t" "record_job j previous t = Inr t'"
  shows "table_ok t' \<and> table_le t t'"
  using assms(2)
proof (cases rule: record_cases)
  case (written tid i t1 q1 q3)
  let ?f = "patched owner_patch (tj_updated j)" and ?g = "turn_started (tj_updated j)"
    and ?q2 = "tj_status j = JsRunning \<and> previous = None"
  note m = register_moves [OF assms(1) written(3)]
  have f: "table_ok (alter_row q1 tid ?f t1) \<and> table_le t1 (alter_row q1 tid ?f t1)"
    using m by (intro alter_moves) (simp_all add: turn_moves)
  then have g: "table_ok (alter_row ?q2 tid ?g (alter_row q1 tid ?f t1)) \<and>
      table_le (alter_row q1 tid ?f t1) (alter_row ?q2 tid ?g (alter_row q1 tid ?f t1))"
    by (intro alter_moves) (simp_all add: turn_moves)
  then have "table_ok t' \<and> table_le (alter_row ?q2 tid ?g (alter_row q1 tid ?f t1)) t'"
    unfolding written(4) by (intro alter_moves) (simp_all add: turn_moves)
  then show ?thesis using m f g by (meson table_le_trans)
qed (use assms(1) in simp)

lemma map_of_map_rows: "map_of (map (\<lambda>(k, v). (k, f k v)) xs) k = map_option (f k) (map_of xs k)"
  by (induction xs) auto

lemma supersede_moves:
  assumes "table_ok t"
  shows "table_ok (supersede_handoffs agent current now t) \<and> table_le t (supersede_handoffs agent current now t)"
  using assms
  by (auto simp: supersede_handoffs_def table_ok_def table_le_def map_of_map_rows superseded_def row_ok_def row_le_def
      split: option.splits)

lemma handoff_moves:
  "table_ok t \<Longrightarrow> request_handoff tid now t = Inr t' \<Longrightarrow> table_ok t' \<and> table_le t t'"
  "table_ok t \<Longrightarrow> cancel_handoff tid now t = Inr t' \<Longrightarrow> table_ok t' \<and> table_le t t'"
  by (auto simp: request_handoff_def cancel_handoff_def split: option.splits if_splits
      intro!: update_snd_moves; fastforce simp: table_ok_def patch_ok_def row_ok_def)+

lemma attempt_moves:
  assumes "\<And>t'. r = Inr t' \<Longrightarrow> table_ok t' \<and> table_le t t'" "table_ok t"
  shows "table_ok (attempt r t) \<and> table_le t (attempt r t)"
  using assms by (cases r) (simp_all add: attempt_def)

lemma retire_moves:
  "table_ok t \<Longrightarrow> table_ok (retire_release tid ev now t) \<and> table_le t (retire_release tid ev now t)"
  unfolding retire_release_def by (rule update_snd_moves) (simp_all add: patch_ok_def)

lemma forget_moves:
  "table_ok t \<Longrightarrow> table_ok (retire_forget tid t) \<and> table_le t (retire_forget tid t)"
  by (auto simp: retire_forget_def table_ok_def table_le_def map_of_delete split: option.splits)

section \<open>Sweeps\<close>

text \<open>What unfinished work is depends on the row of the thread only.\<close>

lemma unfinished_cong:
  "map_of (tt_rows t) tid = map_of (tt_rows t') tid \<Longrightarrow> has_unfinished_work s t tid = has_unfinished_work s t' tid"
  by (simp add: has_unfinished_work_def job_on_thread_def)

lemma eligible_cong:
  "map_of (tt_rows t) tid = map_of (tt_rows t') tid \<Longrightarrow> eligible cfg now s t tid c = eligible cfg now s t' tid c"
  by (simp add: eligible_def unfinished_cong [of t tid t'])

lemma update_row:
  "map_of (tt_rows (snd (update_connection tid p now expected t))) =
     (case map_of (tt_rows t) tid of None \<Rightarrow> map_of (tt_rows t)
      | Some c \<Rightarrow> if expected \<noteq> None \<and> expected \<noteq> Some (tc_revision c) then map_of (tt_rows t)
               else (map_of (tt_rows t))(tid \<mapsto> patched p now c))"
  by (simp add: update_connection_def split: option.splits)

definition waiting :: "controller \<Rightarrow> (string \<times> int) option" where
  "waiting c = (case cc_sweep c of None \<Rightarrow> None | Some w \<Rightarrow> sw_waiting w)"

abbreviation claim_patch :: connection_patch where
  "claim_patch \<equiv> \<lparr>pa_phase = PhReleasing, pa_handoff = None, pa_reason = None, pa_evidence = None\<rparr>"

lemma update_read_row:
  "map_of (tt_rows t) tid = Some r \<Longrightarrow>
   update_connection tid p now (Some (tc_revision r)) t = (Some (patched p now r), put_row tid (patched p now r) t)"
  by (simp add: update_connection_def)

text \<open>Examining a candidate changes nothing, notes what blocks the release, or claims the row.\<close>

lemma examine_cases:
  assumes "sweep_examine cfg now s t c = (t', c')"
  obtains (nothing) "t' = t" "waiting c' \<in> {None, waiting c}"
  | (noted) tid why where "t' = snd (update_connection tid \<lparr>pa_phase = PhBlocked, pa_handoff = None,
        pa_reason = Some why, pa_evidence = None\<rparr> now None t)" "waiting c' = waiting c"
  | (claimed) tid r where "map_of (tt_rows t) tid = Some r" "tc_phase r \<noteq> PhReleased" "eligible cfg now s t tid r"
      "t' = put_row tid (patched claim_patch now r) t" "waiting c' = Some (tid, tc_revision r + 1)"
proof (cases "cc_sweep c")
  case None
  then have same: "t' = t" "c' = c" using assms by (simp_all add: sweep_examine_def)
  show ?thesis by (rule that(1)) (simp_all add: same)
next
  case w: (Some w)
  show ?thesis
  proof (cases "sw_taken w")
    case None
    then have same: "t' = t" "c' = c" using assms w by (simp_all add: sweep_examine_def)
    show ?thesis by (rule that(1)) (simp_all add: same)
  next
    case taken: (Some tid)
    show ?thesis
    proof (cases "map_of (tt_rows t) tid")
      case None
      then have same: "t' = t" "c' = c\<lparr>cc_sweep := None\<rparr>" using assms w taken by (simp_all add: sweep_examine_def)
      show ?thesis by (rule that(1)) (simp_all add: same waiting_def)
    next
      case r: (Some r)
      note e = assms [unfolded sweep_examine_def w option.case taken r Let_def]
      consider "tc_phase r = PhReleased" | why where "tc_phase r \<noteq> PhReleased" "release_obstacle cfg s t tid r = Some why"
        | "tc_phase r \<noteq> PhReleased" "release_obstacle cfg s t tid r = None" by fastforce
      then show ?thesis
      proof cases
        case 2
        show ?thesis
        proof (cases "tc_phase r \<noteq> PhBlocked \<or> tc_reason r \<noteq> Some why")
          case True
          then have "t' = snd (update_connection tid \<lparr>pa_phase = PhBlocked, pa_handoff = None, pa_reason = Some why,
              pa_evidence = None\<rparr> now None t)" "c' = c\<lparr>cc_sweep := Some (w\<lparr>sw_taken := None\<rparr>)\<rparr>"
            using e 2 by auto
          then show ?thesis by (intro that(2)) (simp_all add: waiting_def w)
        next
          case False
          then have same: "t' = t" "c' = c\<lparr>cc_sweep := Some (w\<lparr>sw_taken := None\<rparr>)\<rparr>" using e 2 by auto
          show ?thesis by (rule that(1)) (simp_all add: same waiting_def w)
        qed
      next
        case 3
        show ?thesis
        proof (cases "eligible cfg now s t tid r")
          case True
          then have "t' = put_row tid (patched claim_patch now r) t" "c' = c\<lparr>cc_sweep := Some (w\<lparr>sw_taken := None,
              sw_waiting := Some (tid, tc_revision (patched claim_patch now r))\<rparr>)\<rparr>"
            using e 3 by (simp_all add: update_read_row [OF r])
          then show ?thesis using r 3 True by (intro that(3)) (simp_all add: waiting_def patched_def)
        next
          case False
          then have same: "t' = t" "c' = c\<lparr>cc_sweep := Some (w\<lparr>sw_taken := None\<rparr>)\<rparr>" using e 3 by simp_all
          show ?thesis by (rule that(1)) (simp_all add: same waiting_def w)
        qed
      next
        case 1
        then have same: "t' = t" "c' = c\<lparr>cc_sweep := Some (w\<lparr>sw_taken := None\<rparr>)\<rparr>" using e by simp_all
        show ?thesis by (rule that(1)) (simp_all add: same waiting_def w)
      qed
    qed
  qed
qed

lemma examine_moves:
  assumes "table_ok t" "sweep_examine cfg now s t c = (t', c')"
  shows "table_ok t' \<and> table_le t t'"
  using assms(2)
proof (cases rule: examine_cases)
  case (claimed tid r)
  then have "row_written tid t (patched claim_patch now r)"
    using assms(1) patched_le by (auto simp: row_written_def table_ok_def row_ok_def patched_def eligible_def row_le_def)
  then show ?thesis using claimed(4) assms(1) put_row_moves by simp
next
  case (noted tid why)
  then show ?thesis using assms(1) update_snd_moves by (simp add: patch_ok_def)
qed (use assms(1) in simp)

text \<open>Recording an answer: the claimed row first, then the peers.\<close>

lemma peer_moves:
  "table_ok t \<Longrightarrow> ev \<noteq> None \<Longrightarrow>
   table_ok (release_peer cfg now s c main ev tid t) \<and> table_le t (release_peer cfg now s c main ev tid t)"
  unfolding release_peer_def by (auto intro!: update_snd_moves simp: patch_ok_def)

lemma peers_moves:
  "table_ok t \<Longrightarrow> ev \<noteq> None \<Longrightarrow> table_ok (fold (release_peer cfg now s c main ev) ids t) \<and>
   table_le t (fold (release_peer cfg now s c main ev) ids t)"
proof (induction ids arbitrary: t)
  case (Cons i ids)
  have one: "table_ok (release_peer cfg now s c main ev i t)" "table_le t (release_peer cfg now s c main ev i t)"
    using peer_moves [OF Cons.prems] by blast+
  then show ?case using Cons.IH [OF one(1) Cons.prems(2)] one(2) table_le_trans by (metis fold_simps(2))
qed simp

lemma accepted_evidence: "an_phase (accepted_answer a) = AnReleased \<Longrightarrow> an_evidence (accepted_answer a) \<noteq> None"
  by (auto simp: accepted_answer_def unconfirmed_def split: option.splits if_splits)

lemma done_cases:
  assumes "sweep_done cfg now s answer t c = (t', c')"
  obtains (nothing) "t' = t" "waiting c' \<in> {None, waiting c}"
  | (recorded) tid revision where "waiting c = Some (tid, revision)" "\<not> cc_closed c" "waiting c' = None"
      "t' = (let r = accepted_answer answer; t1 = snd (update_connection tid \<lparr>pa_phase = phase_of (an_phase r),
          pa_handoff = None, pa_reason = an_reason r, pa_evidence = an_evidence r\<rparr> now (Some revision) t)
        in if an_evidence r = None then t1 else fold (release_peer cfg now s c tid (an_evidence r)) (an_released r) t1)"
  using assms by (auto simp: sweep_done_def waiting_def Let_def split: option.splits prod.splits if_splits)

lemma answer_patch_ok:
  "patch_ok \<lparr>pa_phase = phase_of (an_phase (accepted_answer a)), pa_handoff = None, pa_reason = an_reason (accepted_answer a),
     pa_evidence = an_evidence (accepted_answer a)\<rparr> c"
  using accepted_evidence [of a] by (auto simp: patch_ok_def phase_of_def split: answer_phase.splits)

lemma done_moves:
  assumes "table_ok t" "sweep_done cfg now s answer t c = (t', c')"
  shows "table_ok t' \<and> table_le t t'"
  using assms(2)
proof (cases rule: done_cases)
  case (recorded tid revision)
  let ?r = "accepted_answer answer"
  let ?t = "snd (update_connection tid \<lparr>pa_phase = phase_of (an_phase ?r), pa_handoff = None,
    pa_reason = an_reason ?r, pa_evidence = an_evidence ?r\<rparr> now (Some revision) t)"
  have one: "table_ok ?t" "table_le t ?t" using update_snd_moves [OF assms(1) answer_patch_ok] by blast+
  show ?thesis
  proof (cases "an_evidence ?r")
    case None
    then show ?thesis using recorded(4) one by (simp add: Let_def)
  next
    case (Some ev)
    then have t': "t' = fold (release_peer cfg now s c tid (Some ev)) (an_released ?r) ?t"
      using recorded(4) by (simp add: Let_def)
    have "table_ok t'" "table_le ?t t'"
      unfolding t' using peers_moves [OF one(1), of "Some ev" cfg now s c tid] by simp_all
    then show ?thesis using table_le_trans [OF one(2)] by blast
  qed
qed (use assms(1) in simp)

section \<open>Runs\<close>

lemma store_with_threads_cases:
  assumes "store_with_threads env now ev f s t = (s', t')"
  obtains "s' = s" "t' = t" | "store_op (with_threads t env) now ev s = Inr s'" "record_call f ev s s' t = Inr t'"
  using assms by (auto simp: store_with_threads_def split: sum.splits)

lemma record_call_cases:
  assumes "record_call f ev s s' t = Inr t'"
  obtains "t' = t" | i j previous rest r where "ev = EvUpsert i"
      "drop (length (thread_records s)) (thread_records s') = (j, previous) # rest" "map_of (bs_jobs s') j = Some r"
      "record_job (thread_job_of i f r) previous t = Inr t'"
  using assms by (auto simp: record_call_def split: store_event.splits list.splits prod.splits option.splits)

text \<open>A claim is still good when the revision it was made at is the row's: the row is being released.\<close>

definition claim_ok :: "thread_table \<Rightarrow> controller \<Rightarrow> bool" where
  "claim_ok t k \<longleftrightarrow> (case waiting k of None \<Rightarrow> True
     | Some (tid, v) \<Rightarrow> (case map_of (tt_rows t) tid of
         None \<Rightarrow> tid \<in> set (tt_retired t)
       | Some c \<Rightarrow> v \<le> tc_revision c \<and> (tc_revision c = v \<longrightarrow> tc_phase c = PhReleasing)))"

lemma claim_kept:
  assumes "claim_ok t k" "table_le t t'" "table_ok t'" "waiting k' \<in> {None, waiting k}"
  shows "claim_ok t' k'"
proof (cases "waiting k'")
  case (Some p)
  obtain tid v where p: "p = (tid, v)" by force
  have w: "waiting k = Some (tid, v)" using Some p assms(4) by simp
  show ?thesis
  proof (cases "map_of (tt_rows t) tid")
    case None
    then have "tid \<in> set (tt_retired t')" using assms(1,2) w by (auto simp: claim_ok_def table_le_def)
    then show ?thesis using assms(3) Some p by (auto simp: claim_ok_def table_ok_def split: option.splits)
  next
    case c: (Some c)
    then have "case map_of (tt_rows t') tid of None \<Rightarrow> tid \<in> set (tt_retired t') | Some c' \<Rightarrow> row_le c c'"
      using assms(2) by (simp add: table_le_def)
    then show ?thesis using assms(1) w Some p c
      by (auto simp: claim_ok_def row_le_def seen_def split: option.splits)
  qed
qed (simp add: claim_ok_def)

definition threads_inv :: "bridge_threads \<Rightarrow> bool" where
  "threads_inv b \<longleftrightarrow> table_ok (bt_table b) \<and> claim_ok (bt_table b) (bt_control b)"

lemma examine_claim:
  assumes "claim_ok t c" "table_ok t" "sweep_examine cfg now s t c = (t', c')"
  shows "claim_ok t' c'"
  using assms(3)
proof (cases rule: examine_cases)
  case (claimed tid r)
  then show ?thesis by (simp add: claim_ok_def patched_def)
next
  case nothing
  then show ?thesis using assms examine_moves by (meson claim_kept)
next
  case (noted tid why)
  then show ?thesis using assms examine_moves by (metis claim_kept insertCI)
qed

lemma done_claim:
  assumes "claim_ok t c" "table_ok t" "sweep_done cfg now s answer t c = (t', c')"
  shows "claim_ok t' c'"
proof -
  have "waiting c' \<in> {None, waiting c}" using assms(3) by (cases rule: done_cases) simp_all
  then show ?thesis using claim_kept [OF assms(1)] done_moves [OF assms(2,3)] by blast
qed

lemma waiting_start: "waiting (sweep_start cfg now t c) \<in> {None, waiting c}"
  by (auto simp: sweep_start_def waiting_def Let_def split: prod.splits option.splits)

lemma waiting_take: "waiting (sweep_take budget c) \<in> {None, waiting c}"
  by (auto simp: sweep_take_def waiting_def split: list.splits option.splits)

text \<open>Every step moves the table forward.\<close>

lemma step_table:
  assumes "table_ok (bt_table b)"
  shows "table_ok (bt_table (threads_step cfg b e)) \<and> table_le (bt_table b) (bt_table (threads_step cfg b e))"
proof (cases e)
  case (TeStore env now ev f)
  obtain s' t' where st: "store_with_threads env now ev f (bt_store b) (bt_table b) = (s', t')" by force
  then show ?thesis
  proof (cases rule: store_with_threads_cases)
    case 2
    from 2(2) show ?thesis
      by (cases rule: record_call_cases) (use TeStore st assms record_moves in auto)
  qed (use TeStore st assms in simp)
next
  case (TeExamine now)
  obtain t' c' where x: "sweep_examine cfg now (bt_store b) (bt_table b) (bt_control b) = (t', c')" by force
  then show ?thesis using TeExamine examine_moves [OF assms x] by simp
next
  case (TeDone answer now)
  obtain t' c' where x: "sweep_done cfg now (bt_store b) answer (bt_table b) (bt_control b) = (t', c')" by force
  then show ?thesis using TeDone done_moves [OF assms x] by simp
next
  case (TeRegister now i)
  show ?thesis unfolding TeRegister threads_step.simps by (simp, intro attempt_moves register_moves assms)
next
  case (TeRequest tid now)
  show ?thesis unfolding TeRequest threads_step.simps by (simp, intro attempt_moves handoff_moves(1) assms)
next
  case (TeCancel tid now)
  show ?thesis unfolding TeCancel threads_step.simps by (simp, intro attempt_moves handoff_moves(2) assms)
qed (use assms supersede_moves retire_moves forget_moves in simp_all)

lemma step_claim:
  assumes "threads_inv b"
  shows "claim_ok (bt_table (threads_step cfg b e)) (bt_control (threads_step cfg b e))"
proof -
  have inv: "table_ok (bt_table b)" "claim_ok (bt_table b) (bt_control b)" using assms by (simp_all add: threads_inv_def)
  note m = step_table [OF inv(1), of cfg e]
  have keep: ?thesis if "waiting (bt_control (threads_step cfg b e)) \<in> {None, waiting (bt_control b)}"
    using claim_kept [OF inv(2)] m that by blast
  show ?thesis
  proof (cases e)
    case (TeStore env now ev f)
    then show ?thesis by (intro keep) (simp split: prod.splits)
  next
    case (TeExamine now)
    obtain t' c' where x: "sweep_examine cfg now (bt_store b) (bt_table b) (bt_control b) = (t', c')" by force
    then show ?thesis using TeExamine examine_claim [OF inv(2,1) x] by simp
  next
    case (TeDone answer now)
    obtain t' c' where x: "sweep_done cfg now (bt_store b) answer (bt_table b) (bt_control b) = (t', c')" by force
    then show ?thesis using TeDone done_claim [OF inv(2,1) x] by simp
  next
    case (TeSweepStart now)
    then show ?thesis using waiting_start by (intro keep) simp
  next
    case (TeTake budget)
    then show ?thesis using waiting_take by (intro keep) simp
  next
    case TeClose
    then show ?thesis by (intro keep) (simp add: waiting_def)
  qed (rule keep, simp)+
qed

interpretation threads: transition_system "threads_step cfg" "\<lambda>_. True" threads_inv for cfg
  by unfold_locales (use step_table step_claim in \<open>auto simp: threads_inv_def\<close>)

lemma run_table:
  "threads_inv b \<Longrightarrow> table_le (bt_table b) (bt_table (run (threads_step cfg) b es))"
proof (induction es arbitrary: b)
  case (Cons e es)
  have b': "threads_inv (threads_step cfg b e)" by (rule threads.step_inv [OF Cons.prems]) simp
  have "threads_inv (run (threads_step cfg) (threads_step cfg b e) es)"
    by (rule threads.run_inv [OF b']) (simp add: list_all_iff)
  then show ?case
    using step_table [of b cfg e] Cons.IH [OF b'] Cons.prems table_le_trans by (auto simp: threads_inv_def)
qed simp

inductive reachable_threads :: "thread_config \<Rightarrow> bridge_threads \<Rightarrow> bool" for cfg where
  threads_start: "reachable_threads cfg \<lparr>bt_store = empty_store agents held, bt_table = \<lparr>tt_rows = [], tt_retired = []\<rparr>,
    bt_control = new_controller\<rparr>"
| threads_next: "reachable_threads cfg b \<Longrightarrow> reachable_threads cfg (threads_step cfg b e)"

lemma reachable_threads_inv: "reachable_threads cfg b \<Longrightarrow> threads_inv b"
proof (induction rule: reachable_threads.induct)
  case (threads_start agents held)
  show ?case by (simp add: threads_inv_def table_ok_def claim_ok_def waiting_def new_controller_def)
qed (simp add: threads.step_inv)

section \<open>Guarantees\<close>


text \<open>Which operations make a row released.\<close>

lemma update_releases:
  assumes "map_of (tt_rows t) tid = Some c" "tc_phase c \<noteq> PhReleased"
    "map_of (tt_rows (snd (update_connection x p now expected t))) tid = Some c'" "tc_phase c' = PhReleased"
  shows "x = tid \<and> pa_phase p = PhReleased \<and> c' = patched p now c \<and> (expected = None \<or> expected = Some (tc_revision c))"
  using assms by (auto simp: update_row patched_def split: option.splits if_splits)

lemma alter_releases:
  assumes "map_of (tt_rows t) tid = Some c" "\<And>x. tc_phase x \<noteq> PhReleased \<Longrightarrow> tc_phase (f x) \<noteq> PhReleased"
    "tc_phase c \<noteq> PhReleased"
  shows "\<exists>c'. map_of (tt_rows (alter_row q x f t)) tid = Some c' \<and> tc_phase c' \<noteq> PhReleased"
  using assms by (cases "x = tid") (auto simp: alter_row_def split: option.splits)

lemma register_releases:
  assumes "map_of (tt_rows t) tid = Some c" "tc_phase c \<noteq> PhReleased" "register_thread now i t = Inr t'"
  shows "\<exists>c'. map_of (tt_rows t') tid = Some c' \<and> tc_phase c' \<noteq> PhReleased"
  using assms by (cases "tr_thread i = tid") (auto simp: register_thread_def Let_def split: option.splits if_splits)

lemma record_releases:
  assumes "map_of (tt_rows t) tid = Some c" "tc_phase c \<noteq> PhReleased" "record_job j previous t = Inr t'"
  shows "\<exists>c'. map_of (tt_rows t') tid = Some c' \<and> tc_phase c' \<noteq> PhReleased"
  using assms(3)
proof (cases rule: record_cases)
  case (written x i t1 q1 q3)
  let ?f = "patched owner_patch (tj_updated j)" and ?g = "turn_started (tj_updated j)"
    and ?q2 = "tj_status j = JsRunning \<and> previous = None"
  obtain c1 where c1: "map_of (tt_rows t1) tid = Some c1" "tc_phase c1 \<noteq> PhReleased"
    using register_releases [OF assms(1,2) written(3)] by blast
  obtain c2 where c2: "map_of (tt_rows (alter_row q1 x ?f t1)) tid = Some c2" "tc_phase c2 \<noteq> PhReleased"
    using alter_releases [OF c1(1) _ c1(2), of ?f q1 x] by (auto simp: patched_def)
  obtain c3 where c3: "map_of (tt_rows (alter_row ?q2 x ?g (alter_row q1 x ?f t1))) tid = Some c3" "tc_phase c3 \<noteq> PhReleased"
    using alter_releases [OF c2(1) _ c2(2), of ?g ?q2 x] by (auto simp: turn_started_def)
  show ?thesis unfolding written(4)
    using alter_releases [OF c3(1) _ c3(2), of "turn_finished (tj_id j) (tj_updated j)" q3 x] by (simp add: turn_finished_def)
qed (use assms in simp)

lemma peers_release:
  assumes "map_of (tt_rows t) tid = Some c" "tc_phase c \<noteq> PhReleased"
    "map_of (tt_rows (fold (release_peer cfg now s k main ev) ids t)) tid = Some c'" "tc_phase c' = PhReleased"
  shows "tid \<in> set ids \<and> tid \<noteq> main \<and> eligible cfg now s t tid c \<and> \<not> cc_closed k"
  using assms(1,3)
proof (induction ids arbitrary: t)
  case Nil
  then show ?case using assms(2,4) by simp
next
  case (Cons i ids)
  show ?case
  proof (cases "i = tid \<and> tid \<noteq> main \<and> can_release cfg now s k t tid")
    case True
    then show ?thesis using Cons.prems(1) by (simp add: can_release_def)
  next
    case False
    then have "map_of (tt_rows (release_peer cfg now s k main ev i t)) tid = Some c"
      using Cons.prems(1) by (auto simp: release_peer_def update_row split: option.splits)
    with Cons.IH [of "release_peer cfg now s k main ev i t"] Cons.prems show ?thesis
      using eligible_cong [of t tid "release_peer cfg now s k main ev i t" cfg now s c] by auto
  qed
qed

lemma examine_releases:
  assumes "map_of (tt_rows t) tid = Some c" "tc_phase c \<noteq> PhReleased" "sweep_examine cfg now s t k = (t', k')"
    "map_of (tt_rows t') tid = Some c'" "tc_phase c' = PhReleased"
  shows False
  using assms(3)
proof (cases rule: examine_cases)
  case (noted x why)
  then show False using update_releases [OF assms(1,2) _ assms(5)] assms(4) by fastforce
qed (use assms in \<open>auto simp: patched_def split: if_splits\<close>)

lemma attempt_Some: "map_of (tt_rows (attempt r t)) tid = Some c' \<Longrightarrow>
    (map_of (tt_rows t) tid = Some c') \<or> (\<exists>t'. r = Inr t' \<and> map_of (tt_rows t') tid = Some c')"
  by (cases r) (simp_all add: attempt_def)

lemma handoff_releases:
  assumes "map_of (tt_rows t) tid = Some c" "tc_phase c \<noteq> PhReleased"
    "request_handoff x now t = Inr t' \<or> cancel_handoff x now t = Inr t'" "map_of (tt_rows t') tid = Some c'"
  shows "tc_phase c' \<noteq> PhReleased"
proof
  assume rel: "tc_phase c' = PhReleased"
  have "t' = t \<or> (\<exists>p y. t' = snd (update_connection x p now None t) \<and> map_of (tt_rows t) x = Some y \<and>
      (pa_phase p = PhReleased \<longrightarrow> tc_phase y = PhReleased))"
    using assms(3) by (auto simp: request_handoff_def cancel_handoff_def split: option.splits if_splits)
  then show False
  proof
    assume "t' = t"
    then show False using assms(1,2,4) rel by simp
  next
    assume "\<exists>p y. t' = snd (update_connection x p now None t) \<and> map_of (tt_rows t) x = Some y \<and>
      (pa_phase p = PhReleased \<longrightarrow> tc_phase y = PhReleased)"
    then obtain p y where p: "t' = snd (update_connection x p now None t)" "map_of (tt_rows t) x = Some y"
        "pa_phase p = PhReleased \<longrightarrow> tc_phase y = PhReleased" by blast
    then show False using update_releases [OF assms(1,2) _ rel, of x p now None] assms(1,2,4) by auto
  qed
qed

text \<open>Only an answer of the worker and the retirement of a project release a connection.\<close>

lemma quiet_releases_nothing:
  assumes "map_of (tt_rows (bt_table b)) tid = Some c" "tc_phase c \<noteq> PhReleased"
    and "map_of (tt_rows (bt_table (threads_step cfg b e))) tid = Some c'"
    and "\<And>ev now. e \<noteq> TeRetireRelease tid ev now" "\<And>answer now. e \<noteq> TeDone answer now"
  shows "tc_phase c' \<noteq> PhReleased"
proof (cases e)
  case (TeStore env now ev f)
  obtain s' t' where st: "store_with_threads env now ev f (bt_store b) (bt_table b) = (s', t')" by force
  then have t': "map_of (tt_rows t') tid = Some c'" using TeStore assms(3) by simp
  from st show ?thesis
  proof (cases rule: store_with_threads_cases)
    case 2
    show ?thesis
      by (cases rule: record_call_cases [OF 2(2)]) (use assms(1,2) t' record_releases [OF assms(1,2)] in fastforce)+
  qed (use assms(1,2) t' in simp)
next
  case (TeRegister now i)
  then show ?thesis
    using attempt_Some [of "register_thread now i (bt_table b)" "bt_table b"] register_releases [OF assms(1,2), of now i] assms(1-3)
    by fastforce
next
  case (TeSupersede agent current now)
  then show ?thesis using assms(1-3)
    by (auto simp: supersede_handoffs_def map_of_map_rows superseded_def split: if_splits)
next
  case (TeRequest x now)
  then show ?thesis
    using attempt_Some [of "request_handoff x now (bt_table b)" "bt_table b"] handoff_releases [OF assms(1,2), of x now] assms(1-3)
    by fastforce
next
  case (TeCancel x now)
  then show ?thesis
    using attempt_Some [of "cancel_handoff x now (bt_table b)" "bt_table b"] handoff_releases [OF assms(1,2), of x now] assms(1-3)
    by fastforce
next
  case (TeRetireRelease x ev now)
  then show ?thesis using update_releases [OF assms(1,2)] assms(3,4) by (fastforce simp: retire_release_def)
next
  case (TeRetireForget x)
  then show ?thesis using assms(1-3) by (auto simp: retire_forget_def map_of_delete split: if_splits)
next
  case (TeExamine now)
  obtain t' k' where "sweep_examine cfg now (bt_store b) (bt_table b) (bt_control b) = (t', k')" by force
  then show ?thesis using examine_releases [OF assms(1,2)] TeExamine assms(3) by fastforce
qed (use assms in auto)

lemma answer_releases:
  assumes "threads_inv b" "map_of (tt_rows (bt_table b)) tid = Some c" "tc_phase c \<noteq> PhReleased"
    and "sweep_done cfg now (bt_store b) answer (bt_table b) (bt_control b) = (t', k')"
    and "map_of (tt_rows t') tid = Some c'" "tc_phase c' = PhReleased"
  shows "\<exists>a. answer = Some a \<and> an_evidence a \<noteq> None \<and> \<not> cc_closed (bt_control b) \<and>
    (waiting (bt_control b) = Some (tid, tc_revision c) \<and> tc_phase c = PhReleasing \<and> an_phase a = AnReleased \<or>
     tid \<in> set (an_released a) \<and> eligible cfg now (bt_store b) (bt_table b) tid c)"
  using assms(4)
proof (cases rule: done_cases)
  case nothing
  then show ?thesis using assms(2,3,5,6) by simp
next
  case (recorded x v)
  let ?t = "bt_table b" and ?k = "bt_control b" and ?r = "accepted_answer answer"
  let ?t1 = "snd (update_connection x \<lparr>pa_phase = phase_of (an_phase ?r), pa_handoff = None,
    pa_reason = an_reason ?r, pa_evidence = an_evidence ?r\<rparr> now (Some v) ?t)"
  have some: "\<exists>a. answer = Some a \<and> ?r = a" if "an_evidence ?r \<noteq> None"
    using that by (auto simp: accepted_answer_def unconfirmed_def split: option.splits if_splits)
  have main: "x = tid \<and> an_phase ?r = AnReleased \<and> v = tc_revision c"
    if "map_of (tt_rows ?t1) tid = Some d" "tc_phase d = PhReleased" for d
    using update_releases [OF assms(2,3) that] by (auto simp: phase_of_def split: answer_phase.splits)
  have claimed: "tc_phase c = PhReleasing" if "x = tid" "v = tc_revision c"
    using assms(1) recorded(1) that assms(2) by (simp add: threads_inv_def claim_ok_def)
  have "map_of (tt_rows ?t1) tid \<noteq> None" using assms(2) by (simp add: update_row split: option.splits)
  then obtain d where d: "map_of (tt_rows ?t1) tid = Some d" by auto
  show ?thesis
  proof (cases "tc_phase d = PhReleased")
    case True
    then have "an_evidence ?r \<noteq> None" using main [OF d] accepted_evidence by blast
    then show ?thesis using some main [OF d True] claimed recorded(1,2) by auto
  next
    case False
    have peers: "an_evidence ?r \<noteq> None \<and> t' = fold (release_peer cfg now (bt_store b) ?k x (an_evidence ?r)) (an_released ?r) ?t1"
      using recorded(4) assms(5) d False assms(6) by (auto simp: Let_def split: if_splits)
    then have p: "tid \<in> set (an_released ?r) \<and> tid \<noteq> x \<and> eligible cfg now (bt_store b) ?t1 tid d"
      using peers_release [OF d False _ assms(6)] assms(5) by blast
    then have same: "map_of (tt_rows ?t1) tid = map_of (tt_rows ?t) tid" by (simp add: update_row split: option.splits)
    then have "d = c" using d assms(2) by simp
    then have "eligible cfg now (bt_store b) ?t tid c" using p eligible_cong [OF same] by simp
    then show ?thesis using some peers p recorded(2) by auto
  qed
qed


section \<open>Admission while a handoff is pending\<close>

text \<open>What a job write reports to the thread connections.\<close>

lemma thread_records_frame: "bs_calls s' = bs_calls s \<Longrightarrow> thread_records s' = thread_records s"
  by (simp add: thread_records_def)

lemma thread_records_call:
  "thread_records (call c s) = (case c of CallThreadRecord j p \<Rightarrow> thread_records s @ [(j, p)] | _ \<Rightarrow> thread_records s)"
  by (simp add: thread_records_def call_def List.map_filter_def split: store_call.splits)

lemma thread_records_other [simp]:
  "thread_records (call_if b (CallEventsEnqueue j) s) = thread_records s"
  "thread_records (call_if b (CallEventsLifecycle j) s) = thread_records s"
  "thread_records (call_if b (CallEventsStop a) s) = thread_records s"
  "thread_records (call (CallFollowupAdmit j) s) = thread_records s"
  "thread_records (call (CallRetentionSummary j) s) = thread_records s"
  "thread_records (call (CallEventsStop a) s) = thread_records s"
  by (simp_all add: call_if_def thread_records_call)

lemma calls_frames [simp]:
  "bs_calls (ensure_scope sid now s) = bs_calls s" "bs_calls (put_activity a r s) = bs_calls s"
  "bs_calls (put_job j x s) = bs_calls s" "bs_calls (add_delivery j ad v previous now s) = bs_calls s"
  "bs_calls (next_scope_version sid now s) = bs_calls s" "bs_calls (add_activity_event a sid kind now s) = bs_calls s"
  "bs_calls (add_job_event j a sid kind st now s) = bs_calls s" "bs_calls (end_relay env a s) = bs_calls s"
  "bs_calls (reconcile_relay env now snap s) = bs_calls s" "bs_calls (register_relay env now j s) = bs_calls s"
  "bs_calls (insert_completion_outbox a sid n ch now s) = bs_calls s"
  by (simp_all add: ensure_scope_def put_activity_def put_job_def add_delivery_def next_scope_version_def Let_def
      add_activity_event_def add_job_event_def end_relay_def reconcile_relay_def register_relay_def
      insert_completion_outbox_def split: option.splits)

lemma thread_records_frames [simp]:
  "thread_records (ensure_scope sid now s) = thread_records s" "thread_records (put_activity a r s) = thread_records s"
  "thread_records (put_job j x s) = thread_records s" "thread_records (add_delivery j ad v previous now s) = thread_records s"
  "thread_records (next_scope_version sid now s) = thread_records s"
  "thread_records (add_activity_event a sid kind now s) = thread_records s"
  "thread_records (add_job_event j a sid kind st now s) = thread_records s"
  "thread_records (end_relay env a s) = thread_records s" "thread_records (register_relay env now j s) = thread_records s"
  "thread_records (insert_completion_outbox a sid n ch now s) = thread_records s"
  "thread_records (stop_events env a s) = thread_records s"
  by (simp_all add: thread_records_def stop_events_def call_if_def call_def List.map_filter_def)

lemma calls_reconcile:
  "reconcile_activity env a now s = Inr s' \<Longrightarrow> thread_records s' = thread_records s"
  by (auto simp: reconcile_activity_def Let_def res_bind_Inr_iff split: if_splits)

lemma calls_sync: "sync_agent_for_job j st inputs g a now s = Inr (changed, s') \<Longrightarrow> bs_calls s' = bs_calls s"
  by (auto simp: sync_agent_for_job_def Let_def split: option.splits if_splits)

lemma calls_admit_activity: "admit_activity env i a sid project existing s = Inr (created, s') \<Longrightarrow> bs_calls s' = bs_calls s"
  by (auto simp: admit_activity_def res_bind_Inr_iff split: option.splits if_splits)

lemma calls_pin_project:
  assumes "pin_project env i a project existing s = Inr (folder, s')"
  shows "bs_calls s' = bs_calls s"
  using assms unfolding pin_project_def res_bind_Inr_iff
proof (elim exE conjE, goal_cases)
  case (1 pin s1 pinned)
  from 1(4) have "s' = s1" by (auto split: option.splits prod.splits if_splits)
  with 1(2) show ?case
    by (cases pin; cases project; cases "map_of (bs_activities s) a") (auto simp: res_bind_Inr_iff split: if_splits)
qed

lemma calls_write_row:
  assumes "write_job_row env now i ad previous folder s = Inr s'"
  shows "thread_records s' = thread_records s"
  using assms by (auto simp: write_job_row_def Let_def split: if_splits)

lemma write_row_stores:
  assumes "write_job_row env now i ad previous folder s = Inr s'"
  shows "map_of (bs_jobs s') (ji_id i) = Some (new_job_row i ad previous folder)"
proof -
  let ?r = "new_job_row i ad previous folder"
  have "ledger_of s' = ledger_of (add_delivery (ji_id i) ad (jb_terminal_version ?r) previous (ji_updated i) (put_job (ji_id i) ?r s))"
    using assms by (auto simp: write_job_row_def Let_def frames split: if_splits)
  from ledger_of_frame(2) [OF this] have "bs_jobs s' = AList.update (ji_id i) ?r (bs_jobs s)"
    by (simp add: add_delivery_def put_job_def split: option.splits)
  then show ?thesis by (simp add: map_of_update)
qed

lemma settle_jobs: "settle a l l' \<Longrightarrow> lg_jobs l' = lg_jobs l"
  by (auto elim!: settle.cases announce.cases simp: set_activity_def)

lemma record_change_jobs:
  "record_job_change env i ad previous created s = Inr s' \<Longrightarrow> bs_jobs s' = bs_jobs s"
  using settle_jobs [OF record_change_settles] by simp

lemma new_work_admitted:
  assumes "check_new_work env s i JsRunning a sid = Inr ()"
  shows "\<not> se_admission_blocked env (truthy_string (ji_agent i))
    (or_string (ji_thread i) (or_string (ji_session_thread i) (ji_source i)))"
  using assms unfolding check_new_work_def res_bind_Inr_iff throw_if_Inr_iff by blast

text \<open>A job write that is not ignored reports the row's earlier status, stores the row, and a new running
  row passed the admission check.\<close>

lemma upsert_reports:
  assumes "upsert_job env now i s = Inr s'"
  obtains (ignored) "s' = s"
  | (stored) ad folder where "thread_records s' = thread_records s @ [(ji_id i, map_option jb_status (map_of (bs_jobs s) (ji_id i)))]"
      "job_status_of (ji_status i) = Some (ad_status ad)"
      "map_of (bs_jobs s) (ji_id i) = None \<Longrightarrow> ad_status ad = JsRunning \<Longrightarrow>
        \<not> se_admission_blocked env (truthy_string (ji_agent i)) (or_string (ji_thread i) (or_string (ji_session_thread i) (ji_source i)))"
      "map_of (bs_jobs s') (ji_id i) = Some (new_job_row i ad (map_of (bs_jobs s) (ji_id i)) folder)"
proof (cases "s' = s")
  case False
  let ?previous = "map_of (bs_jobs s) (ji_id i)"
  from assms False obtain st a sid ad where st: "job_status_of (ji_status i) = Some st"
      and admit: "admit_job env i st a sid ?previous s = Inr ad" and place: "place_job env now i ad ?previous s = Inr s'"
    by (auto simp: upsert_job_def res_bind_Inr_iff Let_def split: option.splits if_splits)
  have ad: "ad_status ad = st" and new: "?previous = None \<Longrightarrow> check_new_work env s i st a sid = Inr ()"
    using admit unfolding admit_job_def res_bind_Inr_iff throw_if_Inr_iff Let_def by (auto simp: throw_if_Inr_iff)
  let ?s0 = "ensure_scope (ad_scope ad) (ji_updated i) s"
  from place obtain created s1 folder s2 where
      a1: "admit_activity env i (ad_activity ad) (ad_scope ad) (ad_project ad) (?previous \<noteq> None) ?s0 = Inr (created, s1)"
      and a2: "pin_project env i (ad_activity ad) (ad_project ad) (?previous \<noteq> None) s1 = Inr (folder, s2)"
      and a3: "commit_job env now i ad ?previous folder created s2 = Inr s'"
    unfolding place_job_def res_bind_Inr_iff split_paired_Ex prod.case by blast
  let ?r = "new_job_row i ad ?previous folder"
  from a3 obtain s3 changed s4 where w: "write_job_row env now i ad ?previous folder s2 = Inr s3"
      and sync: "(case ad_agent ad of None \<Rightarrow> Inr (False, s3)
        | Some g \<Rightarrow> sync_agent_for_job (ji_id i) (ad_status ad) (ji_inputs i) g (ad_activity ad) (ji_updated i) s3) =
        Inr (changed, s4)"
      and rest: "(let s5 = call (CallRetentionSummary (ji_id i)) (call (CallThreadRecord (ji_id i) (map_option jb_status ?previous)) s4)
        in if created \<or> changed \<or> visible_change ?previous ?r then record_job_change env i ad ?previous created s5
        else Inr s5) = Inr s'"
    unfolding commit_job_def res_bind_Inr_iff by (auto simp: Let_def)
  have "thread_records s2 = thread_records s"
    using thread_records_frame [OF calls_admit_activity [OF a1]] thread_records_frame [OF calls_pin_project [OF a2]] by simp
  moreover have "thread_records s4 = thread_records s3"
    using sync by (auto intro: thread_records_frame dest: calls_sync split: option.splits)
  moreover have "thread_records s' = thread_records s4 @ [(ji_id i, map_option jb_status ?previous)]"
    using rest
    by (auto simp: Let_def record_job_change_def thread_records_call dest!: calls_reconcile split: if_splits)
  ultimately have t: "thread_records s' = thread_records s @ [(ji_id i, map_option jb_status ?previous)]"
    using calls_write_row [OF w] by simp
  have "map_of (bs_jobs s3) (ji_id i) = Some ?r" by (rule write_row_stores [OF w])
  moreover have "bs_jobs s4 = bs_jobs s3"
    using sync by (auto dest!: ledger_of_sync intro: ledger_of_frame(2) split: option.splits)
  moreover have "bs_jobs s' = bs_jobs s4"
    using rest by (auto simp: Let_def call_def dest!: record_change_jobs split: if_splits)
  ultimately have "map_of (bs_jobs s') (ji_id i) = Some ?r" by simp
  then show ?thesis
    using t st ad new new_work_admitted by (intro stored [of ad folder]) auto
qed (use ignored in simp)

text \<open>A pending handoff, and the events that do not end it: not its cancellation, not a change of the
  Agent's target, not project retirement, and no release confirmed with evidence. Identifiers of a job
  snapshot carry no surrounding blanks: admission compares them before the row is normalised.\<close>

definition handoff_pending :: "string \<Rightarrow> bridge_threads \<Rightarrow> bool" where
  "handoff_pending tid b \<longleftrightarrow>
     (\<exists>c. map_of (tt_rows (bt_table b)) tid = Some c \<and> tc_handoff c \<and> tc_phase c \<noteq> PhReleased)"

definition plain :: "string option \<Rightarrow> bool" where
  "plain v \<longleftrightarrow> (case v of None \<Rightarrow> True | Some x \<Rightarrow> js_trim x = x)"

definition keeps_handoff :: "string \<Rightarrow> thread_event \<Rightarrow> bool" where
  "keeps_handoff tid e \<longleftrightarrow>
     (case e of
        TeStore env now (EvUpsert i) f \<Rightarrow> plain (ji_thread i) \<and> plain (ji_session_thread i)
      | TeSupersede agent current now \<Rightarrow> current = tid
      | TeCancel x now \<Rightarrow> x \<noteq> tid
      | TeRetireRelease x ev now \<Rightarrow> x \<noteq> tid
      | TeRetireForget x \<Rightarrow> x \<noteq> tid
      | TeDone (Some a) now \<Rightarrow> an_evidence a = None
      | _ \<Rightarrow> True)"

definition row_pending :: "string \<Rightarrow> thread_table \<Rightarrow> bool" where
  "row_pending tid t \<longleftrightarrow> (\<exists>c. map_of (tt_rows t) tid = Some c \<and> tc_handoff c \<and> tc_phase c \<noteq> PhReleased)"

lemma handoff_pending_row: "handoff_pending tid b = row_pending tid (bt_table b)"
  by (simp add: handoff_pending_def row_pending_def)

lemma pending_blocks:
  assumes "row_pending tid t" "truthy_string thread = Some tid"
  shows "admission_blocked t agent thread"
proof -
  obtain c where "(tid, c) \<in> set (tt_rows t)" "tc_handoff c" "tc_phase c \<noteq> PhReleased"
    using assms(1) map_of_SomeD by (fastforce simp: row_pending_def)
  then show ?thesis using assms(2) by (auto simp: admission_blocked_def list_ex_iff release_pending_def)
qed

lemma pending_put: "row_pending tid t \<Longrightarrow> x \<noteq> tid \<or> tc_handoff c \<and> tc_phase c \<noteq> PhReleased \<Longrightarrow> row_pending tid (put_row x c t)"
  by (auto simp: row_pending_def)

lemma pending_update:
  assumes "row_pending tid t" "x \<noteq> tid \<or> (pa_handoff p = None \<or> pa_handoff p = Some True) \<and> pa_phase p \<noteq> PhReleased"
  shows "row_pending tid (snd (update_connection x p now expected t))"
  using assms by (auto simp: row_pending_def update_row patched_def split: option.splits)

lemma pending_alter:
  assumes "row_pending tid t" "q \<Longrightarrow> x = tid \<Longrightarrow> (\<And>c. tc_handoff c \<Longrightarrow> tc_phase c \<noteq> PhReleased \<Longrightarrow>
      tc_handoff (f c) \<and> tc_phase (f c) \<noteq> PhReleased)"
  shows "row_pending tid (alter_row q x f t)"
  using assms by (cases "x = tid") (auto simp: row_pending_def alter_row_def split: option.splits)

lemma pending_register:
  "row_pending tid t \<Longrightarrow> register_thread now i t = Inr t' \<Longrightarrow> row_pending tid t'"
  by (cases "tr_thread i = tid") (auto simp: row_pending_def register_thread_def Let_def split: option.splits if_splits)

lemma pending_record:
  assumes "row_pending tid t" "record_job j previous t = Inr t'"
    and "truthy_string (or_string (tj_thread j) (tj_session j)) = Some tid \<Longrightarrow> \<not> (tj_status j = JsRunning \<and> previous = None)"
  shows "row_pending tid t'"
  using assms(2)
proof (cases rule: record_cases)
  case (written x i t1 q1 q3)
  show ?thesis unfolding written(4)
    using pending_register [OF assms(1) written(3)] assms(3) written(1)
    by (intro pending_alter) (auto simp: patched_def turn_finished_def)
qed (use assms(1) in simp)

lemma trimmed_plain: "plain v \<Longrightarrow> trimmed_string v = truthy_string v"
  by (auto simp: plain_def trimmed_string_def truthy_string_def split: option.splits)

lemma recorded_thread:
  assumes "plain a" "plain b"
  shows "truthy_string (or_string (trimmed_string (or_string a b)) b) = truthy_string (or_string a b)"
proof -
  have "plain (or_string a b)" using assms by (auto simp: or_string_def truthy_string_def split: option.splits)
  then show ?thesis by (simp add: trimmed_plain or_string_def truthy_string_def split: option.splits)
qed

lemma admission_thread:
  "truthy_string (or_string a b) = Some tid \<Longrightarrow> truthy_string (or_string a (or_string b c)) = Some tid"
  by (auto simp: or_string_def truthy_string_def split: option.splits if_splits)

lemma pending_store:
  assumes "row_pending tid t" "store_with_threads env now ev f s t = (s', t')"
    and "\<And>i. ev = EvUpsert i \<Longrightarrow> plain (ji_thread i) \<and> plain (ji_session_thread i)"
  shows "row_pending tid t'"
  using assms(2)
proof (cases rule: store_with_threads_cases)
  case 2
  from 2(2) show ?thesis
  proof (cases rule: record_call_cases)
    case (2 i j previous rest r)
    note written = 2
    have up: "upsert_job (with_threads t env) now i s = Inr s'"
      using \<open>store_op (with_threads t env) now ev s = Inr s'\<close> written(1) by simp
    then show ?thesis
    proof (cases rule: upsert_reports)
      case ignored
      then show ?thesis using written(2) by simp
    next
      case (stored ad folder)
      have j: "j = ji_id i" "previous = map_option jb_status (map_of (bs_jobs s) (ji_id i))"
        and r: "r = new_job_row i ad (map_of (bs_jobs s) (ji_id i)) folder"
        using stored(1,4) written(2,3) by auto
      have "\<not> (tj_status (thread_job_of i f r) = JsRunning \<and> previous = None)"
        if tid: "truthy_string (or_string (tj_thread (thread_job_of i f r)) (tj_session (thread_job_of i f r))) = Some tid"
      proof
        assume new: "tj_status (thread_job_of i f r) = JsRunning \<and> previous = None"
        have "truthy_string (or_string (ji_thread i) (ji_session_thread i)) = Some tid"
          using tid assms(3) [OF written(1)] recorded_thread by (simp add: thread_job_of_def r new_job_row_def)
        then have "admission_blocked t (truthy_string (ji_agent i))
            (or_string (ji_thread i) (or_string (ji_session_thread i) (ji_source i)))"
          by (intro pending_blocks [OF assms(1)] admission_thread)
        moreover have "ad_status ad = JsRunning" using new by (simp add: thread_job_of_def r new_job_row_def)
        ultimately show False using stored(3) new j(2) by (simp add: with_threads_def)
      qed
      then show ?thesis using pending_record [OF assms(1) written(4)] by blast
    qed
  qed (use assms(1) in simp)
qed (use assms(1) in simp)

lemma pending_step:
  assumes "handoff_pending tid b" "keeps_handoff tid e"
  shows "handoff_pending tid (threads_step cfg b e)"
proof -
  let ?t = "bt_table b"
  have p: "row_pending tid ?t" using assms(1) by (simp add: handoff_pending_row)
  have patched: "row_pending tid (attempt (r :: (thread_error, thread_table) result) ?t)" if "\<And>t'. r = Inr t' \<Longrightarrow> row_pending tid t'" for r
    using that p by (cases r) (simp_all add: attempt_def)
  show ?thesis unfolding handoff_pending_row
  proof (cases e)
    case (TeStore env now ev f)
    obtain s' t' where st: "store_with_threads env now ev f (bt_store b) ?t = (s', t')" by force
    have "plain (ji_thread i) \<and> plain (ji_session_thread i)" if "ev = EvUpsert i" for i
      using assms(2) TeStore that by (simp add: keeps_handoff_def)
    then have "row_pending tid t'" by (rule pending_store [OF p st])
    then show "row_pending tid (bt_table (threads_step cfg b e))" using TeStore st by simp
  next
    case (TeRegister now i)
    then show "row_pending tid (bt_table (threads_step cfg b e))" using pending_register [OF p] by (simp add: patched)
  next
    case (TeSupersede agent current now)
    then show "row_pending tid (bt_table (threads_step cfg b e))" using p assms(2)
      by (auto simp: keeps_handoff_def row_pending_def supersede_handoffs_def map_of_map_rows superseded_def)
  next
    case (TeRequest x now)
    have "row_pending tid t'" if "request_handoff x now ?t = Inr t'" for t'
      using that p by (auto simp: request_handoff_def row_pending_def update_row patched_def split: option.splits if_splits)
    then show "row_pending tid (bt_table (threads_step cfg b e))" using TeRequest by (simp add: patched)
  next
    case (TeCancel x now)
    have "row_pending tid t'" if "cancel_handoff x now ?t = Inr t'" for t'
      using that p TeCancel assms(2) by (auto simp: keeps_handoff_def cancel_handoff_def intro!: pending_update
          split: option.splits if_splits)
    then show "row_pending tid (bt_table (threads_step cfg b e))" using TeCancel by (simp add: patched)
  next
    case (TeRetireRelease x ev now)
    then show "row_pending tid (bt_table (threads_step cfg b e))" using p assms(2)
      by (auto simp: keeps_handoff_def retire_release_def intro!: pending_update)
  next
    case (TeRetireForget x)
    then show "row_pending tid (bt_table (threads_step cfg b e))" using p assms(2)
      by (simp add: keeps_handoff_def retire_forget_def row_pending_def map_of_delete)
  next
    case (TeExamine now)
    obtain t' k' where x: "sweep_examine cfg now (bt_store b) ?t (bt_control b) = (t', k')" by force
    then have "row_pending tid t'"
    proof (cases rule: examine_cases)
      case (noted x why)
      then show ?thesis using pending_update [OF p] by simp
    next
      case (claimed x r)
      have "x \<noteq> tid \<or> tc_handoff r" using claimed(1) p by (auto simp: row_pending_def)
      then show ?thesis unfolding claimed(4) by (intro pending_put [OF p]) (simp add: patched_def)
    qed (use p in simp)
    then show "row_pending tid (bt_table (threads_step cfg b e))" using TeExamine x by simp
  next
    case (TeDone answer now)
    have none: "an_evidence (accepted_answer answer) = None"
      using assms(2) TeDone by (auto simp: keeps_handoff_def accepted_answer_def unconfirmed_def split: option.splits)
    then have "phase_of (an_phase (accepted_answer answer)) \<noteq> PhReleased"
      using accepted_evidence [of answer] by (auto simp: phase_of_def split: answer_phase.splits)
    moreover obtain t' k' where x: "sweep_done cfg now (bt_store b) answer ?t (bt_control b) = (t', k')" by force
    from x have "row_pending tid t'"
    proof (cases rule: done_cases)
      case (recorded x v)
      then show ?thesis using none calculation by (simp add: Let_def pending_update [OF p])
    qed (use p in simp)
    ultimately show "row_pending tid (bt_table (threads_step cfg b e))" using TeDone x by simp
  qed (use p in simp_all)
qed

interpretation handoff: absorbing_system "threads_step cfg" "keeps_handoff tid" "\<lambda>_. True" "handoff_pending tid" "\<lambda>_. ()"
  for cfg tid
  by unfold_locales (simp_all add: pending_step)

lemma blocked_start:
  assumes "admission_blocked t (truthy_string (ji_agent i)) (or_string (ji_thread i) (or_string (ji_session_thread i) (ji_source i)))"
    "ji_status i = ''running''" "map_of (bs_jobs s) (ji_id i) = None"
  shows "store_with_threads env now (EvUpsert i) f s t = (s, t)"
proof (cases "store_op (with_threads t env) now (EvUpsert i) s")
  case (Inr s')
  then have "upsert_job (with_threads t env) now i s = Inr s'" by simp
  then show ?thesis
  proof (cases rule: upsert_reports)
    case (stored ad folder)
    have "ad_status ad = JsRunning" using stored(2) assms(2) by (simp add: job_status_of_def job_statuses_def)
    then show ?thesis using stored(3) assms(1,3) by (simp add: with_threads_def)
  next
    case ignored
    then show ?thesis using Inr by (simp add: store_with_threads_def record_call_def)
  qed
qed (simp add: store_with_threads_def)

text \<open>C19. While a handoff is pending no turn starts on the thread: whatever runs in between, as long as the
  handoff is not cancelled, superseded, retired or confirmed with evidence, it stays pending, and saving a
  new running job for that thread (or for a fork of it) is refused and changes nothing.\<close>
theorem handoff_blocks_new_turns:
  assumes "handoff_pending tid b" "list_all (keeps_handoff tid) es"
    and "b' = run (threads_step cfg) b es"
    and "ji_status i = ''running''" "map_of (bs_jobs (bt_store b')) (ji_id i) = None"
    and "truthy_string (or_string (ji_thread i) (or_string (ji_session_thread i) (ji_source i))) = Some tid"
  shows "handoff_pending tid b' \<and> threads_step cfg b' (TeStore env now (EvUpsert i) f) = b'"
proof -
  have p: "handoff_pending tid b'" using handoff.run_closed [OF _ assms(1,2)] assms(3) by simp
  then have "admission_blocked (bt_table b') (truthy_string (ji_agent i))
      (or_string (ji_thread i) (or_string (ji_session_thread i) (ji_source i)))"
    using pending_blocks assms(6) by (simp add: handoff_pending_row)
  from blocked_start [OF this assms(4,5)] p show ?thesis by simp
qed

end
