(* ===== verification/Store_Log.thy ===== *)
theory Store_Log
  imports Store_Runs
begin

text \<open>
  The parts of the store that only grow: the scope versions clients poll with, the Activity and job
  event logs, and the recorded cancellation operations. Every operation extends them, and the events
  of a scope carry versions in the order they were written.
\<close>

section \<open>Growth\<close>

definition activity_versions :: "string \<Rightarrow> bridge_state \<Rightarrow> int list" where
  "activity_versions sid s = map ae_version (filter (\<lambda>e. ae_scope e = sid) (bs_activity_events s))"

definition job_versions :: "string \<Rightarrow> bridge_state \<Rightarrow> int list" where
  "job_versions sid s = map jv_version (filter (\<lambda>e. jv_scope e = sid) (bs_job_events s))"

text \<open>Per scope both logs are in version order and never ahead of the scope's version.\<close>

definition log_ok :: "bridge_state \<Rightarrow> bool" where
  "log_ok s \<longleftrightarrow> (\<forall>sid. sorted (activity_versions sid s @ [scope_version sid s]) \<and>
     sorted (job_versions sid s @ [scope_version sid s]))"

definition operation_kept :: "operation_row \<Rightarrow> operation_row \<Rightarrow> bool" where
  "operation_kept x y \<longleftrightarrow> cancellation_facts.truncate y = cancellation_facts.truncate x \<and> op_root y = op_root x \<and>
     op_hash y = op_hash x \<and> (op_status x \<noteq> OpRecorded \<longrightarrow> y = x)"

definition log_grows :: "bridge_state \<Rightarrow> bridge_state \<Rightarrow> bool" where
  "log_grows s s' \<longleftrightarrow> (\<forall>sid. scope_version sid s \<le> scope_version sid s') \<and>
     (\<exists>new. bs_activity_events s' = bs_activity_events s @ new) \<and> (\<exists>new. bs_job_events s' = bs_job_events s @ new) \<and>
     rows_kept operation_kept (bs_operations s) (bs_operations s') \<and> (log_ok s \<longrightarrow> log_ok s')"

definition log_of ::
  "bridge_state \<Rightarrow> (string \<times> scope_row) list \<times> activity_event list \<times> job_event list \<times> ((string \<times> string) \<times> operation_row) list" where
  "log_of s = (bs_scopes s, bs_activity_events s, bs_job_events s, bs_operations s)"

named_theorems grows \<open>writes that extend the log\<close>
named_theorems log_frames \<open>writes beside the log\<close>

lemma operation_kept_refl [simp]: "operation_kept x x"
  by (simp add: operation_kept_def)

lemma operation_kept_trans: "operation_kept x y \<Longrightarrow> operation_kept y z \<Longrightarrow> operation_kept x z"
  by (auto simp: operation_kept_def)

lemma log_grows_refl [grows]: "log_grows s s"
  by (simp add: log_grows_def rows_kept_refl)

lemma log_grows_trans: "log_grows s t \<Longrightarrow> log_grows t u \<Longrightarrow> log_grows s u"
  unfolding log_grows_def by (auto intro: order_trans rows_kept_trans operation_kept_trans)

lemma log_grows_frame: "log_grows s t \<Longrightarrow> log_of u = log_of t \<Longrightarrow> log_grows s u"
  by (simp add: log_grows_def log_of_def log_ok_def activity_versions_def job_versions_def scope_version_def)

lemma log_of_calls [log_frames]:
  "log_of (call c s) = log_of s" "log_of (call_if b c s) = log_of s" "log_of (end_relay env a s) = log_of s"
  "log_of (stop_events env a s) = log_of s" "log_of (reconcile_relay env now snap s) = log_of s"
  "log_of (register_relay env now j s) = log_of s" "log_of (notify_progress env now j s) = log_of s"
  by (auto simp: log_of_def call_def call_if_def end_relay_def stop_events_def reconcile_relay_def
      register_relay_def notify_progress_def split: option.splits)

lemma log_of_writes [log_frames]:
  "log_of (put_activity a r s) = log_of s" "log_of (put_job j x s) = log_of s" "log_of (put_intent i it s) = log_of s"
  "log_of (insert_completion_outbox a sid v ch now s) = log_of s"
  "log_of (acknowledge_completion_outbox a ch' now s) = log_of s"
  "log_of (add_delivery j ad v' previous now s) = log_of s"
  by (auto simp: log_of_def put_activity_def put_job_def put_intent_def insert_completion_outbox_def
      acknowledge_completion_outbox_def add_delivery_def split: option.splits)

lemma log_of_rows [log_frames]: "log_of (snd (update_rows p f s)) = log_of s"
  by (simp add: log_of_def update_rows_def)

lemma log_of_sync: "sync_agent_for_job j st inputs g a now s = Inr (changed, s') \<Longrightarrow> log_of s' = log_of s"
  by (auto simp: sync_agent_for_job_def Let_def log_of_def split: option.splits if_splits)

lemma scope_version_ensure [simp]: "scope_version sid (ensure_scope k now s) = scope_version sid s"
  by (simp add: scope_version_def ensure_scope_def map_of_update split: option.splits)

lemma scope_version_next [simp]:
  "scope_version sid (next_scope_version k now s) = scope_version sid s + (if sid = k then 1 else 0)"
  "scope_version sid (next_runtime_scope_version k now s) = scope_version sid s + (if sid = k then 1 else 0)"
  by (auto simp: scope_version_def next_scope_version_def next_runtime_scope_version_def ensure_scope_def Let_def
      map_of_update split: option.splits)

lemma sorted_snoc_le: "sorted (xs @ [v]) \<Longrightarrow> v \<le> w \<Longrightarrow> sorted (xs @ [w :: int])"
  by (auto simp: sorted_append)

lemma log_grows_scopes [grows]:
  "log_grows s t \<Longrightarrow> log_grows s (ensure_scope k now t)"
  "log_grows s t \<Longrightarrow> log_grows s (next_scope_version k now t)"
  "log_grows s t \<Longrightarrow> log_grows s (next_runtime_scope_version k now t)"
proof -
  have step: "log_grows t u"
    if "bs_activity_events u = bs_activity_events t" "bs_job_events u = bs_job_events t"
      "bs_operations u = bs_operations t" "\<And>sid. scope_version sid t \<le> scope_version sid u" for t u
    using that by (auto simp: log_grows_def rows_kept_refl log_ok_def activity_versions_def job_versions_def
        intro: sorted_snoc_le)
  show "log_grows s t \<Longrightarrow> log_grows s (ensure_scope k now t)"
    by (erule log_grows_trans, rule step) (simp_all, simp_all add: ensure_scope_def)
  show "log_grows s t \<Longrightarrow> log_grows s (next_scope_version k now t)"
    by (erule log_grows_trans, rule step) (simp_all, simp_all add: next_scope_version_def ensure_scope_def Let_def)
  show "log_grows s t \<Longrightarrow> log_grows s (next_runtime_scope_version k now t)"
    by (erule log_grows_trans, rule step) (simp_all, simp_all add: next_runtime_scope_version_def)
qed

lemma log_grows_activity_event [grows]:
  assumes "log_grows s t"
  shows "log_grows s (add_activity_event a sid kind now t)"
  by (rule log_grows_trans [OF assms])
    (auto simp: log_grows_def add_activity_event_def rows_kept_refl log_ok_def activity_versions_def
      job_versions_def scope_version_def sorted_append)

lemma log_grows_job_event [grows]:
  assumes "log_grows s t"
  shows "log_grows s (add_job_event j a sid kind st now t)"
  by (rule log_grows_trans [OF assms])
    (auto simp: log_grows_def add_job_event_def rows_kept_refl log_ok_def activity_versions_def
      job_versions_def scope_version_def sorted_append)

lemma log_grows_running_event [grows]:
  "log_grows s t \<Longrightarrow> log_grows s (job_running_event resumed j r now t)"
  by (simp add: job_running_event_def log_grows_job_event)

lemma log_grows_beside [grows]:
  assumes "log_grows s t"
  shows "log_grows s (call c t)" "log_grows s (call_if b c t)" "log_grows s (end_relay env a t)"
    "log_grows s (stop_events env a t)" "log_grows s (register_relay env now j t)" "log_grows s (notify_progress env now j t)"
    "log_grows s (put_activity a r t)" "log_grows s (put_job j x t)" "log_grows s (put_intent i it t)"
    "log_grows s (insert_completion_outbox a sid v ch now t)" "log_grows s (acknowledge_completion_outbox a ch' now t)"
    "log_grows s (add_delivery j ad v' previous now t)"
  by (rule log_grows_frame [OF assms]; simp add: log_frames)+

section \<open>Operations\<close>

lemma grows_reconcile:
  "log_grows s t \<Longrightarrow> reconcile_activity env a now t = Inr u \<Longrightarrow> log_grows s u"
  by (auto simp: reconcile_activity_def res_bind_Inr_iff Let_def intro!: grows)

lemma grows_activity_ops:
  "create_activity env i now s = Inr s' \<Longrightarrow> log_grows s s'"
  "set_activity_policy a kind handoff trigger now s = Inr s' \<Longrightarrow> log_grows s s'"
  "seal_activity env a now s = Inr s' \<Longrightarrow> log_grows s s'"
  "complete_activity env a why now s = Inr s' \<Longrightarrow> log_grows s s'"
  "abandon_activity env a why now s = Inr s' \<Longrightarrow> log_grows s s'"
  "cancel_activity env a why now s = Inr s' \<Longrightarrow> log_grows s s'"
  "begin_activity_termination env a why now s = Inr s' \<Longrightarrow> log_grows s s'"
  "start_activity_verification a now s = Inr s' \<Longrightarrow> log_grows s s'"
  "pass_activity_verification env a e now s = Inr s' \<Longrightarrow> log_grows s s'"
  "fail_activity_verification env a reason now s = Inr s' \<Longrightarrow> log_grows s s'"
proof -
  show "create_activity env i now s = Inr s' \<Longrightarrow> log_grows s s'"
    unfolding create_activity_def res_bind_Inr_iff Let_def by (auto intro!: grows)
  show "set_activity_policy a kind handoff trigger now s = Inr s' \<Longrightarrow> log_grows s s'"
    by (auto simp: set_activity_policy_def res_bind_Inr_iff Let_def intro!: grows split: if_splits)
  show "seal_activity env a now s = Inr s' \<Longrightarrow> log_grows s s'"
    by (auto simp: seal_activity_def res_bind_Inr_iff split: if_splits elim!: grows_reconcile [rotated] intro!: grows)
  show "complete_activity env a why now s = Inr s' \<Longrightarrow> log_grows s s'"
    unfolding complete_activity_def res_bind_Inr_iff Let_def
    by (auto simp: res_bind_Inr_iff intro!: grows split: if_splits)
  show "abandon_activity env a why now s = Inr s' \<Longrightarrow> log_grows s s'"
    unfolding abandon_activity_def res_bind_Inr_iff transition_activity_terminal_def by (auto intro!: grows)
  show "cancel_activity env a why now s = Inr s' \<Longrightarrow> log_grows s s'"
    unfolding cancel_activity_def res_bind_Inr_iff transition_activity_terminal_def by (auto intro!: grows)
  show "begin_activity_termination env a why now s = Inr s' \<Longrightarrow> log_grows s s'"
    by (auto simp: begin_activity_termination_def res_bind_Inr_iff intro!: grows split: if_splits)
  show "start_activity_verification a now s = Inr s' \<Longrightarrow> log_grows s s'"
    by (auto simp: start_activity_verification_def res_bind_Inr_iff intro!: grows split: if_splits)
  show "pass_activity_verification env a e now s = Inr s' \<Longrightarrow> log_grows s s'"
    by (auto simp: pass_activity_verification_def res_bind_Inr_iff intro!: grows split: if_splits)
  show "fail_activity_verification env a reason now s = Inr s' \<Longrightarrow> log_grows s s'"
    by (auto simp: fail_activity_verification_def res_bind_Inr_iff intro!: grows split: if_splits)
qed

lemma log_grows_sync:
  "log_grows s t \<Longrightarrow> sync_agent_for_job j st inputs g a now t = Inr (changed, u) \<Longrightarrow> log_grows s u"
  using log_grows_frame log_of_sync by blast

lemma grows_write_job: "write_job_row env now i ad previous folder s = Inr s' \<Longrightarrow> log_grows s s'"
  by (auto simp: write_job_row_def Let_def intro!: grows split: if_splits)

lemma grows_record_change: "log_grows s t \<Longrightarrow> record_job_change env i ad previous created t = Inr u \<Longrightarrow> log_grows s u"
  by (auto simp: record_job_change_def Let_def elim!: grows_reconcile [rotated] intro!: grows split: if_splits)

lemma grows_commit:
  assumes "commit_job env now i ad previous folder created s = Inr s'"
  shows "log_grows s s'"
  using assms unfolding commit_job_def res_bind_Inr_iff split_paired_Ex prod.case
proof (elim exE conjE, goal_cases)
  case (1 s1 changed s2)
  then have "log_grows s s2"
    using grows_write_job log_grows_sync by (fastforce split: option.splits)
  then show ?case
    using 1(3) by (auto simp: Let_def elim!: grows_record_change [rotated] intro!: grows split: if_splits)
qed

lemma grows_place:
  assumes "place_job env now i ad previous s = Inr s'"
  shows "log_grows s s'"
  using assms unfolding place_job_def res_bind_Inr_iff split_paired_Ex prod.case
proof (elim exE conjE, goal_cases)
  case (1 created s1 folder s2)
  have "log_grows s s1"
    using 1(1) by (auto simp: admit_activity_def res_bind_Inr_iff intro!: grows split: option.splits if_splits)
  moreover have "log_grows s1 s2"
    using 1(2) unfolding pin_project_def res_bind_Inr_iff
  proof (elim exE conjE, goal_cases)
    case (1 pin s3 pinned)
    from 1(4) have "s2 = s3" by (auto split: option.splits prod.splits if_splits)
    with 1(2) show ?case
      by (cases pin; cases "ad_project ad"; cases "map_of (bs_activities s1) (ad_activity ad)")
        (auto simp: res_bind_Inr_iff intro!: grows split: if_splits)
  qed
  ultimately show ?case using grows_commit [OF 1(3)] log_grows_trans by blast
qed

lemma grows_upsert: "upsert_job env now i s = Inr s' \<Longrightarrow> log_grows s s'"
  by (auto simp: upsert_job_def res_bind_Inr_iff Let_def split: option.splits if_splits
      intro: grows_place log_grows_refl)

lemma grows_progress: "update_job_progress j p s = Inr (x, s') \<Longrightarrow> log_grows s s'"
  by (auto simp: update_job_progress_def res_bind_Inr_iff Let_def split: option.splits if_splits
      intro!: grows elim!: log_grows_sync [rotated])

lemma grows_progress_state: "update_job_progress_state env now j p s = Inr s' \<Longrightarrow> log_grows s s'"
  unfolding update_job_progress_state_def res_bind_Inr_iff split_paired_Ex prod.case Let_def
  by (auto intro!: grows split: if_splits dest: grows_progress)

lemma grows_waiting [grows]: "log_grows s t \<Longrightarrow> log_grows s (set_waiting a sid w now t)"
  by (auto simp: set_waiting_def intro!: grows split: option.splits)

lemma grows_telemetry: "record_job_telemetry env now j t s = Inr s' \<Longrightarrow> log_grows s s'"
  unfolding record_job_telemetry_def res_bind_Inr_iff split_paired_Ex prod.case Let_def
proof (elim exE conjE, goal_cases)
  case (1 resumed r s1 kind)
  have "log_grows s s1"
    using 1(1) by (auto simp: progress_or_row_def res_bind_Inr_iff split: option.splits if_splits
        intro: grows_progress log_grows_refl)
  then show ?case using 1(3) by (cases "tm_waiting t") (auto intro!: grows split: if_splits)
qed

lemma grows_delete: "delete_job j now s = Inr (gone, s') \<Longrightarrow> log_grows s s'"
  by (auto simp: delete_job_def touch_activity_def res_bind_Inr_iff intro!: grows split: option.splits if_splits)

lemma grows_retention: "retention_loop k in_time cs removed left out s = Inr (res, s') \<Longrightarrow> log_grows s s'"
proof (induction cs arbitrary: in_time removed left out s)
  case (Cons c cs)
  from Cons.prems show ?case
    by (cases rule: retention_step) (auto intro: Cons.IH log_grows_trans grows_delete log_grows_refl)
qed (simp add: log_grows_refl)

lemma grows_intent_event:
  "log_grows s t \<Longrightarrow> record_intent_event r kind now t = Inr u \<Longrightarrow> log_grows s u"
  by (auto simp: record_intent_event_def Let_def intro!: grows split: option.splits target_kind.splits)

lemma grows_put_operation:
  assumes "log_grows s t" "map_of (bs_operations t) (cn_scope r, cn_request r) = None"
  shows "log_grows s (put_operation r t)"
  by (rule log_grows_trans [OF assms(1)]) (use assms(2) in
    \<open>auto simp: log_grows_def put_operation_def log_ok_def activity_versions_def job_versions_def scope_version_def
      intro: rows_kept_update\<close>)

lemma bs_operations_ensure [simp]: "bs_operations (ensure_scope k now s) = bs_operations s"
  by (simp add: ensure_scope_def)

lemma grows_cancellation_ops:
  "begin_cancellation_operation env req digest why i s = Inr s' \<Longrightarrow> log_grows s s'"
  "create_cancellation_intent env req parent cascade i s = Inr s' \<Longrightarrow> log_grows s s'"
  "set_cancellation_intent_status i st now s = Inr s' \<Longrightarrow> log_grows s s'"
proof -
  assume "begin_cancellation_operation env req digest why i s = Inr s'"
  then show "log_grows s s'"
    unfolding begin_cancellation_operation_def res_bind_Inr_iff Let_def
  proof (elim exE conjE, goal_cases)
    case (1 f h w)
    let ?op = "cancellation_facts.extend f \<lparr>op_root = i, op_hash = h, op_reason = w, op_status = OpRecorded,
      op_result = None, op_completed = None\<rparr>"
    let ?s1 = "put_operation ?op (ensure_scope (cn_scope f) (cn_created f) s)"
    have none: "map_of (bs_operations s) (cn_scope f, cn_request f) = None"
      using 1(5) by (cases "map_of (bs_operations s) (cn_scope f, cn_request f)") (auto split: if_splits)
    then obtain s2 where ins: "insert_intent i f None i ?s1 = Inr s2"
      and ev: "record_intent_event (intent_row_of f None i) (intent_event_type IntentRecorded) (cn_created f) s2 = Inr s'"
      using 1(5) by (auto simp: res_bind_Inr_iff)
    have "log_grows s ?s1"
      by (rule grows_put_operation) (use none in \<open>auto simp: cancellation_facts.defs intro!: grows\<close>)
    then have "log_grows s s2" using ins by (auto simp: insert_intent_def intro!: grows split: if_splits)
    then show ?case using ev by (rule grows_intent_event)
  qed
next
  assume "create_cancellation_intent env req parent cascade i s = Inr s'"
  then show "log_grows s s'"
    unfolding create_cancellation_intent_def res_bind_Inr_iff Let_def
    by (auto simp: res_bind_Inr_iff insert_intent_def intro!: grows elim!: grows_intent_event [rotated]
        split: option.splits if_splits)
next
  assume "set_cancellation_intent_status i st now s = Inr s'"
  then show "log_grows s s'"
    by (auto simp: set_cancellation_intent_status_def res_bind_Inr_iff Let_def intro!: grows
        elim!: grows_intent_event [rotated] split: if_splits)
qed

lemma grows_finish_operation:
  assumes "complete_cancellation_operation sid rid v st now s = Inr s'"
  shows "log_grows s s'"
proof (cases "s' = s")
  case False
  then obtain x where x: "map_of (bs_operations s) (sid, rid) = Some x" "op_status x = OpRecorded"
    and s': "s' = s\<lparr>bs_operations := AList.update (sid, rid)
        (x\<lparr>op_status := st, op_result := Some v, op_completed := Some now\<rparr>) (bs_operations s)\<rparr>"
    using assms by (auto simp: complete_cancellation_operation_def split: option.splits if_splits)
  have "rows_kept operation_kept (bs_operations s) (bs_operations s')"
    unfolding s' using x by (auto intro!: rows_kept_update simp: operation_kept_def cancellation_facts.defs)
  then show ?thesis
    by (simp add: s' log_grows_def log_ok_def activity_versions_def job_versions_def scope_version_def)
qed (simp add: log_grows_refl)

lemma grows_outbox_ops:
  "log_grows s (snd (claim_completion_outbox kept i sid who lease now s))"
  "mark_completion_outbox_delivered i sid who now s = Inr s' \<Longrightarrow> log_grows s s'"
  "log_grows s (release_completion_outbox i sid who s)"
  "log_grows s (snd (release_native_completion_outbox item who now s))"
  "mark_completion_outbox_uncertain i sid who s = Inr s' \<Longrightarrow> log_grows s s'"
proof -
  have rows: "log_grows s u" if "update_rows p f s = (n, u)" for p f n u
    using log_grows_frame [OF log_grows_refl] log_of_rows [of p f s] that by simp
  show "log_grows s (snd (claim_completion_outbox kept i sid who lease now s))"
    by (auto simp: claim_completion_outbox_def split: prod.splits intro: rows)
  show "log_grows s (release_completion_outbox i sid who s)"
    unfolding release_completion_outbox_def by (rule rows [OF prod.collapse [symmetric]])
  show "log_grows s (snd (release_native_completion_outbox item who now s))"
    by (auto simp: release_native_completion_outbox_def split: prod.splits intro: rows)
  show "mark_completion_outbox_delivered i sid who now s = Inr s' \<Longrightarrow> log_grows s s'"
    by (auto simp: mark_completion_outbox_delivered_def split: prod.splits if_splits option.splits intro: rows)
  show "mark_completion_outbox_uncertain i sid who s = Inr s' \<Longrightarrow> log_grows s s'"
    by (auto simp: mark_completion_outbox_uncertain_def split: prod.splits if_splits option.splits intro: rows)
qed

lemma store_op_grows:
  assumes "store_op env now ev s = Inr s'"
  shows "log_grows s s'"
  using assms by (cases ev) (auto simp: new_state_Inr maintain_job_retention_def
    dest: grows_activity_ops grows_upsert grows_progress_state grows_telemetry grows_delete grows_retention
      grows_cancellation_ops grows_finish_operation grows_outbox_ops(2,5) intro: grows_outbox_ops(1,3,4))

lemma store_step_grows: "log_grows s (store_step s e)"
  by (cases e) (auto simp: store_step_def transact_def log_grows_refl split: sum.splits dest: store_op_grows)

interpretation log: versioned_system store_step "\<lambda>_. True" log_ok "scope_version sid" for sid
proof
  fix s e
  show "log_ok s \<Longrightarrow> log_ok (store_step s e)" "scope_version sid s \<le> scope_version sid (store_step s e)"
    using store_step_grows [of s e] by (simp_all add: log_grows_def)
qed

lemma empty_store_log: "log_ok (empty_store agents held)"
  by (simp add: log_ok_def empty_store_def activity_versions_def job_versions_def)

lemma run_grows: "log_grows s (run store_step s es)"
  by (induction es arbitrary: s) (auto intro: log_grows_refl log_grows_trans store_step_grows)

lemma settled_kept:
  "log_grows s s' \<Longrightarrow> map_of (bs_operations s) k = Some x \<Longrightarrow> op_status x \<noteq> OpRecorded \<Longrightarrow>
   map_of (bs_operations s') k = Some x"
  unfolding log_grows_def rows_kept_def operation_kept_def by metis

definition operation_settled :: "string \<Rightarrow> string \<Rightarrow> bridge_state \<Rightarrow> bool" where
  "operation_settled sid rid s \<longleftrightarrow>
     (\<exists>x. map_of (bs_operations s) (sid, rid) = Some x \<and> op_status x \<noteq> OpRecorded)"

definition operation_at :: "string \<Rightarrow> string \<Rightarrow> bridge_state \<Rightarrow> operation_row option" where
  "operation_at sid rid s = map_of (bs_operations s) (sid, rid)"

interpretation settled: absorbing_system store_step "\<lambda>_. True" log_ok "operation_settled sid rid" "operation_at sid rid"
  for sid rid
proof
  fix s e
  assume "log_ok s" "operation_settled sid rid s"
  then obtain x where "map_of (bs_operations s) (sid, rid) = Some x" "op_status x \<noteq> OpRecorded"
      "map_of (bs_operations (store_step s e)) (sid, rid) = Some x"
    using settled_kept [OF store_step_grows] unfolding operation_settled_def by blast
  then show "operation_settled sid rid (store_step s e)" "operation_at sid rid (store_step s e) = operation_at sid rid s"
    by (simp_all add: operation_settled_def operation_at_def)
qed

end
