(* ===== verification/Store_Properties.thy ===== *)
theory Store_Properties
  imports Store_Log
begin

text \<open>
  What holds in every reachable store, and what no later operation takes back: the course and the
  announcements of Activities, the receipts of jobs, the provenance of cancellations, the delivery of
  the completion outbox, retention, and the silence of the relay once an Activity is over. The
  theory \<open>Store_Witnesses\<close> runs a concrete store in which every hypothesis holds.
\<close>

section \<open>Reachable stores\<close>

inductive reachable_store :: "bridge_state \<Rightarrow> bool" where
  reachable_start: "reachable_store (empty_store agents held)"
| reachable_step: "reachable_store s \<Longrightarrow> reachable_store (store_step s e)"

lemma reachable_ok: "reachable_store s \<Longrightarrow> store_inv s \<and> log_ok s"
  by (induction rule: reachable_store.induct)
    (simp_all add: empty_store_inv empty_store_log store.step_inv log.step_inv)

lemma reachable_run: "reachable_store s \<Longrightarrow> reachable_store (run store_step s es)"
  by (induction es arbitrary: s) (auto intro: reachable_step)

lemma reachable_ledger:
  assumes "reachable_store s"
  shows "ledger_inv (ledger_of s)"
  using reachable_ok [OF assms] by (simp add: store_inv_def)

lemma reachable_activity:
  assumes "reachable_store s" "map_of (bs_activities s) a = Some r"
  shows "course_ok (ledger_of s) a r" "announced_ok (ledger_of s) a r" "ac_counts r = count_activity_jobs a s"
  using inv_activityD [OF reachable_ledger [OF assms(1)], of a r] assms(2)
  by (simp_all add: count_activity_jobs_def statuses_def)

lemma reachable_job: "reachable_store s \<Longrightarrow> map_of (bs_jobs s) j = Some r \<Longrightarrow> job_ok (ledger_of s) j r"
  using reachable_ledger by (fastforce simp: ledger_inv_def ledger_base_def)

lemma reachable_tables: "reachable_store s \<Longrightarrow> tables_ok (ledger_of s)"
  using reachable_ledger by (simp add: ledger_inv_def ledger_base_def)

lemma reachable_le: "reachable_store s \<Longrightarrow> ledger_le (ledger_of s) (ledger_of (run store_step s es))"
  using run_le reachable_ok by blast

lemma single_entry:
  "distinct (map f t) \<Longrightarrow> \<forall>x \<in> set t. f x = v \<Longrightarrow> e \<in> set t \<Longrightarrow> \<exists>e'. t = [e']"
  by (cases t; cases "tl t") auto

section \<open>Activities\<close>

text \<open>C2. Every run of store operations, whatever their arguments and whichever of them fail, is a
  sequence of moves of the abstract ledger: create, edit, reseal, close, complete with at most one
  announcement, settle with the jobs, write a job with its receipt, touch outbox rows, record intents.\<close>
theorem store_refines_ledger:
  "ledger_moves (ledger_of (empty_store agents held)) (ledger_of (run store_step (empty_store agents held) es))"
  using run_moves empty_store_inv by blast

text \<open>C11. In every reachable store the counts kept in an Activity row are the counts of its job rows,
  and a finished Activity has no running job.\<close>
theorem activity_counts_match:
  assumes "reachable_store s" "map_of (bs_activities s) a = Some r"
  shows "ac_counts r = count_activity_jobs a s \<and>
    (finished (ac_lifecycle r) \<longrightarrow>
      (\<forall>j x. map_of (bs_jobs s) j = Some x \<longrightarrow> jb_activity x = a \<longrightarrow> \<not> is_active_status (jb_status x)))"
proof -
  note d = reachable_activity [OF assms]
  have "\<not> is_active_status (jb_status x)"
    if "finished (ac_lifecycle r)" and x: "map_of (bs_jobs s) j = Some x" "jb_activity x = a" for j x
  proof -
    have "filter is_active_status (activity_statuses a (bs_jobs s)) = []"
      using that(1) d(1) by (simp add: course_ok_def statuses_def)
    then show ?thesis using statuses_member [OF x(1)] x(2) by (auto simp: filter_empty_conv)
  qed
  then show ?thesis using d(3) by blast
qed

text \<open>C10. In every reachable store an Activity is verified exactly when it is a completed Activity with the
  verify hand-off: nothing else completes a verify Activity, and verification never passes elsewhere.\<close>
theorem verified_iff_verify_completed:
  assumes "reachable_store s" "map_of (bs_activities s) a = Some r"
  shows "ac_verification r = Verified \<longleftrightarrow> ac_lifecycle r = LcCompleted \<and> ac_handoff r = HandoffVerify"
  using reachable_activity(1) [OF assms] by (auto simp: course_ok_def verification_ok_def split: verification.splits)

text \<open>C6. In every reachable store an Activity with the notify hand-off has exactly one notification in the
  completion outbox once it is completed, for its current completion version, and every other Activity
  has none.\<close>
theorem notified_exactly_once:
  assumes "reachable_store s" "map_of (bs_activities s) a = Some r"
  shows "map ob_completion (filter (\<lambda>e. ob_activity e = a \<and> ob_channel e = ChNotify) (bs_outbox s)) =
    (if ac_lifecycle r = LcCompleted \<and> ac_handoff r = HandoffNotify then [ac_completion r] else [])"
proof -
  let ?t = "filter (\<lambda>e. ob_activity e = a \<and> ob_channel e = ChNotify) (bs_outbox s)"
  have ok: "announced_ok (ledger_of s) a r" by (rule reachable_activity(2) [OF assms])
  have t: "ac_lifecycle r = LcCompleted \<and> ac_handoff r = HandoffNotify \<and> ob_completion e = ac_completion r"
    if "e \<in> set ?t" for e using ok that by (auto simp: announced_ok_def)
  have "distinct (map entry_of (bs_outbox s))" using reachable_tables [OF assms(1)] by (simp add: tables_ok_def)
  then have d: "distinct (map entry_of ?t)" by (rule distinct_map_filter)
  show ?thesis
  proof (cases "ac_lifecycle r = LcCompleted \<and> ac_handoff r = HandoffNotify")
    case True
    then have "(a, ac_completion r, ChNotify) \<in> entry_of ` set (bs_outbox s)" using ok by (simp add: announced_ok_def)
    then obtain e where "e \<in> set (bs_outbox s)" "entry_of e = (a, ac_completion r, ChNotify)" by (metis imageE)
    then have e: "e \<in> set ?t" by (simp add: entry_of_def)
    have same: "\<forall>x \<in> set ?t. entry_of x = (a, ac_completion r, ChNotify)"
    proof
      fix x assume "x \<in> set ?t"
      with t [OF this] show "entry_of x = (a, ac_completion r, ChNotify)" by (simp add: entry_of_def)
    qed
    obtain e' where "?t = [e']" using single_entry [OF d same] e by blast
    then show ?thesis using t [of e'] True by simp
  next
    case False
    then have "?t = []" using t by (metis last_in_set)
    then show ?thesis using False by simp
  qed
qed

text \<open>C7. A finished Activity is final: no later run of operations changes its lifecycle, verification,
  hand-off or completion version.\<close>
theorem finished_activity_is_final:
  assumes "reachable_store s" "map_of (bs_activities s) a = Some r" "finished (ac_lifecycle r)"
  shows "activity_outcome a (run store_step s es) =
    Some (ac_lifecycle r, ac_verification r, ac_handoff r, ac_completion r)"
proof -
  have "activity_over a s" using assms(2,3) by (auto simp: activity_over_def)
  then have "activity_outcome a (run store_step s es) = activity_outcome a s"
    using over.run_closed reachable_ok [OF assms(1)] by (simp add: list_all_iff)
  then show ?thesis using assms(2) by (simp add: activity_outcome_def)
qed

text \<open>C16. Once an Activity is finished its relay is silent: whatever the relay store holds and whatever
  operations follow, nothing is pending for it, no event of it is claimed and none enters sending.\<close>
theorem finished_activity_relay_silent:
  assumes "reachable_store s" "map_of (bs_activities s) a = Some r" "finished (ac_lifecycle r)"
    and "e = relay_env_of env (run store_step s es)"
  shows "relay_pending e event_of a now rs = [] \<and>
    relay_claim e event_of now a owner cid eid attempt rs \<noteq> Inr (Some ev, rs') \<and>
    relay_enter e event_of now a owner cid eid attempt rs \<noteq> Inr (True, rs')"
proof -
  have "activity_over a (run store_step s es)"
    using over.run_closed [of s a es] reachable_ok [OF assms(1)] assms(2,3)
    by (auto simp: list_all_iff activity_over_def)
  then have ended: "re_ended e a"
    using assms(4) by (auto simp: relay_env_of_def is_event_activity_ended_def activity_over_def)
  have quiet: "relay_pending e event_of a now rs = []"
    using ended by (simp add: relay_pending_def split: option.splits)
  have stale: "require_current_event e event_of a eid rs \<noteq> Inr x" for x
    using ended by (auto simp: require_current_event_def res_bind_Inr_iff split: option.splits if_splits)
  have "relay_claim e event_of now a owner cid eid attempt rs \<noteq> Inr (Some ev, rs')"
    using stale by (auto simp: relay_claim_def res_bind_Inr_iff)
  moreover have "relay_enter e event_of now a owner cid eid attempt rs \<noteq> Inr (True, rs')"
    using stale by (auto simp: relay_enter_def res_bind_Inr_iff)
  ultimately show ?thesis using quiet by simp
qed

section \<open>Jobs and cancellations\<close>


text \<open>C4. A job is cancelled only on request: every cancelled job names a durable cancellation intent whose
  target is this very job in this scope, and that intent's source, request and target never change.\<close>
theorem cancelled_job_was_requested:
  assumes "reachable_store s" "map_of (bs_jobs s) j = Some r" "jb_status r = JsCancelled"
  shows "\<exists>i it it'. jb_intent r = Some i \<and> map_of (bs_intents s) i = Some it \<and>
    tg_kind (cn_target it) = TargetJob \<and> tg_job (cn_target it) = Some j \<and> cn_scope it = jb_scope r \<and>
    map_of (bs_intents (run store_step s es)) i = Some it' \<and>
    cancellation_facts.truncate it' = cancellation_facts.truncate it"
proof -
  have "authorized (bs_intents s) j r" using reachable_job [OF assms(1,2)] assms(3) by (simp add: job_ok_def)
  then obtain i it where i: "jb_intent r = Some i" "map_of (bs_intents s) i = Some it" "intent_targets it j (jb_scope r)"
    by (auto simp: authorized_def truthy_string_def split: option.splits if_splits)
  obtain it' where "map_of (bs_intents (run store_step s es)) i = Some it'" "intent_kept it it'"
    using ledger_leD(4) [OF reachable_le [OF assms(1)] i(2)] by blast
  then show ?thesis using i by (auto simp: intent_targets_def intent_kept_def)
qed

text \<open>C17. The outcome of a cancellation is recorded once: a settled intent keeps its status, and a settled
  operation its status, result and time, whatever is called later.\<close>
theorem cancellation_settled_once:
  assumes "reachable_store s"
  shows "(map_of (bs_intents s) i = Some it \<and> intent_settled (it_status it) \<longrightarrow>
      map_option it_status (map_of (bs_intents (run store_step s es)) i) = Some (it_status it)) \<and>
    (map_of (bs_operations s) (sid, rid) = Some x \<and> op_status x \<noteq> OpRecorded \<longrightarrow>
      map_of (bs_operations (run store_step s es)) (sid, rid) = Some x)"
proof (intro conjI impI; elim conjE)
  assume "map_of (bs_intents s) i = Some it" "intent_settled (it_status it)"
  then show "map_option it_status (map_of (bs_intents (run store_step s es)) i) = Some (it_status it)"
    using ledger_leD(4) [OF reachable_le [OF assms]] by (fastforce simp: intent_kept_def)
next
  assume x: "map_of (bs_operations s) (sid, rid) = Some x" "op_status x \<noteq> OpRecorded"
  then have "operation_settled sid rid s" by (auto simp: operation_settled_def)
  then have "operation_at sid rid (run store_step s es) = operation_at sid rid s"
    using settled.run_closed reachable_ok [OF assms] by (simp add: list_all_iff)
  then show "map_of (bs_operations (run store_step s es)) (sid, rid) = Some x" using x by (simp add: operation_at_def)
qed

lemma source_listed: "list_ex (\<lambda>x. JStr (source_name src) = JStr (source_name x)) cancellation_sources"
  by (cases src) (simp_all add: cancellation_sources_def)

lemma uuid_length:
  assumes "uuid_text s"
  shows "length s = 36"
proof -
  obtain a b c d e where p: "split_on (CHR ''-'') s = [a, b, c, d, e]"
    and l: "length a = 8" "length b = 4" "length c = 4" "length d = 4" "length e = 12"
    using assms by (auto simp: uuid_text_def Let_def map_eq_Cons_conv)
  have "s = join_with [CHR ''-''] [a, b, c, d, e]" using p by (metis join_split)
  then show ?thesis using l by simp
qed

text \<open>The correlation handed to the worker for a recorded intent passes the check the worker makes before
  it terminates a turn: provenance that was stored is never refused on the way back.\<close>
theorem stored_intent_correlates:
  assumes "reachable_store s" "map_of (bs_intents s) i = Some it" "i \<noteq> ''''" "length i \<le> 200"
  shows "assert_termination_correlation (termination_correlation i it) = Inr ()"
proof -
  have ok: "intent_facts_ok it" using reachable_tables [OF assms(1)] assms(2) by (simp add: tables_ok_def)
  then have "length (cn_request it) = 36" using uuid_length by (simp add: intent_facts_ok_def)
  then show ?thesis
    using ok assms(3,4) source_listed [of "cn_source it"]
    by (auto simp: termination_correlation_def assert_termination_correlation_def is_object_def bounded_identifier_def
        intent_facts_ok_def Let_def)
qed


section \<open>The completion outbox\<close>

lemma find_row_id: "find_row i s = Some r \<Longrightarrow> r \<in> set (bs_outbox s) \<and> ob_id r = i"
  by (auto simp: find_row_def find_Some_iff)

text \<open>C12. A hand-off that was delivered or acknowledged is never handed out again: after any later run no
  claim of that row succeeds, for any client, at any time.\<close>
theorem delivered_never_claimed_again:
  assumes "reachable_store s" "r \<in> set (bs_outbox s)" "ob_delivered r \<noteq> None \<or> ob_acked r \<noteq> None"
  shows "fst (claim_completion_outbox kept (ob_id r) sid who lease now (run store_step s es)) = None"
proof -
  let ?s = "run store_step s es"
  obtain r' where r': "r' \<in> set (bs_outbox ?s)" "same_entry r r'"
    using ledger_leD(5) [OF reachable_le [OF assms(1)] assms(2)] by blast
  have d: "distinct (map ob_id (bs_outbox ?s))"
    using reachable_tables [OF reachable_run [OF assms(1)]] by (simp add: tables_ok_def)
  have "\<not> undelivered x" if "x \<in> set (bs_outbox ?s)" "ob_id x = ob_id r" for x
  proof -
    have "x = r'" using d r' that by (metis distinct_map inj_onD same_entry_def)
    then show ?thesis using r'(2) assms(3) by (auto simp: undelivered_def same_entry_def)
  qed
  then have "filter (claimable_row kept (ob_id r) sid who now) (bs_outbox ?s) = []"
    by (auto simp: filter_empty_conv claimable_row_def is_row_def)
  then show ?thesis by (simp add: claim_completion_outbox_def update_rows_def)
qed

text \<open>C18. A claimed hand-off is exclusive: while the lease one client took has not expired, no other client
  can claim the row.\<close>
theorem claim_is_exclusive:
  assumes "reachable_store s" "claim_completion_outbox kept i sid who lease now s = (Some r, s')"
    and "who' \<noteq> who" "now' < now + lease"
  shows "fst (claim_completion_outbox kept' i sid' who' lease' now' s') = None"
proof -
  let ?p = "claimable_row kept i sid who now" and ?f = "lease_row who (now + lease)"
  have n: "length (filter ?p (bs_outbox s)) = 1" and s': "bs_outbox s' = map (\<lambda>r. if ?p r then ?f r else r) (bs_outbox s)"
    using assms(2) by (auto simp: claim_completion_outbox_def update_rows_def split: if_splits)
  have d: "distinct (map ob_id (bs_outbox s))" using reachable_tables [OF assms(1)] by (simp add: tables_ok_def)
  obtain c where c: "c \<in> set (bs_outbox s)" "?p c"
  proof -
    have "filter ?p (bs_outbox s) \<noteq> []" using n by auto
    then show ?thesis using that by (auto simp: filter_empty_conv)
  qed
  have "\<not> claimable_row kept' i sid' who' now' x" if x: "x \<in> set (bs_outbox s')" for x
  proof -
    obtain y where y: "y \<in> set (bs_outbox s)" "x = (if ?p y then ?f y else y)" using x s' by auto
    show ?thesis
    proof (cases "ob_id y = i")
      case True
      then have "y = c" using d y(1) c by (metis claimable_row_def distinct_map inj_onD is_row_def)
      then show ?thesis using y(2) c(2) assms(3,4)
        by (auto simp: claimable_row_def is_row_def lease_row_def lease_passed_def)
    qed (use y in \<open>auto simp: claimable_row_def is_row_def lease_row_def\<close>)
  qed
  then have "filter (claimable_row kept' i sid' who' now') (bs_outbox s') = []" by (auto simp: filter_empty_conv)
  then show ?thesis by (simp add: claim_completion_outbox_def update_rows_def)
qed

lemma foldl_min_least: "(foldl min d ts \<le> (n :: int)) \<longleftrightarrow> d \<le> n \<or> (\<exists>t \<in> set ts. t \<le> n)"
  by (induction ts arbitrary: d) (auto simp: min_le_iff_disj)

lemma sort_key_empty: "sort_key f xs = [] \<longleftrightarrow> xs = []"
  by (metis length_0_conv length_sort)

text \<open>The delivery worker is told that native hand-offs are available exactly when the list of notify
  rows it would then read is not empty.\<close>
theorem availability_iff_listed:
  assumes "reachable_store s" "0 \<le> now" "1 \<le> limit"
  shows "av_available (native_completion_availability kept now s) \<longleftrightarrow>
    list_pending_notify_completion_outbox kept limit now s \<noteq> []"
proof -
  let ?t = "filter (\<lambda>r. kept r \<and> ob_channel r = ChNotify \<and> undelivered r) (bs_outbox s)"
  have lease: "lease_ok r" if "r \<in> set (bs_outbox s)" for r
    using reachable_tables [OF assms(1)] that by (simp add: tables_ok_def)
  have due: "row_due_at r \<le> now \<longleftrightarrow> due (ob_next r) now \<and> (ob_lease_owner r = None \<or> lease_passed r now)"
    if "r \<in> set (bs_outbox s)" for r
    using lease [OF that] assms(2) by (auto simp: row_due_at_def due_def lease_passed_def lease_ok_def split: option.splits)
  have "av_available (native_completion_availability kept now s) \<longleftrightarrow> (\<exists>r \<in> set ?t. row_due_at r \<le> now)"
  proof (cases ?t)
    case Nil
    then show ?thesis by (simp only: native_completion_availability_def list.map list.case availability.simps) simp
  next
    case (Cons r t)
    then show ?thesis
      by (simp add: native_completion_availability_def Let_def foldl_min_least del: filter.simps)
  qed
  also have "\<dots> \<longleftrightarrow> (\<exists>r \<in> set (bs_outbox s). kept r \<and> ob_channel r = ChNotify \<and> undelivered r \<and> due (ob_next r) now \<and>
      (ob_lease_owner r = None \<or> lease_passed r now))"
    using due by auto
  also have "\<dots> \<longleftrightarrow> list_pending_notify_completion_outbox kept limit now s \<noteq> []"
    using assms(3) by (auto simp: list_pending_notify_completion_outbox_def page_size_def filter_empty_conv
        sort_key_empty)
  finally show ?thesis .
qed

text \<open>The pause before a failed native hand-off is tried again never shrinks with the number of attempts
  and stays between five seconds and five minutes.\<close>
theorem retry_pause_bounded:
  "5000 \<le> native_completion_retry_ms n \<and> native_completion_retry_ms n \<le> native_completion_retry_ms (n + 1) \<and>
   native_completion_retry_ms n \<le> 300000"
proof -
  have "max 0 (min 6 (n - 1)) \<le> max 0 (min 6 (n + 1 - 1))" by simp
  then have "nat (max 0 (min 6 (n - 1))) \<le> nat (max 0 (min 6 (n + 1 - 1)))" by (rule nat_mono)
  then have "(2 :: int) ^ nat (max 0 (min 6 (n - 1))) \<le> 2 ^ nat (max 0 (min 6 (n + 1 - 1)))"
    by (intro power_increasing) simp_all
  moreover have "(1 :: int) \<le> 2 ^ nat (max 0 (min 6 (n - 1)))" by simp
  ultimately show ?thesis unfolding native_completion_retry_ms_def by linarith
qed

section \<open>Completion and retention\<close>

text \<open>C34. When an Activity can be completed by hand: exactly when it exists, is not finished, none of its jobs
  is active, it does not have the verify hand-off (such an Activity completes only by passing its
  verification) and the reason is acceptable text. Otherwise the call fails and changes nothing.\<close>
theorem complete_activity_accepts_iff:
  assumes "reachable_store s"
  shows "(is_ok (complete_activity env a why now s) \<longleftrightarrow>
    (\<exists>r. map_of (bs_activities s) a = Some r \<and> \<not> finished (ac_lifecycle r) \<and> ac_handoff r \<noteq> HandoffVerify \<and>
      filter is_active_status (activity_statuses a (bs_jobs s)) = [] \<and> is_ok (bounded_text env why 2000))) \<and>
    (is_ok (complete_activity env a why now s) \<or> store_step s (env, now, EvComplete a why) = s)"
proof
  show "is_ok (complete_activity env a why now s) \<longleftrightarrow>
    (\<exists>r. map_of (bs_activities s) a = Some r \<and> \<not> finished (ac_lifecycle r) \<and> ac_handoff r \<noteq> HandoffVerify \<and>
      filter is_active_status (activity_statuses a (bs_jobs s)) = [] \<and> is_ok (bounded_text env why 2000))"
  proof (cases "map_of (bs_activities s) a")
    case None
    then show ?thesis
      by (simp add: complete_activity_def require_mutable_activity_def require_activity_def)
  next
    case (Some r)
    note d = reachable_activity [OF assms Some]
    have running: "0 < jc_running (ac_counts r) \<longleftrightarrow> filter is_active_status (activity_statuses a (bs_jobs s)) \<noteq> []"
      using d(3) by (simp add: count_activity_jobs_def)
    have v: "verification_ok (ac_verification r) (ac_handoff r) (ac_lifecycle r)" using d(1) by (simp add: course_ok_def)
    have texts: "is_ok (res_bind (bounded_text env why 2000) (\<lambda>_. Inr (f :: bridge_state))) \<longleftrightarrow>
        is_ok (bounded_text env why 2000)" for f
      by (cases "bounded_text env why 2000") simp_all
    show ?thesis
    proof (cases "finished (ac_lifecycle r) \<or> 0 < jc_running (ac_counts r)")
      case True
      then show ?thesis using Some running
        by (auto simp: complete_activity_def require_mutable_activity_def require_activity_def assert_no_running_jobs_def)
    next
      case False
      then have "ac_handoff r = HandoffVerify \<longleftrightarrow>
          ac_verification r \<in> {VerPending, Verifying} \<or> ac_handoff r = HandoffVerify \<and> ac_verification r \<noteq> Verified"
        using v by (auto simp: verification_ok_def finished_def split: verification.splits)
      then show ?thesis using False Some running
        by (auto simp: complete_activity_def require_mutable_activity_def require_activity_def assert_no_running_jobs_def
            Let_def texts split: if_splits)
    qed
  qed
  show "is_ok (complete_activity env a why now s) \<or> store_step s (env, now, EvComplete a why) = s"
    by (cases "complete_activity env a why now s") (simp_all add: store_step_def transact_def)
qed

lemma delete_job_cases:
  assumes "delete_job j now s = Inr (gone, s')"
  obtains (left) "\<not> gone" "s' = s"
  | (archived) x where "gone" "map_of (bs_jobs s) j = Some x" "is_terminal_status (jb_status x)"
      "bs_jobs s' = AList.update j (x\<lparr>jb_archived := Some now\<rparr>) (bs_jobs s)"
proof (cases gone)
  case False
  then show ?thesis using assms left by (auto simp: delete_job_def res_bind_Inr_iff split: option.splits if_splits)
next
  case True
  obtain x where x: "map_of (bs_jobs s) j = Some x" "\<not> is_active_status (jb_status x)"
    using assms True by (auto simp: delete_job_def retention_protection_def split: option.splits if_splits)
  have "bs_jobs s' = AList.update j (x\<lparr>jb_archived := Some now\<rparr>) (bs_jobs s)"
    using assms x True by (auto simp: delete_job_def touch_activity_def res_bind_Inr_iff put_activity_def
        add_activity_event_def add_job_event_def put_job_def next_scope_version_def ensure_scope_def Let_def
        split: if_splits)
  then show ?thesis using archived True x by (simp add: active_or_terminal)
qed

lemma delete_job_total:
  assumes "ledger_inv (ledger_of s)"
  shows "\<exists>r. delete_job j now s = Inr r"
proof (cases "map_of (bs_jobs s) j")
  case (Some x)
  then have "job_ok (ledger_of s) j x" using assms by (simp add: ledger_inv_def ledger_base_def)
  then obtain act where "map_of (bs_activities s) (jb_activity x) = Some act" by (auto simp: job_ok_def)
  then show ?thesis using Some
    by (auto simp: delete_job_def touch_activity_def require_activity_def put_job_def add_job_event_def
        next_scope_version_def ensure_scope_def Let_def)
qed (auto simp: delete_job_def)

lemma retention_total:
  "ledger_inv (ledger_of s) \<Longrightarrow> \<exists>r. retention_loop k in_time cs removed left out s = Inr r"
proof (induction cs arbitrary: in_time removed left out s)
  case (Cons c cs)
  obtain gone s1 where d: "delete_job (rc_job c) (rk_now k) s = Inr (gone, s1)"
    using delete_job_total [OF Cons.prems] by force
  have "ledger_inv (ledger_of s1)" using moves_inv [OF moves_delete [OF d Cons.prems] Cons.prems] .
  then show ?case using Cons by (simp add: Let_def d)
qed simp

definition removed_in :: "(string \<times> disposition) list \<Rightarrow> nat" where
  "removed_in out = length (filter (\<lambda>d. snd d = DispRemoved) out)"

definition retained_row :: "int \<Rightarrow> (string \<times> disposition) list \<Rightarrow> string \<Rightarrow> job_row \<Rightarrow> job_row \<Rightarrow> bool" where
  "retained_row now out j x y \<longleftrightarrow> y = x \<or>
     (j, DispRemoved) \<in> set out \<and> is_terminal_status (jb_status x) \<and> y = x\<lparr>jb_archived := Some now\<rparr>"

lemma same_or_image:
  assumes "y = x \<or> A \<and> T x \<and> y = f x" "z = y \<or> B \<and> T y \<and> z = f y" "f (f x) = f x"
  shows "z = x \<or> (A \<or> B) \<and> T x \<and> z = f x"
  using assms by auto

lemma retained_row_trans:
  assumes "retained_row now [d] j x y" "retained_row now new j y z"
  shows "retained_row now (d # new) j x z"
proof -
  have "(j, DispRemoved) \<in> set (d # new) \<longleftrightarrow> (j, DispRemoved) \<in> set [d] \<or> (j, DispRemoved) \<in> set new" by auto
  then show ?thesis
    using same_or_image [OF assms [unfolded retained_row_def]] unfolding retained_row_def by simp
qed

lemma retention_effect:
  assumes "retention_loop k in_time cs removed left out s = Inr ((out', left'), s')" "removed \<le> rk_max_removed k"
  shows "\<exists>new. out' = out @ new \<and> map fst new = take (length new) (map rc_job cs) \<and>
    removed + removed_in new \<le> rk_max_removed k \<and>
    (\<forall>j x. map_of (bs_jobs s) j = Some x \<longrightarrow>
      (\<exists>y. map_of (bs_jobs s') j = Some y \<and> retained_row (rk_now k) new j x y))"
  using assms
proof (induction cs arbitrary: in_time removed left out s)
  case Nil
  then show ?case by (intro exI [of _ "[]"]) (simp add: removed_in_def retained_row_def)
next
  case (Cons c cs)
  have step: ?case
    if r: "retention_loop k t cs n m (out @ [(rc_job c, d)]) s1 = Inr ((out', left'), s')"
      and n: "n = removed + (if d = DispRemoved then 1 else 0)" "n \<le> rk_max_removed k"
      and keep: "\<And>j x. map_of (bs_jobs s) j = Some x \<Longrightarrow>
        \<exists>y. map_of (bs_jobs s1) j = Some y \<and> retained_row (rk_now k) [(rc_job c, d)] j x y"
    for t n m d s1
  proof -
    obtain new where new: "out' = (out @ [(rc_job c, d)]) @ new" "map fst new = take (length new) (map rc_job cs)"
        "n + removed_in new \<le> rk_max_removed k"
        "\<And>j x. map_of (bs_jobs s1) j = Some x \<Longrightarrow> \<exists>y. map_of (bs_jobs s') j = Some y \<and> retained_row (rk_now k) new j x y"
      using Cons.IH [OF r n(2)] by blast
    have "\<exists>z. map_of (bs_jobs s') j = Some z \<and> retained_row (rk_now k) ((rc_job c, d) # new) j x z"
      if x: "map_of (bs_jobs s) j = Some x" for j x
    proof -
      obtain y where y: "map_of (bs_jobs s1) j = Some y" "retained_row (rk_now k) [(rc_job c, d)] j x y"
        using keep [OF x] by blast
      obtain z where "map_of (bs_jobs s') j = Some z" "retained_row (rk_now k) new j y z" using new(4) [OF y(1)] by blast
      then show ?thesis using retained_row_trans [OF y(2)] by blast
    qed
    then show ?thesis
      using new(1-3) n(1) by (intro exI [of _ "(rc_job c, d) # new"]) (auto simp: removed_in_def)
  qed
  consider "out' = out \<and> s' = s"
    | t m d where "retention_loop k t cs removed m (out @ [(rc_job c, d)]) s = Inr ((out', left'), s')" "d \<noteq> DispRemoved"
    | t m gone s1 where "removed < rk_max_removed k" "delete_job (rc_job c) (rk_now k) s = Inr (gone, s1)"
        "retention_loop k t cs (if gone then removed + 1 else removed) m
          (out @ [(rc_job c, if gone then DispRemoved else DispProtected)]) s1 = Inr ((out', left'), s')"
    using Cons.prems(1) unfolding retention_loop.simps Let_def
    by (simp only: split: if_split_asm) (auto simp: res_bind_Inr_iff split: if_splits)
  then show ?case
  proof cases
    case 1
    then show ?thesis using Cons.prems(2)
      by (intro exI [of _ "[]"]) (simp add: removed_in_def retained_row_def)
  next
    case 2
    then show ?thesis using Cons.prems(2) by (intro step [OF 2(1)]) (simp_all add: retained_row_def)
  next
    case (3 t m gone s1)
    from 3(2) show ?thesis
    proof (cases rule: delete_job_cases)
      case left
      then show ?thesis using 3 Cons.prems(2) by (intro step [of t removed m DispProtected s]) (simp_all add: retained_row_def)
    next
      case (archived x)
      then show ?thesis using 3
        by (intro step [of t "removed + 1" m DispRemoved s1]) (auto simp: retained_row_def map_of_update)
    qed
  qed
qed

text \<open>C35. Retention is total and bounded: on any candidates and any deadline it returns, decides the
  candidates in order, archives at most the number allowed, and touches no job row except to archive the
  jobs it reports as removed, all of them terminal.\<close>
theorem retention_bounded:
  assumes "reachable_store s"
  shows "\<exists>out left s'. maintain_job_retention k in_time s = Inr ((out, left), s') \<and>
    map fst out = take (length out) (map rc_job (rk_candidates k)) \<and> removed_in out \<le> rk_max_removed k \<and>
    (\<forall>j x. map_of (bs_jobs s) j = Some x \<longrightarrow>
      (\<exists>y. map_of (bs_jobs s') j = Some y \<and> retained_row (rk_now k) out j x y))"
proof -
  obtain out left s' where r: "maintain_job_retention k in_time s = Inr ((out, left), s')"
    using retention_total [OF reachable_ledger [OF assms]] unfolding maintain_job_retention_def by force
  then show ?thesis
    using retention_effect [of k in_time "rk_candidates k" 0 "rk_reservations k" "[]" s out left s']
    by (auto simp: maintain_job_retention_def)
qed

end
