(* ===== verification/Store_Witnesses.thy ===== *)
theory Store_Witnesses
  imports Store_Properties
begin

text \<open>
  A concrete run of the store, in which every hypothesis of \<open>Store_Properties\<close> holds: a verify Activity
  whose job completes and whose verification passes, and a notify Activity whose job is cancelled on
  request, which is then completed and its notification claimed and delivered.
\<close>

definition example_store_env :: store_env where
  "example_store_env = \<lparr>se_experimental = False, se_instance = ''bridge'', se_legacy_activity = (\<lambda>_. ''''),
     se_project_id = Some, se_project_name = Some, se_normal_path = (\<lambda>p. p),
     se_human_text = (\<lambda>n s. if length s \<le> n then Some s else None), se_project_active = (\<lambda>_. True),
     se_request_retired = (\<lambda>_ _ _. False), se_job_retired = (\<lambda>_. False), se_job_expired = (\<lambda>_. False),
     se_visible = (\<lambda>_. True), se_admission_blocked = (\<lambda>_ _. False), se_followup_ok = (\<lambda>_. True),
     se_followup_parent = (\<lambda>_ _ _. True), se_event_of = (\<lambda>_. None), se_relay_retired = (\<lambda>_. False)\<rparr>"

definition scope_s :: string where "scope_s = ''00000000-0000-4000-8000-0000000000a1''"
definition verify_a :: string where "verify_a = ''00000000-0000-4000-8000-0000000000b1''"
definition notify_a :: string where "notify_a = ''00000000-0000-4000-8000-0000000000b2''"
definition request_r :: string where "request_r = ''00000000-0000-4000-8000-0000000000c1''"
definition intent_i :: string where "intent_i = ''00000000-0000-4000-8000-0000000000d1''"

definition create_of :: "string \<Rightarrow> handoff_policy \<Rightarrow> store_event" where
  "create_of a h = EvCreate \<lparr>ci_activity = a, ci_scope = scope_s, ci_kind = Implementation, ci_handoff = h,
     ci_trigger = SealedJobsTerminal, ci_project_id = None, ci_project_name = None, ci_project_cwd = None,
     ci_continuation = None, ci_title = None, ci_legacy = False\<rparr>"

definition job_of :: "string \<Rightarrow> string \<Rightarrow> string \<Rightarrow> terminal_origin option \<Rightarrow> string option \<Rightarrow> string option \<Rightarrow> store_event" where
  "job_of a j st why intent thread = EvUpsert \<lparr>ji_id = j, ji_activity = Some a, ji_scope = scope_s, ji_request = j,
     ji_status = st, ji_thread = thread, ji_session_thread = None, ji_source = None, ji_worker = None,
     ji_generation = None, ji_turn = None, ji_terminal_version = None, ji_agent = None, ji_context = None,
     ji_project_id = None, ji_project_name = None, ji_cwd = Some ''/w'', ji_sandbox = None, ji_principal = None,
     ji_tracking = None, ji_policy = None, ji_origin = why, ji_intent = intent, ji_created = None, ji_updated = 5,
     ji_version = None, ji_inputs = []\<rparr>"

definition evidence :: verification_evidence where
  "evidence = \<lparr>ve_summary = Some ''checked'', ve_jobs = Some [''j1''], ve_tests = None, ve_artifacts = None,
     ve_references = None\<rparr>"

definition cancel_of :: "string \<Rightarrow> string \<Rightarrow> cancel_request" where
  "cancel_of a j = \<lparr>cr_scope = scope_s, cr_request = request_r, cr_source = ''model-tool'', cr_tool = ''cancel'',
     cr_action = ''cancel'', cr_target_kind = ''job'', cr_target_job = Some j, cr_target_activity = a,
     cr_target_agent = None, cr_target_thread = None, cr_target_turn = None, cr_target_presentation = None,
     cr_expected = 1, cr_presentation = None, cr_widget = None, cr_caller_digest = None,
     cr_reason_code = ''user-requested'', cr_now = 6\<rparr>"

definition zero_digest :: string where "zero_digest = replicate 64 (CHR ''0'')"

definition at_time :: "int \<Rightarrow> store_event \<Rightarrow> store_call_event" where
  "at_time t e = (example_store_env, t, e)"

definition verify_events :: "store_call_event list" where
  "verify_events = [at_time 1 (create_of verify_a HandoffVerify), at_time 2 (job_of verify_a ''j1'' ''running'' None None None),
     at_time 3 (job_of verify_a ''j1'' ''completed'' (Some NormalCompletion) None None), at_time 4 (EvSeal verify_a),
     at_time 5 (EvStartVerification verify_a)]"

definition verifying_store :: bridge_state where
  "verifying_store = run store_step (empty_store [] []) verify_events"

definition verified_store :: bridge_state where
  "verified_store = store_step verifying_store (at_time 6 (EvPassVerification verify_a evidence))"

definition cancel_events :: "store_call_event list" where
  "cancel_events = [at_time 7 (create_of notify_a HandoffNotify), at_time 8 (job_of notify_a ''j2'' ''running'' None None None),
     at_time 9 (EvBeginCancellation (cancel_of notify_a ''j2'') zero_digest None intent_i),
     at_time 10 (EvIntentStatus intent_i IntentDispatched),
     at_time 11 (job_of notify_a ''j2'' ''cancelled'' (Some ExplicitCancellation) (Some intent_i) None),
     at_time 12 (EvIntentStatus intent_i IntentSucceeded), at_time 13 (EvFinishOperation scope_s request_r JNull OpCompleted)]"

definition cancelled_store :: bridge_state where
  "cancelled_store = run store_step (empty_store [] []) cancel_events"

definition notified_store :: bridge_state where
  "notified_store = store_step cancelled_store (at_time 14 (EvComplete notify_a None))"

definition delivered_store :: bridge_state where
  "delivered_store = run store_step notified_store
     [at_time 20 (EvClaim (\<lambda>_. True) 1 scope_s ''host'' 100), at_time 21 (EvDelivered 1 scope_s ''host'')]"

section \<open>Evaluating the run\<close>

text \<open>The simplifier runs the operations one after another; bodies of the error monad and of
  \<open>let\<close> wait until what they depend on is evaluated.\<close>

lemma res_bind_weak: "r = r' \<Longrightarrow> res_bind r f = res_bind r' f"
  by simp

lemma example_ids [simp]:
  "normalize_uuid scope_s = Inr scope_s" "normalize_uuid verify_a = Inr verify_a"
  "normalize_uuid notify_a = Inr notify_a" "normalize_uuid request_r = Inr request_r"
  "normalize_uuid intent_i = Inr intent_i"
  by (simp_all add: normalize_uuid_idem uuid_text_def is_hex_def scope_s_def verify_a_def notify_a_def request_r_def
      intent_i_def Let_def)

lemma example_ids_differ [simp]:
  "scope_s \<noteq> ''''" "verify_a \<noteq> ''''" "notify_a \<noteq> ''''" "intent_i \<noteq> ''''" "request_r \<noteq> ''''"
  "verify_a \<noteq> notify_a" "notify_a \<noteq> verify_a" "length intent_i = 36"
  by (simp_all add: scope_s_def verify_a_def notify_a_def intent_i_def request_r_def)

lemma example_digest: "normalize_digest zero_digest = Inr zero_digest"
proof -
  have "js_trim zero_digest = zero_digest" "ascii_lower zero_digest = zero_digest"
    by (simp_all add: zero_digest_def js_trim_def ascii_lower_def js_space_def Let_def map_replicate_const)
  moreover have "list_all is_hex zero_digest" "length zero_digest = 64" "zero_digest \<noteq> []"
      "\<not> list_ex (\<lambda>c. (of_char c :: nat) \<in> {10, 13}) zero_digest"
    by (auto simp: zero_digest_def list_all_iff list_ex_iff is_hex_def Let_def)
  ultimately show ?thesis by (simp add: normalize_digest_def required_string_def trimmed_string_def Let_def)
qed

lemma example_env_sel:
  "se_experimental example_store_env = False" "se_project_id example_store_env = Some"
  "se_project_name example_store_env = Some" "se_normal_path example_store_env = (\<lambda>p. p)"
  "se_human_text example_store_env = (\<lambda>n s. if length s \<le> n then Some s else None)"
  "se_project_active example_store_env = (\<lambda>_. True)" "se_request_retired example_store_env = (\<lambda>_ _ _. False)"
  "se_job_retired example_store_env = (\<lambda>_. False)" "se_job_expired example_store_env = (\<lambda>_. False)"
  "se_admission_blocked example_store_env = (\<lambda>_ _. False)" "se_followup_ok example_store_env = (\<lambda>_. True)"
  "se_instance example_store_env = ''bridge''"
  by (simp_all add: example_store_env_def)

lemmas step_eval = store_step_def transact_def at_time_def create_of_def job_of_def empty_store_def empty_relay_def
  ensure_scope_def next_scope_version_def add_activity_event_def add_job_event_def put_activity_def put_job_def
  scope_version_def call_def call_if_def end_relay_def stop_events_def relay_end_activity_def Let_def
  require_activity_def require_mutable_activity_def assert_no_running_jobs_def finished_def

lemmas text_eval = required_text_def bounded_text_def required_string_def trimmed_string_def truthy_string_def
  or_string_def js_trim_def js_space_def

lemmas create_eval = create_activity_def project_admission_def project_identity_def continuation_source_def
  assert_project_active_def fresh_activity_def counts_for_single_status_def count_jobs_def

lemmas job_eval = upsert_job_def admit_job_def place_job_def job_status_of_def job_statuses_def is_active_status_def
  is_terminal_status_def check_new_work_def check_relay_goal_def activity_project_def coalesce_option_def old_def
  check_provenance_def origin_status_def normalized_option_def check_agent_def request_reused_def interactions_of_def
  admit_activity_def pin_project_def activity_admission_def commit_job_def write_job_row_def add_delivery_def
  new_job_row_def next_terminal_version_def valid_sandbox_def relay_policy_def visible_change_def
  record_job_change_def job_event_type_def truthy_time_def

lemmas activity_eval = reconcile_activity_def count_activity_jobs_def activity_statuses_def derive_activity_barrier_def
  keep_decision_def reconciled_row_def completion_transition_def or_else_def reconcile_event_type_def
  insert_completion_outbox_def seal_activity_def start_activity_verification_def acknowledge_completion_outbox_def
  complete_activity_def completed_row_def pass_activity_verification_def normalize_verification_evidence_def
  evidence_list_def evidence_jobs_belong_def evidence_def

lemmas facts_eval = normalize_facts_def normalize_source_def normalize_target_def normalize_presentation_def
  normalize_widget_def normalize_expected_def normalize_reason_code_def normalize_timestamp_def optional_with_def
  cancellation_sources_def bounded_reason_code_def lower_or_digit_def is_safe_integer_def max_safe_integer_def

definition example_facts :: cancellation_facts where
  "example_facts = \<lparr>cn_scope = scope_s, cn_request = request_r, cn_source = ModelTool, cn_tool = ''cancel'',
     cn_action = ''cancel'', cn_target = \<lparr>tg_kind = TargetJob, tg_job = Some ''j2'', tg_activity = notify_a,
       tg_agent = None, tg_thread = None, tg_turn = None, tg_presentation = None\<rparr>,
     cn_expected = 1, cn_presentation = None, cn_widget = None, cn_caller_digest = None,
     cn_reason_code = ''user-requested'', cn_instance = ''bridge'', cn_created = 6\<rparr>"

lemma example_facts: "normalize_facts example_store_env (cancel_of notify_a ''j2'') = Inr example_facts"
  by (simp add: example_env_sel text_eval facts_eval cancel_of_def example_facts_def Let_def
      cong: res_bind_weak let_weak_cong)

lemmas cancel_eval = begin_cancellation_operation_def assert_cancellation_target_def mismatch_def insert_intent_def
  put_intent_def put_operation_def intent_row_of_def cancellation_facts.defs record_intent_event_def
  intent_event_type_def set_cancellation_intent_status_def require_intent_def stamped_def intent_settled_def
  complete_cancellation_operation_def intent_targets_def example_digest example_facts example_facts_def

lemmas outbox_eval = claim_completion_outbox_def update_rows_def claimable_row_def is_row_def undelivered_def due_def
  lease_passed_def lease_row_def find_row_def mark_completion_outbox_delivered_def markable_row_def deliver_row_def

lemmas run_eval = example_env_sel step_eval text_eval create_eval job_eval activity_eval cancel_eval outbox_eval

lemma verified_facts: "\<exists>r x. map_of (bs_activities verified_store) verify_a = Some r \<and> ac_lifecycle r = LcCompleted \<and>
    ac_handoff r = HandoffVerify \<and> ac_verification r = Verified \<and> ac_completion r = 2 \<and>
    map_of (bs_jobs verified_store) ''j1'' = Some x \<and> jb_activity x = verify_a \<and> jb_status x = JsCompleted"
  by (simp add: verified_store_def verifying_store_def verify_events_def run_eval cong: res_bind_weak let_weak_cong)

lemma notified_facts: "\<exists>r x it q. map_of (bs_activities notified_store) notify_a = Some r \<and> ac_lifecycle r = LcCompleted \<and>
    ac_handoff r = HandoffNotify \<and> ac_completion r = 1 \<and> map_of (bs_jobs notified_store) ''j2'' = Some x \<and>
    jb_activity x = notify_a \<and> jb_status x = JsCancelled \<and> jb_scope x = scope_s \<and> jb_intent x = Some intent_i \<and>
    map_of (bs_intents notified_store) intent_i = Some it \<and> it_status it = IntentSucceeded \<and>
    map_of (bs_operations notified_store) (scope_s, request_r) = Some q \<and> op_status q = OpCompleted"
  by (simp add: notified_store_def cancelled_store_def cancel_events_def run_eval cong: res_bind_weak let_weak_cong)

lemma notified_outbox: "bs_outbox notified_store = [\<lparr>ob_id = 1, ob_activity = notify_a, ob_scope = scope_s,
    ob_completion = 1, ob_channel = ChNotify, ob_attempts = 0, ob_next = None, ob_lease_owner = None,
    ob_lease_expires = None, ob_delivered = None, ob_acked = None, ob_created = 14\<rparr>]"
  by (simp add: notified_store_def cancelled_store_def cancel_events_def run_eval cong: res_bind_weak let_weak_cong)

lemma delivered_outbox: "\<exists>r. bs_outbox delivered_store = [r] \<and> ob_id r = 1 \<and> ob_delivered r = Some 21"
  by (simp add: delivered_store_def notified_outbox run_eval del: example_env_sel)

lemma verifying_facts: "\<exists>r. map_of (bs_activities verifying_store) verify_a = Some r \<and> ac_lifecycle r = LcSealed \<and>
    ac_handoff r = HandoffVerify \<and> ac_verification r = Verifying \<and> ac_completion r = 1"
  by (simp add: verifying_store_def verify_events_def run_eval cong: res_bind_weak let_weak_cong)

lemma example_reachable:
  "reachable_store verifying_store" "reachable_store verified_store" "reachable_store notified_store"
  "reachable_store delivered_store"
  by (simp_all only: verifying_store_def verified_store_def notified_store_def cancelled_store_def delivered_store_def)
    (intro reachable_run reachable_step reachable_start)+

section \<open>A late thread link\<close>

text \<open>C39. While verification of a sealed Activity is under way, saving one of its finished jobs again with a
  thread id that was missing resets the verification: the Activity is pending again, announces a second
  verification with the next completion version, and passing the verification that had started fails.\<close>

definition relinked_store :: bridge_state where
  "relinked_store = store_step verifying_store
     (at_time 6 (job_of verify_a ''j1'' ''completed'' (Some NormalCompletion) None (Some ''t1'')))"


section \<open>Witnesses\<close>

theorem activity_counts_match_witness:
  "\<exists>r x. map_of (bs_activities verified_store) verify_a = Some r \<and> ac_counts r = count_activity_jobs verify_a verified_store \<and>
     map_of (bs_jobs verified_store) ''j1'' = Some x \<and> \<not> is_active_status (jb_status x)"
proof -
  obtain r x where f: "map_of (bs_activities verified_store) verify_a = Some r" "ac_lifecycle r = LcCompleted"
      "map_of (bs_jobs verified_store) ''j1'' = Some x" "jb_activity x = verify_a"
    using verified_facts by blast
  then show ?thesis using activity_counts_match [OF example_reachable(2) f(1)] by (auto simp: finished_def)
qed

theorem verified_iff_verify_completed_witness:
  "\<exists>r. map_of (bs_activities verified_store) verify_a = Some r \<and> ac_verification r = Verified"
  using verified_facts verified_iff_verify_completed [OF example_reachable(2), of verify_a] by blast

theorem notified_exactly_once_witness:
  "map ob_completion (filter (\<lambda>e. ob_activity e = notify_a \<and> ob_channel e = ChNotify) (bs_outbox notified_store)) = [1]"
  using notified_facts notified_exactly_once [OF example_reachable(3), of notify_a] by fastforce

theorem finished_activity_is_final_witness:
  "activity_outcome verify_a (run store_step verified_store [at_time 30 (EvAbandon verify_a None), at_time 31 (EvSeal verify_a)]) =
   Some (LcCompleted, Verified, HandoffVerify, 2)"
proof -
  obtain r where f: "map_of (bs_activities verified_store) verify_a = Some r" "ac_lifecycle r = LcCompleted"
      "ac_handoff r = HandoffVerify" "ac_verification r = Verified" "ac_completion r = 2"
    using verified_facts by blast
  then show ?thesis
    using finished_activity_is_final [OF example_reachable(2) f(1), where
        es = "[at_time 30 (EvAbandon verify_a None), at_time 31 (EvSeal verify_a)]"] by (simp add: finished_def)
qed

theorem finished_activity_relay_silent_witness:
  "relay_enter (relay_env_of example_store_env verified_store) example_event_of 5 verify_a (job_owner example_job) ''c'' example_eid ''t'' relay1 \<noteq>
   Inr (True, relay1)"
proof -
  obtain r where f: "map_of (bs_activities verified_store) verify_a = Some r" "ac_lifecycle r = LcCompleted"
    using verified_facts by blast
  have over: "finished (ac_lifecycle r)" using f(2) by (simp add: finished_def)
  show ?thesis
    using finished_activity_relay_silent [OF example_reachable(2) f(1) over refl, where es = "[]"] by simp
qed


theorem cancelled_job_was_requested_witness:
  "\<exists>it. map_of (bs_intents notified_store) intent_i = Some it \<and> tg_job (cn_target it) = Some ''j2'' \<and> cn_scope it = scope_s"
proof -
  obtain x where f: "map_of (bs_jobs notified_store) ''j2'' = Some x" "jb_status x = JsCancelled" "jb_scope x = scope_s"
      "jb_intent x = Some intent_i"
    using notified_facts by blast
  then show ?thesis using cancelled_job_was_requested [OF example_reachable(3) f(1,2)] by auto
qed

theorem cancellation_settled_once_witness:
  "map_option it_status (map_of (bs_intents (run store_step notified_store
      [at_time 40 (EvIntentStatus intent_i IntentFailed)])) intent_i) = Some IntentSucceeded \<and>
   (\<exists>q. map_of (bs_operations (run store_step notified_store
      [at_time 40 (EvIntentStatus intent_i IntentFailed)])) (scope_s, request_r) = Some q \<and> op_status q = OpCompleted)"
proof -
  obtain it q where f: "map_of (bs_intents notified_store) intent_i = Some it" "it_status it = IntentSucceeded"
      "map_of (bs_operations notified_store) (scope_s, request_r) = Some q" "op_status q = OpCompleted"
    using notified_facts by blast
  then show ?thesis
    using cancellation_settled_once [OF example_reachable(3), of intent_i it
        "[at_time 40 (EvIntentStatus intent_i IntentFailed)]" scope_s request_r q]
    by (simp add: intent_settled_def)
qed

theorem stored_intent_correlates_witness:
  "\<exists>it. map_of (bs_intents notified_store) intent_i = Some it \<and>
     assert_termination_correlation (termination_correlation intent_i it) = Inr ()"
proof -
  obtain it where f: "map_of (bs_intents notified_store) intent_i = Some it" using notified_facts by blast
  then show ?thesis using stored_intent_correlates [OF example_reachable(3) f] by simp
qed


theorem delivered_never_claimed_again_witness:
  "fst (claim_completion_outbox (\<lambda>_. True) 1 scope_s ''host'' 100 99999 (run store_step delivered_store
     [at_time 30 (EvRelease 1 scope_s ''host'')])) = None"
proof -
  obtain r where r: "bs_outbox delivered_store = [r]" "ob_id r = 1" "ob_delivered r = Some 21" using delivered_outbox by blast
  then show ?thesis
    using delivered_never_claimed_again [OF example_reachable(4), of r, where
        es = "[at_time 30 (EvRelease 1 scope_s ''host'')]"] by simp
qed

theorem claim_is_exclusive_witness:
  "fst (claim_completion_outbox (\<lambda>_. True) 1 scope_s ''other'' 100 119
     (snd (claim_completion_outbox (\<lambda>_. True) 1 scope_s ''host'' 100 20 notified_store))) = None"
proof -
  obtain r s' where c: "claim_completion_outbox (\<lambda>_. True) 1 scope_s ''host'' 100 20 notified_store = (Some r, s')"
    by (simp add: outbox_eval notified_outbox)
  show ?thesis using claim_is_exclusive [OF example_reachable(3) c, of "''other''" 119] c by simp
qed

theorem availability_iff_listed_witness:
  "av_available (native_completion_availability (\<lambda>_. True) 20 notified_store)"
proof -
  have "list_pending_notify_completion_outbox (\<lambda>_. True) 50 20 notified_store \<noteq> []"
    by (simp add: list_pending_notify_completion_outbox_def page_size_def notified_outbox outbox_eval)
  then show ?thesis using availability_iff_listed [OF example_reachable(3), of 20 50] by simp
qed

theorem complete_activity_accepts_iff_witness:
  "\<not> is_ok (complete_activity example_store_env verify_a None 6 verifying_store) \<and>
   store_step verifying_store (example_store_env, 6, EvComplete verify_a None) = verifying_store"
proof -
  obtain r where "map_of (bs_activities verifying_store) verify_a = Some r" "ac_handoff r = HandoffVerify"
    using verifying_facts by blast
  then show ?thesis
    using complete_activity_accepts_iff [OF example_reachable(1), of example_store_env verify_a None 6] by auto
qed

theorem retention_bounded_witness:
  "\<exists>out left s'. maintain_job_retention \<lparr>rk_candidates = [\<lparr>rc_job = ''j2'', rc_updated = 5, rc_version = 1,
       rc_protected = False\<rparr>], rk_reservations = 0, rk_max_removed = 1, rk_cutoff = 9, rk_target = 0, rk_now = 50\<rparr> []
     notified_store = Inr ((out, left), s') \<and> removed_in out \<le> 1"
  using retention_bounded [OF example_reachable(3)] by fastforce

end
