(* ===== verification/Thread_Witnesses.thy ===== *)
theory Thread_Witnesses
  imports Thread_Safety Store_Witnesses
begin

text \<open>
  A concrete thread whose handoff is requested and released, in which the hypotheses of
  \<open>Thread_Safety\<close> hold.
\<close>

definition example_threads :: thread_config where
  "example_threads = \<lparr>tcf_idle_ms = 1000, tcf_supported = True\<rparr>"

definition first_threads :: bridge_threads where
  "first_threads = \<lparr>bt_store = empty_store [] [], bt_table = \<lparr>tt_rows = [], tt_retired = []\<rparr>, bt_control = new_controller\<rparr>"

definition request_events :: "thread_event list" where
  "request_events = [TeRegister 1 \<lparr>tr_thread = ''t1'', tr_agent = None, tr_scope = ''s'', tr_persistence = Some Persistent,
     tr_pid = Some 7\<rparr>, TeRequest ''t1'' 2]"

definition claim_events :: "thread_event list" where
  "claim_events = [TeSweepStart 3, TeTake True, TeExamine 4]"

definition requested_threads :: bridge_threads where
  "requested_threads = run (threads_step example_threads) first_threads request_events"

definition claimed_threads :: bridge_threads where
  "claimed_threads = run (threads_step example_threads) requested_threads claim_events"

definition released_answer :: release_answer where
  "released_answer = \<lparr>an_phase = AnReleased, an_reason = None, an_evidence = Some ThreadUnloaded, an_released = [''t1'']\<rparr>"

definition job_input_of :: "string \<Rightarrow> string \<Rightarrow> job_input" where
  "job_input_of j tid = \<lparr>ji_id = j, ji_activity = Some verify_a, ji_scope = scope_s, ji_request = j,
     ji_status = ''running'', ji_thread = Some tid, ji_session_thread = None, ji_source = None, ji_worker = None,
     ji_generation = None, ji_turn = None, ji_terminal_version = None, ji_agent = None, ji_context = None,
     ji_project_id = None, ji_project_name = None, ji_cwd = Some ''/w'', ji_sandbox = None, ji_principal = None,
     ji_tracking = None, ji_policy = None, ji_origin = None, ji_intent = None, ji_created = None, ji_updated = 5,
     ji_version = None, ji_inputs = []\<rparr>"

definition no_facts :: thread_facts where
  "no_facts = \<lparr>tf_backend = Some ''app-server'', tf_pid = None, tf_persistence = None, tf_error = None\<rparr>"

lemma example_reachable_threads:
  "reachable_threads example_threads requested_threads" "reachable_threads example_threads claimed_threads"
proof -
  have r: "reachable_threads cfg b \<Longrightarrow> reachable_threads cfg (run (threads_step cfg) b es)" for cfg b es
    by (induction es arbitrary: b) (auto intro: threads_next)
  have "reachable_threads example_threads first_threads" unfolding first_threads_def by (rule threads_start)
  then show "reachable_threads example_threads requested_threads" unfolding requested_threads_def by (rule r)
  then show "reachable_threads example_threads claimed_threads" unfolding claimed_threads_def by (rule r)
qed

lemmas thread_eval = example_threads_def register_thread_def registered_persistence_def put_row_def attempt_def
  request_handoff_def update_connection_def patched_def truthy_string_def truthy_time_def Let_def

lemma requested_row: "requested_threads = \<lparr>bt_store = empty_store [] [], bt_table = \<lparr>tt_rows = [(''t1'',
    \<lparr>tc_agent = None, tc_scope = ''s'', tc_persistence = Persistent, tc_phase = PhWaiting, tc_handoff = True,
     tc_finished = None, tc_job = None, tc_pid = Some 7, tc_revision = 2, tc_updated = 2, tc_reason = None,
     tc_evidence = None\<rparr>)], tt_retired = []\<rparr>, bt_control = new_controller\<rparr>"
  by (simp add: requested_threads_def first_threads_def request_events_def thread_eval)

lemma claimed_row: "map_of (tt_rows (bt_table claimed_threads)) ''t1'' = Some
    \<lparr>tc_agent = None, tc_scope = ''s'', tc_persistence = Persistent, tc_phase = PhReleasing, tc_handoff = True,
     tc_finished = None, tc_job = None, tc_pid = Some 7, tc_revision = 3, tc_updated = 4, tc_reason = None,
     tc_evidence = None\<rparr>"
  "waiting (bt_control claimed_threads) = Some (''t1'', 3)" "cc_closed (bt_control claimed_threads) = False"
  by (simp_all add: claimed_threads_def requested_row claim_events_def new_controller_def sweep_start_def handoff_lane_def
      idle_lane_def handoff_candidates_def idle_candidates_def at_most_def sweep_take_def sweep_examine_def
      release_obstacle_def eligible_def has_unfinished_work_def empty_store_def thread_eval waiting_def finished_at_def)



theorem handoff_blocks_new_turns_witness:
  "threads_step example_threads requested_threads (TeStore example_store_env 5 (EvUpsert (job_input_of ''j9'' ''t1'')) no_facts) =
   requested_threads"
  using handoff_blocks_new_turns [of "''t1''" requested_threads "[]" requested_threads example_threads "job_input_of ''j9'' ''t1''"]
  by (simp add: requested_row handoff_pending_def job_input_of_def or_string_def truthy_string_def empty_store_def)

end
