(* ===== verification/Question_Answers.thy ===== *)
theory Question_Answers
  imports Bridge_State
begin

text \<open>
  Answers to ordinary Codex questions: the delivery journal of \<open>src/src/questionStore.ts\<close>, which
  questions are ordinary (\<open>src/src/codexInputs.ts\<close>), the \<open>codex_answer\<close> handler of
  \<open>src/src/questionTools.ts\<close> and the dispatch of an interaction in \<open>src/src/tools.ts\<close>. The question
  cards of the store have no caller in the program and are left out.

  The handler awaits the App Server between writing the dispatch intent and recording the outcome;
  \<open>answer_step\<close> interleaves such calls with each other, with other responders, with journal
  maintenance and with a restart of the bridge. \<open>as_sent\<close> and \<open>as_pruned\<close> are history variables: the
  answers handed to the App Server, and the questions whose receipt retention or the end of a project removed.
\<close>

section \<open>Questions\<close>

record input_question =
  iq_id :: string
  iq_question :: string
  iq_secret :: bool
  iq_other :: "bool option"
  iq_options :: "string list option"

record pending_input =
  pi_id :: string
  pi_kind :: string
  pi_origin :: "string option"
  pi_thread :: string
  pi_turn :: string
  pi_questions :: "input_question list option"

record input_job =
  ij_id :: string
  ij_scope :: string
  ij_status :: job_status
  ij_tracking :: string
  ij_worker :: "string option"
  ij_generation :: "int option"
  ij_thread :: "string option"
  ij_turn :: "string option"
  ij_project_active :: bool
  ij_controlled :: bool
  ij_pending :: "pending_input list"

text \<open>\<open>ij_project_active\<close> and \<open>ij_controlled\<close> are the outcomes of \<open>assertActive\<close> and
  \<open>assertOriginalJobControl\<close>.\<close>

definition ordinary_codex_question :: "pending_input \<Rightarrow> bool" where
  "ordinary_codex_question p \<longleftrightarrow> pi_kind p = ''user-input'' \<and> pi_origin p = Some ''codex-question'' \<and>
     (case pi_questions p of None \<Rightarrow> False
      | Some qs \<Rightarrow> qs \<noteq> [] \<and>
          \<not> list_ex (\<lambda>q. iq_secret q \<or> js_trim (iq_id q) = '''' \<or> js_trim (iq_question q) = '''' \<or>
            (case iq_options q of None \<Rightarrow> False | Some os \<Rightarrow> list_ex (\<lambda>l. js_trim l = '''') os)) qs \<and>
          distinct (map iq_id qs))"

datatype answer_error =
    AnswerRequestConflict | QuestionAlreadyDispatched | DeliveryStale | AnswerJobUnavailable | RequestEnded
  | QuestionUnavailable | AnswerIdsInvalid | AnswerOptionInvalid | JournalUnique | JournalFailed

type_synonym answers = "(string \<times> string list) list"

fun validate_each :: "answers \<Rightarrow> input_question list \<Rightarrow> (answer_error, unit) result" where
  "validate_each a [] = Inr ()"
| "validate_each a (q # qs) =
     (if (case iq_options q of None \<Rightarrow> False
          | Some os \<Rightarrow> os \<noteq> [] \<and> iq_other q = Some False \<and>
              list_ex (\<lambda>x. x \<notin> set os) (case map_of a (iq_id q) of None \<Rightarrow> [] | Some xs \<Rightarrow> xs))
      then Inl AnswerOptionInvalid else validate_each a qs)"

definition validate_answers :: "input_question list \<Rightarrow> answers \<Rightarrow> (answer_error, unit) result" where
  "validate_answers qs a =
     (if sort (keys a) \<noteq> sort (map iq_id qs) then Inl AnswerIdsInvalid else validate_each a qs)"

section \<open>The delivery journal\<close>

datatype delivery_status = Dispatching | NotDelivered | DeliveredAnswer | Uncertain

record delivery_row =
  dl_scope :: string
  dl_request :: string
  dl_ref :: string
  dl_hash :: string
  dl_status :: delivery_status
  dl_created :: int
  dl_job :: "string option"
  dl_occurred :: int

text \<open>Rows in the order they were inserted.\<close>

type_synonym journal_table = "delivery_row list"

definition same_request :: "string \<Rightarrow> string \<Rightarrow> delivery_row \<Rightarrow> bool" where
  "same_request sid rid d \<longleftrightarrow> dl_scope d = sid \<and> dl_request d = rid"

definition same_question :: "string \<Rightarrow> string \<Rightarrow> delivery_row \<Rightarrow> bool" where
  "same_question sid ref d \<longleftrightarrow> dl_scope d = sid \<and> dl_ref d = ref"

definition delivery :: "string \<Rightarrow> string \<Rightarrow> string \<Rightarrow> journal_table \<Rightarrow> (answer_error, delivery_status option) result" where
  "delivery sid rid hash t =
     (case find (same_request sid rid) t of
        None \<Rightarrow> Inr None
      | Some d \<Rightarrow> if dl_hash d \<noteq> hash then Inl AnswerRequestConflict else Inr (Some (dl_status d)))"

definition begin_delivery ::
  "string \<Rightarrow> string \<Rightarrow> string \<Rightarrow> string \<Rightarrow> string option \<Rightarrow> int \<Rightarrow> journal_table \<Rightarrow> (answer_error, journal_table) result" where
  "begin_delivery sid rid ref hash job now t =
     (case find (same_question sid ref) t of
        Some d \<Rightarrow>
          if dl_request d \<noteq> rid \<or> dl_status d \<noteq> NotDelivered then Inl QuestionAlreadyDispatched
          else if dl_hash d \<noteq> hash then Inl AnswerRequestConflict
          else Inr (map (\<lambda>x. if same_request sid rid x \<and> dl_ref x = ref \<and> dl_hash x = hash \<and> dl_status x = NotDelivered
            then x\<lparr>dl_status := Dispatching, dl_created := now\<rparr> else x) t)
      | None \<Rightarrow>
          if find (same_request sid rid) t \<noteq> None then Inl JournalUnique
          else Inr (t @ [\<lparr>dl_scope = sid, dl_request = rid, dl_ref = ref, dl_hash = hash, dl_status = Dispatching,
            dl_created = now, dl_job = job, dl_occurred = now\<rparr>]))"

definition finish_delivery :: "string \<Rightarrow> string \<Rightarrow> delivery_status \<Rightarrow> journal_table \<Rightarrow> (answer_error, journal_table) result" where
  "finish_delivery sid rid st t =
     (if length (filter (\<lambda>d. same_request sid rid d \<and> dl_status d = Dispatching) t) \<noteq> 1 then Inl DeliveryStale
      else Inr (map (\<lambda>d. if same_request sid rid d \<and> dl_status d = Dispatching then d\<lparr>dl_status := st\<rparr> else d) t))"

text \<open>\<open>prune\<close>: the oldest delivered receipts behind the history cutoff.\<close>

definition prunable :: "int option \<Rightarrow> delivery_row \<Rightarrow> bool" where
  "prunable cutoff d \<longleftrightarrow> dl_status d = DeliveredAnswer \<and> dl_occurred d < (case cutoff of None \<Rightarrow> -1 | Some c \<Rightarrow> c)"

definition pruned_rows :: "int option \<Rightarrow> nat \<Rightarrow> journal_table \<Rightarrow> delivery_row list" where
  "pruned_rows cutoff limit t = take limit (sort_key dl_created (filter (prunable cutoff) t))"

definition prune :: "int option \<Rightarrow> nat \<Rightarrow> journal_table \<Rightarrow> journal_table" where
  "prune cutoff limit t =
     filter (\<lambda>d. \<not> list_ex (\<lambda>x. same_request (dl_scope x) (dl_request x) d) (pruned_rows cutoff limit t)) t"

text \<open>Retiring a project removes the rows of its jobs and of the questions they still list, whatever
  their status.\<close>

definition retired_row :: "string list \<Rightarrow> string list \<Rightarrow> delivery_row \<Rightarrow> bool" where
  "retired_row jobs refs d \<longleftrightarrow> (case dl_job d of None \<Rightarrow> ''null'' \<in> set jobs | Some j \<Rightarrow> j \<in> set jobs) \<or> dl_ref d \<in> set refs"

definition retire_deliveries :: "string list \<Rightarrow> string list \<Rightarrow> journal_table \<Rightarrow> journal_table" where
  "retire_deliveries jobs refs t = filter (\<lambda>d. \<not> retired_row jobs refs d) t"

text \<open>At start-up an answer that was being dispatched has an unknown fate.\<close>

definition startup_deliveries :: "journal_table \<Rightarrow> journal_table" where
  "startup_deliveries t = map (\<lambda>d. if dl_status d = Dispatching then d\<lparr>dl_status := Uncertain\<rparr> else d) t"

section \<open>The answer handler\<close>

text \<open>\<open>ref_of\<close> is the digest \<open>questionReference\<close>, \<open>hash_of\<close> is \<open>questionHash\<close> of the arguments, and
  \<open>request_ended\<close> whether the project lifecycle retired the request.\<close>

record answer_call =
  an_request :: string
  an_job :: string
  an_ref :: string
  an_answers :: answers

record answer_env =
  ae_ref_of :: "input_job \<Rightarrow> pending_input \<Rightarrow> string"
  ae_hash_of :: "answer_call \<Rightarrow> string"
  ae_request_ended :: "string \<Rightarrow> string \<Rightarrow> bool"

text \<open>The current ordinary question the reference names, in a running job under its original worker.\<close>

definition answerable ::
  "answer_env \<Rightarrow> answer_call \<Rightarrow> input_job \<Rightarrow> (answer_error, pending_input) result" where
  "answerable env a j =
     (if ij_status j \<noteq> JsRunning \<or> ij_tracking j \<noteq> ''connected'' \<or> ij_worker j \<in> {None, Some ''''} \<or> ij_generation j = None
      then Inl QuestionUnavailable
      else case find (\<lambda>q. ae_ref_of env j q = an_ref a) (ij_pending j) of
        None \<Rightarrow> Inl QuestionUnavailable
      | Some p \<Rightarrow>
          if \<not> ordinary_codex_question p \<or> Some (pi_thread p) \<noteq> ij_thread j \<or> Some (pi_turn p) \<noteq> ij_turn j
          then Inl QuestionUnavailable
          else res_bind (validate_answers (case pi_questions p of None \<Rightarrow> [] | Some qs \<Rightarrow> qs) (an_answers a)) (\<lambda>_. Inr p))"

text \<open>\<open>resolveInteraction\<close> up to the send, for a response that carries answers: \<open>digits\<close> of the generation
  prefix the interaction id, and only a user input takes answers.\<close>

definition dispatchable :: "(int \<Rightarrow> string) \<Rightarrow> bool \<Rightarrow> input_job \<Rightarrow> pending_input \<Rightarrow> bool" where
  "dispatchable digits connected j p \<longleftrightarrow>
     is_active_status (ij_status j) \<and> ij_project_active j \<and> ij_controlled j \<and>
     (case (ij_worker j, ij_generation j) of
        (Some w, Some g) \<Rightarrow> w = '''' \<or> starts_with (w @ '':'' @ digits g @ '':'') (pi_id p)
      | _ \<Rightarrow> True) \<and>
     (case find (\<lambda>q. pi_id q = pi_id p) (ij_pending j) of None \<Rightarrow> False | Some q \<Rightarrow> pi_kind q = ''user-input'') \<and> connected"

text \<open>What an awaiting call is waiting for: an answer refused before the send, the send it made, the
  send of an identical response that was already under way, or an error for a different one.\<close>

datatype call_fate = FateRefused | FateSent | FateJoined | FateClash

record answers_state =
  as_journal :: journal_table
  as_inflight :: "((string \<times> string) \<times> (string \<times> string \<times> call_fate)) list"
  as_responses :: "((string \<times> string) \<times> string) list"
  as_sent :: "(string \<times> string) list"
  as_pruned :: "(string \<times> string) list"

definition fate_of :: "bool \<Rightarrow> string \<times> string \<Rightarrow> string \<Rightarrow> answers_state \<Rightarrow> call_fate" where
  "fate_of ok key response s =
     (case map_of (as_responses s) key of
        Some h \<Rightarrow> if h = response then FateJoined else FateClash
      | None \<Rightarrow> if ok then FateSent else FateRefused)"

text \<open>A call of \<open>codex_answer\<close> up to its await. \<open>job\<close> is the owned job, if there is one; \<open>response\<close> the
  digest of the response object.\<close>

definition answer_begin ::
  "answer_env \<Rightarrow> (int \<Rightarrow> string) \<Rightarrow> bool \<Rightarrow> string \<Rightarrow> answer_call \<Rightarrow> input_job option \<Rightarrow> string \<Rightarrow> int \<Rightarrow> answers_state \<Rightarrow>
   (answer_error, delivery_status option \<times> answers_state) result" where
  "answer_begin env digits connected sid a job response now s =
     (let rid = an_request a; hash = ae_hash_of env a in
      case job of
        None \<Rightarrow> Inl AnswerJobUnavailable
      | Some j \<Rightarrow>
          (case map_of (as_inflight s) (sid, rid) of
             Some (h, _) \<Rightarrow> if h \<noteq> hash then Inl AnswerRequestConflict else Inr (None, s)
           | None \<Rightarrow>
               if ae_request_ended env sid rid then Inl RequestEnded
               else res_bind (delivery sid rid hash (as_journal s)) (\<lambda>previous.
                 if previous \<noteq> None \<and> previous \<noteq> Some NotDelivered
                 then Inr (Some (if previous = Some DeliveredAnswer then DeliveredAnswer else Uncertain), s)
                 else res_bind (answerable env a j) (\<lambda>p.
                   res_bind (begin_delivery sid rid (an_ref a) hash (Some (ij_id j)) now (as_journal s)) (\<lambda>t.
                     let key = (ij_id j, pi_id p); fate = fate_of (dispatchable digits connected j p) key response s in
                     Inr (None, s\<lparr>as_journal := t,
                       as_inflight := AList.update (sid, rid) (hash, an_ref a, fate) (as_inflight s),
                       as_responses := (if fate = FateSent then AList.update key response (as_responses s) else as_responses s),
                       as_sent := (if fate = FateSent then as_sent s @ [(sid, an_ref a)] else as_sent s)\<rparr>))))))"

text \<open>Recording the outcome; \<open>ok1\<close> and \<open>ok2\<close> are whether the first and second write reach the disk.\<close>

datatype send_outcome = SendOk | SendFailed | SendRefused

definition try_finish :: "bool \<Rightarrow> string \<Rightarrow> string \<Rightarrow> delivery_status \<Rightarrow> journal_table \<Rightarrow> (answer_error, journal_table) result" where
  "try_finish ok sid rid st t = (if ok then finish_delivery sid rid st t else Inl JournalFailed)"

definition finish_uncertain :: "bool \<Rightarrow> string \<Rightarrow> string \<Rightarrow> journal_table \<Rightarrow> delivery_status \<times> journal_table" where
  "finish_uncertain ok sid rid t =
     (Uncertain, case try_finish ok sid rid Uncertain t of Inl _ \<Rightarrow> t | Inr t' \<Rightarrow> t')"

definition record_outcome ::
  "send_outcome \<Rightarrow> bool \<Rightarrow> bool \<Rightarrow> string \<Rightarrow> string \<Rightarrow> journal_table \<Rightarrow> delivery_status \<times> journal_table" where
  "record_outcome out ok1 ok2 sid rid t =
     (case out of
        SendOk \<Rightarrow> (case try_finish ok1 sid rid DeliveredAnswer t of
            Inr t' \<Rightarrow> (DeliveredAnswer, t') | Inl _ \<Rightarrow> finish_uncertain ok2 sid rid t)
      | SendRefused \<Rightarrow> (case try_finish ok1 sid rid NotDelivered t of
            Inr t' \<Rightarrow> (NotDelivered, t') | Inl _ \<Rightarrow> finish_uncertain ok2 sid rid t)
      | SendFailed \<Rightarrow> finish_uncertain ok1 sid rid t)"

text \<open>The outcome an awaiting call can see: only a call that was refused before a send knows so.\<close>

definition seen_outcome :: "call_fate \<Rightarrow> send_outcome \<Rightarrow> send_outcome" where
  "seen_outcome fate out =
     (case fate of
        FateRefused \<Rightarrow> SendRefused
      | FateSent \<Rightarrow> if out = SendRefused then SendFailed else out
      | FateJoined \<Rightarrow> out
      | FateClash \<Rightarrow> SendFailed)"

definition answer_return ::
  "string \<Rightarrow> string \<Rightarrow> send_outcome \<Rightarrow> bool \<Rightarrow> bool \<Rightarrow> answers_state \<Rightarrow> delivery_status option \<times> answers_state" where
  "answer_return sid rid out ok1 ok2 s =
     (case map_of (as_inflight s) (sid, rid) of
        None \<Rightarrow> (None, s)
      | Some (h, ref, fate) \<Rightarrow>
          (case record_outcome (seen_outcome fate out) ok1 ok2 sid rid (as_journal s) of
             (result, t) \<Rightarrow> (Some result, s\<lparr>as_journal := t, as_inflight := AList.delete (sid, rid) (as_inflight s)\<rparr>)))"

datatype answer_event =
    AeCall answer_env "int \<Rightarrow> string" bool string answer_call "input_job option" string int
  | AeReturn string string send_outcome bool bool
  | AeOtherResponse "string \<times> string" string
  | AeResponseDone "string \<times> string"
  | AePrune "int option" nat
  | AeRestart "int option"
  | AeProjectEnd "string list" "string list"

fun answer_step :: "answers_state \<Rightarrow> answer_event \<Rightarrow> answers_state" where
  "answer_step s (AeCall env digits connected sid a job response now) =
     (case answer_begin env digits connected sid a job response now s of Inl _ \<Rightarrow> s | Inr (_, s') \<Rightarrow> s')"
| "answer_step s (AeReturn sid rid out ok1 ok2) = snd (answer_return sid rid out ok1 ok2 s)"
| "answer_step s (AeOtherResponse key response) =
     (if map_of (as_responses s) key = None then s\<lparr>as_responses := AList.update key response (as_responses s)\<rparr> else s)"
| "answer_step s (AeResponseDone key) = s\<lparr>as_responses := AList.delete key (as_responses s)\<rparr>"
| "answer_step s (AePrune cutoff limit) =
     s\<lparr>as_journal := prune cutoff limit (as_journal s),
       as_pruned := as_pruned s @ map (\<lambda>d. (dl_scope d, dl_ref d)) (pruned_rows cutoff limit (as_journal s))\<rparr>"
| "answer_step s (AeRestart cutoff) =
     (let t = startup_deliveries (as_journal s) in
      s\<lparr>as_journal := prune cutoff 64 t, as_inflight := [], as_responses := [],
        as_pruned := as_pruned s @ map (\<lambda>d. (dl_scope d, dl_ref d)) (pruned_rows cutoff 64 t)\<rparr>)"
| "answer_step s (AeProjectEnd jobs refs) =
     s\<lparr>as_journal := retire_deliveries jobs refs (as_journal s),
       as_pruned := as_pruned s @ map (\<lambda>d. (dl_scope d, dl_ref d)) (filter (retired_row jobs refs) (as_journal s))\<rparr>"

definition new_answers :: answers_state where
  "new_answers = \<lparr>as_journal = [], as_inflight = [], as_responses = [], as_sent = [], as_pruned = []\<rparr>"

end
