(* ===== verification/Question_Safety.thy ===== *)
theory Question_Safety
  imports Question_Answers
begin

text \<open>
  An answer reaches the App Server at most once: the journal keeps a receipt for every answer that was
  handed over, and a receipt that says nothing was sent is true.
\<close>

section \<open>Rows\<close>

definition request_key :: "delivery_row \<Rightarrow> string \<times> string" where
  "request_key d = (dl_scope d, dl_request d)"

definition question_key :: "delivery_row \<Rightarrow> string \<times> string" where
  "question_key d = (dl_scope d, dl_ref d)"

lemma same_request_key: "same_request sid rid d \<longleftrightarrow> request_key d = (sid, rid)"
  by (auto simp: same_request_def request_key_def)

lemma same_question_key: "same_question sid ref d \<longleftrightarrow> question_key d = (sid, ref)"
  by (auto simp: same_question_def question_key_def)

lemma unique_key: "distinct (map f t) \<Longrightarrow> x \<in> set t \<Longrightarrow> y \<in> set t \<Longrightarrow> f x = f y \<Longrightarrow> x = y"
  by (auto simp: distinct_map dest: inj_onD)

text \<open>The tables agree: requests and questions are unique, whatever was handed over has a receipt that
  says so, and a call that awaits an outcome holds the dispatch intent of its question.\<close>

definition receipt_for :: "journal_table \<Rightarrow> string \<times> string \<Rightarrow> bool" where
  "receipt_for t k \<longleftrightarrow> (\<exists>d \<in> set t. question_key d = k \<and> dl_status d \<noteq> NotDelivered)"

definition journal_ok :: "journal_table \<Rightarrow> bool" where
  "journal_ok t \<longleftrightarrow> distinct (map request_key t) \<and> distinct (map question_key t)"

definition call_ok :: "answers_state \<Rightarrow> string \<times> string \<Rightarrow> string \<times> string \<times> call_fate \<Rightarrow> bool" where
  "call_ok s key c \<longleftrightarrow> (case (key, c) of ((sid, rid), (h, ref, fate)) \<Rightarrow>
     (\<forall>d \<in> set (as_journal s). request_key d = (sid, rid) \<longrightarrow> dl_ref d = ref) \<and>
     ((\<exists>d \<in> set (as_journal s). request_key d = (sid, rid) \<and> dl_ref d = ref \<and> dl_status d = Dispatching) \<or>
       (sid, ref) \<in> set (as_pruned s)) \<and>
     (fate \<noteq> FateSent \<longrightarrow> (sid, ref) \<in> set (as_sent s) \<longrightarrow> (sid, ref) \<in> set (as_pruned s)))"

definition answers_inv :: "answers_state \<Rightarrow> bool" where
  "answers_inv s \<longleftrightarrow> journal_ok (as_journal s) \<and>
     (\<forall>k. k \<notin> set (as_pruned s) \<longrightarrow> count_list (as_sent s) k \<le> 1 \<and> (k \<in> set (as_sent s) \<longrightarrow> receipt_for (as_journal s) k)) \<and>
     (\<forall>key c. map_of (as_inflight s) key = Some c \<longrightarrow> call_ok s key c)"

text \<open>Writing the status of rows without touching their keys.\<close>

lemma keys_kept [simp]: "request_key (d\<lparr>dl_status := st\<rparr>) = request_key d" "question_key (d\<lparr>dl_status := st\<rparr>) = question_key d"
  "request_key (d\<lparr>dl_status := st, dl_created := n\<rparr>) = request_key d"
  "question_key (d\<lparr>dl_status := st, dl_created := n\<rparr>) = question_key d"
  by (simp_all add: request_key_def question_key_def)

lemma journal_ok_map:
  assumes "journal_ok t" "\<And>d. request_key (f d) = request_key d \<and> question_key (f d) = question_key d"
  shows "journal_ok (map f t)"
proof -
  have "request_key \<circ> f = request_key" "question_key \<circ> f = question_key" using assms(2) by (simp_all add: fun_eq_iff)
  then show ?thesis using assms(1) by (simp add: journal_ok_def)
qed

lemma journal_ok_filter: "journal_ok t \<Longrightarrow> journal_ok (filter p t)"
  by (simp add: journal_ok_def distinct_map_filter)

section \<open>Operations\<close>

text \<open>Starting a delivery: the row of the question is then being dispatched, and it was not before.\<close>

lemma begin_delivery_Inr:
  assumes "begin_delivery sid rid ref hash job now t = Inr t'" "journal_ok t"
  shows "journal_ok t' \<and> \<not> receipt_for t (sid, ref) \<and>
    (\<exists>d \<in> set t'. request_key d = (sid, rid) \<and> dl_ref d = ref \<and> dl_status d = Dispatching) \<and>
    (\<forall>k. receipt_for t k \<longrightarrow> receipt_for t' k) \<and>
    (\<forall>d \<in> set t. dl_status d = Dispatching \<longrightarrow> d \<in> set t') \<and>
    (\<forall>d \<in> set t'. request_key d \<noteq> (sid, rid) \<longrightarrow> d \<in> set t) \<and>
    (\<forall>d \<in> set t'. request_key d = (sid, rid) \<longrightarrow> dl_ref d = ref)"
proof (cases "find (same_question sid ref) t")
  case None
  then have new: "(sid, ref) \<notin> question_key ` set t" by (auto simp: find_None_iff same_question_key)
  have "find (same_request sid rid) t = None" and t': "t' = t @ [\<lparr>dl_scope = sid, dl_request = rid, dl_ref = ref,
      dl_hash = hash, dl_status = Dispatching, dl_created = now, dl_job = job, dl_occurred = now\<rparr>]"
    using assms(1) None by (auto simp: begin_delivery_def split: if_splits)
  then have "(sid, rid) \<notin> request_key ` set t" by (auto simp: find_None_iff same_request_key)
  then show ?thesis using new assms(2) by (auto simp: t' journal_ok_def receipt_for_def request_key_def question_key_def)
next
  case (Some d)
  then have d: "d \<in> set t" "question_key d = (sid, ref)"
    by (auto simp: find_Some_iff same_question_key)
  let ?f = "\<lambda>x. if same_request sid rid x \<and> dl_ref x = ref \<and> dl_hash x = hash \<and> dl_status x = NotDelivered
    then x\<lparr>dl_status := Dispatching, dl_created := now\<rparr> else x"
  have st: "dl_request d = rid" "dl_status d = NotDelivered" "dl_hash d = hash" and t': "t' = map ?f t"
    using assms(1) Some by (auto simp: begin_delivery_def split: if_splits)
  have fd: "?f d = d\<lparr>dl_status := Dispatching, dl_created := now\<rparr>"
    using d(2) st by (simp add: same_request_def question_key_def)
  have "journal_ok t'" unfolding t' by (rule journal_ok_map [OF assms(2)]) simp
  moreover have "\<not> receipt_for t (sid, ref)"
    using unique_key [of question_key t] assms(2) d st by (fastforce simp: receipt_for_def journal_ok_def)
  moreover have "\<exists>x \<in> set t'. request_key x = (sid, rid) \<and> dl_ref x = ref \<and> dl_status x = Dispatching"
  proof (rule bexI)
    show "?f d \<in> set t'" unfolding t' set_map by (rule imageI [OF d(1)])
    show "request_key (?f d) = (sid, rid) \<and> dl_ref (?f d) = ref \<and> dl_status (?f d) = Dispatching"
      unfolding fd using d(2) st by (simp add: request_key_def question_key_def)
  qed
  moreover have "receipt_for t' k" if r: "receipt_for t k" for k
  proof -
    obtain x where x: "x \<in> set t" "question_key x = k" "dl_status x \<noteq> NotDelivered" using r unfolding receipt_for_def by blast
    then have "?f x = x" by simp
    then show ?thesis unfolding t' receipt_for_def using x by (intro bexI [of _ "?f x"]) auto
  qed
  moreover have "x \<in> set t'" if "x \<in> set t" "dl_status x = Dispatching" for x
    unfolding t' using that by (auto simp: image_iff intro!: bexI [of _ x])
  moreover have "x \<in> set t" if "x \<in> set t'" "request_key x \<noteq> (sid, rid)" for x
    using that unfolding t' by (auto simp: same_request_key split: if_splits)
  moreover have "dl_ref x = ref" if x: "x \<in> set t'" "request_key x = (sid, rid)" for x
  proof -
    obtain y where y: "y \<in> set t" "x = ?f y" using x(1) unfolding t' by auto
    have "request_key y = request_key d" using x(2) d(2) st y(2) by (auto simp: request_key_def question_key_def split: if_splits)
    then have "y = d" using unique_key [of request_key t y d] y(1) d(1) assms(2) by (simp add: journal_ok_def)
    then show ?thesis using y(2) fd d(2) by (simp add: question_key_def)
  qed
  ultimately show ?thesis by blast
qed

text \<open>Recording an outcome: only the row of the request changes, and only from being dispatched.\<close>

definition settled_row :: "string \<times> string \<Rightarrow> delivery_status \<Rightarrow> delivery_row \<Rightarrow> delivery_row" where
  "settled_row key st d = (if request_key d = key \<and> dl_status d = Dispatching then d\<lparr>dl_status := st\<rparr> else d)"

lemma finish_Inr: "finish_delivery sid rid st t = Inr t' \<Longrightarrow> t' = map (settled_row (sid, rid) st) t"
  by (auto simp: finish_delivery_def settled_row_def same_request_key split: if_splits)

lemma settled_row_keys [simp]:
  "request_key (settled_row key st d) = request_key d" "question_key (settled_row key st d) = question_key d"
  by (simp_all add: settled_row_def)

text \<open>What a recorded outcome amounts to: nothing was written, or the row was settled with the status the
  caller is told; \<open>NotDelivered\<close> is only told for a refused send.\<close>

lemma record_outcome_cases:
  assumes "record_outcome out ok1 ok2 sid rid t = (st, t')"
  shows "(t' = t \<or> t' = map (settled_row (sid, rid) st) t) \<and> (st = NotDelivered \<longrightarrow> out = SendRefused) \<and> st \<noteq> Dispatching"
  using assms
  by (auto simp: record_outcome_def finish_uncertain_def try_finish_def split: send_outcome.splits sum.splits if_splits
      dest!: finish_Inr)

lemma outcome_journal:
  "journal_ok t \<Longrightarrow> t' = t \<or> t' = map (settled_row key st) t \<Longrightarrow> journal_ok t'"
  using journal_ok_map [of t "settled_row key st"] by auto

lemma settled_receipt:
  assumes "receipt_for t k" "t' = t \<or> t' = map (settled_row key st) t"
    and "st = NotDelivered \<Longrightarrow> \<not> (\<exists>d \<in> set t. request_key d = key \<and> dl_status d = Dispatching \<and> question_key d = k)"
  shows "receipt_for t' k"
proof -
  obtain d where d: "d \<in> set t" "question_key d = k" "dl_status d \<noteq> NotDelivered" using assms(1) by (auto simp: receipt_for_def)
  have "dl_status (settled_row key st d) \<noteq> NotDelivered" using d assms(3) by (auto simp: settled_row_def)
  then show ?thesis using assms(2) d by (auto simp: receipt_for_def)
qed

lemma settled_others:
  assumes "d \<in> set t" "request_key d \<noteq> key" "t' = t \<or> t' = map (settled_row key st) t"
  shows "d \<in> set t'"
proof -
  have "settled_row key st d = d" using assms(2) by (simp add: settled_row_def)
  then show ?thesis using assms(1,3) by (metis image_eqI set_map)
qed

text \<open>Pruning removes delivered receipts only and notes their questions.\<close>

lemma pruned_rows_sub: "d \<in> set (pruned_rows cutoff limit t) \<Longrightarrow> d \<in> set t \<and> dl_status d = DeliveredAnswer"
  by (auto simp: pruned_rows_def prunable_def dest!: in_set_takeD)

lemma prune_keeps:
  assumes "journal_ok t" "d \<in> set t" "d \<notin> set (prune cutoff limit t)"
  shows "d \<in> set (pruned_rows cutoff limit t)"
proof -
  obtain x where x: "x \<in> set (pruned_rows cutoff limit t)" "request_key d = request_key x"
    using assms(2,3) by (auto simp: prune_def list_ex_iff same_request_key request_key_def)
  then have "d = x" using assms(1,2) pruned_rows_sub unique_key [of request_key t d x] by (auto simp: journal_ok_def)
  then show ?thesis using x by simp
qed

lemma prune_ok: "journal_ok t \<Longrightarrow> journal_ok (prune cutoff limit t)"
  by (simp add: prune_def journal_ok_filter)

lemma startup_ok: "journal_ok t \<Longrightarrow> journal_ok (startup_deliveries t)"
  unfolding startup_deliveries_def by (rule journal_ok_map) simp_all

lemma startup_receipt: "receipt_for t k \<Longrightarrow> receipt_for (startup_deliveries t) k"
proof -
  let ?f = "\<lambda>d. if dl_status d = Dispatching then d\<lparr>dl_status := Uncertain\<rparr> else d"
  assume "receipt_for t k"
  then obtain d where "d \<in> set t" "question_key d = k" "dl_status d \<noteq> NotDelivered" unfolding receipt_for_def by blast
  then show ?thesis unfolding receipt_for_def startup_deliveries_def by (intro bexI [of _ "?f d"]) auto
qed

section \<open>Steps\<close>

lemma pruned_keys: "map (\<lambda>d. (dl_scope d, dl_ref d)) xs = map question_key xs"
  by (simp add: question_key_def)

lemma invD:
  assumes "answers_inv s"
  shows "journal_ok (as_journal s)" "k \<notin> set (as_pruned s) \<Longrightarrow> count_list (as_sent s) k \<le> 1"
    "k \<notin> set (as_pruned s) \<Longrightarrow> k \<in> set (as_sent s) \<Longrightarrow> receipt_for (as_journal s) k"
    "map_of (as_inflight s) key = Some c \<Longrightarrow> call_ok s key c"
  using assms unfolding answers_inv_def by blast+

text \<open>A call either changes nothing or starts a delivery.\<close>

lemma answer_begin_cases:
  assumes "answer_begin env digits connected sid a job response now s = Inr (r, s')"
  obtains (same) "s' = s"
  | (started) hash j t fate responses where "map_of (as_inflight s) (sid, an_request a) = None"
      "begin_delivery sid (an_request a) (an_ref a) hash j now (as_journal s) = Inr t"
      "s' = s\<lparr>as_journal := t, as_inflight := AList.update (sid, an_request a) (hash, an_ref a, fate) (as_inflight s),
        as_responses := responses, as_sent := (if fate = FateSent then as_sent s @ [(sid, an_ref a)] else as_sent s)\<rparr>"
proof (cases job)
  case None
  then show ?thesis using assms by (simp add: answer_begin_def)
next
  case (Some j)
  show ?thesis
  proof (cases "map_of (as_inflight s) (sid, an_request a)")
    case inflight: (Some c)
    then have "s' = s" using assms Some by (auto simp: answer_begin_def Let_def split: prod.splits if_splits)
    then show ?thesis by (rule same)
  next
    case None
    let ?hash = "ae_hash_of env a"
    let ?body = "\<lambda>p. res_bind (begin_delivery sid (an_request a) (an_ref a) ?hash (Some (ij_id j)) now (as_journal s)) (\<lambda>t.
      let key = (ij_id j, pi_id p); fate = fate_of (dispatchable digits connected j p) key response s in
      Inr (None, s\<lparr>as_journal := t,
        as_inflight := AList.update (sid, an_request a) (?hash, an_ref a, fate) (as_inflight s),
        as_responses := (if fate = FateSent then AList.update key response (as_responses s) else as_responses s),
        as_sent := (if fate = FateSent then as_sent s @ [(sid, an_ref a)] else as_sent s)\<rparr>))"
    let ?rest = "\<lambda>previous. if previous \<noteq> None \<and> previous \<noteq> Some NotDelivered
        then Inr (Some (if previous = Some DeliveredAnswer then DeliveredAnswer else Uncertain), s)
        else res_bind (answerable env a j) ?body"
    have "answer_begin env digits connected sid a job response now s =
      (if ae_request_ended env sid (an_request a) then Inl RequestEnded
       else res_bind (delivery sid (an_request a) ?hash (as_journal s)) ?rest)"
      unfolding answer_begin_def Let_def Some None option.case ..
    with assms have "res_bind (delivery sid (an_request a) ?hash (as_journal s)) ?rest = Inr (r, s')"
      by (metis sum.distinct(1))
    then obtain previous where rest: "?rest previous = Inr (r, s')" unfolding res_bind_Inr_iff by blast
    show ?thesis
    proof (cases "previous \<noteq> None \<and> previous \<noteq> Some NotDelivered")
      case True
      then have "s' = s" using rest by simp
      then show ?thesis by (rule same)
    next
      case False
      then have "res_bind (answerable env a j) ?body = Inr (r, s')" using rest by (simp only: if_False)
      then obtain p where "?body p = Inr (r, s')" unfolding res_bind_Inr_iff by blast
      then obtain t where b: "begin_delivery sid (an_request a) (an_ref a) ?hash (Some (ij_id j)) now (as_journal s) = Inr t"
        and s': "s' = (let key = (ij_id j, pi_id p); fate = fate_of (dispatchable digits connected j p) key response s in
          s\<lparr>as_journal := t,
            as_inflight := AList.update (sid, an_request a) (?hash, an_ref a, fate) (as_inflight s),
            as_responses := (if fate = FateSent then AList.update key response (as_responses s) else as_responses s),
            as_sent := (if fate = FateSent then as_sent s @ [(sid, an_ref a)] else as_sent s)\<rparr>)"
        unfolding res_bind_Inr_iff Let_def sum.inject prod.inject by blast
      show ?thesis by (rule started [OF None b]) (simp add: s' Let_def)
    qed
  qed
qed

lemma answers_invI:
  assumes "journal_ok (as_journal s)"
    and "\<And>k. k \<notin> set (as_pruned s) \<Longrightarrow> count_list (as_sent s) k \<le> 1"
    and "\<And>k. k \<notin> set (as_pruned s) \<Longrightarrow> k \<in> set (as_sent s) \<Longrightarrow> receipt_for (as_journal s) k"
    and "\<And>key c. map_of (as_inflight s) key = Some c \<Longrightarrow> call_ok s key c"
  shows "answers_inv s"
  unfolding answers_inv_def using assms by blast

lemma call_okD:
  assumes "call_ok s (sid, rid) (h, ref, fate)"
  shows "d \<in> set (as_journal s) \<Longrightarrow> request_key d = (sid, rid) \<Longrightarrow> dl_ref d = ref"
    "(sid, ref) \<notin> set (as_pruned s) \<Longrightarrow>
      \<exists>d \<in> set (as_journal s). request_key d = (sid, rid) \<and> dl_ref d = ref \<and> dl_status d = Dispatching"
    "fate \<noteq> FateSent \<Longrightarrow> (sid, ref) \<in> set (as_sent s) \<Longrightarrow> (sid, ref) \<in> set (as_pruned s)"
  using assms by (auto simp: call_ok_def)

text \<open>A call in flight stays good as long as its row does and its question is not answered by another.\<close>

lemma call_ok_kept:
  assumes "call_ok s key c"
    and "\<And>d. d \<in> set (as_journal s) \<Longrightarrow> request_key d = key \<Longrightarrow> dl_status d = Dispatching \<Longrightarrow>
      d \<in> set (as_journal s') \<or> question_key d \<in> set (as_pruned s')"
    and "\<And>d. d \<in> set (as_journal s') \<Longrightarrow> request_key d = key \<Longrightarrow>
      \<exists>x \<in> set (as_journal s). request_key x = key \<and> dl_ref x = dl_ref d"
    and "\<And>k. k \<in> set (as_sent s') \<Longrightarrow> k \<notin> set (as_sent s) \<Longrightarrow> \<not> receipt_for (as_journal s) k"
    and "set (as_pruned s) \<subseteq> set (as_pruned s')"
  shows "call_ok s' key c"
proof -
  obtain sid rid h ref fate where e: "key = (sid, rid)" "c = (h, ref, fate)" by (metis prod_cases3 surj_pair)
  note c = assms(1) [unfolded e]
  have rows: "dl_ref d = ref" if "d \<in> set (as_journal s')" "request_key d = (sid, rid)" for d
    using assms(3) [of d] that call_okD(1) [OF c] unfolding e by fastforce
  show ?thesis
  proof (cases "(sid, ref) \<in> set (as_pruned s')")
    case True
    then show ?thesis using rows unfolding e call_ok_def by auto
  next
    case False
    then obtain d where d: "d \<in> set (as_journal s)" "request_key d = (sid, rid)" "dl_ref d = ref" "dl_status d = Dispatching"
      using call_okD(2) [OF c] assms(5) by blast
    then have q: "question_key d = (sid, ref)" by (simp add: request_key_def question_key_def)
    then have "receipt_for (as_journal s) (sid, ref)" unfolding receipt_for_def using d by (intro bexI [of _ d]) auto
    then have "(sid, ref) \<in> set (as_sent s') \<Longrightarrow> (sid, ref) \<in> set (as_sent s)" using assms(4) by blast
    moreover have "d \<in> set (as_journal s')" using assms(2) [OF d(1)] d q False unfolding e by simp
    ultimately show ?thesis using rows call_okD(3) [OF c] assms(5) d unfolding e call_ok_def by auto
  qed
qed

lemma sent_begin:
  assumes "answers_inv s" "answer_begin env digits connected sid a job response now s = Inr (r, s')"
  shows "answers_inv s'"
  using assms(2)
proof (cases rule: answer_begin_cases)
  case same
  then show ?thesis using assms(1) by simp
next
  case (started hash j t fate responses)
  let ?k = "(sid, an_ref a)"
  have b: "journal_ok t" "\<not> receipt_for (as_journal s) ?k"
    "\<exists>d \<in> set t. request_key d = (sid, an_request a) \<and> dl_ref d = an_ref a \<and> dl_status d = Dispatching"
    "\<And>k. receipt_for (as_journal s) k \<Longrightarrow> receipt_for t k"
    "\<And>d. d \<in> set (as_journal s) \<Longrightarrow> dl_status d = Dispatching \<Longrightarrow> d \<in> set t"
    "\<And>d. d \<in> set t \<Longrightarrow> request_key d \<noteq> (sid, an_request a) \<Longrightarrow> d \<in> set (as_journal s)"
    "\<And>d. d \<in> set t \<Longrightarrow> request_key d = (sid, an_request a) \<Longrightarrow> dl_ref d = an_ref a"
    using begin_delivery_Inr [OF started(2) invD(1) [OF assms(1)]] by blast+
  have fields: "as_journal s' = t" "as_pruned s' = as_pruned s"
    "as_inflight s' = AList.update (sid, an_request a) (hash, an_ref a, fate) (as_inflight s)"
    "as_sent s' = (if fate = FateSent then as_sent s @ [?k] else as_sent s)"
    by (simp_all add: started(3))
  have fresh: "?k \<notin> set (as_pruned s) \<Longrightarrow> ?k \<notin> set (as_sent s)"
    using invD(3) [OF assms(1)] b(2) by blast
  have now: "receipt_for t ?k"
    using b(3) by (auto simp: receipt_for_def request_key_def question_key_def)
  show ?thesis
  proof (rule answers_invI)
    show "journal_ok (as_journal s')" using b(1) by (simp add: fields)
  next
    fix k assume k: "k \<notin> set (as_pruned s')"
    then have le: "count_list (as_sent s) k \<le> 1" using invD(2) [OF assms(1)] by (simp add: fields)
    show "count_list (as_sent s') k \<le> 1"
    proof (cases "k = ?k")
      case True
      then have "count_list (as_sent s) k = 0" using fresh k by (simp add: fields count_list_0_iff)
      then show ?thesis by (simp add: fields)
    next
      case False
      then show ?thesis using le by (simp add: fields)
    qed
    assume "k \<in> set (as_sent s')"
    then have "k = ?k \<or> k \<in> set (as_sent s)" by (auto simp: fields split: if_splits)
    then show "receipt_for (as_journal s') k"
      using k b(4) now invD(3) [OF assms(1), of k] unfolding fields by blast
  next
    fix key c assume c: "map_of (as_inflight s') key = Some c"
    show "call_ok s' key c"
    proof (cases "key = (sid, an_request a)")
      case True
      then have "c = (hash, an_ref a, fate)" using c by (simp add: fields update_conv')
      then show ?thesis using True b(3,7) fresh by (auto simp: call_ok_def fields)
    next
      case False
      then have "map_of (as_inflight s) key = Some c" using c by (simp add: fields update_conv')
      then show ?thesis
        by (rule call_ok_kept [OF invD(4) [OF assms(1)]]) (use b False in \<open>auto simp: fields split: if_splits\<close>)
    qed
  qed
qed

text \<open>Returning from the await: the caller hears that nothing was sent only when nothing was.\<close>

lemma answer_return_cases:
  assumes "answer_return sid rid out ok1 ok2 s = (r, s')" "map_of (as_inflight s) (sid, rid) = Some (h, ref, fate)"
  shows "\<exists>st t. r = Some st \<and> s' = s\<lparr>as_journal := t, as_inflight := AList.delete (sid, rid) (as_inflight s)\<rparr> \<and>
    (t = as_journal s \<or> t = map (settled_row (sid, rid) st) (as_journal s)) \<and> (st = NotDelivered \<longrightarrow> fate \<noteq> FateSent)"
proof -
  obtain st t where ro: "record_outcome (seen_outcome fate out) ok1 ok2 sid rid (as_journal s) = (st, t)" by fastforce
  have "st = NotDelivered \<longrightarrow> fate \<noteq> FateSent"
    using record_outcome_cases [OF ro] by (auto simp: seen_outcome_def split: if_splits)
  then show ?thesis using assms ro record_outcome_cases [OF ro] by (auto simp: answer_return_def)
qed

lemma sent_return:
  assumes "answers_inv s"
  shows "answers_inv (snd (answer_return sid rid out ok1 ok2 s))"
proof (cases "map_of (as_inflight s) (sid, rid)")
  case None
  then show ?thesis using assms by (simp add: answer_return_def)
next
  case (Some c)
  obtain h ref fate where c: "c = (h, ref, fate)" by (cases c) auto
  obtain r s' where rs: "answer_return sid rid out ok1 ok2 s = (r, s')" by fastforce
  obtain st t where u: "s' = s\<lparr>as_journal := t, as_inflight := AList.delete (sid, rid) (as_inflight s)\<rparr>"
    "t = as_journal s \<or> t = map (settled_row (sid, rid) st) (as_journal s)" "st = NotDelivered \<longrightarrow> fate \<noteq> FateSent"
    using answer_return_cases [OF rs] Some c by blast
  have fields: "as_journal s' = t" "as_pruned s' = as_pruned s" "as_sent s' = as_sent s"
    "as_inflight s' = AList.delete (sid, rid) (as_inflight s)" by (simp_all add: u(1))
  note I = invD [OF assms]
  have ok: "call_ok s (sid, rid) (h, ref, fate)" using I(4) [OF Some] c by simp
  have unsent: "\<not> (st = NotDelivered \<and> (sid, ref) \<in> set (as_sent s) \<and> (sid, ref) \<notin> set (as_pruned s))"
    using call_okD(3) [OF ok] u(3) by blast
  have "answers_inv s'"
  proof (rule answers_invI)
    show "journal_ok (as_journal s')" unfolding fields using outcome_journal [OF I(1) u(2)] .
  next
    fix k assume k: "k \<notin> set (as_pruned s')"
    then show "count_list (as_sent s') k \<le> 1" using I(2) by (simp add: fields)
    assume k2: "k \<in> set (as_sent s')"
    have "\<not> (\<exists>x \<in> set (as_journal s). request_key x = (sid, rid) \<and> dl_status x = Dispatching \<and> question_key x = k)"
      if nd: "st = NotDelivered"
    proof
      assume "\<exists>x \<in> set (as_journal s). request_key x = (sid, rid) \<and> dl_status x = Dispatching \<and> question_key x = k"
      then obtain x where x: "x \<in> set (as_journal s)" "request_key x = (sid, rid)" "question_key x = k" by blast
      then have "k = (sid, ref)" using call_okD(1) [OF ok x(1,2)] by (simp add: question_key_def request_key_def)
      then show False using unsent nd k k2 by (simp add: fields)
    qed
    then show "receipt_for (as_journal s') k"
      using settled_receipt [OF I(3) u(2)] k k2 by (simp add: fields)
  next
    fix key c' assume c': "map_of (as_inflight s') key = Some c'"
    then have key: "key \<noteq> (sid, rid)" "map_of (as_inflight s) key = Some c'"
      by (auto simp: fields delete_conv' split: if_splits)
    show "call_ok s' key c'"
    proof (rule call_ok_kept [OF I(4) [OF key(2)]])
      show "x \<in> set (as_journal s') \<or> question_key x \<in> set (as_pruned s')" if "x \<in> set (as_journal s)" "request_key x = key" for x
        unfolding fields using settled_others [OF that(1) _ u(2)] that(2) key(1) by blast
      show "\<exists>y \<in> set (as_journal s). request_key y = key \<and> dl_ref y = dl_ref x"
        if "x \<in> set (as_journal s')" "request_key x = key" for x
        using u(2) that unfolding fields settled_row_def by (auto split: if_splits; blast)
    qed (simp_all add: fields)
  qed
  then show ?thesis by (simp add: rs)
qed

lemma sent_removal:
  assumes "answers_inv s" "as_journal s' = t'" "as_pruned s' = as_pruned s @ map question_key removed"
    "as_sent s' = as_sent s" "as_inflight s' = [] \<or> as_inflight s' = as_inflight s \<and> t = as_journal s"
    "journal_ok t" "\<And>k. receipt_for (as_journal s) k \<Longrightarrow> receipt_for t k"
    "journal_ok t'" "set t' \<subseteq> set t" "set t \<subseteq> set t' \<union> set removed"
  shows "answers_inv s'"
proof (rule answers_invI)
  show "journal_ok (as_journal s')" unfolding assms(2) by (rule assms(8))
next
  fix k assume k: "k \<notin> set (as_pruned s')"
  then show "count_list (as_sent s') k \<le> 1" using invD(2) [OF assms(1)] by (simp add: assms(3,4))
  assume "k \<in> set (as_sent s')"
  then have "receipt_for t k" using k invD(3) [OF assms(1)] assms(7) by (simp add: assms(3,4))
  then show "receipt_for (as_journal s') k" unfolding assms(2) using k assms(10) by (auto simp: assms(3) receipt_for_def)
next
  fix key c assume c: "map_of (as_inflight s') key = Some c"
  then have e: "as_inflight s' = as_inflight s" "t = as_journal s" using assms(5) by auto
  show "call_ok s' key c"
  proof (rule call_ok_kept [OF invD(4) [OF assms(1)]])
    show "map_of (as_inflight s) key = Some c" using c e by simp
    show "d \<in> set (as_journal s') \<or> question_key d \<in> set (as_pruned s')" if "d \<in> set (as_journal s)" for d
      using that e assms(2,3,10) by auto
    show "\<exists>x \<in> set (as_journal s). request_key x = key \<and> dl_ref x = dl_ref d" if "d \<in> set (as_journal s')" "request_key d = key" for d
      using that e assms(2,9) by blast
  qed (auto simp: assms(3,4))
qed

lemma sent_prune:
  assumes "answers_inv s" "as_journal s' = prune cutoff limit t" "as_pruned s' = as_pruned s @ map question_key (pruned_rows cutoff limit t)"
    "as_sent s' = as_sent s" "as_inflight s' = [] \<or> as_inflight s' = as_inflight s \<and> t = as_journal s"
    "journal_ok t" "\<And>k. receipt_for (as_journal s) k \<Longrightarrow> receipt_for t k"
  shows "answers_inv s'"
  by (rule sent_removal [OF assms prune_ok [OF assms(6)]]) (auto simp: prune_def dest: prune_keeps [OF assms(6)])

lemma answers_step_inv: "answers_inv s \<Longrightarrow> answers_inv (answer_step s e)"
proof (induction e)
  case (AeCall env digits connected sid a job response now)
  then show ?case using sent_begin by (auto split: sum.splits prod.splits)
next
  case (AeReturn sid rid out ok1 ok2)
  then show ?case by (simp add: sent_return)
next
  case (AeOtherResponse key response)
  then show ?case by (auto simp: answers_inv_def call_ok_def)
next
  case (AeResponseDone key)
  then show ?case by (auto simp: answers_inv_def call_ok_def)
next
  case (AePrune cutoff limit)
  then show ?case by (intro sent_prune [OF AePrune, where t = "as_journal s"]) (simp_all add: pruned_keys invD(1))
next
  case (AeRestart cutoff)
  then have "journal_ok (startup_deliveries (as_journal s))" by (intro startup_ok invD(1))
  then show ?case
    by (intro sent_prune [OF AeRestart, where t = "startup_deliveries (as_journal s)"])
      (simp_all add: pruned_keys Let_def startup_receipt)
next
  case (AeProjectEnd jobs refs)
  then show ?case
    by (intro sent_removal [OF AeProjectEnd, where t = "as_journal s" and t' = "retire_deliveries jobs refs (as_journal s)"
          and removed = "filter (retired_row jobs refs) (as_journal s)"])
      (auto simp: pruned_keys retire_deliveries_def journal_ok_filter invD(1))
qed

lemma answers_inv_new: "answers_inv new_answers"
  by (simp add: answers_inv_def new_answers_def journal_ok_def)

interpretation answers: transition_system answer_step "\<lambda>_. True" answers_inv
  by unfold_locales (rule answers_step_inv)

lemma answers_run_inv: "answers_inv (run answer_step new_answers es)"
  by (rule answers.run_inv [OF answers_inv_new]) (simp add: list_all_iff)

section \<open>Properties\<close>

text \<open>C22. However calls of the answer tool, other responders, retention and restarts interleave, an answer
  to a question is handed to the App Server at most once, as long as the receipt is retained.\<close>

theorem answer_sent_at_most_once:
  assumes "(sid, ref) \<notin> set (as_pruned (run answer_step new_answers es))"
  shows "count_list (as_sent (run answer_step new_answers es)) (sid, ref) \<le> 1"
  by (rule invD(2) [OF answers_run_inv assms])


end
