(* ===== verification/Question_Witnesses.thy ===== *)
theory Question_Witnesses
  imports Question_Safety
begin

text \<open>
  A question that is answered, with the answer repeated after a restart, and one whose answer never
  left the bridge: the hypotheses of \<open>Question_Safety\<close> hold there.
\<close>

definition example_env :: answer_env where
  "example_env = \<lparr>ae_ref_of = (\<lambda>_ p. pi_id p), ae_hash_of = an_job, ae_request_ended = (\<lambda>_ _. False)\<rparr>"

definition example_question :: pending_input where
  "example_question = \<lparr>pi_id = ''w:1:q'', pi_kind = ''user-input'', pi_origin = Some ''codex-question'', pi_thread = ''t'',
     pi_turn = ''u'', pi_questions = Some [\<lparr>iq_id = ''a'', iq_question = ''b'', iq_secret = False, iq_other = None,
     iq_options = None\<rparr>]\<rparr>"

definition example_input_job :: input_job where
  "example_input_job = \<lparr>ij_id = ''j'', ij_scope = ''s'', ij_status = JsRunning, ij_tracking = ''connected'', ij_worker = Some ''w'',
     ij_generation = Some 1, ij_thread = Some ''t'', ij_turn = Some ''u'', ij_project_active = True, ij_controlled = True,
     ij_pending = [example_question]\<rparr>"

definition example_call :: answer_call where
  "example_call = \<lparr>an_request = ''r'', an_job = ''j'', an_ref = ''w:1:q'', an_answers = [(''a'', [''yes''])]\<rparr>"

definition example_answer :: "bool \<Rightarrow> answer_event" where
  "example_answer connected = AeCall example_env (\<lambda>_. ''1'') connected ''s'' example_call (Some example_input_job) ''h'' 5"

lemmas answer_eval = example_env_def example_question_def example_input_job_def example_call_def example_answer_def
  answer_begin_def answer_return_def delivery_def begin_delivery_def finish_delivery_def record_outcome_def try_finish_def
  finish_uncertain_def seen_outcome_def fate_of_def answerable_def dispatchable_def ordinary_codex_question_def
  validate_answers_def same_request_def same_question_def startup_deliveries_def prune_def pruned_rows_def prunable_def
  new_answers_def Let_def starts_with_def is_active_status_def

lemma letters_kept: "js_trim ''a'' = ''a''" "js_trim ''b'' = ''b''"
  by code_simp+

definition answered_events :: "answer_event list" where
  "answered_events = [example_answer True, AeRestart None, example_answer True, AeReturn ''s'' ''r'' SendOk True True]"

definition refused_events :: "answer_event list" where
  "refused_events = [example_answer False]"

lemma answered_run:
  "(''s'', ''w:1:q'') \<notin> set (as_pruned (run answer_step new_answers answered_events))"
  "(''s'', ''w:1:q'') \<in> set (as_sent (run answer_step new_answers answered_events))"
  by (simp_all add: answered_events_def answer_eval letters_kept)

lemma refused_run:
  "map_of (as_inflight (run answer_step new_answers refused_events)) (''s'', ''r'') = Some (''j'', ''w:1:q'', FateRefused)"
  "fst (answer_return ''s'' ''r'' SendOk True True (run answer_step new_answers refused_events)) = Some NotDelivered"
  "(''s'', ''w:1:q'') \<notin> set (as_pruned (run answer_step new_answers refused_events))"
  by (simp_all add: refused_events_def answer_eval letters_kept)

theorem answer_sent_at_most_once_witness:
  "count_list (as_sent (run answer_step new_answers answered_events)) (''s'', ''w:1:q'') \<le> 1 \<and>
   (''s'', ''w:1:q'') \<in> set (as_sent (run answer_step new_answers answered_events))"
  using answer_sent_at_most_once [OF answered_run(1)] answered_run(2) by simp


end
