(* ===== verification/Codec.thy ===== *)
theory Codec
  imports Js_Value
begin

text \<open>
  Values the bridge keeps as JSON text in \<open>bridge_meta\<close>. A stored text is known by what
  \<open>JSON.parse\<close> makes of it; \<open>JSON.stringify\<close> of an object whose fields are all defined is a text that
  parses to that object. \<open>codec\<close> is the contract of a pair of writer and reader: what was written is
  read back, hence also lists of it, and two values with the same text are equal.
\<close>

datatype stored_text = NotJson | JsonText js

locale codec =
  fixes encode :: "'a \<Rightarrow> 'b"
    and decode :: "'b \<Rightarrow> ('e, 'a) result"
    and ok :: "'a \<Rightarrow> bool"
  assumes decode_encode: "ok x \<Longrightarrow> decode (encode x) = Inr x"
begin

lemma decode_list: "list_all ok xs \<Longrightarrow> res_mapM decode (map encode xs) = Inr xs"
  by (induction xs) (simp_all add: decode_encode)

lemma encode_inj: "ok x \<Longrightarrow> ok y \<Longrightarrow> encode x = encode y \<Longrightarrow> x = y"
  by (metis decode_encode sum.inject(2))

end

section \<open>Numbers and texts of the readers\<close>

definition max_safe :: int where
  "max_safe = 2 ^ 53 - 1"

fun is_safe_integer :: "js \<Rightarrow> bool" where
  "is_safe_integer (JInt n) = (\<bar>n\<bar> \<le> max_safe)"
| "is_safe_integer _ = False"

fun int_of_js :: "js \<Rightarrow> int" where
  "int_of_js (JInt n) = n"
| "int_of_js _ = 0"

lemma is_safe_integer_iff: "is_safe_integer v \<longleftrightarrow> (\<exists>n. v = JInt n \<and> \<bar>n\<bar> \<le> max_safe)"
  by (cases v) auto

lemma dropWhile_rdrop_idem:
  "dropWhile P (rev (dropWhile P (rev (dropWhile P s)))) = rev (dropWhile P (rev (dropWhile P s)))"
proof -
  define t where "t = dropWhile P s"
  define u where "u = rev (dropWhile P (rev t))"
  have "rev (rev t) = rev (takeWhile P (rev t) @ dropWhile P (rev t))" by (simp only: takeWhile_dropWhile_id)
  then have t: "t = u @ rev (takeWhile P (rev t))" by (simp only: rev_append rev_rev_ident u_def)
  have "dropWhile P u = u"
  proof (cases u)
    case (Cons c u')
    then have "hd t = c" "t \<noteq> []" using t by (metis append_Cons list.sel(1), metis append_Cons list.distinct(1))
    then have "\<not> P c" using hd_dropWhile [of P s] by (auto simp: t_def)
    then show ?thesis using Cons by simp
  qed simp
  then show ?thesis by (simp add: u_def t_def)
qed

lemma js_trim_idem [simp]: "js_trim (js_trim s) = js_trim s"
  by (simp add: js_trim_def dropWhile_rdrop_idem)

end
