(* ===== verification/Late_Responses.thy ===== *)
theory Late_Responses
  imports Codec
begin

text \<open>
  The journal of App Server responses that arrive after their request timed out
  (\<open>src/src/appServerLateResponses.ts\<close>): the interpretation of a response, the reconciliation with the
  Agents, saturating totals, the bounded list of records and the text it is stored as. An \<open>observe\<close> runs
  in a transaction: when a check throws, the stored text is the old one. The links of Agents to threads
  are the rows \<open>getAgentForThread\<close> joins.
\<close>

datatype late_error =
    LateInvalid string | LateIdentifier | LateRecord | LateOutcome | LateReconciliation | LateJson | LateFormat | LateRetention

datatype late_outcome = LateSuccess | LateError | LateMalformed

datatype reconciliation =
    NotApplicable | IdentifierRecorded | AgentArchived | AgentRestored | AlreadyConsistent | ThreadUntracked
  | StateConflict | ReconMalformed

record late_record =
  lt_request :: int
  lt_method :: string
  lt_outcome :: late_outcome
  lt_timed_out :: int
  lt_received :: int
  lt_latency :: int
  lt_worker :: string
  lt_generation :: int
  lt_error :: "int option"
  lt_thread :: "string option"
  lt_turn :: "string option"

record late_totals =
  tl_observed :: int
  tl_success :: int
  tl_error :: int
  tl_malformed :: int
  tl_identified :: int
  tl_reconciled :: int
  tl_conflicts :: int
  tl_untracked :: int
  tl_evicted :: int

type_synonym recorded = "late_record \<times> reconciliation"

record late_state =
  ls_totals :: late_totals
  ls_records :: "recorded list"

definition max_retained :: nat where
  "max_retained = 128"

section \<open>Checks of single values\<close>

definition safe_integer :: "js \<Rightarrow> string \<Rightarrow> (late_error, int) result" where
  "safe_integer v label = (if \<not> is_safe_integer v then Inl (LateInvalid label) else Inr (int_of_js v))"

definition safe_nonneg :: "js \<Rightarrow> string \<Rightarrow> (late_error, int) result" where
  "safe_nonneg v label =
     res_bind (safe_integer v label) (\<lambda>n. if n < 0 then Inl (LateInvalid label) else Inr n)"

definition counter :: "js \<Rightarrow> string \<Rightarrow> (late_error, int) result" where
  "counter v label = safe_nonneg v (''stored '' @ label @ '' counter'')"

definition safe_identifier :: "js \<Rightarrow> string option" where
  "safe_identifier v =
     (if \<not> is_string v then None
      else let i = js_trim (string_of v) in
        if i = '''' \<or> length i > 200 \<or> list_ex (\<lambda>c. (of_char c :: nat) < 32 \<or> (of_char c :: nat) = 127) i then None else Some i)"

definition required_identifier :: "js \<Rightarrow> (late_error, string) result" where
  "required_identifier v = (case safe_identifier v of None \<Rightarrow> Inl LateIdentifier | Some i \<Rightarrow> Inr i)"

definition method_char :: "char \<Rightarrow> bool" where
  "method_char c \<longleftrightarrow> (let n = (of_char c :: nat) in
     97 \<le> n \<and> n \<le> 122 \<or> 65 \<le> n \<and> n \<le> 90 \<or> 48 \<le> n \<and> n \<le> 57 \<or> n = 47)"

definition protocol_method :: "js \<Rightarrow> string" where
  "protocol_method v =
     (if \<not> is_string v \<or> length (string_of v) > 120 then ''unknown''
      else case string_of v of
        [] \<Rightarrow> ''unknown''
      | c # s \<Rightarrow> if 97 \<le> (of_char c :: nat) \<and> (of_char c :: nat) \<le> 122 \<and> list_all method_char s then c # s else ''unknown'')"

section \<open>Interpretation of a response\<close>

record late_response =
  lr_request :: js
  lr_method :: js
  lr_timed_out :: js
  lr_received :: js
  lr_worker :: js
  lr_generation :: js
  lr_context :: js
  lr_response :: js

definition first_outcome :: "late_response \<Rightarrow> late_outcome" where
  "first_outcome r =
     (let has_error = is_record (jget (lr_response r) ''error'');
          has_result = ''result'' \<in> set (object_keys (lr_response r)) in
      if has_error = has_result then LateMalformed
      else if has_error then LateError
      else if protocol_method (lr_method r) = ''unknown'' then LateMalformed
      else LateSuccess)"

text \<open>The thread and turn a response names, and the outcome once they are known.\<close>

definition identified :: "late_response \<Rightarrow> late_outcome \<times> string option \<times> string option" where
  "identified r =
     (let m = protocol_method (lr_method r); out = first_outcome r;
          context_thread = safe_identifier (jget (lr_context r) ''threadId'');
          result = jget (lr_response r) ''result'';
          result_thread = safe_identifier (jget (jget result ''thread'') ''id'');
          result_turn = (case safe_identifier (jget (jget result ''turn'') ''id'') of
            None \<Rightarrow> safe_identifier (jget result ''turnId'') | Some t \<Rightarrow> Some t) in
      if out \<noteq> LateSuccess then (out, context_thread, None)
      else if m = ''thread/start'' \<or> m = ''thread/fork''
        then (if result_thread = None then LateMalformed else out, result_thread, None)
      else if m = ''thread/resume'' \<or> m = ''thread/unarchive''
        then (if result_thread \<noteq> None \<and> context_thread \<noteq> None \<and> result_thread \<noteq> context_thread then (LateMalformed, None, None)
              else let t = (case result_thread of None \<Rightarrow> context_thread | Some t \<Rightarrow> Some t) in
                (if t = None then LateMalformed else out, t, None))
      else if m = ''thread/archive''
        then (if context_thread = None then LateMalformed else out, context_thread, None)
      else if m = ''turn/start''
        then (if context_thread = None \<or> result_turn = None then LateMalformed else out, context_thread, result_turn)
      else (out, context_thread, None))"

definition error_code :: "late_response \<Rightarrow> int option" where
  "error_code r =
     (let code = jget (jget (lr_response r) ''error'') ''code'' in
      if is_record (jget (lr_response r) ''error'') \<and> is_safe_integer code then Some (int_of_js code) else None)"

definition interpret_late :: "late_response \<Rightarrow> (late_error, late_record) result" where
  "interpret_late r =
     (case identified r of (out, thread, turn) \<Rightarrow>
        res_bind (safe_nonneg (lr_request r) ''request id'') (\<lambda>request.
        res_bind (safe_nonneg (lr_timed_out r) ''timeout timestamp'') (\<lambda>timed_out.
        res_bind (safe_nonneg (lr_received r) ''receive timestamp'') (\<lambda>received.
        res_bind (safe_nonneg (lr_generation r) ''worker generation'') (\<lambda>generation.
        Inr \<lparr>lt_request = request, lt_method = protocol_method (lr_method r), lt_outcome = out,
          lt_timed_out = timed_out, lt_received = received, lt_latency = max 0 (received - timed_out),
          lt_worker = (case safe_identifier (lr_worker r) of None \<Rightarrow> ''unknown'' | Some w \<Rightarrow> w),
          lt_generation = generation, lt_error = error_code r, lt_thread = thread, lt_turn = turn\<rparr>)))))"

section \<open>Reconciliation\<close>

text \<open>The rows of \<open>agents\<close> by id and of \<open>agent_threads\<close> from thread to Agent.\<close>

definition agent_for_thread :: "string list \<Rightarrow> (string \<times> string) list \<Rightarrow> string \<Rightarrow> string option" where
  "agent_for_thread agents links t =
     (case map_of links t of None \<Rightarrow> None | Some a \<Rightarrow> if a \<in> set agents then Some a else None)"

definition reconcile_late :: "string list \<Rightarrow> (string \<times> string) list \<Rightarrow> late_record \<Rightarrow> reconciliation" where
  "reconcile_late agents links r =
     (if lt_outcome r = LateMalformed then ReconMalformed
      else if lt_outcome r \<noteq> LateSuccess then NotApplicable
      else if lt_method r \<noteq> ''thread/archive'' \<and> lt_method r \<noteq> ''thread/unarchive''
        then (if lt_thread r \<noteq> None \<or> lt_turn r \<noteq> None then IdentifierRecorded else NotApplicable)
      else case lt_thread r of
        None \<Rightarrow> ReconMalformed
      | Some t \<Rightarrow> (case agent_for_thread agents links t of None \<Rightarrow> ThreadUntracked | Some _ \<Rightarrow> StateConflict))"

section \<open>The stored text\<close>

definition outcome_name :: "late_outcome \<Rightarrow> string" where
  "outcome_name out = (case out of LateSuccess \<Rightarrow> ''success'' | LateError \<Rightarrow> ''error'' | LateMalformed \<Rightarrow> ''malformed'')"

definition reconciliation_name :: "reconciliation \<Rightarrow> string" where
  "reconciliation_name c = (case c of
     NotApplicable \<Rightarrow> ''not-applicable'' | IdentifierRecorded \<Rightarrow> ''identifier-recorded'' | AgentArchived \<Rightarrow> ''agent-archived''
   | AgentRestored \<Rightarrow> ''agent-restored'' | AlreadyConsistent \<Rightarrow> ''already-consistent'' | ThreadUntracked \<Rightarrow> ''thread-untracked''
   | StateConflict \<Rightarrow> ''state-conflict'' | ReconMalformed \<Rightarrow> ''malformed'')"

definition outcome_of :: "js \<Rightarrow> late_outcome option" where
  "outcome_of v = find (\<lambda>out. v = JStr (outcome_name out)) [LateSuccess, LateError, LateMalformed]"

definition reconciliation_of :: "js \<Rightarrow> reconciliation option" where
  "reconciliation_of v = find (\<lambda>c. v = JStr (reconciliation_name c))
     [NotApplicable, IdentifierRecorded, AgentArchived, AgentRestored, AlreadyConsistent, ThreadUntracked, StateConflict, ReconMalformed]"

definition record_js :: "recorded \<Rightarrow> js" where
  "record_js p = (case p of (r, c) \<Rightarrow> JObj (
     [(''requestId'', JInt (lt_request r)), (''method'', JStr (lt_method r)), (''outcome'', JStr (outcome_name (lt_outcome r))),
      (''timedOutAt'', JInt (lt_timed_out r)), (''receivedAt'', JInt (lt_received r)),
      (''latencyAfterTimeoutMs'', JInt (lt_latency r)), (''workerId'', JStr (lt_worker r)),
      (''workerGeneration'', JInt (lt_generation r))] @
     field_if ''errorCode'' (lt_error r) JInt @ field_if ''threadId'' (lt_thread r) JStr @ field_if ''turnId'' (lt_turn r) JStr @
     [(''reconciliation'', JStr (reconciliation_name c))]))"

definition optional_field :: "js \<Rightarrow> (js \<Rightarrow> (late_error, 'a) result) \<Rightarrow> (late_error, 'a option) result" where
  "optional_field v read = (if v = JUndef then Inr None else res_bind (read v) (\<lambda>x. Inr (Some x)))"

definition read_record :: "js \<Rightarrow> (late_error, recorded) result" where
  "read_record v =
     (if \<not> is_record v then Inl LateRecord
      else case outcome_of (jget v ''outcome'') of
        None \<Rightarrow> Inl LateOutcome
      | Some out \<Rightarrow> (case reconciliation_of (jget v ''reconciliation'') of
          None \<Rightarrow> Inl LateReconciliation
        | Some c \<Rightarrow>
            res_bind (safe_nonneg (jget v ''timedOutAt'') ''stored timeout timestamp'') (\<lambda>timed_out.
            res_bind (safe_nonneg (jget v ''receivedAt'') ''stored receive timestamp'') (\<lambda>received.
            res_bind (optional_field (jget v ''errorCode'') (\<lambda>e. safe_integer e ''stored error code'')) (\<lambda>err.
            res_bind (optional_field (jget v ''threadId'') required_identifier) (\<lambda>thread.
            res_bind (optional_field (jget v ''turnId'') required_identifier) (\<lambda>turn.
            res_bind (safe_nonneg (jget v ''requestId'') ''stored request id'') (\<lambda>request.
            res_bind (required_identifier (jget v ''workerId'')) (\<lambda>worker.
            res_bind (safe_nonneg (jget v ''workerGeneration'') ''stored worker generation'') (\<lambda>generation.
            Inr (\<lparr>lt_request = request, lt_method = protocol_method (jget v ''method''), lt_outcome = out,
              lt_timed_out = timed_out, lt_received = received, lt_latency = max 0 (received - timed_out),
              lt_worker = worker, lt_generation = generation, lt_error = err, lt_thread = thread, lt_turn = turn\<rparr>, c)))))))))))"

definition totals_js :: "late_totals \<Rightarrow> js" where
  "totals_js t = JObj
     [(''observed'', JInt (tl_observed t)), (''success'', JInt (tl_success t)), (''error'', JInt (tl_error t)),
      (''malformed'', JInt (tl_malformed t)), (''identified'', JInt (tl_identified t)),
      (''stateReconciled'', JInt (tl_reconciled t)), (''stateConflicts'', JInt (tl_conflicts t)),
      (''untracked'', JInt (tl_untracked t)), (''evicted'', JInt (tl_evicted t))]"

definition read_totals :: "js \<Rightarrow> (late_error, late_totals) result" where
  "read_totals v =
     res_bind (counter (jget v ''observed'') ''observed'') (\<lambda>observed.
     res_bind (counter (jget v ''success'') ''success'') (\<lambda>success.
     res_bind (counter (jget v ''error'') ''error'') (\<lambda>err.
     res_bind (counter (jget v ''malformed'') ''malformed'') (\<lambda>malformed.
     res_bind (counter (jget v ''identified'') ''identified'') (\<lambda>ident.
     res_bind (counter (jget v ''stateReconciled'') ''stateReconciled'') (\<lambda>reconciled.
     res_bind (counter (jget v ''stateConflicts'') ''stateConflicts'') (\<lambda>conflicts.
     res_bind (counter (jget v ''untracked'') ''untracked'') (\<lambda>untracked.
     res_bind (counter (jget v ''evicted'') ''evicted'') (\<lambda>evicted.
     Inr \<lparr>tl_observed = observed, tl_success = success, tl_error = err, tl_malformed = malformed, tl_identified = ident,
       tl_reconciled = reconciled, tl_conflicts = conflicts, tl_untracked = untracked, tl_evicted = evicted\<rparr>)))))))))"

definition empty_late :: late_state where
  "empty_late = \<lparr>ls_totals = \<lparr>tl_observed = 0, tl_success = 0, tl_error = 0, tl_malformed = 0, tl_identified = 0,
     tl_reconciled = 0, tl_conflicts = 0, tl_untracked = 0, tl_evicted = 0\<rparr>, ls_records = []\<rparr>"

definition state_js :: "late_state \<Rightarrow> js" where
  "state_js s = JObj [(''version'', JInt 1), (''totals'', totals_js (ls_totals s)),
     (''records'', JArr (map record_js (ls_records s)))]"

definition read_state :: "js \<Rightarrow> (late_error, late_state) result" where
  "read_state v =
     (if \<not> is_record v \<or> jget v ''version'' \<noteq> JInt 1 \<or> \<not> is_record (jget v ''totals'') \<or> \<not> is_array (jget v ''records'')
      then Inl LateFormat
      else res_bind (read_totals (jget v ''totals'')) (\<lambda>t.
        res_bind (res_mapM read_record (elements (jget v ''records''))) (\<lambda>rs. Inr \<lparr>ls_totals = t, ls_records = rs\<rparr>)))"

definition load_state :: "stored_text option \<Rightarrow> (late_error, late_state) result" where
  "load_state raw = (case raw of None \<Rightarrow> Inr empty_late | Some NotJson \<Rightarrow> Inl LateJson | Some (JsonText v) \<Rightarrow> read_state v)"

definition save_state :: "late_state \<Rightarrow> stored_text option" where
  "save_state s = Some (JsonText (state_js s))"

section \<open>The journal\<close>

definition saturate :: "int \<Rightarrow> int \<Rightarrow> int" where
  "saturate n k = min max_safe (n + k)"

definition compact :: "nat \<Rightarrow> late_state \<Rightarrow> late_state" where
  "compact limit s =
     (let excess = length (ls_records s) - limit in
      if excess = 0 then s
      else s\<lparr>ls_records := drop excess (ls_records s),
        ls_totals := (ls_totals s)\<lparr>tl_evicted := saturate (tl_evicted (ls_totals s)) (int excess)\<rparr>\<rparr>)"

definition count_outcome :: "late_outcome \<Rightarrow> late_totals \<Rightarrow> late_totals" where
  "count_outcome out t = (case out of
     LateSuccess \<Rightarrow> t\<lparr>tl_success := saturate (tl_success t) 1\<rparr>
   | LateError \<Rightarrow> t\<lparr>tl_error := saturate (tl_error t) 1\<rparr>
   | LateMalformed \<Rightarrow> t\<lparr>tl_malformed := saturate (tl_malformed t) 1\<rparr>)"

definition count_reconciliation :: "reconciliation \<Rightarrow> late_totals \<Rightarrow> late_totals" where
  "count_reconciliation c t =
     (if c = AgentArchived \<or> c = AgentRestored then t\<lparr>tl_reconciled := saturate (tl_reconciled t) 1\<rparr>
      else if c = StateConflict then t\<lparr>tl_conflicts := saturate (tl_conflicts t) 1\<rparr>
      else if c = ThreadUntracked then t\<lparr>tl_untracked := saturate (tl_untracked t) 1\<rparr>
      else t)"

definition count_record :: "recorded \<Rightarrow> late_totals \<Rightarrow> late_totals" where
  "count_record p t = (case p of (r, c) \<Rightarrow>
     (let t1 = count_outcome (lt_outcome r) (t\<lparr>tl_observed := saturate (tl_observed t) 1\<rparr>);
          t2 = (if lt_thread r \<noteq> None \<or> lt_turn r \<noteq> None then t1\<lparr>tl_identified := saturate (tl_identified t1) 1\<rparr> else t1) in
      count_reconciliation c t2))"

definition observe ::
  "nat \<Rightarrow> string list \<Rightarrow> (string \<times> string) list \<Rightarrow> late_response \<Rightarrow> stored_text option \<Rightarrow>
   (late_error, recorded \<times> stored_text option) result" where
  "observe limit agents links r raw =
     res_bind (interpret_late r) (\<lambda>i.
       let p = (i, reconcile_late agents links i) in
       res_bind (load_state raw) (\<lambda>s.
         Inr (p, save_state (compact limit
           \<lparr>ls_totals = count_record p (ls_totals s), ls_records = ls_records s @ [p]\<rparr>))))"

text \<open>Opening the journal checks the configured retention and trims what an earlier one kept.\<close>

definition open_journal :: "js \<Rightarrow> stored_text option \<Rightarrow> (late_error, nat \<times> stored_text option) result" where
  "open_journal retention raw =
     (let limit = (if retention = JUndef \<or> retention = JNull then JInt (int max_retained) else retention) in
      if \<not> is_safe_integer limit \<or> int_of_js limit \<le> 0 \<or> int_of_js limit > int max_retained then Inl LateRetention
      else let n = nat (int_of_js limit) in
        if raw = None then Inr (n, None)
        else res_bind (load_state raw) (\<lambda>s. Inr (n, save_state (compact n s))))"

record late_status =
  st_durable :: bool
  st_limit :: nat
  st_retained :: nat
  st_totals :: late_totals
  st_latest :: "(string \<times> late_outcome \<times> reconciliation) option"

definition status :: "bool \<Rightarrow> nat \<Rightarrow> stored_text option \<Rightarrow> (late_error, late_status) result" where
  "status durable limit raw = res_bind (load_state raw) (\<lambda>s.
     Inr \<lparr>st_durable = durable, st_limit = limit, st_retained = length (ls_records s), st_totals = ls_totals s,
       st_latest = (if ls_records s = [] then None
         else case last (ls_records s) of (r, c) \<Rightarrow> Some (lt_method r, lt_outcome r, c))\<rparr>)"

datatype late_event =
    LateObserve "string list" "(string \<times> string) list" late_response
  | LateReopen js

record late_journal =
  lj_limit :: nat
  lj_text :: "stored_text option"

fun late_step :: "late_journal \<Rightarrow> late_event \<Rightarrow> late_journal" where
  "late_step j (LateObserve agents links r) =
     (case observe (lj_limit j) agents links r (lj_text j) of Inl _ \<Rightarrow> j | Inr (_, raw) \<Rightarrow> j\<lparr>lj_text := raw\<rparr>)"
| "late_step j (LateReopen retention) =
     (case open_journal retention (lj_text j) of Inl _ \<Rightarrow> j | Inr (n, raw) \<Rightarrow> \<lparr>lj_limit = n, lj_text = raw\<rparr>)"

definition new_late_journal :: late_journal where
  "new_late_journal = \<lparr>lj_limit = max_retained, lj_text = None\<rparr>"

end
