(* ===== verification/Late_Safety.thy ===== *)
theory Late_Safety
  imports Late_Responses
begin

text \<open>
  Whatever responses arrive, the journal stays readable and bounded and its totals account for every
  response: the interpretation only produces values its own reader accepts, and the reader undoes the
  writer.
\<close>

section \<open>Well-typed values\<close>

definition safe_count :: "int \<Rightarrow> bool" where
  "safe_count n \<longleftrightarrow> 0 \<le> n \<and> n \<le> max_safe"

definition identifier_ok :: "string \<Rightarrow> bool" where
  "identifier_ok i \<longleftrightarrow> safe_identifier (JStr i) = Some i"

fun recorded_ok :: "recorded \<Rightarrow> bool" where
  "recorded_ok (r, c) \<longleftrightarrow> safe_count (lt_request r) \<and> protocol_method (JStr (lt_method r)) = lt_method r \<and>
     safe_count (lt_timed_out r) \<and> safe_count (lt_received r) \<and>
     lt_latency r = max 0 (lt_received r - lt_timed_out r) \<and> identifier_ok (lt_worker r) \<and> safe_count (lt_generation r) \<and>
     pred_option (\<lambda>n. \<bar>n\<bar> \<le> max_safe) (lt_error r) \<and> pred_option identifier_ok (lt_thread r) \<and>
     pred_option identifier_ok (lt_turn r)"

definition totals_ok :: "late_totals \<Rightarrow> bool" where
  "totals_ok t \<longleftrightarrow> safe_count (tl_observed t) \<and> safe_count (tl_success t) \<and> safe_count (tl_error t) \<and>
     safe_count (tl_malformed t) \<and> safe_count (tl_identified t) \<and> safe_count (tl_reconciled t) \<and>
     safe_count (tl_conflicts t) \<and> safe_count (tl_untracked t) \<and> safe_count (tl_evicted t)"

definition late_ok :: "late_state \<Rightarrow> bool" where
  "late_ok s \<longleftrightarrow> totals_ok (ls_totals s) \<and> list_all recorded_ok (ls_records s)"

section \<open>The reader undoes the writer\<close>

lemma safe_nonneg_ok: "safe_count n \<Longrightarrow> safe_nonneg (JInt n) l = Inr n"
  by (simp add: safe_nonneg_def safe_integer_def safe_count_def)

lemma counter_ok: "safe_count n \<Longrightarrow> counter (JInt n) l = Inr n"
  by (simp add: counter_def safe_nonneg_ok)

lemma outcome_of_name: "outcome_of (JStr (outcome_name out)) = Some out"
  by (cases out) (simp_all add: outcome_of_def outcome_name_def)

lemma reconciliation_of_name: "reconciliation_of (JStr (reconciliation_name c)) = Some c"
  by (cases c) (simp_all add: reconciliation_of_def reconciliation_name_def)

lemma optional_read:
  assumes "pred_option P x" "\<And>y. P y \<Longrightarrow> enc y \<noteq> JUndef \<and> read (enc y) = Inr y"
  shows "optional_field (case x of None \<Rightarrow> JUndef | Some y \<Rightarrow> enc y) read = Inr x"
  using assms by (cases x) (auto simp: optional_field_def)

text \<open>The fields of the object a record is written as.\<close>

lemma map_of_field_if: "map_of (field_if k v enc) = (case v of None \<Rightarrow> Map.empty | Some y \<Rightarrow> [k \<mapsto> enc y])"
  by (simp add: field_if_def split: option.splits)

lemma record_fields:
  "is_record (record_js (r, c))"
  "jget (record_js (r, c)) ''requestId'' = JInt (lt_request r)"
  "jget (record_js (r, c)) ''method'' = JStr (lt_method r)"
  "jget (record_js (r, c)) ''outcome'' = JStr (outcome_name (lt_outcome r))"
  "jget (record_js (r, c)) ''timedOutAt'' = JInt (lt_timed_out r)"
  "jget (record_js (r, c)) ''receivedAt'' = JInt (lt_received r)"
  "jget (record_js (r, c)) ''workerId'' = JStr (lt_worker r)"
  "jget (record_js (r, c)) ''workerGeneration'' = JInt (lt_generation r)"
  "jget (record_js (r, c)) ''errorCode'' = (case lt_error r of None \<Rightarrow> JUndef | Some n \<Rightarrow> JInt n)"
  "jget (record_js (r, c)) ''threadId'' = (case lt_thread r of None \<Rightarrow> JUndef | Some i \<Rightarrow> JStr i)"
  "jget (record_js (r, c)) ''turnId'' = (case lt_turn r of None \<Rightarrow> JUndef | Some i \<Rightarrow> JStr i)"
  "jget (record_js (r, c)) ''reconciliation'' = JStr (reconciliation_name c)"
  by (simp_all add: record_js_def map_of_field_if map_add_def split: option.splits)

lemma optional_identifier:
  "pred_option identifier_ok x \<Longrightarrow> optional_field (case x of None \<Rightarrow> JUndef | Some i \<Rightarrow> JStr i) required_identifier = Inr x"
  by (erule optional_read) (simp add: required_identifier_def identifier_ok_def)

lemma optional_code:
  "pred_option (\<lambda>n. \<bar>n\<bar> \<le> max_safe) x \<Longrightarrow>
   optional_field (case x of None \<Rightarrow> JUndef | Some n \<Rightarrow> JInt n) (\<lambda>e. safe_integer e l) = Inr x"
  by (erule optional_read) (simp add: safe_integer_def)

lemma read_record_js: "recorded_ok p \<Longrightarrow> read_record (record_js p) = Inr p"
proof (cases p)
  case (Pair r c)
  assume "recorded_ok p"
  then have ok: "safe_count (lt_request r)" "protocol_method (JStr (lt_method r)) = lt_method r"
    "safe_count (lt_timed_out r)" "safe_count (lt_received r)" "lt_latency r = max 0 (lt_received r - lt_timed_out r)"
    "required_identifier (JStr (lt_worker r)) = Inr (lt_worker r)" "safe_count (lt_generation r)"
    "pred_option (\<lambda>n. \<bar>n\<bar> \<le> max_safe) (lt_error r)" "pred_option identifier_ok (lt_thread r)"
    "pred_option identifier_ok (lt_turn r)"
    by (simp_all add: Pair required_identifier_def identifier_ok_def)
  have "read_record (record_js (r, c)) = Inr (\<lparr>lt_request = lt_request r, lt_method = lt_method r, lt_outcome = lt_outcome r,
      lt_timed_out = lt_timed_out r, lt_received = lt_received r, lt_latency = lt_latency r,
      lt_worker = lt_worker r, lt_generation = lt_generation r, lt_error = lt_error r, lt_thread = lt_thread r,
      lt_turn = lt_turn r\<rparr>, c)"
    unfolding read_record_def record_fields outcome_of_name reconciliation_of_name option.case
    by (simp add: safe_nonneg_ok ok optional_code optional_identifier record_fields(1))
  then show ?thesis by (simp add: Pair)
qed

interpretation late_records: codec record_js read_record recorded_ok
  by unfold_locales (rule read_record_js)

lemma total_fields:
  "is_record (totals_js t)"
  "jget (totals_js t) ''observed'' = JInt (tl_observed t)" "jget (totals_js t) ''success'' = JInt (tl_success t)"
  "jget (totals_js t) ''error'' = JInt (tl_error t)" "jget (totals_js t) ''malformed'' = JInt (tl_malformed t)"
  "jget (totals_js t) ''identified'' = JInt (tl_identified t)"
  "jget (totals_js t) ''stateReconciled'' = JInt (tl_reconciled t)"
  "jget (totals_js t) ''stateConflicts'' = JInt (tl_conflicts t)"
  "jget (totals_js t) ''untracked'' = JInt (tl_untracked t)" "jget (totals_js t) ''evicted'' = JInt (tl_evicted t)"
  by (simp_all add: totals_js_def)

lemma read_totals_js: "totals_ok t \<Longrightarrow> read_totals (totals_js t) = Inr t"
  unfolding read_totals_def total_fields by (simp add: totals_ok_def counter_ok)

interpretation late_totals: codec totals_js read_totals totals_ok
  by unfold_locales (rule read_totals_js)

lemma read_state_js: "late_ok s \<Longrightarrow> read_state (state_js s) = Inr s"
  by (simp add: late_ok_def read_state_def state_js_def total_fields(1) late_totals.decode_encode late_records.decode_list)

interpretation late_states: codec save_state load_state late_ok
  by unfold_locales (simp add: save_state_def load_state_def read_state_js)

section \<open>What is observed is well typed\<close>

lemma safe_identifier_ok: "safe_identifier v = Some i \<Longrightarrow> identifier_ok i"
  by (auto simp: safe_identifier_def identifier_ok_def Let_def split: if_splits)

lemma pred_identifier: "pred_option identifier_ok (safe_identifier v)"
  by (cases "safe_identifier v") (auto intro: safe_identifier_ok)

lemma unknown_ok: "identifier_ok ''unknown''" "protocol_method (JStr ''unknown'') = ''unknown''"
  unfolding identifier_ok_def by code_simp+

lemma protocol_method_idem: "protocol_method (JStr (protocol_method v)) = protocol_method v"
proof (cases "protocol_method v = ''unknown''")
  case False
  then have "is_string v" "protocol_method v = string_of v"
    by (auto simp: protocol_method_def split: if_splits list.splits)
  then show ?thesis by (cases v) (simp_all add: protocol_method_def)
qed (simp add: unknown_ok)

lemma safe_nonneg_Inr: "safe_nonneg v l = Inr n \<Longrightarrow> safe_count n"
  by (auto simp: safe_nonneg_def safe_integer_def safe_count_def is_safe_integer_iff result_simps split: if_splits)

text \<open>The thread and turn come from \<open>safe_identifier\<close>.\<close>

lemma identified_ok:
  assumes "identified r = (out, thread, turn)"
  shows "pred_option identifier_ok thread \<and> pred_option identifier_ok turn"
proof -
  let ?result = "jget (lr_response r) ''result''"
  define c where "c = safe_identifier (jget (lr_context r) ''threadId'')"
  define t where "t = safe_identifier (jget (jget ?result ''thread'') ''id'')"
  define u where "u = (case safe_identifier (jget (jget ?result ''turn'') ''id'') of
    None \<Rightarrow> safe_identifier (jget ?result ''turnId'') | Some t \<Rightarrow> Some t)"
  have ok: "pred_option identifier_ok c" "pred_option identifier_ok t" "pred_option identifier_ok u"
    using pred_identifier by (auto simp: c_def t_def u_def intro: safe_identifier_ok split: option.splits)
  show ?thesis using assms ok
    by (auto simp: identified_def Let_def simp flip: c_def t_def u_def split: if_splits option.splits)
qed

lemma interpret_ok: "interpret_late r = Inr i \<Longrightarrow> recorded_ok (i, c)"
proof -
  obtain out thread turn where o: "identified r = (out, thread, turn)" by (metis prod_cases3)
  have e: "pred_option (\<lambda>n. \<bar>n\<bar> \<le> max_safe) (error_code r)"
    by (auto simp: error_code_def Let_def is_safe_integer_iff)
  have w: "identifier_ok (case safe_identifier (lr_worker r) of None \<Rightarrow> ''unknown'' | Some w \<Rightarrow> w)"
    by (auto simp: unknown_ok intro: safe_identifier_ok split: option.splits)
  assume "interpret_late r = Inr i"
  then show ?thesis
    using e w identified_ok [OF o] by (auto simp: interpret_late_def o result_simps protocol_method_idem dest: safe_nonneg_Inr)
qed

section \<open>Accounting\<close>

text \<open>While the number of observed responses has not reached the largest safe integer, the totals are
  exact: each response has one outcome, and what is no longer retained was evicted.\<close>

definition exact_totals :: "late_totals \<Rightarrow> nat \<Rightarrow> bool" where
  "exact_totals t n \<longleftrightarrow> tl_reconciled t = 0 \<and> tl_success t \<le> tl_observed t \<and> tl_error t \<le> tl_observed t \<and>
     tl_malformed t \<le> tl_observed t \<and>
     (tl_observed t < max_safe \<longrightarrow>
        tl_observed t = tl_success t + tl_error t + tl_malformed t \<and> tl_observed t = int n + tl_evicted t \<and>
        tl_identified t \<le> tl_observed t \<and> tl_conflicts t + tl_untracked t \<le> tl_success t)"

definition late_inv :: "late_journal \<Rightarrow> bool" where
  "late_inv j \<longleftrightarrow> 0 < lj_limit j \<and> lj_limit j \<le> max_retained \<and>
     (\<exists>s. load_state (lj_text j) = Inr s \<and> late_ok s \<and> length (ls_records s) \<le> lj_limit j \<and>
       exact_totals (ls_totals s) (length (ls_records s)))"

lemma saturate_ok: "safe_count n \<Longrightarrow> 0 \<le> k \<Longrightarrow> safe_count (saturate n k)"
  by (simp add: safe_count_def saturate_def max_safe_def)

lemma count_record_ok: "totals_ok t \<Longrightarrow> totals_ok (count_record p t)"
  by (cases p; cases "lt_outcome (fst p)"; cases "snd p")
    (auto simp: totals_ok_def count_record_def count_outcome_def count_reconciliation_def Let_def saturate_ok)

lemma reconcile_kinds:
  "reconcile_late agents links r \<notin> {AgentArchived, AgentRestored}"
  "reconcile_late agents links r \<in> {StateConflict, ThreadUntracked} \<Longrightarrow> lt_outcome r = LateSuccess"
  by (auto simp: reconcile_late_def split: option.splits if_splits)

lemma count_record_fields:
  "tl_observed (count_record (r, c) t) = saturate (tl_observed t) 1"
  "tl_success (count_record (r, c) t) = (if lt_outcome r = LateSuccess then saturate (tl_success t) 1 else tl_success t)"
  "tl_error (count_record (r, c) t) = (if lt_outcome r = LateError then saturate (tl_error t) 1 else tl_error t)"
  "tl_malformed (count_record (r, c) t) = (if lt_outcome r = LateMalformed then saturate (tl_malformed t) 1 else tl_malformed t)"
  "tl_identified (count_record (r, c) t) =
    (if lt_thread r \<noteq> None \<or> lt_turn r \<noteq> None then saturate (tl_identified t) 1 else tl_identified t)"
  "tl_reconciled (count_record (r, c) t) =
    (if c = AgentArchived \<or> c = AgentRestored then saturate (tl_reconciled t) 1 else tl_reconciled t)"
  "tl_conflicts (count_record (r, c) t) = (if c = StateConflict then saturate (tl_conflicts t) 1 else tl_conflicts t)"
  "tl_untracked (count_record (r, c) t) = (if c = ThreadUntracked then saturate (tl_untracked t) 1 else tl_untracked t)"
  "tl_evicted (count_record (r, c) t) = tl_evicted t"
  by (simp_all add: count_record_def count_outcome_def count_reconciliation_def Let_def split: late_outcome.splits)

lemma saturate_room: "m < max_safe \<Longrightarrow> saturate m 1 = m + 1"
  by (simp add: saturate_def)

lemma saturate_mono: "m \<le> n \<Longrightarrow> saturate m 1 \<le> saturate n 1" "m \<le> n \<Longrightarrow> m \<le> max_safe \<Longrightarrow> m \<le> saturate n 1"
  by (simp_all add: saturate_def)

lemma count_record_exact:
  assumes "totals_ok t" "exact_totals t n" "c = reconcile_late agents links r"
  shows "exact_totals (count_record (r, c) t) (Suc n)"
proof -
  have c: "c \<noteq> AgentArchived" "c \<noteq> AgentRestored" "c = StateConflict \<or> c = ThreadUntracked \<Longrightarrow> lt_outcome r = LateSuccess"
    using reconcile_kinds [of agents links r] assms(3) by auto
  have top: "tl_success t \<le> max_safe" "tl_error t \<le> max_safe" "tl_malformed t \<le> max_safe"
    "tl_success t \<le> tl_observed t" "tl_error t \<le> tl_observed t" "tl_malformed t \<le> tl_observed t" "tl_reconciled t = 0"
    using assms(1,2) by (simp_all add: totals_ok_def safe_count_def exact_totals_def)
  have le: "tl_success (count_record (r, c) t) \<le> tl_observed (count_record (r, c) t)"
    "tl_error (count_record (r, c) t) \<le> tl_observed (count_record (r, c) t)"
    "tl_malformed (count_record (r, c) t) \<le> tl_observed (count_record (r, c) t)"
    "tl_reconciled (count_record (r, c) t) = 0"
    using top c by (simp_all add: count_record_fields saturate_mono)
  show ?thesis
  proof (cases "tl_observed t < max_safe")
    case True
    then have e: "tl_observed t = tl_success t + tl_error t + tl_malformed t" "tl_observed t = int n + tl_evicted t"
      "tl_identified t \<le> tl_observed t" "tl_conflicts t + tl_untracked t \<le> tl_success t"
      "0 \<le> tl_conflicts t" "0 \<le> tl_untracked t"
      using assms(1,2) by (simp_all add: exact_totals_def totals_ok_def safe_count_def)
    have lt: "tl_success t < max_safe" "tl_error t < max_safe" "tl_malformed t < max_safe" "tl_identified t < max_safe"
      "tl_conflicts t < max_safe" "tl_untracked t < max_safe"
      using True e top by linarith+
    note plain = count_record_fields saturate_room [OF True] lt [THEN saturate_room]
    have "tl_observed t + 1 = tl_success (count_record (r, c) t) + tl_error (count_record (r, c) t) + tl_malformed (count_record (r, c) t)"
      using e(1) by (cases "lt_outcome r") (simp_all add: plain)
    moreover have "tl_identified (count_record (r, c) t) \<le> tl_observed t + 1" using e(3) by (simp add: plain)
    moreover have "tl_conflicts (count_record (r, c) t) + tl_untracked (count_record (r, c) t) \<le> tl_success (count_record (r, c) t)"
      using e(4) c(3) by (auto simp: plain)
    moreover have "tl_observed (count_record (r, c) t) = tl_observed t + 1" by (simp add: plain)
    moreover have "tl_observed t + 1 = int (Suc n) + tl_evicted (count_record (r, c) t)"
      using e(2) by (simp add: count_record_fields(9))
    ultimately show ?thesis using le unfolding exact_totals_def by simp
  next
    case False
    then have "tl_observed (count_record (r, c) t) = max_safe" by (simp add: count_record_fields saturate_def)
    then show ?thesis using le by (simp add: exact_totals_def)
  qed
qed

lemma compact_ok:
  assumes "late_ok s" "exact_totals (ls_totals s) (length (ls_records s))"
  shows "late_ok (compact limit s)" "length (ls_records (compact limit s)) \<le> limit"
    "exact_totals (ls_totals (compact limit s)) (length (ls_records (compact limit s)))"
proof -
  have "list_all recorded_ok (drop n xs)" if "list_all recorded_ok xs" for n xs
    using that by (auto simp: list_all_iff dest: in_set_dropD)
  then show "late_ok (compact limit s)"
    using assms(1) by (simp add: compact_def Let_def late_ok_def totals_ok_def saturate_ok)
  show "length (ls_records (compact limit s)) \<le> limit" by (simp add: compact_def Let_def)
  show "exact_totals (ls_totals (compact limit s)) (length (ls_records (compact limit s)))"
    using assms by (auto simp: compact_def Let_def exact_totals_def saturate_def late_ok_def totals_ok_def safe_count_def)
qed

lemma compact_last:
  "0 < limit \<Longrightarrow> ls_records s \<noteq> [] \<Longrightarrow> ls_records (compact limit s) \<noteq> [] \<and> last (ls_records (compact limit s)) = last (ls_records s)"
  by (auto simp: compact_def Let_def last_drop)

text \<open>One observation appends one well-typed record, which is the last one a later reader sees.\<close>

lemma observe_ok:
  assumes "observe limit agents links r raw = Inr (p, raw')" "load_state raw = Inr s" "late_ok s"
    "exact_totals (ls_totals s) (length (ls_records s))" "0 < limit"
  shows "\<exists>s'. load_state raw' = Inr s' \<and> late_ok s' \<and> length (ls_records s') \<le> limit \<and>
    exact_totals (ls_totals s') (length (ls_records s')) \<and> recorded_ok p \<and> ls_records s' \<noteq> [] \<and> last (ls_records s') = p"
proof -
  obtain i where i: "interpret_late r = Inr i" "p = (i, reconcile_late agents links i)"
    "raw' = save_state (compact limit \<lparr>ls_totals = count_record p (ls_totals s), ls_records = ls_records s @ [p]\<rparr>)"
    using assms(1,2) by (auto simp: observe_def result_simps Let_def)
  let ?s = "\<lparr>ls_totals = count_record p (ls_totals s), ls_records = ls_records s @ [p]\<rparr>"
  have p: "recorded_ok p" using interpret_ok [OF i(1)] i(2) by simp
  have s: "late_ok ?s" using p assms(3) by (simp add: late_ok_def count_record_ok)
  have e: "exact_totals (ls_totals ?s) (length (ls_records ?s))"
    using count_record_exact [OF _ assms(4) refl] assms(3) by (simp add: late_ok_def i(2))
  show ?thesis
    using compact_ok [OF s e] compact_last [of limit ?s] assms(5) p
    by (intro exI [of _ "compact limit ?s"]) (simp add: i(3) late_states.decode_encode)
qed

lemma open_ok:
  assumes "open_journal retention raw = Inr (n, raw')" "load_state raw = Inr s" "late_ok s"
    "exact_totals (ls_totals s) (length (ls_records s))"
  shows "0 < n \<and> n \<le> max_retained \<and> (\<exists>s'. load_state raw' = Inr s' \<and> late_ok s' \<and> length (ls_records s') \<le> n \<and>
    exact_totals (ls_totals s') (length (ls_records s')))"
proof -
  have n: "0 < n \<and> n \<le> max_retained"
    using assms(1) by (auto simp: open_journal_def Let_def result_simps is_safe_integer_iff split: if_splits)
  show ?thesis
  proof (cases raw)
    case None
    then have "raw' = None" "s = empty_late" using assms(1,2) by (auto simp: open_journal_def Let_def load_state_def split: if_splits)
    then show ?thesis using assms n by (simp add: load_state_def empty_late_def)
  next
    case (Some x)
    then have "raw' = save_state (compact n s)"
      using assms(1,2) by (auto simp: open_journal_def Let_def result_simps split: if_splits)
    then show ?thesis using compact_ok [OF assms(3,4), of n] n by (auto simp: late_states.decode_encode)
  qed
qed

lemma late_step_inv: "late_inv j \<Longrightarrow> late_inv (late_step j e)"
proof (cases e)
  case (LateObserve agents links r)
  assume j: "late_inv j"
  show ?thesis
  proof (cases "observe (lj_limit j) agents links r (lj_text j)")
    case (Inr q)
    then show ?thesis using j observe_ok [of "lj_limit j" agents links r "lj_text j" "fst q" "snd q"]
      by (cases q) (fastforce simp: LateObserve late_inv_def)
  qed (use j in \<open>simp add: LateObserve\<close>)
next
  case (LateReopen retention)
  assume j: "late_inv j"
  show ?thesis
  proof (cases "open_journal retention (lj_text j)")
    case (Inr q)
    then show ?thesis using j open_ok [of retention "lj_text j" "fst q" "snd q"]
      by (cases q) (fastforce simp: LateReopen late_inv_def)
  qed (use j in \<open>simp add: LateReopen\<close>)
qed

lemma new_late_inv: "late_inv new_late_journal"
  by (simp add: late_inv_def new_late_journal_def load_state_def empty_late_def late_ok_def totals_ok_def safe_count_def
      exact_totals_def max_safe_def max_retained_def)

interpretation late: transition_system late_step "\<lambda>_. True" late_inv
  by unfold_locales (rule late_step_inv)

section \<open>Properties\<close>


text \<open>Whatever values a late response carries, the record an observation returns is well typed and is
  exactly what a restarted bridge reads back as the latest one.\<close>

theorem observed_record_reads_back:
  assumes "j = run late_step new_late_journal es" and "observe (lj_limit j) agents links r (lj_text j) = Inr (p, raw)"
  shows "\<exists>s. load_state raw = Inr s \<and> recorded_ok p \<and> ls_records s \<noteq> [] \<and> last (ls_records s) = p"
proof -
  have "late_inv j" unfolding assms(1) by (rule late.run_inv [OF new_late_inv]) (simp add: list_all_iff)
  then show ?thesis using observe_ok [OF assms(2)] unfolding late_inv_def by blast
qed

definition example_late :: late_response where
  "example_late = \<lparr>lr_request = JInt 7, lr_method = JStr ''thread/archive'', lr_timed_out = JInt 50, lr_received = JInt 40,
     lr_worker = JStr '' w '', lr_generation = JInt 2, lr_context = JObj [(''threadId'', JStr ''t1'')],
     lr_response = JObj [(''result'', JObj [])]\<rparr>"

lemma example_late_texts: "js_trim '' w '' = ''w''" "js_trim ''t1'' = ''t1''"
  "protocol_method (JStr ''thread/archive'') = ''thread/archive''"
  by code_simp+

lemma example_observed:
  "\<exists>p raw. observe 128 [''a''] [(''t1'', ''a'')] example_late None = Inr (p, raw) \<and> snd p = StateConflict \<and> lt_latency (fst p) = 0"
  by (simp add: observe_def interpret_late_def identified_def first_outcome_def example_late_def safe_nonneg_def safe_integer_def
      safe_identifier_def example_late_texts Let_def error_code_def reconcile_late_def agent_for_thread_def load_state_def max_safe_def)

theorem observed_record_reads_back_witness:
  "\<exists>p raw s. observe 128 [''a''] [(''t1'', ''a'')] example_late None = Inr (p, raw) \<and> snd p = StateConflict \<and>
     load_state raw = Inr s \<and> last (ls_records s) = p"
proof -
  obtain p raw where o: "observe 128 [''a''] [(''t1'', ''a'')] example_late None = Inr (p, raw)" "snd p = StateConflict"
    using example_observed by blast
  have "observe (lj_limit new_late_journal) [''a''] [(''t1'', ''a'')] example_late (lj_text new_late_journal) = Inr (p, raw)"
    using o(1) by (simp add: new_late_journal_def max_retained_def)
  then show ?thesis using observed_record_reads_back [of new_late_journal "[]"] o by fastforce
qed

end
