(* ===== verification/Event_Store.thy ===== *)
theory Event_Store
  imports Js_Value "HOL-Library.List_Lexorder" "HOL-Library.Char_ord"
begin

text \<open>
  Event subscriptions and their delegations: the journals of \<open>src/src/mcpEventStore.ts\<close> and
  \<open>src/src/mcpEventAccess.ts\<close>. The rows of \<open>bridge_meta\<close> under each prefix are a table of their own, with
  the parts of the key as its key; \<open>listMeta\<close> reads a table in the order of the key texts. What the
  stores ask of jobs, Activities and projects is an \<open>event_world\<close>, which every operation receives anew;
  the digests, the JSON text of pending inputs and the reference under the installation secret are an
  \<open>event_env\<close>. The sealed destination is its content, diagnostics are left out, and so is the removal of
  rows when a project is retired.
\<close>

datatype event_name = JobTerminal | JobLifecycle

record event_job =
  ej_id :: string
  ej_scope :: string
  ej_activity :: "string option"
  ej_agent :: "string option"
  ej_project :: "string option"
  ej_principal :: "string option"
  ej_policy :: "string option"
  ej_status :: string
  ej_terminal :: "int option"
  ej_version :: "int option"
  ej_updated :: int
  ej_created :: "int option"
  ej_pending :: "js list"

record lifecycle_root =
  lr_job :: string
  lr_activity :: string
  lr_agent :: string
  lr_project :: string
  lr_created :: int

datatype lifecycle_kind = KindTerminal | KindInput

record job_event =
  je_id :: string
  je_name :: event_name
  je_timestamp :: int
  je_root :: "string option"
  je_job :: string
  je_activity :: "string option"
  je_agent :: "string option"
  je_kind :: lifecycle_kind
  je_state :: string
  je_version :: int
  je_followups :: "string list"

datatype stop_reason = Unsubscribed | Revoked | Gone | GoalEnded

datatype delivery_state = DsWaiting | DsPending | DsAcknowledged | DsFailed

record destination =
  de_url :: string
  de_secret :: string
  de_previous :: "(string \<times> int) option"

record subscription =
  sb_id :: string
  sb_job :: string
  sb_scope :: string
  sb_principal :: string
  sb_access :: "string option"
  sb_destination :: destination
  sb_revision :: int
  sb_expires :: int
  sb_verified :: int
  sb_disabled :: "stop_reason option"
  sb_name :: "event_name option"
  sb_root :: "lifecycle_root option"
  sb_root_revision :: "int option"
  sb_recovery :: bool
  sb_event :: "job_event option"
  sb_delivery :: delivery_state
  sb_attempts :: nat
  sb_next :: int
  sb_acknowledged :: "int option"
  sb_status :: "int option"
  sb_recover_until :: "int option"

record grant =
  gr_id :: string
  gr_hash :: string
  gr_principal :: string
  gr_job :: string
  gr_activity :: string
  gr_agent :: string
  gr_project :: string
  gr_scope :: string
  gr_event :: event_name
  gr_root_created :: "int option"
  gr_issued :: int
  gr_expires :: int
  gr_revision :: int
  gr_revoked :: "int option"
  gr_unsubscribed :: "int option"
  gr_callback :: "string option"
  gr_subscription :: "string option"

record monitoring_stop =
  ms_principal :: string
  ms_scope :: string
  ms_event :: event_name
  ms_reason :: stop_reason
  ms_at :: int

record event_env =
  ee_digest :: "string \<Rightarrow> string"
  ee_canonical :: "js list \<Rightarrow> string"
  ee_decimal :: "int \<Rightarrow> string"
  ee_reference :: "string \<Rightarrow> string"
  ee_principal :: "string option"
  ee_oauth :: bool
  ee_destination_ok :: "string \<Rightarrow> string \<Rightarrow> bool"

record event_world =
  ew_now :: int
  ew_retired :: "string \<Rightarrow> bool"
  ew_ended :: "string \<Rightarrow> bool"
  ew_retained :: "string \<Rightarrow> bool"
  ew_project_ok :: "string \<Rightarrow> bool"
  ew_registry :: "string \<Rightarrow> event_job option"
  ew_owned :: "string \<Rightarrow> string \<Rightarrow> bool"
  ew_snapshot :: "string \<Rightarrow> event_job option"
  ew_goal_jobs :: "lifecycle_root \<Rightarrow> string \<Rightarrow> event_job list"
  ew_followups :: "event_job \<Rightarrow> string list"

datatype event_error =
    SubRevision | SubCapacity | SubChanged | AccessOwner | AccessKeyChanged | AccessGoalEnded | AccessCapacity
  | AccessChanged | AccessRevision | EventDenied | CallbackError string

type_synonym index_key = "string \<times> string"

record event_tables =
  et_subs :: "((string \<times> string) \<times> subscription) list"
  et_grants :: "(string \<times> grant) list"
  et_stops :: "((string \<times> event_name) \<times> monitoring_stop) list"
  et_roots :: "((string \<times> string \<times> string) \<times> index_key) list"
  et_children :: "((string \<times> string) \<times> index_key) list"

definition max_subscriptions :: nat where "max_subscriptions = 256"
definition max_job_subscriptions :: nat where "max_job_subscriptions = 8"
definition result_recovery_ms :: int where "result_recovery_ms = 24 * 60 * 60 * 1000"

section \<open>Events\<close>

fun js_set :: "js \<Rightarrow> string \<Rightarrow> js \<Rightarrow> js" where
  "js_set (JObj fs) k v = JObj (AList.update k v fs)"
| "js_set w k v = w"

definition terminal_statuses :: "string list" where
  "terminal_statuses = [''completed'', ''failed'', ''interrupted'', ''cancelled'']"

definition truthy_int :: "int option \<Rightarrow> bool" where
  "truthy_int v \<longleftrightarrow> (case v of None \<Rightarrow> False | Some n \<Rightarrow> n \<noteq> 0)"

definition is_terminal_job :: "event_job \<Rightarrow> bool" where
  "is_terminal_job j \<longleftrightarrow> truthy_int (ej_terminal j) \<and> ej_status j \<in> set terminal_statuses"

definition blocking_inputs :: "event_job \<Rightarrow> js list" where
  "blocking_inputs j = filter (\<lambda>v. is_record v \<and> is_string (jget v ''interactionId'') \<and> jget v ''isBlocking'' \<noteq> JBool False) (ej_pending j)"

definition nul :: string where "nul = [CHR 0x00]"

definition kind_name :: "lifecycle_kind \<Rightarrow> string" where
  "kind_name k = (case k of KindTerminal \<Rightarrow> ''terminal'' | KindInput \<Rightarrow> ''input-required'')"

definition lifecycle_identity :: "event_env \<Rightarrow> event_job \<Rightarrow> lifecycle_kind \<Rightarrow> string" where
  "lifecycle_identity env j k = (case k of
     KindTerminal \<Rightarrow> ee_decimal env (case ej_terminal j of None \<Rightarrow> 0 | Some n \<Rightarrow> n)
   | KindInput \<Rightarrow> ee_canonical env (map (\<lambda>v. js_set v ''isBlocking'' (JBool True)) (blocking_inputs j)))"

definition lifecycle_event :: "event_env \<Rightarrow> event_job \<Rightarrow> lifecycle_root \<Rightarrow> job_event option" where
  "lifecycle_event env j root =
     (if \<not> is_terminal_job j \<and> blocking_inputs j = [] then None
      else let k = (if is_terminal_job j then KindTerminal else KindInput) in
        Some \<lparr>je_id = ''evt_'' @ ee_digest env (''codex.job.lifecycle'' @ nul @ ej_scope j @ nul @ ej_id j @ nul @
            kind_name k @ nul @ lifecycle_identity env j k),
          je_name = JobLifecycle, je_timestamp = ej_updated j, je_root = Some (lr_job root), je_job = ej_id j,
          je_activity = Some (lr_activity root), je_agent = Some (lr_agent root), je_kind = k, je_state = ej_status j,
          je_version = (if truthy_int (ej_version j) then the (ej_version j) else 1), je_followups = []\<rparr>)"

definition terminal_event :: "event_env \<Rightarrow> event_world \<Rightarrow> event_job \<Rightarrow> job_event" where
  "terminal_event env w j =
     \<lparr>je_id = ''evt_'' @ ee_digest env (''codex.job.terminal'' @ nul @ ej_scope j @ nul @ ej_id j @ nul @
        ee_decimal env (case ej_terminal j of None \<Rightarrow> 0 | Some n \<Rightarrow> n)),
      je_name = JobTerminal, je_timestamp = ej_updated j, je_root = None, je_job = ej_id j,
      je_activity = ej_activity j, je_agent = ej_agent j, je_kind = KindTerminal, je_state = ej_status j,
      je_version = (case ej_terminal j of None \<Rightarrow> 0 | Some n \<Rightarrow> n),
      je_followups = (if ej_status j = ''completed'' then ew_followups w j else [])\<rparr>"

section \<open>The subscription journal\<close>

definition sub_key :: "subscription \<Rightarrow> string \<times> string" where
  "sub_key r = (sb_job r, sb_id r)"

definition list_subs :: "string option \<Rightarrow> event_tables \<Rightarrow> subscription list" where
  "list_subs job t = take (max_subscriptions + 1) (map snd
     (sort_key (\<lambda>p. fst (fst p) @ ''/'' @ snd (fst p))
       (filter (\<lambda>p. case job of None \<Rightarrow> True | Some j \<Rightarrow> fst (fst p) = j) (et_subs t))))"

definition get_sub :: "string \<Rightarrow> string \<Rightarrow> event_tables \<Rightarrow> subscription option" where
  "get_sub job i t = map_of (et_subs t) (job, i)"

definition index_sub :: "subscription \<Rightarrow> event_tables \<Rightarrow> event_tables" where
  "index_sub r t =
     (case sb_root r of
        Some root \<Rightarrow>
          if sb_name r \<noteq> Some JobLifecycle then t
          else if sb_job r = lr_job root
          then t\<lparr>et_roots := et_roots t @ [((sb_scope r, lr_activity root, lr_agent root), (sb_job r, sb_id r))]\<rparr>
          else t\<lparr>et_children := et_children t @ [((lr_job root, sb_id r), (sb_job r, sb_id r))]\<rparr>
      | None \<Rightarrow> t)"

definition save_sub :: "event_world \<Rightarrow> subscription \<Rightarrow> int \<Rightarrow> event_tables \<Rightarrow> (event_error, bool \<times> event_tables) result" where
  "save_sub w r expected t =
     (if ew_retired w (sb_job r) then Inr (False, t)
      else let existing = get_sub (sb_job r) (sb_id r) t in
        if (if expected = 0 then existing \<noteq> None else map_option sb_revision existing \<noteq> Some expected) then Inr (False, t)
        else if sb_revision r < 1 \<or> sb_revision r \<noteq> expected \<and> sb_revision r \<noteq> expected + 1 then Inl SubRevision
        else if existing = None \<and> (length (list_subs None t) \<ge> max_subscriptions \<or>
            length (list_subs (Some (sb_job r)) t) \<ge> max_job_subscriptions) then Inl SubCapacity
        else let t' = t\<lparr>et_subs := AList.update (sub_key r) r (et_subs t)\<rparr> in
          Inr (True, if existing = None then index_sub r t' else t'))"

text \<open>A save that must succeed.\<close>

definition must_save :: "event_world \<Rightarrow> subscription \<Rightarrow> int \<Rightarrow> event_tables \<Rightarrow> (event_error, event_tables) result" where
  "must_save w r expected t =
     res_bind (save_sub w r expected t) (\<lambda>(ok, t'). if ok then Inr t' else Inl SubChanged)"

declare check_Inr_iff [result_simps] present_Inr_iff [result_simps]

definition enqueue_one :: "event_env \<Rightarrow> event_world \<Rightarrow> event_job \<Rightarrow> subscription \<Rightarrow> event_tables \<Rightarrow> (event_error, event_tables) result" where
  "enqueue_one env w j r t =
     (if sb_name r = Some JobLifecycle \<or> sb_disabled r \<noteq> None \<or> sb_expires r \<le> ew_now w \<or> sb_event r \<noteq> None then Inr t
      else must_save w (r\<lparr>sb_event := Some (terminal_event env w j), sb_delivery := DsPending, sb_next := 0,
        sb_recover_until := Some (max (sb_expires r) (ew_now w + result_recovery_ms))\<rparr>) (sb_revision r) t)"

definition enqueue_terminal :: "event_env \<Rightarrow> event_world \<Rightarrow> event_job \<Rightarrow> event_tables \<Rightarrow> (event_error, event_tables) result" where
  "enqueue_terminal env w j t =
     (if \<not> is_terminal_job j then Inr t else res_fold (enqueue_one env w j) (list_subs (Some (ej_id j)) t) t)"

definition indexed :: "index_key list \<Rightarrow> event_tables \<Rightarrow> subscription list" where
  "indexed ks t = concat (map (\<lambda>k. case map_of (et_subs t) k of None \<Rightarrow> [] | Some r \<Rightarrow> [r]) ks)"

definition path3 :: "(string \<times> string \<times> string) \<times> index_key \<Rightarrow> string" where
  "path3 p = (case p of ((a, b, c), (j, i)) \<Rightarrow> a @ ''/'' @ b @ ''/'' @ c @ ''/'' @ j @ ''/'' @ i)"

definition path2 :: "(string \<times> string) \<times> index_key \<Rightarrow> string" where
  "path2 p = (case p of ((a, b), (j, i)) \<Rightarrow> a @ ''/'' @ b @ ''/'' @ j)"

definition roots_at :: "((string \<times> string \<times> string) \<Rightarrow> bool) \<Rightarrow> event_tables \<Rightarrow> subscription list" where
  "roots_at p t = filter (\<lambda>r. sb_name r = Some JobLifecycle \<and> sb_root r \<noteq> None)
     (indexed (take max_subscriptions (map snd (sort_key path3 (filter (p \<circ> fst) (et_roots t))))) t)"

definition lifecycle_roots :: "event_job option \<Rightarrow> event_tables \<Rightarrow> subscription list" where
  "lifecycle_roots job t =
     (case job of
        None \<Rightarrow> roots_at (\<lambda>_. True) t
      | Some j \<Rightarrow> (case (ej_activity j, ej_agent j) of
          (Some a, Some g) \<Rightarrow> if a = '''' \<or> g = '''' then [] else roots_at (\<lambda>k. k = (ej_scope j, a, g)) t
        | _ \<Rightarrow> []))"

definition lifecycle_children :: "subscription \<Rightarrow> event_tables \<Rightarrow> subscription list" where
  "lifecycle_children root t =
     indexed (take max_subscriptions (map snd (sort_key path2 (filter (\<lambda>p. fst p = (sb_job root, sb_id root)) (et_children t))))) t"

definition matches_lifecycle :: "subscription \<Rightarrow> event_job \<Rightarrow> bool" where
  "matches_lifecycle r j \<longleftrightarrow> sb_name r = Some JobLifecycle \<and>
     (case sb_root r of
        None \<Rightarrow> False
      | Some goal \<Rightarrow> ej_scope j = sb_scope r \<and> ej_principal j = Some (sb_principal r) \<and> ej_activity j = Some (lr_activity goal) \<and>
          ej_agent j = Some (lr_agent goal) \<and> ej_project j = Some (lr_project goal) \<and> ej_policy j = Some ''events'' \<and>
          (ej_id j = lr_job goal \<or> (case ej_created j of None \<Rightarrow> 0 | Some c \<Rightarrow> c) \<ge> lr_created goal))"

definition monitoring_stopped :: "event_job \<Rightarrow> event_name \<Rightarrow> event_tables \<Rightarrow> stop_reason option" where
  "monitoring_stopped j e t =
     (case map_of (et_stops t) (ej_id j, e) of
        None \<Rightarrow> None
      | Some m \<Rightarrow> if Some (ms_principal m) = ej_principal j \<and> ms_scope m = ej_scope j then Some (ms_reason m) else None)"

text \<open>The delivery record of a job under a lifecycle root.\<close>

definition lifecycle_record ::
  "event_world \<Rightarrow> event_job \<Rightarrow> subscription \<Rightarrow> subscription option \<Rightarrow> job_event option \<Rightarrow> subscription" where
  "lifecycle_record w j root old ev =
     (let base = (case old of None \<Rightarrow> root | Some r \<Rightarrow> r) in
      base\<lparr>sb_job := ej_id j, sb_root_revision := Some (sb_revision root),
        sb_revision := (case old of None \<Rightarrow> 1 | Some r \<Rightarrow> if sb_revision r = 0 then 1 else sb_revision r),
        sb_expires := sb_expires root, sb_destination := sb_destination root, sb_disabled := None, sb_event := ev,
        sb_delivery := (if ev = None then DsWaiting else DsPending), sb_attempts := 0, sb_next := 0,
        sb_acknowledged := None, sb_status := None,
        sb_recover_until := (if ev = None then (case old of None \<Rightarrow> None | Some r \<Rightarrow> sb_recover_until r)
          else Some (max (sb_expires root) (ew_now w + result_recovery_ms)))\<rparr>)"

definition enqueue_under ::
  "event_env \<Rightarrow> event_world \<Rightarrow> event_job \<Rightarrow> subscription \<Rightarrow> event_tables \<Rightarrow> (event_error, event_tables) result" where
  "enqueue_under env w j root t =
     (case sb_root root of
        None \<Rightarrow> Inr t
      | Some goal \<Rightarrow>
          if sb_disabled root \<noteq> None \<or> sb_expires root \<le> ew_now w \<or> \<not> matches_lifecycle root j \<or> ew_ended w (lr_activity goal)
          then Inr t
          else let existing = get_sub (ej_id j) (sb_id root) t in
            if (case existing of None \<Rightarrow> False | Some r \<Rightarrow> sb_disabled r \<noteq> None) then Inr t
            else let ev = lifecycle_event env j goal in
              if (case existing of None \<Rightarrow> False | Some r \<Rightarrow> map_option je_id (sb_event r) = map_option je_id ev) then Inr t
              else let r = lifecycle_record w j root existing ev in
                (case must_save w r (case existing of None \<Rightarrow> 0 | Some x \<Rightarrow> sb_revision x) t of
                   Inr t' \<Rightarrow> Inr t'
                 | Inl SubCapacity \<Rightarrow>
                     (case get_sub (sb_job root) (sb_id root) t of
                        None \<Rightarrow> Inr t
                      | Some latest \<Rightarrow>
                          if sb_recovery latest then Inr t
                          else res_bind (save_sub w (latest\<lparr>sb_recovery := True\<rparr>) (sb_revision latest) t) (\<lambda>(_, t'). Inr t'))
                 | Inl e \<Rightarrow> Inl e))"

definition enqueue_lifecycle ::
  "event_env \<Rightarrow> event_world \<Rightarrow> event_job \<Rightarrow> subscription option \<Rightarrow> event_tables \<Rightarrow> (event_error, event_tables) result" where
  "enqueue_lifecycle env w j only t =
     (if ej_policy j \<noteq> Some ''events'' \<or> monitoring_stopped j JobLifecycle t \<noteq> None then Inr t
      else res_fold (enqueue_under env w j) (case only of Some r \<Rightarrow> [r] | None \<Rightarrow> lifecycle_roots (Some j) t) t)"

definition reconcile_lifecycle :: "event_env \<Rightarrow> event_world \<Rightarrow> subscription \<Rightarrow> event_tables \<Rightarrow> (event_error, event_tables) result" where
  "reconcile_lifecycle env w root t =
     (case sb_root root of
        None \<Rightarrow> Inr t
      | Some goal \<Rightarrow>
          if sb_job root \<noteq> lr_job goal \<or> sb_disabled root \<noteq> None \<or> sb_expires root \<le> ew_now w then Inr t
          else res_bind (if sb_recovery root then res_bind (save_sub w (root\<lparr>sb_recovery := False\<rparr>) (sb_revision root) t) (\<lambda>(_, t'). Inr t')
              else Inr t) (\<lambda>t1.
            let current = get_sub (sb_job root) (sb_id root) t1 in
            res_fold (\<lambda>j. enqueue_lifecycle env w j current) (ew_goal_jobs w goal (sb_scope root)) t1))"

definition refresh_child :: "event_world \<Rightarrow> subscription \<Rightarrow> subscription \<Rightarrow> event_tables \<Rightarrow> (event_error, event_tables) result" where
  "refresh_child w root child t =
     (if sb_disabled child \<noteq> None then Inr t
      else must_save w (child\<lparr>sb_destination := sb_destination root, sb_expires := sb_expires root,
        sb_root_revision := Some (sb_revision root), sb_revision := sb_revision child + 1\<rparr>) (sb_revision child) t)"

definition refresh_lifecycle_children :: "event_world \<Rightarrow> subscription \<Rightarrow> event_tables \<Rightarrow> (event_error, event_tables) result" where
  "refresh_lifecycle_children w root t = res_fold (refresh_child w root) (lifecycle_children root t) t"

definition disable :: "event_world \<Rightarrow> stop_reason \<Rightarrow> subscription \<Rightarrow> event_tables \<Rightarrow> (event_error, event_tables) result" where
  "disable w reason r t = must_save w (r\<lparr>sb_disabled := Some reason, sb_revision := sb_revision r + 1\<rparr>) (sb_revision r) t"

definition stop_child :: "event_world \<Rightarrow> stop_reason \<Rightarrow> subscription \<Rightarrow> event_tables \<Rightarrow> (event_error, event_tables) result" where
  "stop_child w reason child t = (if sb_disabled child = Some reason then Inr t else disable w reason child t)"

definition stop_lifecycle_children :: "event_world \<Rightarrow> stop_reason \<Rightarrow> subscription \<Rightarrow> event_tables \<Rightarrow> (event_error, event_tables) result" where
  "stop_lifecycle_children w reason root t = res_fold (stop_child w reason) (lifecycle_children root t) t"

definition stop_activity :: "event_world \<Rightarrow> string \<Rightarrow> event_tables \<Rightarrow> (event_error, event_tables) result" where
  "stop_activity w activity t =
     res_fold (\<lambda>root u. res_bind (disable w GoalEnded root u) (stop_lifecycle_children w GoalEnded root))
       (filter (\<lambda>r. map_option lr_activity (sb_root r) = Some activity \<and> sb_disabled r = None) (lifecycle_roots None t)) t"

definition protects_result :: "string \<Rightarrow> int \<Rightarrow> event_tables \<Rightarrow> bool" where
  "protects_result job now t \<longleftrightarrow> list_ex (\<lambda>r. (case sb_recover_until r of None \<Rightarrow> 0 | Some u \<Rightarrow> u) > now \<or>
     sb_disabled r = None \<and> sb_expires r > now) (list_subs (Some job) t)"

text \<open>Rows past both their lifetime and their recovery boundary are removed with their index rows.\<close>

definition expired_sub :: "int \<Rightarrow> subscription \<Rightarrow> bool" where
  "expired_sub now r \<longleftrightarrow> sb_expires r \<le> now \<and> (case sb_recover_until r of None \<Rightarrow> 0 | Some u \<Rightarrow> u) \<le> now"

definition remove_sub :: "int \<Rightarrow> subscription \<Rightarrow> event_tables \<Rightarrow> event_tables" where
  "remove_sub now r t =
     (if \<not> expired_sub now r then t
      else let t1 = t\<lparr>et_subs := AList.delete (sub_key r) (et_subs t)\<rparr> in
        case sb_root r of
          None \<Rightarrow> t1
        | Some root \<Rightarrow>
            if sb_job r = lr_job root
            then t1\<lparr>et_roots := filter (\<lambda>p. p \<noteq> ((sb_scope r, lr_activity root, lr_agent root), (lr_job root, sb_id r))) (et_roots t1)\<rparr>
            else t1\<lparr>et_children := filter (\<lambda>p. p \<noteq> ((lr_job root, sb_id r), (sb_job r, sb_id r))) (et_children t1)\<rparr>)"

definition maintain_subs :: "int \<Rightarrow> event_tables \<Rightarrow> event_tables" where
  "maintain_subs now t = foldl (\<lambda>u r. remove_sub now r u) t (list_subs None t)"

end
