(* ===== verification/Event_Access.thy ===== *)
theory Event_Access
  imports Event_Store
begin

text \<open>
  Delegations of event monitoring (\<open>src/src/mcpEventAccess.ts\<close>): issue, compare-and-set, revocation,
  unsubscription, the stops a user leaves behind, and maintenance.
\<close>

definition max_grants :: nat where "max_grants = 256"
definition max_job_grants :: nat where "max_job_grants = 8"
definition access_lifetime_ms :: int where "access_lifetime_ms = 24 * 60 * 60 * 1000"

definition all_grants :: "event_tables \<Rightarrow> grant list" where
  "all_grants t = take (max_grants + 1) (map snd (sort_key fst (et_grants t)))"

definition list_grants :: "string option \<Rightarrow> event_tables \<Rightarrow> grant list" where
  "list_grants job t = filter (\<lambda>g. case job of None \<Rightarrow> True | Some j \<Rightarrow> gr_job g = j) (all_grants t)"

definition grant_by_hash :: "string \<Rightarrow> event_tables \<Rightarrow> grant option" where
  "grant_by_hash h t = map_of (et_grants t) h"

definition ref_char :: "char \<Rightarrow> bool" where
  "ref_char c \<longleftrightarrow> (let n = (of_char c :: nat) in
     97 \<le> n \<and> n \<le> 122 \<or> 65 \<le> n \<and> n \<le> 90 \<or> 48 \<le> n \<and> n \<le> 57 \<or> n = 95 \<or> n = 45)"

definition subscription_ref :: "string \<Rightarrow> bool" where
  "subscription_ref s \<longleftrightarrow> take 4 s = ''esr_'' \<and> length s = 47 \<and> list_all ref_char (drop 4 s)"

definition reference :: "event_env \<Rightarrow> grant \<Rightarrow> string" where
  "reference env g = ''esr_'' @ ee_reference env (gr_id g)"

definition get_grant :: "event_env \<Rightarrow> string \<Rightarrow> event_tables \<Rightarrow> grant option" where
  "get_grant env ref t =
     (if \<not> subscription_ref ref then None
      else case grant_by_hash (ee_digest env ref) t of
        None \<Rightarrow> None
      | Some g \<Rightarrow> if reference env g = ref then Some g else None)"

definition grant_matches :: "grant \<Rightarrow> event_job \<Rightarrow> string \<Rightarrow> bool" where
  "grant_matches g j who \<longleftrightarrow> gr_principal g = who \<and> gr_job g = ej_id j \<and> gr_scope g = ej_scope j \<and>
     Some (gr_activity g) = ej_activity j \<and> Some (gr_agent g) = ej_agent j \<and> Some (gr_project g) = ej_project j \<and>
     ej_principal j = Some who \<and> ej_policy j = Some ''events''"

definition live_grant :: "grant \<Rightarrow> bool" where
  "live_grant g \<longleftrightarrow> gr_revoked g = None \<and> gr_unsubscribed g = None"

definition save_grant :: "grant \<Rightarrow> int \<Rightarrow> event_tables \<Rightarrow> (event_error, bool \<times> event_tables) result" where
  "save_grant g expected t =
     (let existing = grant_by_hash (gr_hash g) t in
      if (if expected = 0 then existing \<noteq> None else map_option gr_revision existing \<noteq> Some expected) then Inr (False, t)
      else if gr_revision g \<noteq> expected + 1 then Inl AccessRevision
      else Inr (True, t\<lparr>et_grants := AList.update (gr_hash g) g (et_grants t)\<rparr>))"

definition must_save_grant :: "grant \<Rightarrow> int \<Rightarrow> event_tables \<Rightarrow> (event_error, event_tables) result" where
  "must_save_grant g expected t = res_bind (save_grant g expected t) (\<lambda>(ok, t'). if ok then Inr t' else Inl AccessChanged)"

section \<open>Stops\<close>

definition remember_stop :: "event_world \<Rightarrow> string \<Rightarrow> monitoring_stop \<Rightarrow> event_tables \<Rightarrow> event_tables" where
  "remember_stop w job m t =
     (if ew_retained w job then t\<lparr>et_stops := AList.update (job, ms_event m) m (et_stops t)\<rparr> else t)"

definition forget_stop :: "string \<Rightarrow> event_name option \<Rightarrow> event_tables \<Rightarrow> event_tables" where
  "forget_stop job e t = t\<lparr>et_stops := filter (\<lambda>p. \<not> (fst (fst p) = job \<and>
     (case e of None \<Rightarrow> True | Some n \<Rightarrow> snd (fst p) = n))) (et_stops t)\<rparr>"

text \<open>A newer delegation of the same job and event that is still alive.\<close>

definition superseded :: "grant list \<Rightarrow> grant \<Rightarrow> bool" where
  "superseded gs g \<longleftrightarrow> list_ex (\<lambda>x. gr_event x = gr_event g \<and> gr_job x = gr_job g \<and> gr_hash x \<noteq> gr_hash g \<and>
     gr_issued x \<ge> gr_issued g \<and> live_grant x) gs"

definition sub_unsubscribed :: "grant \<Rightarrow> event_tables \<Rightarrow> bool" where
  "sub_unsubscribed g t \<longleftrightarrow> (case gr_subscription g of None \<Rightarrow> False
     | Some i \<Rightarrow> i \<noteq> '''' \<and> (case get_sub (gr_job g) i t of None \<Rightarrow> False | Some r \<Rightarrow> sb_disabled r = Some Unsubscribed))"

section \<open>Maintenance\<close>

definition maintain_one :: "event_world \<Rightarrow> grant \<Rightarrow> (event_tables \<times> grant list) \<Rightarrow> (event_error, event_tables \<times> grant list) result" where
  "maintain_one w g p = (case p of (t, gs) \<Rightarrow>
     if gr_unsubscribed g = None \<and> sub_unsubscribed g t
     then let g' = g\<lparr>gr_unsubscribed := Some (ew_now w), gr_revision := gr_revision g + 1\<rparr> in
       res_bind (must_save_grant g' (gr_revision g) t) (\<lambda>t'. Inr (t', gs @ [g']))
     else Inr (t, gs @ [g]))"

definition stopped_at :: "grant \<Rightarrow> int" where
  "stopped_at g = (case gr_revoked g of Some n \<Rightarrow> n | None \<Rightarrow> (case gr_unsubscribed g of Some n \<Rightarrow> n | None \<Rightarrow> 0))"

definition stop_of_grant :: "grant \<Rightarrow> int \<Rightarrow> monitoring_stop" where
  "stop_of_grant g now = \<lparr>ms_principal = gr_principal g, ms_scope = gr_scope g, ms_event = gr_event g,
     ms_reason = (if gr_revoked g \<noteq> None then Revoked else Unsubscribed), ms_at = now\<rparr>"

definition settle_grant :: "event_world \<Rightarrow> grant list \<Rightarrow> grant \<Rightarrow> event_tables \<Rightarrow> event_tables" where
  "settle_grant w gs g t =
     (let t1 = (if (gr_revoked g \<noteq> None \<or> gr_unsubscribed g \<noteq> None \<or> sub_unsubscribed g t) \<and>
            map_of (et_stops t) (gr_job g, gr_event g) = None \<and> \<not> superseded gs g
          then remember_stop w (gr_job g) (stop_of_grant g (if live_grant g then ew_now w else stopped_at g)) t else t) in
      if gr_expires g + access_lifetime_ms \<le> ew_now w then t1\<lparr>et_grants := AList.delete (gr_hash g) (et_grants t1)\<rparr> else t1)"

definition maintain_grants :: "event_world \<Rightarrow> event_tables \<Rightarrow> (event_error, event_tables) result" where
  "maintain_grants w t =
     res_bind (res_fold (maintain_one w) (list_grants None t) (t, [])) (\<lambda>(t1, gs).
       let ordered = sort_key (\<lambda>g. - gr_issued g) (sort_key (\<lambda>g. - stopped_at g) gs) in
       Inr (foldl (\<lambda>u g. settle_grant w gs g u) t1 ordered))"

section \<open>Issue, revocation and unsubscription\<close>

definition reusable_grant :: "event_world \<Rightarrow> event_job \<Rightarrow> string \<Rightarrow> event_name \<Rightarrow> event_tables \<Rightarrow> grant \<Rightarrow> bool" where
  "reusable_grant w j who e t g \<longleftrightarrow> gr_event g = e \<and> live_grant g \<and> gr_expires g > ew_now w \<and> grant_matches g j who \<and>
     (case gr_subscription g of None \<Rightarrow> True
      | Some i \<Rightarrow> i = '''' \<or> (case get_sub (ej_id j) i t of None \<Rightarrow> True | Some r \<Rightarrow> sb_disabled r \<noteq> Some Unsubscribed))"

definition issue_grant ::
  "event_env \<Rightarrow> event_world \<Rightarrow> string \<Rightarrow> event_job \<Rightarrow> string \<Rightarrow> event_name \<Rightarrow> event_tables \<Rightarrow>
   (event_error, (grant \<times> string) \<times> event_tables) result" where
  "issue_grant env w new_id j who e t =
     (if \<not> ew_retained w (ej_id j) then Inl AccessOwner
      else res_bind (maintain_grants w t) (\<lambda>t1.
        if e = JobLifecycle \<and> (case ej_activity j of None \<Rightarrow> True | Some a \<Rightarrow> a = '''' \<or> ew_ended w a) then Inl AccessGoalEnded
        else case find (reusable_grant w j who e t1) (list_grants (Some (ej_id j)) t1) of
          Some g \<Rightarrow>
            if ee_digest env (reference env g) \<noteq> gr_hash g then Inl AccessKeyChanged else Inr ((g, reference env g), t1)
        | None \<Rightarrow> (case (ej_activity j, ej_agent j, ej_project j) of
            (Some a, Some ag, Some pr) \<Rightarrow>
              if a = '''' \<or> ag = '''' \<or> pr = '''' \<or> ej_policy j \<noteq> Some ''events'' \<or> ej_principal j \<noteq> Some who then Inl AccessOwner
              else if length (list_grants None t1) \<ge> max_grants \<or> length (list_grants (Some (ej_id j)) t1) \<ge> max_job_grants
              then Inl AccessCapacity
              else let g0 = \<lparr>gr_id = new_id, gr_hash = '''', gr_principal = who, gr_job = ej_id j, gr_activity = a,
                       gr_agent = ag, gr_project = pr, gr_scope = ej_scope j, gr_event = e,
                       gr_root_created = (if e = JobLifecycle
                         then Some (if truthy_int (ej_created j) then the (ej_created j) else ej_updated j) else None),
                       gr_issued = ew_now w, gr_expires = ew_now w + access_lifetime_ms, gr_revision = 1, gr_revoked = None,
                       gr_unsubscribed = None, gr_callback = None, gr_subscription = None\<rparr>;
                     g = g0\<lparr>gr_hash := ee_digest env (reference env g0)\<rparr> in
                res_bind (must_save_grant g 0 t1) (\<lambda>t2.
                  Inr ((g, reference env g), forget_stop (ej_id j) (Some e) t2))
          | _ \<Rightarrow> Inl AccessOwner)))"

definition revoke_sub :: "event_world \<Rightarrow> string \<Rightarrow> grant \<Rightarrow> subscription \<Rightarrow> event_tables \<Rightarrow> (event_error, event_tables) result" where
  "revoke_sub w job g r t =
     (if sb_access r \<noteq> Some (gr_hash g) \<or> sb_disabled r = Some Revoked then Inr t
      else res_bind (disable w Revoked r t) (\<lambda>t1.
        if sb_name r = Some JobLifecycle \<and> map_option lr_job (sb_root r) = Some job
        then stop_lifecycle_children w Revoked r t1 else Inr t1))"

definition revoke_one :: "event_world \<Rightarrow> string \<Rightarrow> string \<Rightarrow> string \<Rightarrow> grant \<Rightarrow> event_tables \<Rightarrow> (event_error, event_tables) result" where
  "revoke_one w job who sid g t =
     (if gr_principal g \<noteq> who \<or> gr_scope g \<noteq> sid \<or> gr_revoked g \<noteq> None then Inr t
      else res_bind (must_save_grant (g\<lparr>gr_revoked := Some (ew_now w), gr_revision := gr_revision g + 1\<rparr>) (gr_revision g) t) (\<lambda>t1.
        res_fold (revoke_sub w job g) (list_subs (Some job) t1) t1))"

definition revoke_lifecycle :: "event_world \<Rightarrow> string \<Rightarrow> subscription \<Rightarrow> event_tables \<Rightarrow> (event_error, event_tables) result" where
  "revoke_lifecycle w job r t =
     res_bind (if sb_disabled r = Some Revoked then Inr t
       else res_bind (save_sub w (r\<lparr>sb_disabled := Some Revoked, sb_revision := sb_revision r + 1\<rparr>) (sb_revision r) t) (\<lambda>(_, t1). Inr t1)) (\<lambda>t1.
       if map_option lr_job (sb_root r) = Some job then stop_lifecycle_children w Revoked r t1 else Inr t1)"

definition revoke :: "event_world \<Rightarrow> string \<Rightarrow> string \<Rightarrow> string \<Rightarrow> event_tables \<Rightarrow> (event_error, event_tables) result" where
  "revoke w job who sid t =
     res_bind (res_fold (revoke_one w job who sid) (list_grants (Some job) t) t) (\<lambda>t1.
       let m = \<lparr>ms_principal = who, ms_scope = sid, ms_event = JobTerminal, ms_reason = Revoked, ms_at = ew_now w\<rparr>;
           t2 = remember_stop w job m t1 in
       res_bind (res_fold (revoke_lifecycle w job)
         (filter (\<lambda>r. sb_name r = Some JobLifecycle \<and> sb_scope r = sid \<and> sb_principal r = who) (list_subs (Some job) t2)) t2) (\<lambda>t3.
         Inr (remember_stop w job (m\<lparr>ms_event := JobLifecycle\<rparr>) t3)))"

definition unsubscribe_grant :: "event_world \<Rightarrow> grant \<Rightarrow> event_tables \<Rightarrow> (event_error, bool \<times> event_tables) result" where
  "unsubscribe_grant w g t =
     res_bind (save_grant (g\<lparr>gr_unsubscribed := Some (case gr_unsubscribed g of None \<Rightarrow> ew_now w | Some n \<Rightarrow> n),
         gr_revision := gr_revision g + 1\<rparr>) (gr_revision g) t) (\<lambda>(ok, t1).
       if \<not> ok then Inr (False, t)
       else Inr (True, if superseded (list_grants (Some (gr_job g)) t1) g then t1
         else remember_stop w (gr_job g) (stop_of_grant g (ew_now w)) t1))"

section \<open>What a caller is told\<close>

datatype monitor_reason =
    WhyRevoked | WhyUnsubscribed | WhyExpired | WhyGone | WhyJob | WhyProject | WhyGoalEnded | WhyCapacity

datatype monitor_state = MonitorPending | MonitorActive | MonitorUnavailable monitor_reason

record delivery_view =
  dv_state :: delivery_state
  dv_attempts :: nat
  dv_status :: "int option"
  dv_failure :: "string option"

definition delivery_view_of :: "subscription \<Rightarrow> delivery_view" where
  "delivery_view_of r =
     (let tr = (case sb_status r of None \<Rightarrow> True | Some st \<Rightarrow> st \<in> {0, 408, 425, 429} \<or> st \<ge> 500) in
      \<lparr>dv_state = sb_delivery r, dv_attempts = sb_attempts r,
        dv_status = (case sb_status r of None \<Rightarrow> None | Some st \<Rightarrow> if 100 \<le> st \<and> st \<le> 599 then Some st else None),
        dv_failure = (if sb_delivery r = DsFailed then Some (if tr then ''retry_exhausted'' else ''callback_rejected'') else None)\<rparr>)"

definition named :: "event_name option \<Rightarrow> event_name \<Rightarrow> bool" where
  "named e n \<longleftrightarrow> (case e of None \<Rightarrow> True | Some x \<Rightarrow> n = x)"

definition unexpired_grant :: "int \<Rightarrow> grant \<Rightarrow> bool" where
  "unexpired_grant now g \<longleftrightarrow> live_grant g \<and> gr_expires g > now"

definition active_sub :: "event_world \<Rightarrow> event_job \<Rightarrow> event_tables \<Rightarrow> subscription \<Rightarrow> bool" where
  "active_sub w j t r \<longleftrightarrow> sb_disabled r = None \<and> sb_expires r > ew_now w \<and>
     (case sb_access r of None \<Rightarrow> False | Some h \<Rightarrow> h \<noteq> '''' \<and>
       (case grant_by_hash h t of None \<Rightarrow> False | Some g \<Rightarrow>
          unexpired_grant (ew_now w) g \<and> gr_callback g \<notin> {None, Some ''''} \<and> gr_subscription g = Some (sb_id r) \<and>
          (case sb_root r of
             None \<Rightarrow> grant_matches g j (sb_principal r)
           | Some root \<Rightarrow>
               (case (ew_snapshot w (lr_job root), get_sub (lr_job root) (sb_id r) t) of
                  (Some rj, Some rr) \<Rightarrow> sb_disabled rr = None \<and> sb_expires rr > ew_now w \<and> grant_matches g rj (sb_principal r) \<and>
                    \<not> ew_ended w (lr_activity root) \<and> matches_lifecycle r j
                | _ \<Rightarrow> False))))"

definition newest_first :: "grant list \<Rightarrow> grant list" where
  "newest_first gs = sort_key (\<lambda>g. - gr_issued g) gs"

definition first_of :: "'a list \<Rightarrow> 'a option" where
  "first_of xs = (case xs of [] \<Rightarrow> None | x # _ \<Rightarrow> Some x)"

definition or_else :: "'a option \<Rightarrow> 'a option \<Rightarrow> 'a option" where
  "or_else a b = (case a of None \<Rightarrow> b | Some x \<Rightarrow> Some x)"

definition preferred_event :: "event_job \<Rightarrow> event_tables \<Rightarrow> event_name" where
  "preferred_event j t =
     (case first_of (newest_first (filter (\<lambda>g. grant_matches g j (gr_principal g)) (list_grants (Some (ej_id j)) t))) of
        None \<Rightarrow> JobLifecycle
      | Some g \<Rightarrow> gr_event g)"

definition stop_why :: "stop_reason \<Rightarrow> monitor_reason" where
  "stop_why x = (case x of Revoked \<Rightarrow> WhyRevoked | Unsubscribed \<Rightarrow> WhyUnsubscribed | Gone \<Rightarrow> WhyGone | GoalEnded \<Rightarrow> WhyGoalEnded)"

definition monitor_verdict ::
  "event_world \<Rightarrow> event_job \<Rightarrow> event_tables \<Rightarrow> subscription list \<Rightarrow> grant list \<Rightarrow> subscription option \<Rightarrow> grant option \<Rightarrow>
   subscription option \<Rightarrow> stop_reason option \<Rightarrow> monitor_state \<times> delivery_view option \<times> string option" where
  "monitor_verdict w j t subs gs active latest sub stopped =
     (let delivery = map_option delivery_view_of sub;
          root = (case sub of None \<Rightarrow> None | Some r \<Rightarrow> sb_root r);
          root_job = or_else (map_option lr_job root)
            (case latest of None \<Rightarrow> None | Some g \<Rightarrow> if gr_event g = JobLifecycle then Some (gr_job g) else None);
          disabled = (case sub of None \<Rightarrow> None | Some r \<Rightarrow> sb_disabled r);
          waiting = (list_ex (\<lambda>g. unexpired_grant (ew_now w) g \<and> gr_callback g \<in> {None, Some ''''}) gs \<or> gs = [] \<and> subs = []);
          matching = find (\<lambda>r. sb_disabled r = None \<and> sb_expires r > ew_now w \<and> matches_lifecycle r j) (lifecycle_roots (Some j) t) in
      case stopped of
        Some x \<Rightarrow> (MonitorUnavailable (stop_why x), delivery, root_job)
      | None \<Rightarrow>
          if (case ej_project j of None \<Rightarrow> False | Some p \<Rightarrow> p \<noteq> '''' \<and> \<not> ew_project_ok w p)
          then (MonitorUnavailable WhyProject, delivery, root_job)
          else if (case root of None \<Rightarrow> False | Some x \<Rightarrow> ew_ended w (lr_activity x))
          then (MonitorUnavailable WhyGoalEnded, delivery, root_job)
          else if active \<noteq> None then (MonitorActive, delivery, root_job)
          else if (case latest of None \<Rightarrow> False | Some g \<Rightarrow> gr_revoked g \<noteq> None) \<or> disabled = Some Revoked
          then (MonitorUnavailable WhyRevoked, delivery, root_job)
          else if (case latest of None \<Rightarrow> False | Some g \<Rightarrow> gr_unsubscribed g \<noteq> None) \<or> disabled = Some Unsubscribed
          then (MonitorUnavailable WhyUnsubscribed, delivery, root_job)
          else if disabled = Some Gone then (MonitorUnavailable WhyGone, delivery, root_job)
          else if (case matching of None \<Rightarrow> False | Some r \<Rightarrow> sb_recovery r)
          then (MonitorUnavailable WhyCapacity, delivery, map_option sb_job matching)
          else if waiting then (MonitorPending, None, root_job)
          else (MonitorUnavailable WhyExpired, delivery, root_job))"

definition subscription_state ::
  "event_world \<Rightarrow> event_job \<Rightarrow> event_name option \<Rightarrow> event_tables \<Rightarrow> monitor_state \<times> delivery_view option \<times> string option" where
  "subscription_state w j e t =
     (if \<not> ew_retained w (ej_id j) then (MonitorUnavailable WhyJob, None, None)
      else
        let subs = filter (\<lambda>r. named e (case sb_name r of None \<Rightarrow> JobTerminal | Some n \<Rightarrow> n)) (list_subs (Some (ej_id j)) t);
            gs = filter (\<lambda>g. named e (gr_event g) \<and> grant_matches g j (gr_principal g)) (list_grants (Some (ej_id j)) t);
            active = find (active_sub w j t) subs;
            latest = or_else (find (unexpired_grant (ew_now w)) gs) (first_of (newest_first gs));
            bound = (case latest of None \<Rightarrow> None
              | Some g \<Rightarrow> find (\<lambda>r. sb_access r = Some (gr_hash g) \<and> gr_subscription g = Some (sb_id r)) subs);
            sub = or_else (or_else active bound) (find (\<lambda>r. sb_root r \<noteq> None) subs);
            watched = (case e of Some n \<Rightarrow> n
              | None \<Rightarrow> if (case sub of None \<Rightarrow> None | Some r \<Rightarrow> sb_root r) \<noteq> None then JobLifecycle else JobTerminal) in
        monitor_verdict w j t subs gs active latest sub (monitoring_stopped j watched t))"

end
