(* ===== verification/Event_Delivery.thy ===== *)
theory Event_Delivery
  imports Event_Access
begin

text \<open>
  The controller of Job events (\<open>src/src/mcpEvents.ts\<close>): the \<open>codex_event_access\<close> tool, subscribing with
  a challenge to the callback, unsubscribing, and the delivery worker. A subscription call awaits the
  callback between its two parts and the worker awaits each send; \<open>event_step\<close> interleaves these parts
  with each other, with source transactions, maintenance and restarts, each step in a world of its own.
  \<open>es_sent\<close> is a history variable: what was handed to the callback sender, and under which delegation.
\<close>

datatype host_scope = HostNone | HostInvalid | HostScope string

record sub_call =
  sc_job :: string
  sc_ref :: "string option"
  sc_name :: event_name
  sc_url :: string
  sc_secret :: string
  sc_ttl :: "int option"
  sc_host :: host_scope
  sc_caller :: "string option"
  sc_auth_expires :: "int option"

record verification =
  vf_fences :: nat
  vf_call :: sub_call
  vf_old :: "subscription option"
  vf_access :: "grant option"
  vf_destination :: "destination option"
  vf_needed :: bool
  vf_scope :: string

record sent_event =
  sv_job :: string
  sv_sub :: string
  sv_event :: string
  sv_access :: "string option"
  sv_url :: string

record event_state =
  es_tables :: event_tables
  es_verifying :: "(string \<times> verification) list"
  es_queue :: "(string \<times> string) list option"
  es_sending :: "subscription option"
  es_sent :: "sent_event list"

definition subscription_ttl_ms :: int where "subscription_ttl_ms = 60 * 60 * 1000"
definition max_ttl_ms :: int where "max_ttl_ms = 24 * subscription_ttl_ms"
definition max_attempts :: nat where "max_attempts = 8"
definition verification_cache_ms :: int where "verification_cache_ms = 5 * 60 * 1000"
definition rotation_ms :: int where "rotation_ms = 5 * 60 * 1000"

section \<open>Authorization\<close>

definition authorize :: "event_env \<Rightarrow> string option \<Rightarrow> (event_error, string) result" where
  "authorize env caller =
     (case ee_principal env of
        None \<Rightarrow> Inl EventDenied
      | Some p \<Rightarrow> if p = '''' \<or> caller \<noteq> Some p then Inl EventDenied else Inr p)"

definition require_scope :: "host_scope \<Rightarrow> (event_error, string) result" where
  "require_scope h = (case h of HostScope s \<Rightarrow> Inr s | _ \<Rightarrow> Inl EventDenied)"

definition ended_for :: "event_world \<Rightarrow> event_job \<Rightarrow> bool" where
  "ended_for w j \<longleftrightarrow> (case ej_activity j of None \<Rightarrow> True | Some a \<Rightarrow> ew_ended w a)"

definition require_job :: "event_world \<Rightarrow> string \<Rightarrow> string \<Rightarrow> string \<Rightarrow> event_name \<Rightarrow> (event_error, event_job) result" where
  "require_job w job sid who e =
     (case ew_registry w job of
        None \<Rightarrow> Inl EventDenied
      | Some j \<Rightarrow>
          if \<not> ew_retained w job \<or> ej_scope j \<noteq> sid \<or> ej_principal j \<noteq> Some who \<or> \<not> ew_owned w job sid \<or>
             (case ej_project j of None \<Rightarrow> False | Some p \<Rightarrow> p \<noteq> '''' \<and> \<not> ew_project_ok w p) \<or>
             e = JobLifecycle \<and> ended_for w j
          then Inl EventDenied else Inr j)"

definition event_text :: "event_name \<Rightarrow> string" where
  "event_text e = (case e of JobTerminal \<Rightarrow> ''codex.job.terminal'' | JobLifecycle \<Rightarrow> ''codex.job.lifecycle'')"

definition identity :: "event_env \<Rightarrow> string \<Rightarrow> string \<Rightarrow> sub_call \<Rightarrow> string" where
  "identity env who sid c = ''sub_'' @ ee_digest env (json_array [json_string who, json_string sid, json_string (event_text (sc_name c)),
     ''{'' @ json_string ''jobId'' @ '':'' @ json_string (sc_job c) @
       (case sc_ref c of None \<Rightarrow> '''' | Some r \<Rightarrow> if r = '''' then '''' else '','' @ json_string ''subscriptionRef'' @ '':'' @ json_string r) @ ''}'',
     json_string (sc_url c)])"

definition bound_elsewhere :: "event_env \<Rightarrow> string \<Rightarrow> string \<Rightarrow> grant \<Rightarrow> bool" where
  "bound_elsewhere env url i g \<longleftrightarrow> (case gr_callback g of None \<Rightarrow> False
     | Some h \<Rightarrow> h \<noteq> '''' \<and> (h \<noteq> ee_digest env url \<or> gr_subscription g \<noteq> Some i))"

definition resolve_access ::
  "event_env \<Rightarrow> event_world \<Rightarrow> sub_call \<Rightarrow> string \<Rightarrow> bool \<Rightarrow> event_tables \<Rightarrow>
   (event_error, string \<times> grant option \<times> event_job option) result" where
  "resolve_access env w c who inactive t =
     (if sc_host c = HostInvalid then Inl EventDenied
      else if sc_ref c \<in> {None, Some ''''} then
        (if sc_name c = JobLifecycle then Inl EventDenied
         else res_bind (require_scope (sc_host c)) (\<lambda>sid.
           res_bind (require_job w (sc_job c) sid who JobTerminal) (\<lambda>j.
             if ej_policy j = Some ''events'' then Inl EventDenied else Inr (sid, None, Some j))))
      else if \<not> ee_oauth env then Inl EventDenied
      else case get_grant env (the (sc_ref c)) t of
        None \<Rightarrow> Inl EventDenied
      | Some g \<Rightarrow>
          if gr_principal g \<noteq> who \<or> gr_job g \<noteq> sc_job c \<or> gr_event g \<noteq> sc_name c \<or>
             (case sc_host c of HostScope s \<Rightarrow> s \<noteq> gr_scope g | _ \<Rightarrow> False) \<or>
             \<not> inactive \<and> (\<not> live_grant g \<or> gr_expires g \<le> ew_now w \<or> sub_unsubscribed g t)
          then Inl EventDenied
          else if inactive then Inr (gr_scope g, Some g, None)
          else res_bind (require_job w (sc_job c) (gr_scope g) who (sc_name c)) (\<lambda>j.
            if \<not> grant_matches g j who then Inl EventDenied else Inr (gr_scope g, Some g, Some j)))"

section \<open>The delegation tool\<close>

definition access_tool ::
  "event_env \<Rightarrow> event_world \<Rightarrow> string \<Rightarrow> bool \<Rightarrow> sub_call \<Rightarrow> event_tables \<Rightarrow> (event_error, event_tables) result" where
  "access_tool env w new_id revoking c t =
     res_bind (authorize env (sc_caller c)) (\<lambda>who.
     res_bind (require_scope (sc_host c)) (\<lambda>sid.
     res_bind (require_job w (sc_job c) sid who (sc_name c)) (\<lambda>j.
       if ej_policy j \<noteq> Some ''events'' then Inl EventDenied
       else if revoking then revoke w (ej_id j) who sid t
       else res_bind (issue_grant env w new_id j who (sc_name c) t) (\<lambda>(_, t'). Inr t'))))"

section \<open>Subscribing\<close>

definition sealed :: "sub_call \<Rightarrow> destination option \<Rightarrow> int \<Rightarrow> destination" where
  "sealed c old now =
     \<lparr>de_url = sc_url c, de_secret = sc_secret c,
      de_previous = (case old of
        None \<Rightarrow> None
      | Some d \<Rightarrow> if de_secret d \<noteq> sc_secret c then Some (de_secret d, now + rotation_ms)
          else (case de_previous d of None \<Rightarrow> None | Some (p, until) \<Rightarrow> if until > now then Some (p, until) else None))\<rparr>"

text \<open>Up to the challenge. \<open>opens\<close>: the stored destination can be decrypted.\<close>

definition subscribe_begin ::
  "event_env \<Rightarrow> event_world \<Rightarrow> sub_call \<Rightarrow> bool \<Rightarrow> event_state \<Rightarrow> event_error option \<times> event_state" where
  "subscribe_begin env w c opens s =
     (case res_bind (authorize env (sc_caller c)) (\<lambda>who.
         res_bind (resolve_access env w c who False (es_tables s)) (\<lambda>(sid, g, _).
           let i = identity env who sid c in
           if (case g of None \<Rightarrow> False | Some x \<Rightarrow> bound_elsewhere env (sc_url c) i x) then Inl EventDenied else Inr (who, sid, g, i))) of
        Inl e \<Rightarrow> (Some e, s)
      | Inr (who, sid, g, i) \<Rightarrow>
          let t = maintain_subs (ew_now w) (es_tables s); s1 = s\<lparr>es_tables := t\<rparr>; old = get_sub (sc_job c) i t in
          if map_of (es_verifying s) i \<noteq> None \<or> length (es_verifying s) \<ge> 8 then (Some (CallbackError ''verification_busy''), s1)
          else if \<not> ee_destination_ok env (sc_url c) (sc_secret c) \<or>
            (case old of None \<Rightarrow> False | Some r \<Rightarrow> sb_principal r = who \<and> \<not> opens)
          then (Some (CallbackError ''invalid_destination_or_secret''), s1)
          else let d = (case old of None \<Rightarrow> None | Some r \<Rightarrow> if sb_principal r = who then Some (sb_destination r) else None);
                   needed = (case old of None \<Rightarrow> True | Some r \<Rightarrow> sb_disabled r \<noteq> None \<or>
                     sb_verified r + verification_cache_ms \<le> ew_now w \<or> map_option de_secret d \<noteq> Some (sc_secret c)) in
            (None, s1\<lparr>es_verifying := AList.update i \<lparr>vf_fences = 0, vf_call = c, vf_old = old, vf_access = g, vf_destination = d,
              vf_needed = needed, vf_scope = sid\<rparr> (es_verifying s)\<rparr>))"

definition expiry :: "sub_call \<Rightarrow> grant option \<Rightarrow> int \<Rightarrow> int" where
  "expiry c g now =
     (let base = now + min (case sc_ttl c of None \<Rightarrow> subscription_ttl_ms | Some n \<Rightarrow> n) max_ttl_ms;
          authed = (case sc_auth_expires c of None \<Rightarrow> base | Some e \<Rightarrow> min base (e * 1000)) in
      (case g of None \<Rightarrow> authed | Some x \<Rightarrow> min authed (gr_expires x)))"

definition text_of :: "string option \<Rightarrow> string" where
  "text_of v = (case v of None \<Rightarrow> '''' | Some s \<Rightarrow> s)"

definition subscribed_record ::
  "string \<Rightarrow> string \<Rightarrow> verification \<Rightarrow> int \<Rightarrow> event_job \<Rightarrow> grant option \<Rightarrow> subscription option \<Rightarrow> subscription" where
  "subscribed_record who i v now j g current =
     (let c = vf_call v; d = sealed c (vf_destination v) now in
      \<lparr>sb_id = i, sb_job = ej_id j, sb_scope = vf_scope v, sb_principal = who, sb_access = map_option gr_hash g, sb_destination = d,
       sb_revision = (case current of None \<Rightarrow> 0 | Some r \<Rightarrow> sb_revision r) + 1, sb_expires = expiry c (vf_access v) now,
       sb_verified = now, sb_disabled = None,
       sb_name = (if sc_name c = JobLifecycle then Some JobLifecycle else (case current of None \<Rightarrow> None | Some r \<Rightarrow> sb_name r)),
       sb_root = (if sc_name c = JobLifecycle
         then Some \<lparr>lr_job = ej_id j, lr_activity = text_of (ej_activity j), lr_agent = text_of (ej_agent j),
           lr_project = text_of (ej_project j),
           lr_created = (case vf_access v of None \<Rightarrow> 0 | Some x \<Rightarrow> (case gr_root_created x of None \<Rightarrow> 0 | Some n \<Rightarrow> n))\<rparr>
         else (case current of None \<Rightarrow> None | Some r \<Rightarrow> sb_root r)),
       sb_root_revision = (case current of None \<Rightarrow> None | Some r \<Rightarrow> sb_root_revision r),
       sb_recovery = (case current of None \<Rightarrow> False | Some r \<Rightarrow> sb_recovery r),
       sb_event = (case current of None \<Rightarrow> None | Some r \<Rightarrow> sb_event r),
       sb_delivery = (case current of None \<Rightarrow> DsWaiting | Some r \<Rightarrow> sb_delivery r),
       sb_attempts = (case current of None \<Rightarrow> 0 | Some r \<Rightarrow> sb_attempts r),
       sb_next = (case current of None \<Rightarrow> 0 | Some r \<Rightarrow> sb_next r),
       sb_acknowledged = (case current of None \<Rightarrow> None | Some r \<Rightarrow> sb_acknowledged r),
       sb_status = (case current of None \<Rightarrow> None | Some r \<Rightarrow> sb_status r),
       sb_recover_until = (case current of None \<Rightarrow> None | Some r \<Rightarrow> sb_recover_until r)\<rparr>)"

text \<open>A delegation is bound to the callback that first proved itself.\<close>

definition bind_callback :: "event_env \<Rightarrow> sub_call \<Rightarrow> string \<Rightarrow> grant option \<Rightarrow> event_tables \<Rightarrow> (event_error, event_tables) result" where
  "bind_callback env c i g t =
     (case g of
        None \<Rightarrow> Inr t
      | Some x \<Rightarrow>
          if bound_elsewhere env (sc_url c) i x then Inl EventDenied
          else if gr_callback x \<in> {None, Some ''''}
          then res_bind (save_grant (x\<lparr>gr_callback := Some (ee_digest env (sc_url c)), gr_subscription := Some i,
              gr_revision := gr_revision x + 1\<rparr>) (gr_revision x) t) (\<lambda>(ok, t1).
            if ok then Inr t1 else Inl (CallbackError ''subscription_changed''))
          else Inr t)"

definition announce_subscribed ::
  "event_env \<Rightarrow> event_world \<Rightarrow> sub_call \<Rightarrow> string \<Rightarrow> event_job \<Rightarrow> event_tables \<Rightarrow> (event_error, event_tables) result" where
  "announce_subscribed env w c i j t =
     (if sc_name c = JobLifecycle
      then (case get_sub (ej_id j) i t of
          None \<Rightarrow> Inr t
        | Some root \<Rightarrow> res_bind (refresh_lifecycle_children w root t) (reconcile_lifecycle env w root))
      else enqueue_terminal env w j t)"

text \<open>The transaction after the challenge; \<open>caller\<close> is who the token then authenticates.\<close>

definition subscribe_commit ::
  "event_env \<Rightarrow> event_world \<Rightarrow> string \<Rightarrow> verification \<Rightarrow> string option \<Rightarrow> bool \<Rightarrow> event_tables \<Rightarrow> (event_error, event_tables) result" where
  "subscribe_commit env w i v caller aborted t =
     res_bind (authorize env caller) (\<lambda>who.
       let c = vf_call v; current = get_sub (sc_job c) i t in
       if vf_fences v \<noteq> 0 \<or> (case current of None \<Rightarrow> 0 | Some r \<Rightarrow> sb_revision r) \<noteq> (case vf_old v of None \<Rightarrow> 0 | Some r \<Rightarrow> sb_revision r)
       then Inl (CallbackError ''subscription_changed'')
       else res_bind (resolve_access env w c who False t) (\<lambda>(_, g, job).
         if vf_access v \<noteq> None \<and> map_option gr_revision g \<noteq> map_option gr_revision (vf_access v)
         then Inl (CallbackError ''subscription_changed'')
         else case job of
           None \<Rightarrow> Inl EventDenied
         | Some j \<Rightarrow>
             if aborted then Inl (CallbackError ''timeout'')
             else res_bind (bind_callback env c i g t) (\<lambda>t1.
               res_bind (save_sub w (subscribed_record who i v (ew_now w) j g current)
                   (case current of None \<Rightarrow> 0 | Some r \<Rightarrow> sb_revision r) t1) (\<lambda>(saved, t2).
                 if \<not> saved then Inl (CallbackError ''subscription_changed'') else announce_subscribed env w c i j t2))))"

definition subscribe_end ::
  "event_env \<Rightarrow> event_world \<Rightarrow> string \<Rightarrow> bool \<Rightarrow> string option \<Rightarrow> bool \<Rightarrow> event_state \<Rightarrow> event_error option \<times> event_state" where
  "subscribe_end env w i challenged caller aborted s =
     (case map_of (es_verifying s) i of
        None \<Rightarrow> (None, s)
      | Some v \<Rightarrow>
          let s1 = s\<lparr>es_verifying := AList.delete i (es_verifying s)\<rparr> in
          if vf_needed v \<and> \<not> challenged then (Some (CallbackError ''challenge_failed''), s1)
          else case subscribe_commit env w i v caller aborted (es_tables s) of
            Inl e \<Rightarrow> (Some e, s1)
          | Inr t \<Rightarrow> (None, s1\<lparr>es_tables := t\<rparr>))"

section \<open>Unsubscribing\<close>

definition unsubscribe_commit ::
  "event_env \<Rightarrow> event_world \<Rightarrow> string \<Rightarrow> string \<Rightarrow> string \<Rightarrow> sub_call \<Rightarrow> grant option \<Rightarrow> event_tables \<Rightarrow> (event_error, event_tables) result" where
  "unsubscribe_commit env w who sid i c g t =
     res_bind (resolve_access env w c who True t) (\<lambda>(_, current, _).
       if g \<noteq> None \<and> map_option gr_revision current \<noteq> map_option gr_revision g then Inl (CallbackError ''subscription_changed'')
       else let r = get_sub (sc_job c) i t in
         res_bind (case current of
             None \<Rightarrow> Inr t
           | Some x \<Rightarrow>
               if bound_elsewhere env (sc_url c) i x then Inl EventDenied
               else res_bind (unsubscribe_grant w x t) (\<lambda>(ok, t1). if ok then Inr t1 else Inl (CallbackError ''subscription_changed''))) (\<lambda>t1.
           case r of
             None \<Rightarrow> Inr t1
           | Some x \<Rightarrow>
               if sb_scope x \<noteq> sid \<or> sb_principal x \<noteq> who then Inl EventDenied
               else res_bind (save_sub w (x\<lparr>sb_revision := sb_revision x + 1, sb_disabled := Some Unsubscribed\<rparr>) (sb_revision x) t1) (\<lambda>(ok, t2).
                 if \<not> ok then Inl (CallbackError ''subscription_changed'')
                 else if sc_name c = JobLifecycle then stop_lifecycle_children w Unsubscribed x t2 else Inr t2)))"

definition unsubscribe :: "event_env \<Rightarrow> event_world \<Rightarrow> sub_call \<Rightarrow> event_state \<Rightarrow> event_error option \<times> event_state" where
  "unsubscribe env w c s =
     (case res_bind (authorize env (sc_caller c)) (\<lambda>who.
         res_bind (resolve_access env w c who True (es_tables s)) (\<lambda>(sid, g, _). Inr (who, sid, g))) of
        Inl e \<Rightarrow> (Some e, s)
      | Inr (who, sid, g) \<Rightarrow>
          let i = identity env who sid c;
              s1 = (case map_of (es_verifying s) i of
                None \<Rightarrow> s
              | Some v \<Rightarrow> s\<lparr>es_verifying := AList.update i (v\<lparr>vf_fences := vf_fences v + 1\<rparr>) (es_verifying s)\<rparr>) in
          (case unsubscribe_commit env w who sid i c g (es_tables s) of
             Inl e \<Rightarrow> (Some e, s1)
           | Inr t \<Rightarrow> (None, s1\<lparr>es_tables := t\<rparr>)))"

section \<open>The delivery worker\<close>

definition require_delivery_job :: "event_env \<Rightarrow> event_world \<Rightarrow> subscription \<Rightarrow> event_tables \<Rightarrow> (event_error, event_job) result" where
  "require_delivery_job env w r t =
     (if ee_principal env \<noteq> Some (sb_principal r) then Inl EventDenied
      else let e = (case sb_name r of None \<Rightarrow> JobTerminal | Some n \<Rightarrow> n) in
        res_bind (require_job w (sb_job r) (sb_scope r) (sb_principal r) e) (\<lambda>j.
          case sb_access r of
            None \<Rightarrow> if ej_policy j = Some ''events'' \<or> e = JobLifecycle then Inl EventDenied else Inr j
          | Some h \<Rightarrow>
              (case grant_by_hash h t of
                 None \<Rightarrow> Inl EventDenied
               | Some g \<Rightarrow>
                   if gr_event g \<noteq> e \<or> \<not> live_grant g \<or> gr_expires g \<le> ew_now w \<or> gr_subscription g \<noteq> Some (sb_id r) then Inl EventDenied
                   else res_bind (case sb_root r of None \<Rightarrow> Inr j
                       | Some root \<Rightarrow> require_job w (lr_job root) (sb_scope r) (sb_principal r) e) (\<lambda>owner.
                     if \<not> grant_matches g owner (sb_principal r) then Inl EventDenied
                     else case sb_root r of
                       None \<Rightarrow> Inr j
                     | Some root \<Rightarrow>
                         (case get_sub (lr_job root) (sb_id r) t of
                            None \<Rightarrow> Inl EventDenied
                          | Some receiver \<Rightarrow>
                              if sb_disabled receiver \<noteq> None \<or> sb_expires receiver \<le> ew_now w \<or> sb_access receiver \<noteq> sb_access r \<or>
                                 sb_job r \<noteq> lr_job root \<and> sb_root_revision r \<noteq> Some (sb_revision receiver) \<or>
                                 \<not> matches_lifecycle receiver j
                              then Inl EventDenied
                              else (case ew_snapshot w (sb_job r) of
                                  None \<Rightarrow> Inl EventDenied
                                | Some durable \<Rightarrow> if matches_lifecycle receiver durable then Inr durable else Inl EventDenied))))))"

definition superseded_event :: "event_env \<Rightarrow> event_job \<Rightarrow> subscription \<Rightarrow> bool" where
  "superseded_event env j r \<longleftrightarrow> (case sb_root r of None \<Rightarrow> False
     | Some root \<Rightarrow> map_option je_id (lifecycle_event env j root) \<noteq> map_option je_id (sb_event r))"

definition due_sub :: "event_world \<Rightarrow> subscription \<Rightarrow> bool" where
  "due_sub w r \<longleftrightarrow> sb_disabled r = None \<and> sb_expires r > ew_now w \<and> sb_delivery r = DsPending \<and> sb_next r \<le> ew_now w \<and> sb_event r \<noteq> None"

text \<open>One pass of the loop up to the send: a throw ends the worker's run, \<open>continue\<close> goes on.\<close>

datatype pass = PassFailed event_tables | PassOn event_tables | PassSend subscription event_tables

definition pass_of :: "event_tables \<Rightarrow> (event_error, bool \<times> event_tables) result \<Rightarrow> pass" where
  "pass_of t r = (case r of Inl _ \<Rightarrow> PassFailed t | Inr (_, t') \<Rightarrow> PassOn t')"

definition pass_all :: "event_tables \<Rightarrow> (event_error, event_tables) result \<Rightarrow> pass" where
  "pass_all t r = (case r of Inl _ \<Rightarrow> PassFailed t | Inr t' \<Rightarrow> PassOn t')"

definition deliver_one :: "event_env \<Rightarrow> event_world \<Rightarrow> string \<times> string \<Rightarrow> event_tables \<Rightarrow> pass" where
  "deliver_one env w key t =
     (case get_sub (fst key) (snd key) t of
        None \<Rightarrow> PassOn t
      | Some r \<Rightarrow>
          if \<not> due_sub w r then PassOn t
          else if sb_attempts r \<ge> max_attempts then pass_of t (save_sub w (r\<lparr>sb_delivery := DsFailed\<rparr>) (sb_revision r) t)
          else case require_delivery_job env w r t of
            Inl _ \<Rightarrow> pass_of t (save_sub w (r\<lparr>sb_revision := sb_revision r + 1, sb_disabled := Some Revoked\<rparr>) (sb_revision r) t)
          | Inr j \<Rightarrow>
              if superseded_event env j r then pass_all t (enqueue_lifecycle env w j None t)
              else let r' = r\<lparr>sb_attempts := sb_attempts r + 1\<rparr> in
                (case save_sub w r' (sb_revision r) t of
                   Inl _ \<Rightarrow> PassFailed t
                 | Inr (ok, t') \<Rightarrow> if ok then PassSend r' t' else PassOn t'))"

text \<open>After the send: \<open>status\<close> is 0 when there was no answer.\<close>

definition transient :: "int \<Rightarrow> bool" where
  "transient st \<longleftrightarrow> st \<in> {0, 408, 425, 429} \<or> st \<ge> 500"

definition settled_sub :: "event_world \<Rightarrow> int \<Rightarrow> subscription \<Rightarrow> subscription" where
  "settled_sub w st r =
     (let acknowledged = (200 \<le> st \<and> st < 300);
          failed = (\<not> acknowledged \<and> (\<not> transient st \<or> sb_attempts r \<ge> max_attempts)) in
      r\<lparr>sb_status := Some st, sb_delivery := (if acknowledged then DsAcknowledged else if failed then DsFailed else DsPending),
        sb_disabled := (if st = 410 then Some Gone else sb_disabled r),
        sb_revision := (if st = 410 then sb_revision r + 1 else sb_revision r),
        sb_acknowledged := (if acknowledged then Some (ew_now w) else sb_acknowledged r),
        sb_next := ew_now w + min 60000 (1000 * 2 ^ sb_attempts r)\<rparr>)"

definition gone_root :: "event_world \<Rightarrow> subscription \<Rightarrow> event_tables \<Rightarrow> (event_error, event_tables) result" where
  "gone_root w r t =
     (case sb_root r of
        None \<Rightarrow> Inr t
      | Some goal \<Rightarrow> (case get_sub (lr_job goal) (sb_id r) t of
          None \<Rightarrow> Inr t
        | Some root \<Rightarrow>
            res_bind (if sb_disabled root \<noteq> None then Inr t
              else res_bind (save_sub w (root\<lparr>sb_disabled := Some Gone, sb_revision := sb_revision root + 1\<rparr>) (sb_revision root) t)
                (\<lambda>(_, t1). Inr t1)) (stop_lifecycle_children w Gone root)))"

definition settle_send :: "event_env \<Rightarrow> event_world \<Rightarrow> int \<Rightarrow> subscription \<Rightarrow> event_tables \<Rightarrow> pass" where
  "settle_send env w st sent t =
     (case get_sub (sb_job sent) (sb_id sent) t of
        None \<Rightarrow> PassOn t
      | Some r \<Rightarrow>
          if sb_revision r \<noteq> sb_revision sent \<or> sb_disabled r \<noteq> None \<or> sb_expires r \<le> ew_now w \<or> sb_delivery r \<noteq> DsPending \<or>
             map_option je_id (sb_event r) \<noteq> map_option je_id (sb_event sent)
          then PassOn t
          else case (if sb_root r = None then Inr None
              else res_bind (require_delivery_job env w r t) (\<lambda>j. Inr (Some j))) of
            Inl _ \<Rightarrow> pass_of t (save_sub w (r\<lparr>sb_disabled := Some Revoked, sb_revision := sb_revision r + 1\<rparr>) (sb_revision r) t)
          | Inr latest \<Rightarrow>
              if (case latest of None \<Rightarrow> False | Some j \<Rightarrow> superseded_event env j r)
              then pass_all t (enqueue_lifecycle env w (the latest) None t)
              else (case save_sub w (settled_sub w st r) (sb_revision r) t of
                  Inl _ \<Rightarrow> PassFailed t
                | Inr (_, t1) \<Rightarrow> if st = 410 then pass_all t1 (gone_root w r t1) else PassOn t1))"

fun reconcile_roots :: "event_env \<Rightarrow> event_world \<Rightarrow> subscription list \<Rightarrow> event_tables \<Rightarrow> bool \<times> event_tables" where
  "reconcile_roots env w [] t = (True, t)"
| "reconcile_roots env w (r # rs) t =
     (case reconcile_lifecycle env w r t of Inl _ \<Rightarrow> (False, t) | Inr t' \<Rightarrow> reconcile_roots env w rs t')"

text \<open>The start of the controller: an ended goal stops, any other root looks for the events it missed.\<close>

fun start_roots :: "event_env \<Rightarrow> event_world \<Rightarrow> subscription list \<Rightarrow> event_tables \<Rightarrow> event_tables" where
  "start_roots env w [] t = t"
| "start_roots env w (r # rs) t =
     (case (case sb_root r of
         None \<Rightarrow> Inr t
       | Some root \<Rightarrow> if ew_ended w (lr_activity root) then stop_activity w (lr_activity root) t else reconcile_lifecycle env w r t) of
        Inl _ \<Rightarrow> t
      | Inr t' \<Rightarrow> start_roots env w rs t')"

definition deliver_start :: "event_env \<Rightarrow> event_world \<Rightarrow> event_state \<Rightarrow> event_state" where
  "deliver_start env w s =
     (if es_queue s \<noteq> None \<or> es_sending s \<noteq> None then s
      else case maintain_grants w (es_tables s) of
        Inl _ \<Rightarrow> s
      | Inr t1 \<Rightarrow>
          let t2 = maintain_subs (ew_now w) t1;
              (ok, t3) = reconcile_roots env w (filter sb_recovery (lifecycle_roots None t2)) t2 in
          s\<lparr>es_tables := t3, es_queue := (if ok then Some (map sub_key (list_subs None t3)) else None)\<rparr>)"

definition deliver_next :: "event_env \<Rightarrow> event_world \<Rightarrow> bool \<Rightarrow> event_state \<Rightarrow> event_state" where
  "deliver_next env w opens s =
     (if es_sending s \<noteq> None then s
      else case es_queue s of
        None \<Rightarrow> s
      | Some [] \<Rightarrow> s\<lparr>es_queue := None\<rparr>
      | Some (k # ks) \<Rightarrow>
          (case deliver_one env w k (es_tables s) of
             PassFailed t \<Rightarrow> s\<lparr>es_tables := t, es_queue := None\<rparr>
           | PassOn t \<Rightarrow> s\<lparr>es_tables := t, es_queue := Some ks\<rparr>
           | PassSend r t \<Rightarrow> s\<lparr>es_tables := t, es_queue := Some ks, es_sending := Some r,
               es_sent := (if opens then es_sent s @ [\<lparr>sv_job = sb_job r, sv_sub = sb_id r,
                 sv_event = (case sb_event r of None \<Rightarrow> '''' | Some e \<Rightarrow> je_id e), sv_access = sb_access r,
                 sv_url = de_url (sb_destination r)\<rparr>] else es_sent s)\<rparr>))"

definition deliver_done :: "event_env \<Rightarrow> event_world \<Rightarrow> int \<Rightarrow> event_state \<Rightarrow> event_state" where
  "deliver_done env w st s =
     (case es_sending s of
        None \<Rightarrow> s
      | Some r \<Rightarrow>
          (case settle_send env w st r (es_tables s) of
             PassOn t \<Rightarrow> s\<lparr>es_tables := t, es_sending := None\<rparr>
           | PassFailed t \<Rightarrow> s\<lparr>es_tables := t, es_queue := None, es_sending := None\<rparr>
           | PassSend _ t \<Rightarrow> s\<lparr>es_tables := t, es_sending := None\<rparr>))"

section \<open>Steps\<close>

datatype event_op =
    EvAccess string bool sub_call
  | EvSubscribe sub_call bool
  | EvSubscribed string bool "string option" bool
  | EvUnsubscribe sub_call
  | EvWake
  | EvNext bool
  | EvDone int
  | EvTerminal event_job
  | EvLifecycle event_job
  | EvStopActivity string
  | EvForget string
  | EvRestart

definition commit :: "(event_error, event_tables) result \<Rightarrow> event_state \<Rightarrow> event_state" where
  "commit r s = (case r of Inl _ \<Rightarrow> s | Inr t \<Rightarrow> s\<lparr>es_tables := t\<rparr>)"

fun event_step :: "event_env \<Rightarrow> event_state \<Rightarrow> event_world \<times> event_op \<Rightarrow> event_state" where
  "event_step env s (w, EvAccess new_id revoking c) = commit (access_tool env w new_id revoking c (es_tables s)) s"
| "event_step env s (w, EvSubscribe c opens) = snd (subscribe_begin env w c opens s)"
| "event_step env s (w, EvSubscribed i challenged caller aborted) = snd (subscribe_end env w i challenged caller aborted s)"
| "event_step env s (w, EvUnsubscribe c) = snd (unsubscribe env w c s)"
| "event_step env s (w, EvWake) = deliver_start env w s"
| "event_step env s (w, EvNext opens) = deliver_next env w opens s"
| "event_step env s (w, EvDone st) = deliver_done env w st s"
| "event_step env s (w, EvTerminal j) = commit (enqueue_terminal env w j (es_tables s)) s"
| "event_step env s (w, EvLifecycle j) = commit (enqueue_lifecycle env w j None (es_tables s)) s"
| "event_step env s (w, EvStopActivity a) = commit (stop_activity w a (es_tables s)) s"
| "event_step env s (w, EvForget job) = s\<lparr>es_tables := forget_stop job None (es_tables s)\<rparr>"
| "event_step env s (w, EvRestart) = s\<lparr>es_tables := start_roots env w (lifecycle_roots None (es_tables s)) (es_tables s),
     es_verifying := [], es_queue := None, es_sending := None\<rparr>"

definition new_events :: event_state where
  "new_events = \<lparr>es_tables = \<lparr>et_subs = [], et_grants = [], et_stops = [], et_roots = [], et_children = []\<rparr>, es_verifying = [],
     es_queue = None, es_sending = None, es_sent = []\<rparr>"

end
