(* ===== verification/Event_Safety.thy ===== *)
theory Event_Safety
  imports Event_Delivery
begin

text \<open>
  What the event journals promise: bounded tables of well-formed rows, a terminal notification that is
  settled stays settled, and a delegation that was revoked or unsubscribed never authorizes another send.
  \<open>tables_le\<close> is the order in which every operation moves the tables.
\<close>

named_theorems event_moves \<open>operations that move the tables forward\<close>

section \<open>Subscription ids\<close>

definition id_for :: "event_env \<Rightarrow> event_name \<Rightarrow> string \<Rightarrow> bool" where
  "id_for env e i \<longleftrightarrow> (\<exists>who sid c. i = identity env who sid c \<and> sc_name c = e)"

text \<open>Without digest collisions an id tells which event it is for.\<close>

definition digests_differ :: "event_env \<Rightarrow> bool" where
  "digests_differ env \<longleftrightarrow> inj (ee_digest env)"

lemma event_text_inj: "event_text a = event_text b \<longleftrightarrow> a = b"
  by (cases a; cases b) (simp_all add: event_text_def)

lemma id_for_unique:
  assumes "digests_differ env" "id_for env a i" "id_for env b i"
  shows "a = b"
proof -
  obtain who sid c who' sid' c' where i: "i = identity env who sid c" "sc_name c = a" "i = identity env who' sid' c'" "sc_name c' = b"
    using assms(2,3) unfolding id_for_def by blast
  have "identity env who sid c = identity env who' sid' c'" using i by simp
  then have "event_text (sc_name c) = event_text (sc_name c')"
    using assms(1) by (simp add: identity_def digests_differ_def inj_eq json_array_def json_string_inj)
  then show ?thesis using i by (simp add: event_text_inj)
qed

section \<open>Rows\<close>

definition sub_ok :: "event_env \<Rightarrow> subscription \<Rightarrow> bool" where
  "sub_ok env r \<longleftrightarrow> sb_attempts r \<le> max_attempts \<and>
     id_for env (if sb_name r = Some JobLifecycle then JobLifecycle else JobTerminal) (sb_id r) \<and>
     (sb_event r \<noteq> None \<longrightarrow> sb_recover_until r \<noteq> None)"

text \<open>How a terminal subscription may be rewritten: its event stays, a settled delivery stays settled.\<close>

definition settled :: "subscription \<Rightarrow> bool" where
  "settled r \<longleftrightarrow> sb_delivery r = DsAcknowledged \<or> sb_delivery r = DsFailed"

definition keeps :: "subscription \<Rightarrow> subscription \<Rightarrow> bool" where
  "keeps r r' \<longleftrightarrow> (sb_event r \<noteq> None \<longrightarrow> sb_name r' = sb_name r \<and> sb_event r' = sb_event r \<and>
     sb_recover_until r' = sb_recover_until r \<and> (settled r \<longrightarrow> sb_delivery r' = sb_delivery r))"

lemma keeps_refl [simp]: "keeps r r"
  by (simp add: keeps_def)

lemma keeps_trans: "keeps a b \<Longrightarrow> keeps b c \<Longrightarrow> keeps a c"
  by (auto simp: keeps_def settled_def)

definition lifecycle_row :: "subscription \<Rightarrow> bool" where
  "lifecycle_row r \<longleftrightarrow> sb_name r = Some JobLifecycle"

definition tables_ok :: "event_env \<Rightarrow> event_tables \<Rightarrow> bool" where
  "tables_ok env t \<longleftrightarrow> distinct (keys (et_subs t)) \<and> (\<forall>k r. (k, r) \<in> set (et_subs t) \<longrightarrow> sub_key r = k \<and> sub_ok env r) \<and>
     length (et_subs t) \<le> max_subscriptions \<and>
     (\<forall>j. length (filter (\<lambda>p. fst (fst p) = j) (et_subs t)) \<le> max_job_subscriptions) \<and>
     distinct (keys (et_grants t)) \<and> (\<forall>h g. (h, g) \<in> set (et_grants t) \<longrightarrow> gr_hash g = h \<and> 1 \<le> gr_revision g) \<and>
     length (et_grants t) \<le> max_grants \<and>
     (\<forall>p \<in> set (et_roots t). id_for env JobLifecycle (snd (snd p))) \<and>
     (\<forall>p \<in> set (et_children t). id_for env JobLifecycle (snd (snd p)))"

definition dead :: "string \<Rightarrow> event_tables \<Rightarrow> bool" where
  "dead h t \<longleftrightarrow> (case grant_by_hash h t of None \<Rightarrow> True | Some g \<Rightarrow> \<not> live_grant g)"

text \<open>\<open>fresh\<close>: the delegations this operation may create; \<open>now\<close>: its time.\<close>

definition tables_le :: "string set \<Rightarrow> int \<Rightarrow> event_tables \<Rightarrow> event_tables \<Rightarrow> bool" where
  "tables_le fresh now t t' \<longleftrightarrow>
     (\<forall>h. h \<notin> fresh \<longrightarrow> dead h t \<longrightarrow> dead h t') \<and>
     (\<forall>j i r u. get_sub j i t = Some r \<longrightarrow> \<not> lifecycle_row r \<longrightarrow> sb_event r \<noteq> None \<longrightarrow> sb_recover_until r = Some u \<longrightarrow> now < u \<longrightarrow>
        (\<exists>r'. get_sub j i t' = Some r' \<and> keeps r r'))"

lemma tables_le_refl [simp]: "tables_le fresh now t t"
  unfolding tables_le_def using keeps_refl by blast

lemma tables_le_trans: "tables_le fresh now t u \<Longrightarrow> tables_le fresh now u v \<Longrightarrow> tables_le fresh now t v"
  unfolding tables_le_def
proof (intro conjI allI impI, goal_cases)
  case (1 h)
  then show ?case by blast
next
  case (2 j i r until)
  then obtain r' where r': "get_sub j i u = Some r'" "keeps r r'" by blast
  then have "\<not> lifecycle_row r'" "sb_event r' \<noteq> None" "sb_recover_until r' = Some until"
    using 2 by (auto simp: keeps_def lifecycle_row_def)
  then obtain r'' where "get_sub j i v = Some r''" "keeps r' r''" using 2 r'(1) by blast
  then show ?case using keeps_trans [OF r'(2)] by blast
qed

definition evolves :: "event_env \<Rightarrow> string set \<Rightarrow> int \<Rightarrow> event_tables \<Rightarrow> event_tables \<Rightarrow> bool" where
  "evolves env fresh now t t' \<longleftrightarrow> tables_ok env t' \<and> tables_le fresh now t t'"

lemma tables_evolve_refl: "tables_ok env t \<Longrightarrow> evolves env fresh now t t"
  by (simp add: evolves_def)

lemma evolves_trans: "evolves env fresh now t u \<Longrightarrow> evolves env fresh now u v \<Longrightarrow> evolves env fresh now t v"
  unfolding evolves_def using tables_le_trans by blast

lemma evolves_ok: "evolves env fresh now t u \<Longrightarrow> tables_ok env u"
  by (simp add: evolves_def)

text \<open>A loop over records: \<open>P\<close> holds of the records still to come.\<close>

lemma res_fold_evolves:
  assumes "res_fold f xs t = Inr t'" "P xs t" "tables_ok env t"
    and step: "\<And>x ys s s'. P (x # ys) s \<Longrightarrow> tables_ok env s \<Longrightarrow> f x s = Inr s' \<Longrightarrow> evolves env fresh now s s' \<and> P ys s'"
  shows "evolves env fresh now t t'"
  using assms(1,2,3)
proof (induction xs arbitrary: t)
  case (Cons x xs)
  then obtain s where s: "f x t = Inr s" "res_fold f xs s = Inr t'" by (auto simp: result_simps)
  then have "evolves env fresh now t s" "P xs s" using step Cons.prems by blast+
  then show ?case using Cons.IH [OF s(2)] evolves_trans evolves_ok by blast
qed (simp add: tables_evolve_refl)

lemma res_fold_moves:
  assumes "res_fold f xs t = Inr t'" "tables_ok env t"
    and "\<And>x s s'. x \<in> set xs \<Longrightarrow> tables_ok env s \<Longrightarrow> f x s = Inr s' \<Longrightarrow> evolves env fresh now s s'"
  shows "evolves env fresh now t t'"
  using assms
proof (induction xs arbitrary: t)
  case (Cons x xs)
  then obtain s where s: "f x t = Inr s" "res_fold f xs s = Inr t'" by (auto simp: result_simps)
  then have "evolves env fresh now t s" using Cons.prems by auto
  then show ?case using Cons.IH [OF s(2)] Cons.prems(3) evolves_trans evolves_ok by (meson list.set_intros(2))
qed (simp add: tables_evolve_refl)

section \<open>Writing one subscription\<close>

lemma count_keys: "length (filter (\<lambda>p. Q (fst p)) t) = length (filter Q (keys t))"
  by (induction t) auto

lemma list_subs_length:
  assumes "tables_ok env t"
  shows "length (list_subs None t) = length (et_subs t)"
    "length (list_subs (Some j) t) = length (filter (\<lambda>p. fst (fst p) = j) (et_subs t))"
proof -
  have "length (filter p (et_subs t)) \<le> max_subscriptions" for p
    using assms length_filter_le [of p "et_subs t"] unfolding tables_ok_def by linarith
  then have "length (take (max_subscriptions + 1) (map snd (sort_key f (filter p (et_subs t))))) = length (filter p (et_subs t))"
    for f :: "(string \<times> string) \<times> subscription \<Rightarrow> string" and p
    by (simp add: min_def le_SucI)
  from this [of _ "\<lambda>_. True"] this [of _ "\<lambda>p. fst (fst p) = j"]
  show "length (list_subs None t) = length (et_subs t)"
    "length (list_subs (Some j) t) = length (filter (\<lambda>p. fst (fst p) = j) (et_subs t))"
    unfolding list_subs_def option.case by simp_all
qed

lemma update_rows: "set (AList.update k v t) \<subseteq> insert (k, v) (set t)"
  by (induction t) auto

lemma sub_row:
  assumes "tables_ok env t" "get_sub j i t = Some r"
  shows "sb_job r = j" "sb_id r = i" "sub_ok env r"
proof -
  have "((j, i), r) \<in> set (et_subs t)" using assms(2) by (simp add: get_sub_def map_of_SomeD)
  then have "sub_key r = (j, i) \<and> sub_ok env r" using assms(1) unfolding tables_ok_def by blast
  then show "sb_job r = j" "sb_id r = i" "sub_ok env r" by (simp_all add: sub_key_def)
qed

lemma listed_sub:
  assumes "tables_ok env t" "r \<in> set (list_subs job t)"
  shows "get_sub (sb_job r) (sb_id r) t = Some r" "sub_ok env r" "job = Some j \<Longrightarrow> sb_job r = j"
proof -
  have "r \<in> snd ` {p \<in> set (et_subs t). case job of None \<Rightarrow> True | Some j \<Rightarrow> fst (fst p) = j}"
    using assms(2) set_take_subset unfolding list_subs_def by fastforce
  then obtain p where "p \<in> set (et_subs t)" "r = snd p" "case job of None \<Rightarrow> True | Some j \<Rightarrow> fst (fst p) = j" by blast
  then obtain k where k: "(k, r) \<in> set (et_subs t)" "case job of None \<Rightarrow> True | Some j \<Rightarrow> fst k = j"
    by (metis prod.collapse)
  have key: "sub_key r = k \<and> sub_ok env r" and d: "distinct (keys (et_subs t))"
    using assms(1) k(1) unfolding tables_ok_def by blast+
  have "map_of (et_subs t) k = Some r" using d k(1) by (simp add: keys_def)
  then show "get_sub (sb_job r) (sb_id r) t = Some r" "sub_ok env r" "job = Some j \<Longrightarrow> sb_job r = j"
    using key k(2) by (auto simp: get_sub_def sub_key_def)
qed

lemma save_sub_cases:
  assumes "save_sub w r n t = Inr (b, t')"
  shows "\<not> b \<and> t' = t \<or> b \<and> (n = 0 \<longrightarrow> get_sub (sb_job r) (sb_id r) t = None) \<and>
    (n \<noteq> 0 \<longrightarrow> map_option sb_revision (get_sub (sb_job r) (sb_id r) t) = Some n) \<and> 1 \<le> sb_revision r \<and>
    (get_sub (sb_job r) (sb_id r) t = None \<longrightarrow>
      length (list_subs None t) < max_subscriptions \<and> length (list_subs (Some (sb_job r)) t) < max_job_subscriptions) \<and>
    t' = (let u = t\<lparr>et_subs := AList.update (sub_key r) r (et_subs t)\<rparr> in
      if get_sub (sb_job r) (sb_id r) t = None then index_sub r u else u)"
  using assms by (auto simp: save_sub_def Let_def not_le split: if_splits)

lemma index_frame [simp]: "et_subs (index_sub r t) = et_subs t" "et_grants (index_sub r t) = et_grants t"
  "et_stops (index_sub r t) = et_stops t"
  by (simp_all add: index_sub_def split: option.splits)

lemma dead_frame: "et_grants t' = et_grants t \<Longrightarrow> dead h t' = dead h t"
  by (simp add: dead_def grant_by_hash_def)

lemma put_ok:
  assumes ok: "tables_ok env t" and save: "save_sub w r n t = Inr (b, t')" and r: "sub_ok env r"
  shows "tables_ok env t'"
proof -
  consider (same) "t' = t" | (put) "t' = (let u = t\<lparr>et_subs := AList.update (sub_key r) r (et_subs t)\<rparr> in
      if get_sub (sb_job r) (sb_id r) t = None then index_sub r u else u)"
    "get_sub (sb_job r) (sb_id r) t = None \<longrightarrow>
      length (list_subs None t) < max_subscriptions \<and> length (list_subs (Some (sb_job r)) t) < max_job_subscriptions"
    using save_sub_cases [OF save] by blast
  then show ?thesis
  proof cases
    case put
    have subs: "et_subs t' = AList.update (sub_key r) r (et_subs t)" "et_grants t' = et_grants t"
      by (simp_all add: put(1) Let_def)
    have rows: "sub_key x = k \<and> sub_ok env x" if "(k, x) \<in> set (et_subs t')" for k x
    proof -
      have "(k, x) = (sub_key r, r) \<or> (k, x) \<in> set (et_subs t)"
        using that update_rows [of "sub_key r" r "et_subs t"] unfolding subs by blast
      then show ?thesis using ok r unfolding tables_ok_def by blast
    qed
    have new: "get_sub (sb_job r) (sb_id r) t = None \<longleftrightarrow> sub_key r \<notin> set (keys (et_subs t))"
      by (simp add: get_sub_def sub_key_def map_of_None_keys)
    have len: "length (et_subs t') \<le> max_subscriptions"
      using put(2) ok list_subs_length(1) [OF ok] new by (auto simp: subs update_length tables_ok_def)
    have per: "length (filter (\<lambda>p. fst (fst p) = j) (et_subs t')) \<le> max_job_subscriptions" for j
    proof (cases "sub_key r \<in> set (keys (et_subs t))")
      case True
      then have "length (filter (\<lambda>p. fst (fst p) = j) (et_subs t')) = length (filter (\<lambda>p. fst (fst p) = j) (et_subs t))"
        by (simp add: count_keys [of "\<lambda>k. fst k = j"] subs keys_update_old)
      then show ?thesis using ok by (simp add: tables_ok_def)
    next
      case False
      then show ?thesis using ok put(2) new list_subs_length(2) [OF ok, of "sb_job r"]
        by (auto simp: subs keys_update_new tables_ok_def sub_key_def)
    qed
    have idx: "\<forall>p \<in> set (et_roots t'). id_for env JobLifecycle (snd (snd p))"
      "\<forall>p \<in> set (et_children t'). id_for env JobLifecycle (snd (snd p))"
      using ok r by (auto simp: put(1) Let_def index_sub_def tables_ok_def sub_ok_def split: option.splits if_splits)
    show ?thesis using ok rows len per idx unfolding tables_ok_def by (auto simp: subs)
  qed (use ok in simp)
qed

lemma put_reads:
  assumes "save_sub w r n t = Inr (b, t')"
  shows "get_sub j i t' = (if b \<and> (j, i) = sub_key r then Some r else get_sub j i t)" "et_grants t' = et_grants t"
    "et_stops t' = et_stops t"
  using save_sub_cases [OF assms] by (auto simp: get_sub_def Let_def update_conv' split: if_splits)

lemma put_evolves:
  assumes "digests_differ env" "tables_ok env t" "save_sub w r n t = Inr (b, t')" "sub_ok env r"
    and "lifecycle_row r \<or> (\<forall>x. get_sub (sb_job r) (sb_id r) t = Some x \<longrightarrow> keeps x r)"
  shows "evolves env fresh now t t'"
proof -
  have "\<exists>x. get_sub j i t' = Some x \<and> keeps r0 x"
    if r0: "get_sub j i t = Some r0" "\<not> lifecycle_row r0" for j i r0
  proof (cases "b \<and> (j, i) = sub_key r")
    case True
    have "id_for env JobTerminal i" using sub_row [OF assms(2) r0(1)] r0(2) by (simp add: sub_ok_def lifecycle_row_def)
    then have "\<not> lifecycle_row r"
      using id_for_unique [OF assms(1), of JobTerminal i JobLifecycle] True assms(4)
      by (auto simp: sub_ok_def lifecycle_row_def sub_key_def)
    then have "keeps r0 r" using assms(5) r0(1) True by (auto simp: sub_key_def)
    then show ?thesis using True by (simp add: put_reads [OF assms(3)])
  next
    case False
    then show ?thesis using r0 by (auto simp: put_reads [OF assms(3)])
  qed
  then show ?thesis
    using put_ok [OF assms(2,3,4)] dead_frame [OF put_reads(2) [OF assms(3)]] by (simp add: evolves_def tables_le_def)
qed

lemma must_save_Inr: "must_save w r n t = Inr t' \<longleftrightarrow> save_sub w r n t = Inr (True, t')"
  by (auto simp: must_save_def result_simps split: if_splits)

text \<open>Lifecycle rows may be rewritten from any earlier reading of them.\<close>

lemma lifecycle_put:
  assumes "digests_differ env" "tables_ok env t" "save_sub w r n t = Inr (b, t')" "sub_ok env r" "lifecycle_row r"
  shows "evolves env fresh now t t'"
  using put_evolves [OF assms(1-4)] assms(5) by blast

lemma lifecycle_must:
  assumes "digests_differ env" "tables_ok env t" "must_save w r n t = Inr t'" "sub_ok env r" "lifecycle_row r"
  shows "evolves env fresh now t t'"
  using lifecycle_put assms must_save_Inr by metis

text \<open>Rows read through an index are lifecycle rows.\<close>

lemma indexed_row:
  assumes "r \<in> set (indexed ks t)" "tables_ok env t"
  shows "(sb_job r, sb_id r) \<in> set ks" "get_sub (sb_job r) (sb_id r) t = Some r" "sub_ok env r"
proof -
  obtain j i where k: "(j, i) \<in> set ks" "get_sub j i t = Some r"
    using assms(1) by (auto simp: indexed_def get_sub_def split: option.splits)
  then show "(sb_job r, sb_id r) \<in> set ks" "get_sub (sb_job r) (sb_id r) t = Some r" "sub_ok env r"
    using sub_row [OF assms(2) k(2)] by simp_all
qed

lemma lifecycle_id_row: "digests_differ env \<Longrightarrow> sub_ok env r \<Longrightarrow> id_for env JobLifecycle (sb_id r) \<Longrightarrow> lifecycle_row r"
  using id_for_unique [of env JobTerminal "sb_id r" JobLifecycle] by (auto simp: sub_ok_def lifecycle_row_def split: if_splits)

lemma child_row:
  assumes "r \<in> set (lifecycle_children root t)" "tables_ok env t" "digests_differ env"
  shows "sub_ok env r" "lifecycle_row r"
proof -
  have "(sb_job r, sb_id r) \<in> snd ` set (et_children t)"
    using indexed_row(1) [OF assms(1) [unfolded lifecycle_children_def] assms(2)] set_take_subset by fastforce
  then have "id_for env JobLifecycle (sb_id r)" using assms(2) unfolding tables_ok_def by fastforce
  then show "sub_ok env r" "lifecycle_row r"
    using indexed_row(3) [OF assms(1) [unfolded lifecycle_children_def] assms(2)] lifecycle_id_row [OF assms(3)] by blast+
qed

lemma root_row:
  assumes "r \<in> set (lifecycle_roots job t)" "tables_ok env t"
  shows "sub_ok env r" "lifecycle_row r" "sb_root r \<noteq> None"
proof -
  have "r \<in> (\<Union>p. set (roots_at p t))" using assms(1) by (auto simp: lifecycle_roots_def split: option.splits if_splits)
  then show "sub_ok env r" "lifecycle_row r" "sb_root r \<noteq> None"
    using indexed_row(3) [OF _ assms(2)] by (auto simp: roots_at_def lifecycle_row_def)
qed

section \<open>Operations on subscriptions\<close>

text \<open>Updates that leave the identity, the event and the attempts alone keep a row well formed.\<close>

lemma sub_ok_updates [simp]:
  "sub_ok env (r\<lparr>sb_disabled := x\<rparr>) = sub_ok env r" "sub_ok env (r\<lparr>sb_revision := n\<rparr>) = sub_ok env r"
  "sub_ok env (r\<lparr>sb_destination := d\<rparr>) = sub_ok env r" "sub_ok env (r\<lparr>sb_expires := n\<rparr>) = sub_ok env r"
  "sub_ok env (r\<lparr>sb_root_revision := m\<rparr>) = sub_ok env r" "sub_ok env (r\<lparr>sb_recovery := b\<rparr>) = sub_ok env r"
  "sub_ok env (r\<lparr>sb_delivery := v\<rparr>) = sub_ok env r" "sub_ok env (r\<lparr>sb_next := n\<rparr>) = sub_ok env r"
  "sub_ok env (r\<lparr>sb_status := m\<rparr>) = sub_ok env r" "sub_ok env (r\<lparr>sb_acknowledged := m\<rparr>) = sub_ok env r"
  by (simp_all add: sub_ok_def)

lemma lifecycle_row_updates [simp]:
  "lifecycle_row (r\<lparr>sb_disabled := x\<rparr>) = lifecycle_row r" "lifecycle_row (r\<lparr>sb_revision := n\<rparr>) = lifecycle_row r"
  "lifecycle_row (r\<lparr>sb_destination := d\<rparr>) = lifecycle_row r" "lifecycle_row (r\<lparr>sb_expires := n\<rparr>) = lifecycle_row r"
  "lifecycle_row (r\<lparr>sb_root_revision := m\<rparr>) = lifecycle_row r" "lifecycle_row (r\<lparr>sb_recovery := b\<rparr>) = lifecycle_row r"
  by (simp_all add: lifecycle_row_def)

lemma disable_evolves:
  assumes "digests_differ env" "tables_ok env t" "disable w x r t = Inr t'" "sub_ok env r"
    and "lifecycle_row r \<or> get_sub (sb_job r) (sb_id r) t = Some r"
  shows "evolves env fresh now t t'"
  using assms(3) unfolding disable_def must_save_Inr
  by (rule put_evolves [OF assms(1,2)]) (use assms(4,5) in \<open>auto simp: keeps_def\<close>)

lemma stop_children_evolves:
  assumes "digests_differ env" "tables_ok env t" "stop_lifecycle_children w x root t = Inr t'"
  shows "evolves env fresh now t t'"
  using assms(3) unfolding stop_lifecycle_children_def
proof (rule res_fold_moves [OF _ assms(2)])
  fix r s s' assume r: "r \<in> set (lifecycle_children root t)" "tables_ok env s" "stop_child w x r s = Inr s'"
  show "evolves env fresh now s s'"
  proof (cases "sb_disabled r = Some x")
    case True
    then show ?thesis using r tables_evolve_refl by (simp add: stop_child_def)
  next
    case False
    then show ?thesis
      using r disable_evolves [OF assms(1) r(2)] child_row [OF r(1) assms(2,1)] by (simp add: stop_child_def)
  qed
qed

lemma refresh_evolves:
  assumes "digests_differ env" "tables_ok env t" "refresh_lifecycle_children w root t = Inr t'"
  shows "evolves env fresh now t t'"
  using assms(3) unfolding refresh_lifecycle_children_def
proof (rule res_fold_moves [OF _ assms(2)])
  fix r s s' assume r: "r \<in> set (lifecycle_children root t)" "tables_ok env s" "refresh_child w root r s = Inr s'"
  show "evolves env fresh now s s'"
    using r lifecycle_must [OF assms(1) r(2)] child_row [OF r(1) assms(2,1)] tables_evolve_refl
    by (auto simp: refresh_child_def split: if_splits)
qed

lemma stop_activity_evolves:
  assumes "digests_differ env" "tables_ok env t" "stop_activity w a t = Inr t'"
  shows "evolves env fresh now t t'"
  using assms(3) unfolding stop_activity_def
proof (rule res_fold_moves [OF _ assms(2)])
  fix r s s' assume r: "r \<in> set (filter (\<lambda>r. map_option lr_activity (sb_root r) = Some a \<and> sb_disabled r = None) (lifecycle_roots None t))"
    "tables_ok env s" "res_bind (disable w GoalEnded r s) (stop_lifecycle_children w GoalEnded r) = Inr s'"
  obtain u where u: "disable w GoalEnded r s = Inr u" "stop_lifecycle_children w GoalEnded r u = Inr s'"
    using r(3) by (auto simp: result_simps)
  have "sub_ok env r" "lifecycle_row r" using r(1) root_row [OF _ assms(2)] by auto
  then have e: "evolves env fresh now s u" using disable_evolves [OF assms(1) r(2) u(1)] by blast
  show "evolves env fresh now s s'"
    using evolves_trans [OF e stop_children_evolves [OF assms(1) evolves_ok [OF e] u(2)]] .
qed

text \<open>Announcing under a lifecycle root.\<close>

lemma lifecycle_record_sel:
  "sb_id (lifecycle_record w j root old ev) = (case old of None \<Rightarrow> sb_id root | Some r \<Rightarrow> sb_id r)"
  "sb_name (lifecycle_record w j root old ev) = (case old of None \<Rightarrow> sb_name root | Some r \<Rightarrow> sb_name r)"
  "sb_attempts (lifecycle_record w j root old ev) = 0" "sb_event (lifecycle_record w j root old ev) = ev"
  "sb_recover_until (lifecycle_record w j root old (Some e)) \<noteq> None"
  by (simp_all add: lifecycle_record_def Let_def split: option.splits)

lemma lifecycle_record_ok:
  assumes "digests_differ env" "tables_ok env t" "sub_ok env root" "lifecycle_row root" "get_sub (ej_id j) (sb_id root) t = old"
  shows "sub_ok env (lifecycle_record w j root old ev)" "lifecycle_row (lifecycle_record w j root old ev)"
proof -
  have root: "id_for env JobLifecycle (sb_id root)" using assms(3,4) by (simp add: sub_ok_def lifecycle_row_def)
  have id: "sb_id (lifecycle_record w j root old ev) = sb_id root \<and> sb_name (lifecycle_record w j root old ev) = Some JobLifecycle"
  proof (cases old)
    case None
    then show ?thesis using assms(4) by (simp add: lifecycle_record_sel lifecycle_row_def)
  next
    case (Some r)
    have g: "get_sub (ej_id j) (sb_id root) t = Some r" using assms(5) Some by simp
    have same: "sb_id r = sb_id root" by (rule sub_row(2) [OF assms(2) g])
    then have "lifecycle_row r" using lifecycle_id_row [OF assms(1) sub_row(3) [OF assms(2) g]] root by simp
    then show ?thesis using same by (simp add: Some lifecycle_record_sel lifecycle_row_def)
  qed
  show "lifecycle_row (lifecycle_record w j root old ev)" using id by (simp add: lifecycle_row_def)
  show "sub_ok env (lifecycle_record w j root old ev)"
    using id root lifecycle_record_sel(5) [of w j root old] by (cases ev) (simp_all add: sub_ok_def lifecycle_record_sel(3,4))
qed

lemma recovery_evolves:
  assumes "digests_differ env" "tables_ok env t" "get_sub j i t = Some r"
    "res_bind (save_sub w (r\<lparr>sb_recovery := b\<rparr>) n t) (\<lambda>(_, t'). Inr t') = Inr t'"
  shows "evolves env fresh now t t'"
proof -
  obtain c where "save_sub w (r\<lparr>sb_recovery := b\<rparr>) n t = Inr (c, t')" using assms(4) by (auto simp: result_simps)
  then show ?thesis
    by (rule put_evolves [OF assms(1,2)]) (use sub_row [OF assms(2,3)] assms(3) in \<open>auto simp: keeps_def\<close>)
qed

lemma enqueue_under_evolves:
  assumes "digests_differ env" "tables_ok env t" "enqueue_under env w j root t = Inr t'" "sub_ok env root"
  shows "evolves env fresh now t t'"
proof (cases "t' = t")
  case True
  then show ?thesis using tables_evolve_refl [OF assms(2)] by simp
next
  case False
  define old where "old = get_sub (ej_id j) (sb_id root) t"
  obtain goal where goal: "sb_root root = Some goal" and m: "matches_lifecycle root j"
    and rest: "(case must_save w (lifecycle_record w j root old (lifecycle_event env j goal))
        (case old of None \<Rightarrow> 0 | Some x \<Rightarrow> sb_revision x) t of
       Inr t' \<Rightarrow> Inr t'
     | Inl SubCapacity \<Rightarrow> (case get_sub (sb_job root) (sb_id root) t of None \<Rightarrow> Inr t
        | Some latest \<Rightarrow> if sb_recovery latest then Inr t
            else res_bind (save_sub w (latest\<lparr>sb_recovery := True\<rparr>) (sb_revision latest) t) (\<lambda>(_, t'). Inr t'))
     | Inl e \<Rightarrow> Inl e) = Inr t'"
    using assms(3) False unfolding enqueue_under_def Let_def old_def
    by (auto split: option.splits if_splits)
  have row: "lifecycle_row root" using m by (simp add: matches_lifecycle_def lifecycle_row_def)
  show ?thesis
  proof (cases "must_save w (lifecycle_record w j root old (lifecycle_event env j goal))
        (case old of None \<Rightarrow> 0 | Some x \<Rightarrow> sb_revision x) t")
    case (Inr u)
    then have "u = t'" using rest by simp
    then show ?thesis
      using lifecycle_must [OF assms(1,2) Inr] lifecycle_record_ok [OF assms(1,2,4) row] by (simp add: old_def)
  next
    case (Inl e)
    then have "e = SubCapacity" using rest by (cases e) simp_all
    then obtain latest where "get_sub (sb_job root) (sb_id root) t = Some latest"
        "res_bind (save_sub w (latest\<lparr>sb_recovery := True\<rparr>) (sb_revision latest) t) (\<lambda>(_, t'). Inr t') = Inr t'"
      using rest Inl False by (auto split: option.splits if_splits)
    then show ?thesis by (rule recovery_evolves [OF assms(1,2)])
  qed
qed

lemma enqueue_lifecycle_evolves:
  assumes "digests_differ env" "tables_ok env t" "enqueue_lifecycle env w j only t = Inr t'"
    "\<And>r. only = Some r \<Longrightarrow> sub_ok env r"
  shows "evolves env fresh now t t'"
proof (cases "ej_policy j \<noteq> Some ''events'' \<or> monitoring_stopped j JobLifecycle t \<noteq> None")
  case True
  then show ?thesis using assms(3) tables_evolve_refl [OF assms(2)] by (simp add: enqueue_lifecycle_def)
next
  case False
  then have "res_fold (enqueue_under env w j) (case only of Some r \<Rightarrow> [r] | None \<Rightarrow> lifecycle_roots (Some j) t) t = Inr t'"
    using assms(3) unfolding enqueue_lifecycle_def by (simp only: if_False)
  then show ?thesis
  proof (rule res_fold_moves [OF _ assms(2)])
    fix r s s' assume r: "r \<in> set (case only of Some r \<Rightarrow> [r] | None \<Rightarrow> lifecycle_roots (Some j) t)" "tables_ok env s"
      "enqueue_under env w j r s = Inr s'"
    have "sub_ok env r" using r(1) assms(4) root_row [OF _ assms(2)] by (auto split: option.splits)
    then show "evolves env fresh now s s'" using enqueue_under_evolves [OF assms(1) r(2,3)] by blast
  qed
qed

lemma reconcile_evolves:
  assumes "digests_differ env" "tables_ok env t" "reconcile_lifecycle env w root t = Inr t'" "sub_ok env root" "lifecycle_row root"
  shows "evolves env fresh now t t'"
proof (cases "t' = t")
  case True
  then show ?thesis using tables_evolve_refl [OF assms(2)] by simp
next
  case False
  then obtain goal t1 where t1: "(if sb_recovery root then res_bind (save_sub w (root\<lparr>sb_recovery := False\<rparr>) (sb_revision root) t) (\<lambda>(_, t'). Inr t')
      else Inr t) = Inr t1"
    "res_fold (\<lambda>j. enqueue_lifecycle env w j (get_sub (sb_job root) (sb_id root) t1)) (ew_goal_jobs w goal (sb_scope root)) t1 = Inr t'"
    using assms(3) by (auto simp: reconcile_lifecycle_def Let_def res_bind_Inr_iff split: option.splits if_splits)
  have first: "evolves env fresh now t t1"
  proof (cases "sb_recovery root")
    case True
    then obtain c where "save_sub w (root\<lparr>sb_recovery := False\<rparr>) (sb_revision root) t = Inr (c, t1)"
      using t1(1) by (auto simp: res_bind_Inr_iff)
    then show ?thesis by (rule lifecycle_put [OF assms(1,2)]) (use assms(4,5) in simp_all)
  qed (use t1(1) tables_evolve_refl [OF assms(2)] in simp)
  have "evolves env fresh now t1 t'"
  proof (rule res_fold_moves [OF t1(2) evolves_ok [OF first]])
    fix j s s' assume s: "tables_ok env s" "enqueue_lifecycle env w j (get_sub (sb_job root) (sb_id root) t1) s = Inr s'"
    show "evolves env fresh now s s'"
      using enqueue_lifecycle_evolves [OF assms(1) s] sub_row(3) [OF evolves_ok [OF first]] by blast
  qed
  then show ?thesis using evolves_trans [OF first] by blast
qed

text \<open>Loops over a listing: the rows still to come are as they were listed.\<close>

definition listed :: "subscription list \<Rightarrow> event_tables \<Rightarrow> bool" where
  "listed rs t \<longleftrightarrow> distinct (map sub_key rs) \<and> (\<forall>r \<in> set rs. get_sub (sb_job r) (sb_id r) t = Some r)"

lemma list_subs_listed:
  assumes "tables_ok env t"
  shows "listed (list_subs job t) t"
proof -
  define rows where "rows = sort_key (\<lambda>p. fst (fst p) @ ''/'' @ snd (fst p))
    (filter (\<lambda>p. case job of None \<Rightarrow> True | Some j \<Rightarrow> fst (fst p) = j) (et_subs t))"
  have "distinct (map fst (et_subs t))" using assms by (simp add: tables_ok_def keys_def)
  then have "distinct (map fst rows)" by (simp add: rows_def distinct_map_filter distinct_map inj_on_def) 
  moreover have "map sub_key (map snd rows) = map fst rows"
    using assms by (auto simp: tables_ok_def rows_def)
  ultimately have "distinct (take (max_subscriptions + 1) (map sub_key (map snd rows)))" by (simp only: distinct_take)
  then have "distinct (map sub_key (list_subs job t))"
    unfolding list_subs_def rows_def [symmetric] take_map .
  then show ?thesis using listed_sub [OF assms] by (simp add: listed_def)
qed

lemma listed_rest:
  assumes "listed (r # rs) t" "x \<in> set rs"
  shows "sub_key x \<noteq> sub_key r" "get_sub (sb_job x) (sb_id x) t = Some x"
  using assms unfolding listed_def by (auto simp: image_iff)

lemma listed_put:
  assumes "listed (r # rs) t" "save_sub w r' n t = Inr (b, t')" "sub_key r' = sub_key r"
  shows "listed rs t'"
proof -
  have "get_sub (sb_job x) (sb_id x) t' = Some x" if "x \<in> set rs" for x
  proof -
    note listed_rest [OF assms(1) that]
    then show ?thesis using assms(3) unfolding put_reads [OF assms(2)] by (simp add: sub_key_def [of x])
  qed
  then show ?thesis using assms(1) by (simp add: listed_def)
qed

lemma enqueue_terminal_evolves:
  assumes "digests_differ env" "tables_ok env t" "enqueue_terminal env w j t = Inr t'"
  shows "evolves env fresh now t t'"
proof (cases "is_terminal_job j")
  case True
  then have "res_fold (enqueue_one env w j) (list_subs (Some (ej_id j)) t) t = Inr t'" using assms(3) by (simp add: enqueue_terminal_def)
  then show ?thesis
  proof (rule res_fold_evolves [where P = "\<lambda>rs s. listed rs s \<and> (\<forall>r \<in> set rs. sub_ok env r)"])
    show "listed (list_subs (Some (ej_id j)) t) t \<and> (\<forall>r \<in> set (list_subs (Some (ej_id j)) t). sub_ok env r)"
      using list_subs_listed [OF assms(2)] listed_sub(2) [OF assms(2)] by blast
    fix r rs s s' assume p: "listed (r # rs) s \<and> (\<forall>x \<in> set (r # rs). sub_ok env x)" "tables_ok env s" "enqueue_one env w j r s = Inr s'"
    show "evolves env fresh now s s' \<and> listed rs s' \<and> (\<forall>x \<in> set rs. sub_ok env x)"
    proof (cases "s' = s")
      case True
      then show ?thesis using p tables_evolve_refl by (auto simp: listed_def)
    next
      case False
      define r' where "r' = r\<lparr>sb_event := Some (terminal_event env w j), sb_delivery := DsPending, sb_next := 0,
        sb_recover_until := Some (max (sb_expires r) (ew_now w + result_recovery_ms))\<rparr>"
      have e: "sb_event r = None" "save_sub w r' (sb_revision r) s = Inr (True, s')"
        using p(3) False by (auto simp: enqueue_one_def must_save_Inr r'_def split: if_splits)
      have "sub_ok env r'" using p(1) by (simp add: sub_ok_def r'_def)
      moreover have "keeps x r'" if "get_sub (sb_job r') (sb_id r') s = Some x" for x
        using that p(1) e(1) by (simp add: listed_def r'_def keeps_def)
      ultimately have "evolves env fresh now s s'" using put_evolves [OF assms(1) p(2) e(2)] by blast
      moreover have "listed rs s'" using p(1) by (intro listed_put [OF _ e(2), of r rs]) (simp_all add: r'_def sub_key_def)
      ultimately show ?thesis using p(1) by simp
    qed
  qed (rule assms(2))
qed (use assms(3) tables_evolve_refl [OF assms(2)] in \<open>simp add: enqueue_terminal_def\<close>)

text \<open>Removal of expired rows.\<close>

lemma remove_reads:
  "get_sub j i (remove_sub now r t) = (if expired_sub now r \<and> (j, i) = sub_key r then None else get_sub j i t)"
  "et_grants (remove_sub now r t) = et_grants t"
  by (auto simp: remove_sub_def get_sub_def Let_def delete_conv' split: option.splits)

lemma filter_delete_le: "length (filter p (AList.delete k t)) \<le> length (filter p t)"
  by (induction t) auto

lemma remove_ok: "tables_ok env t \<Longrightarrow> tables_ok env (remove_sub now r t)"
proof -
  assume ok: "tables_ok env t"
  have subs: "et_subs (remove_sub now r t) = et_subs t \<or> et_subs (remove_sub now r t) = AList.delete (sub_key r) (et_subs t)"
    by (simp add: remove_sub_def Let_def split: option.splits)
  have len: "length (filter p (et_subs (remove_sub now r t))) \<le> length (filter p (et_subs t))" for p
    using subs filter_delete_le by auto
  have d: "distinct (keys (et_subs t))" using ok by (simp add: tables_ok_def)
  have rows: "set (et_subs (remove_sub now r t)) \<subseteq> set (et_subs t)" "distinct (keys (et_subs (remove_sub now r t)))"
    using subs d distinct_keys_delete [OF d, of "sub_key r"] by (auto simp: AList.delete_eq)
  have idx: "set (et_roots (remove_sub now r t)) \<subseteq> set (et_roots t)" "set (et_children (remove_sub now r t)) \<subseteq> set (et_children t)"
    by (auto simp: remove_sub_def Let_def split: option.splits)
  have "length (et_subs (remove_sub now r t)) \<le> max_subscriptions"
    using len [of "\<lambda>_. True"] ok by (simp add: tables_ok_def)
  moreover have "length (filter (\<lambda>p. fst (fst p) = j) (et_subs (remove_sub now r t))) \<le> max_job_subscriptions" for j
    using len [of "\<lambda>p. fst (fst p) = j"] ok unfolding tables_ok_def by (meson order_trans)
  ultimately show ?thesis using ok rows idx unfolding tables_ok_def remove_reads(2) by blast
qed

lemma remove_evolves:
  assumes "tables_ok env t" "get_sub (sb_job r) (sb_id r) t = Some r"
  shows "evolves env fresh now t (remove_sub now r t)"
proof -
  have "\<exists>x. get_sub j i (remove_sub now r t) = Some x \<and> keeps o' x"
    if "get_sub j i t = Some o'" "sb_recover_until o' = Some u" "now < u" for j i o' u
  proof -
    have "\<not> (expired_sub now r \<and> (j, i) = sub_key r)"
      using that assms(2) by (auto simp: expired_sub_def sub_key_def)
    then show ?thesis using that(1) by (auto simp: remove_reads)
  qed
  then show ?thesis
    using remove_ok [OF assms(1)] dead_frame [OF remove_reads(2)] by (simp add: evolves_def tables_le_def)
qed

lemma listed_remove: "listed (r # rs) t \<Longrightarrow> listed rs (remove_sub now r t)"
proof -
  assume l: "listed (r # rs) t"
  have "get_sub (sb_job x) (sb_id x) (remove_sub now r t) = Some x" if "x \<in> set rs" for x
  proof -
    note listed_rest [OF l that]
    then show ?thesis unfolding remove_reads by (simp add: sub_key_def)
  qed
  then show ?thesis using l by (simp add: listed_def)
qed

lemma maintain_subs_evolves:
  assumes "tables_ok env t"
  shows "evolves env fresh now t (maintain_subs now t)"
proof -
  have "evolves env fresh now t (foldl (\<lambda>u r. remove_sub now r u) t rs)" if "listed rs t" "tables_ok env t" for rs t
    using that
  proof (induction rs arbitrary: t)
    case (Cons r rs)
    have e: "evolves env fresh now t (remove_sub now r t)" using Cons.prems by (intro remove_evolves) (simp_all add: listed_def)
    moreover have "listed rs (remove_sub now r t)" by (rule listed_remove [OF Cons.prems(1)])
    ultimately have "evolves env fresh now (remove_sub now r t) (foldl (\<lambda>u r. remove_sub now r u) (remove_sub now r t) rs)"
      using Cons.IH evolves_ok by blast
    then show ?case using evolves_trans [OF e] by simp
  qed (simp add: tables_evolve_refl)
  then show ?thesis using list_subs_listed [OF assms] assms by (simp add: maintain_subs_def)
qed

end
