(* ===== verification/Event_Grants.thy ===== *)
theory Event_Grants
  imports Event_Safety
begin

text \<open>
  The operations on delegations and the composed operations of the controller move the tables forward in
  the order of \<open>Event_Safety\<close>; a delegation that is dead stays dead unless the operation may create it.
\<close>

section \<open>Writing one delegation\<close>

lemma grant_listed:
  assumes "tables_ok env t" "g \<in> set (list_grants job t)"
  shows "grant_by_hash (gr_hash g) t = Some g"
proof -
  have "g \<in> snd ` set (et_grants t)"
    using assms(2) set_take_subset unfolding list_grants_def all_grants_def by fastforce
  then obtain h where h: "(h, g) \<in> set (et_grants t)" by force
  then have "gr_hash g = h" "distinct (keys (et_grants t))" using assms(1) unfolding tables_ok_def by blast+
  then show ?thesis using h by (simp add: grant_by_hash_def keys_def)
qed

lemma grant_hash:
  assumes "tables_ok env t" "grant_by_hash h t = Some g"
  shows "gr_hash g = h" "1 \<le> gr_revision g"
proof -
  have "(h, g) \<in> set (et_grants t)" using assms(2) by (simp add: grant_by_hash_def map_of_SomeD)
  then show "gr_hash g = h" "1 \<le> gr_revision g" using assms(1) unfolding tables_ok_def by blast+
qed

lemma list_grants_length: "tables_ok env t \<Longrightarrow> length (list_grants None t) = length (et_grants t)"
  by (simp add: list_grants_def all_grants_def tables_ok_def min_def)

lemma save_grant_cases:
  assumes "save_grant g n t = Inr (b, t')"
  shows "\<not> b \<and> t' = t \<or> b \<and> (n = 0 \<longrightarrow> grant_by_hash (gr_hash g) t = None) \<and>
    (n \<noteq> 0 \<longrightarrow> map_option gr_revision (grant_by_hash (gr_hash g) t) = Some n) \<and> gr_revision g = n + 1 \<and>
    t' = t\<lparr>et_grants := AList.update (gr_hash g) g (et_grants t)\<rparr>"
  using assms by (auto simp: save_grant_def Let_def split: if_splits)

lemma grant_reads:
  assumes "save_grant g n t = Inr (b, t')"
  shows "grant_by_hash h t' = (if b \<and> h = gr_hash g then Some g else grant_by_hash h t)" "et_subs t' = et_subs t"
    "get_sub j i t' = get_sub j i t" "et_roots t' = et_roots t" "et_children t' = et_children t"
  using save_grant_cases [OF assms] by (auto simp: grant_by_hash_def get_sub_def update_conv' split: if_splits)

lemma grant_evolves:
  assumes "tables_ok env t" "save_grant g n t = Inr (b, t')"
    and "\<not> live_grant g \<or> gr_hash g \<in> fresh \<or> (\<exists>x. grant_by_hash (gr_hash g) t = Some x \<and> live_grant x)"
    and "grant_by_hash (gr_hash g) t = None \<Longrightarrow> length (et_grants t) < max_grants"
  shows "evolves env fresh now t t'"
proof -
  have "tables_ok env t'"
  proof (cases b)
    case True
    have g: "et_grants t' = AList.update (gr_hash g) g (et_grants t)" using save_grant_cases [OF assms(2)] True by auto
    have "1 \<le> gr_revision g"
    proof (cases "grant_by_hash (gr_hash g) t")
      case None
      then show ?thesis using save_grant_cases [OF assms(2)] True by (cases "n = 0") auto
    next
      case (Some x)
      then show ?thesis using save_grant_cases [OF assms(2)] True grant_hash(2) [OF assms(1) Some] by (cases "n = 0") auto
    qed
    then have "gr_hash x = h \<and> 1 \<le> gr_revision x" if "(h, x) \<in> set (et_grants t')" for h x
      using that update_rows [of "gr_hash g" g "et_grants t"] assms(1) unfolding g tables_ok_def by blast
    moreover have "length (et_grants t') \<le> max_grants"
      using assms(1,4) by (auto simp: g update_length tables_ok_def grant_by_hash_def map_of_None_keys)
    moreover have "distinct (keys (et_grants t'))" using assms(1) by (auto simp: g tables_ok_def)
    ultimately show ?thesis using assms(1) unfolding tables_ok_def grant_reads [OF assms(2)] by blast
  next
    case False
    then show ?thesis using save_grant_cases [OF assms(2)] assms(1) by auto
  qed
  moreover have "tables_le fresh now t t'"
    unfolding tables_le_def
  proof (intro conjI allI impI)
    fix h assume h: "h \<notin> fresh" "dead h t"
    show "dead h t'"
    proof (cases "b \<and> h = gr_hash g")
      case True
      then have "\<not> live_grant g" using h assms(3) by (auto simp: dead_def)
      then show ?thesis using True by (simp add: dead_def grant_reads(1) [OF assms(2)])
    next
      case False
      then have "grant_by_hash h t' = grant_by_hash h t" using grant_reads(1) [OF assms(2)] by auto
      then show ?thesis using h(2) by (simp add: dead_def)
    qed
  next
    fix j i r u assume "get_sub j i t = Some r"
    then show "\<exists>r'. get_sub j i t' = Some r' \<and> keeps r r'" using grant_reads(3) [OF assms(2)] by auto
  qed
  ultimately show ?thesis by (simp add: evolves_def)
qed

lemma must_save_grant_Inr: "must_save_grant g n t = Inr t' \<longleftrightarrow> save_grant g n t = Inr (True, t')"
  by (auto simp: must_save_grant_def result_simps split: if_splits)

text \<open>A delegation that is stopped, written over an existing row.\<close>

lemma stop_evolves:
  assumes "tables_ok env t" "save_grant g n t = Inr (b, t')" "\<not> live_grant g" "n \<noteq> 0"
  shows "evolves env fresh now t t'"
proof (cases b)
  case True
  then have "grant_by_hash (gr_hash g) t \<noteq> None" using save_grant_cases [OF assms(2)] assms(4) by auto
  then show ?thesis using assms(3) by (intro grant_evolves [OF assms(1,2)]) auto
next
  case False
  then show ?thesis using save_grant_cases [OF assms(2)] tables_evolve_refl [OF assms(1)] by auto
qed

lemma stops_evolve:
  assumes "tables_ok env t" "et_subs t' = et_subs t" "et_grants t' = et_grants t" "et_roots t' = et_roots t"
    "et_children t' = et_children t"
  shows "evolves env fresh now t t'"
proof -
  have "tables_ok env t'" using assms by (simp add: tables_ok_def)
  moreover have "get_sub j i t' = get_sub j i t" for j i using assms(2) by (simp add: get_sub_def)
  ultimately show ?thesis using dead_frame [OF assms(3)] by (auto simp: evolves_def tables_le_def)
qed

lemma remember_evolves: "tables_ok env t \<Longrightarrow> evolves env fresh now t (remember_stop w j m t)"
  by (rule stops_evolve) (simp_all add: remember_stop_def)

lemma forget_evolves: "tables_ok env t \<Longrightarrow> evolves env fresh now t (forget_stop j e t)"
  by (rule stops_evolve) (simp_all add: forget_stop_def)

lemma drop_grant_evolves:
  assumes "tables_ok env t"
  shows "evolves env fresh now t (t\<lparr>et_grants := AList.delete h (et_grants t)\<rparr>)"
proof -
  let ?t = "t\<lparr>et_grants := AList.delete h (et_grants t)\<rparr>"
  have "distinct (keys (AList.delete h (et_grants t)))" using assms by (auto simp: tables_ok_def)
  moreover have "length (AList.delete h (et_grants t)) \<le> length (et_grants t)" by (rule length_delete_le)
  moreover have "set (AList.delete h (et_grants t)) \<subseteq> set (et_grants t)" by (auto simp: AList.delete_eq)
  ultimately have "tables_ok env ?t" using assms unfolding tables_ok_def by auto
  moreover have "dead x ?t" if "dead x t" for x
    using that by (auto simp: dead_def grant_by_hash_def delete_conv' split: option.splits if_splits)
  moreover have "get_sub j i ?t = get_sub j i t" for j i by (simp add: get_sub_def)
  ultimately show ?thesis by (auto simp: evolves_def tables_le_def)
qed

section \<open>Operations on delegations\<close>

text \<open>Stopping the children of a root leaves terminal subscriptions untouched.\<close>

lemma stop_children_frame:
  assumes "digests_differ env" "tables_ok env t" "stop_lifecycle_children w x root t = Inr t'"
    "get_sub j i t = Some r" "\<not> lifecycle_row r"
  shows "get_sub j i t' = Some r"
  using assms(3) unfolding stop_lifecycle_children_def
proof (rule res_fold_keeps [where Q = "\<lambda>u. get_sub j i u = Some r"])
  show "get_sub j i t = Some r" by (rule assms(4))
  have tid: "id_for env JobTerminal i" using sub_row [OF assms(2,4)] assms(5) by (simp add: sub_ok_def lifecycle_row_def)
  fix c u u' assume c: "c \<in> set (lifecycle_children root t)" "get_sub j i u = Some r" "stop_child w x c u = Inr u'"
  have "id_for env JobLifecycle (sb_id c)" using child_row [OF c(1) assms(2,1)] by (simp add: sub_ok_def lifecycle_row_def)
  then have "sb_id c \<noteq> i" using id_for_unique [OF assms(1), of JobTerminal i JobLifecycle] tid by auto
  then show "get_sub j i u' = Some r"
    using c(2,3) by (auto simp: stop_child_def disable_def must_save_Inr sub_key_def put_reads(1) split: if_splits)
qed

text \<open>Rows still to come in a loop that stops rows and the children of lifecycle rows.\<close>

definition pending_rows :: "event_env \<Rightarrow> subscription list \<Rightarrow> event_tables \<Rightarrow> bool" where
  "pending_rows env rs t \<longleftrightarrow> distinct (map sub_key rs) \<and>
     (\<forall>r \<in> set rs. sub_ok env r \<and> (lifecycle_row r \<or> get_sub (sb_job r) (sb_id r) t = Some r))"

lemma pending_listed: "tables_ok env t \<Longrightarrow> pending_rows env (list_subs job t) t"
  using list_subs_listed [of env t job] listed_sub(2) [of env t _ job] by (auto simp: pending_rows_def listed_def)

lemma pending_filter: "pending_rows env rs t \<Longrightarrow> pending_rows env (filter p rs) t"
  by (auto simp: pending_rows_def distinct_map_filter)

lemma pending_after:
  assumes "pending_rows env (r # rs) t"
    and "\<And>x. x \<in> set rs \<Longrightarrow> \<not> lifecycle_row x \<Longrightarrow> sub_key x \<noteq> sub_key r \<Longrightarrow>
      get_sub (sb_job x) (sb_id x) t = Some x \<Longrightarrow> get_sub (sb_job x) (sb_id x) t' = Some x"
  shows "pending_rows env rs t'"
proof -
  have "sub_key x \<noteq> sub_key r" if "x \<in> set rs" for x using assms(1) that by (auto simp: pending_rows_def image_iff)
  then show ?thesis using assms by (auto simp: pending_rows_def)
qed

lemma disable_frame:
  "disable w x r t = Inr t' \<Longrightarrow> get_sub j i t' = (if (j, i) = sub_key r then Some (r\<lparr>sb_disabled := Some x, sb_revision := sb_revision r + 1\<rparr>)
     else get_sub j i t)"
  unfolding disable_def must_save_Inr by (drule put_reads(1) [of _ _ _ _ _ _ j i]) (simp add: sub_key_def)

lemma revoke_sub_evolves:
  assumes "digests_differ env" "tables_ok env t" "revoke_sub w job g r t = Inr t'" "pending_rows env (r # rs) t"
  shows "evolves env fresh now t t' \<and> pending_rows env rs t'"
proof (cases "sb_access r \<noteq> Some (gr_hash g) \<or> sb_disabled r = Some Revoked")
  case True
  then show ?thesis using assms tables_evolve_refl by (auto simp: revoke_sub_def pending_rows_def)
next
  case False
  then obtain u where u: "disable w Revoked r t = Inr u"
    "(if sb_name r = Some JobLifecycle \<and> map_option lr_job (sb_root r) = Some job then stop_lifecycle_children w Revoked r u else Inr u) = Inr t'"
    using assms(3) unfolding revoke_sub_def by (auto simp: res_bind_Inr_iff)
  have r: "sub_ok env r" "lifecycle_row r \<or> get_sub (sb_job r) (sb_id r) t = Some r" using assms(4) by (auto simp: pending_rows_def)
  have e: "evolves env fresh now t u" by (rule disable_evolves [OF assms(1,2) u(1) r])
  have p: "pending_rows env rs u"
    by (rule pending_after [OF assms(4)]) (auto simp: disable_frame [OF u(1)] sub_key_def)
  show ?thesis
  proof (cases "sb_name r = Some JobLifecycle \<and> map_option lr_job (sb_root r) = Some job")
    case True
    then have s: "stop_lifecycle_children w Revoked r u = Inr t'" using u(2) by simp
    have "pending_rows env rs t'"
      using p stop_children_frame [OF assms(1) evolves_ok [OF e] s] by (auto simp: pending_rows_def)
    then show ?thesis using evolves_trans [OF e stop_children_evolves [OF assms(1) evolves_ok [OF e] s]] by simp
  next
    case False
    then have "t' = u" using u(2) by (simp split: if_splits)
    then show ?thesis using e p by simp
  qed
qed

lemma revoke_one_evolves:
  assumes "digests_differ env" "tables_ok env t" "revoke_one w job who sid g t = Inr t'" "1 \<le> gr_revision g"
  shows "evolves env fresh now t t'"
proof (cases "gr_principal g \<noteq> who \<or> gr_scope g \<noteq> sid \<or> gr_revoked g \<noteq> None")
  case True
  then show ?thesis using assms(3) tables_evolve_refl [OF assms(2)] by (auto simp: revoke_one_def)
next
  case False
  then obtain u where u: "must_save_grant (g\<lparr>gr_revoked := Some (ew_now w), gr_revision := gr_revision g + 1\<rparr>) (gr_revision g) t = Inr u"
    "res_fold (revoke_sub w job g) (list_subs (Some job) u) u = Inr t'"
    using assms(3) unfolding revoke_one_def by (auto simp: res_bind_Inr_iff)
  have e: "evolves env fresh now t u"
    using u(1) unfolding must_save_grant_Inr by (rule stop_evolves [OF assms(2)]) (use assms(4) in \<open>simp_all add: live_grant_def\<close>)
  have "evolves env fresh now u t'"
    by (rule res_fold_evolves [where P = "pending_rows env", OF u(2) pending_listed [OF evolves_ok [OF e]] evolves_ok [OF e]])
      (rule revoke_sub_evolves [OF assms(1)])
  then show ?thesis using evolves_trans [OF e] by blast
qed

lemma revoke_lifecycle_evolves:
  assumes "digests_differ env" "tables_ok env t" "revoke_lifecycle w job r t = Inr t'" "sub_ok env r" "lifecycle_row r"
  shows "evolves env fresh now t t'"
proof -
  obtain u where u: "(if sb_disabled r = Some Revoked then Inr t
      else res_bind (save_sub w (r\<lparr>sb_disabled := Some Revoked, sb_revision := sb_revision r + 1\<rparr>) (sb_revision r) t) (\<lambda>(_, t1). Inr t1)) = Inr u"
    "(if map_option lr_job (sb_root r) = Some job then stop_lifecycle_children w Revoked r u else Inr u) = Inr t'"
    using assms(3) unfolding revoke_lifecycle_def res_bind_Inr_iff by blast
  have e: "evolves env fresh now t u"
  proof (cases "sb_disabled r = Some Revoked")
    case False
    then obtain b where "save_sub w (r\<lparr>sb_disabled := Some Revoked, sb_revision := sb_revision r + 1\<rparr>) (sb_revision r) t = Inr (b, u)"
      using u(1) by (auto simp: res_bind_Inr_iff)
    then show ?thesis by (rule lifecycle_put [OF assms(1,2)]) (use assms(4,5) in simp_all)
  qed (use u(1) tables_evolve_refl [OF assms(2)] in simp)
  show ?thesis
  proof (cases "map_option lr_job (sb_root r) = Some job")
    case True
    then have "stop_lifecycle_children w Revoked r u = Inr t'" using u(2) by simp
    then show ?thesis using evolves_trans [OF e stop_children_evolves [OF assms(1) evolves_ok [OF e]]] by blast
  next
    case False
    then have "t' = u" using u(2) by (simp only: if_False sum.inject)
    then show ?thesis using e by simp
  qed
qed

lemma revoke_Inr:
  assumes "revoke w job who sid t = Inr t'"
  shows "\<exists>t1 m t3. res_fold (revoke_one w job who sid) (list_grants (Some job) t) t = Inr t1 \<and>
    res_fold (revoke_lifecycle w job) (filter (\<lambda>r. sb_name r = Some JobLifecycle \<and> sb_scope r = sid \<and> sb_principal r = who)
      (list_subs (Some job) (remember_stop w job m t1))) (remember_stop w job m t1) = Inr t3 \<and>
    t' = remember_stop w job (m\<lparr>ms_event := JobLifecycle\<rparr>) t3"
  using assms unfolding revoke_def Let_def res_bind_Inr_iff by blast

lemma revoke_rest_evolves:
  assumes "digests_differ env" "tables_ok env t1"
    "res_fold (revoke_lifecycle w job) (filter (\<lambda>r. sb_name r = Some JobLifecycle \<and> sb_scope r = sid \<and> sb_principal r = who)
      (list_subs (Some job) (remember_stop w job m t1))) (remember_stop w job m t1) = Inr t3"
  shows "evolves env fresh now t1 (remember_stop w job m' t3)"
proof -
  have e2: "evolves env fresh now t1 (remember_stop w job m t1)" by (rule remember_evolves [OF assms(2)])
  have e3: "evolves env fresh now (remember_stop w job m t1) t3"
  proof (rule res_fold_moves [OF assms(3) evolves_ok [OF e2]])
    fix r s s' assume r: "r \<in> set (filter (\<lambda>r. sb_name r = Some JobLifecycle \<and> sb_scope r = sid \<and> sb_principal r = who)
        (list_subs (Some job) (remember_stop w job m t1)))" "tables_ok env s" "revoke_lifecycle w job r s = Inr s'"
    show "evolves env fresh now s s'"
      using r by (intro revoke_lifecycle_evolves [OF assms(1) r(2,3)]) (auto simp: lifecycle_row_def dest: listed_sub(2) [OF evolves_ok [OF e2]])
  qed
  show ?thesis using evolves_trans [OF evolves_trans [OF e2 e3] remember_evolves [OF evolves_ok [OF e3]]] .
qed

lemma revoke_evolves:
  assumes "digests_differ env" "tables_ok env t" "revoke w job who sid t = Inr t'"
  shows "evolves env fresh now t t'"
proof -
  obtain t1 m t3 where a: "res_fold (revoke_one w job who sid) (list_grants (Some job) t) t = Inr t1"
    and b: "res_fold (revoke_lifecycle w job) (filter (\<lambda>r. sb_name r = Some JobLifecycle \<and> sb_scope r = sid \<and> sb_principal r = who)
        (list_subs (Some job) (remember_stop w job m t1))) (remember_stop w job m t1) = Inr t3"
    and c: "t' = remember_stop w job (m\<lparr>ms_event := JobLifecycle\<rparr>) t3"
    using revoke_Inr [OF assms(3)] by blast
  have e1: "evolves env fresh now t t1"
  proof (rule res_fold_moves [OF a assms(2)])
    fix g s s' assume g: "g \<in> set (list_grants (Some job) t)" "tables_ok env s" "revoke_one w job who sid g s = Inr s'"
    show "evolves env fresh now s s'"
      by (rule revoke_one_evolves [OF assms(1) g(2,3)]) (rule grant_hash(2) [OF assms(2) grant_listed [OF assms(2) g(1)]])
  qed
  show ?thesis unfolding c using evolves_trans [OF e1 revoke_rest_evolves [OF assms(1) evolves_ok [OF e1] b]] .
qed

lemma maintain_one_evolves:
  assumes "tables_ok env t" "maintain_one w g (t, gs) = Inr (t', gs')" "1 \<le> gr_revision g"
  shows "evolves env fresh now t t'"
proof (cases "gr_unsubscribed g = None \<and> sub_unsubscribed g t")
  case True
  then have "save_grant (g\<lparr>gr_unsubscribed := Some (ew_now w), gr_revision := gr_revision g + 1\<rparr>) (gr_revision g) t = Inr (True, t')"
    using assms(2) by (auto simp: maintain_one_def Let_def res_bind_Inr_iff must_save_grant_Inr)
  then show ?thesis by (rule stop_evolves [OF assms(1)]) (use assms(3) in \<open>simp_all add: live_grant_def\<close>)
next
  case False
  then show ?thesis using assms(2) tables_evolve_refl [OF assms(1)] by (auto simp: maintain_one_def)
qed

lemma maintain_all_evolves:
  "res_fold (maintain_one w) xs (t, gs) = Inr (t', gs') \<Longrightarrow> tables_ok env t \<Longrightarrow> (\<And>g. g \<in> set xs \<Longrightarrow> 1 \<le> gr_revision g) \<Longrightarrow>
   evolves env fresh now t t'"
proof (induction xs arbitrary: t gs)
  case (Cons g xs)
  obtain u us where u: "maintain_one w g (t, gs) = Inr (u, us)" "res_fold (maintain_one w) xs (u, us) = Inr (t', gs')"
    using Cons.prems(1) by (auto simp: res_bind_Inr_iff)
  have e: "evolves env fresh now t u" by (rule maintain_one_evolves [OF Cons.prems(2) u(1)]) (simp add: Cons.prems(3))
  have "evolves env fresh now u t'" by (rule Cons.IH [OF u(2) evolves_ok [OF e]]) (simp add: Cons.prems(3))
  then show ?case by (rule evolves_trans [OF e])
qed (simp add: tables_evolve_refl)

lemma settle_grant_evolves: "tables_ok env t \<Longrightarrow> evolves env fresh now t (settle_grant w gs g t)"
proof -
  assume ok: "tables_ok env t"
  define t1 where "t1 = (if (gr_revoked g \<noteq> None \<or> gr_unsubscribed g \<noteq> None \<or> sub_unsubscribed g t) \<and>
      map_of (et_stops t) (gr_job g, gr_event g) = None \<and> \<not> superseded gs g
    then remember_stop w (gr_job g) (stop_of_grant g (if live_grant g then ew_now w else stopped_at g)) t else t)"
  have e: "evolves env fresh now t t1" using remember_evolves [OF ok] tables_evolve_refl [OF ok] by (auto simp: t1_def)
  have "settle_grant w gs g t = (if gr_expires g + access_lifetime_ms \<le> ew_now w
      then t1\<lparr>et_grants := AList.delete (gr_hash g) (et_grants t1)\<rparr> else t1)"
    unfolding settle_grant_def Let_def t1_def ..
  then show ?thesis using evolves_trans [OF e drop_grant_evolves [OF evolves_ok [OF e]]] e by simp
qed

lemma maintain_grants_evolves:
  assumes "tables_ok env t" "maintain_grants w t = Inr t'"
  shows "evolves env fresh now t t'"
proof -
  obtain t1 gs where m: "res_fold (maintain_one w) (list_grants None t) (t, []) = Inr (t1, gs)"
    "t' = foldl (\<lambda>u g. settle_grant w gs g u) t1 (sort_key (\<lambda>g. - gr_issued g) (sort_key (\<lambda>g. - stopped_at g) gs))"
    using assms(2) by (auto simp: maintain_grants_def res_bind_Inr_iff Let_def)
  have e: "evolves env fresh now t t1"
    by (rule maintain_all_evolves [OF m(1) assms(1)]) (rule grant_hash(2) [OF assms(1) grant_listed [OF assms(1)]])
  have "evolves env fresh now t (foldl (\<lambda>u g. settle_grant w gs g u) t1 xs)" for xs
    using e
  proof (induction xs arbitrary: t1)
    case (Cons g xs)
    then show ?case using evolves_trans [OF Cons.prems settle_grant_evolves [OF evolves_ok [OF Cons.prems]]] by simp
  qed simp
  then show ?thesis by (simp add: m(2))
qed

text \<open>Issuing: a new delegation is the only one that may come to life.\<close>

definition new_hash :: "event_env \<Rightarrow> string \<Rightarrow> string" where
  "new_hash env new_id = ee_digest env (''esr_'' @ ee_reference env new_id)"

lemma issue_evolves:
  assumes "tables_ok env t" "issue_grant env w new_id j who e t = Inr (x, t')"
  shows "evolves env {new_hash env new_id} now t t'"
proof -
  obtain t1 where m: "maintain_grants w t = Inr t1" using assms(2) by (auto simp: issue_grant_def res_bind_Inr_iff split: if_splits)
  have e1: "evolves env {new_hash env new_id} now t t1" by (rule maintain_grants_evolves [OF assms(1) m])
  note ok1 = evolves_ok [OF e1]
  show ?thesis
  proof (cases "t' = t1")
    case False
    obtain g t2 where g: "must_save_grant g 0 t1 = Inr t2" "gr_hash g = new_hash env new_id"
        "length (list_grants None t1) < max_grants" "t' = forget_stop (ej_id j) (Some e) t2"
      using assms(2) m False unfolding issue_grant_def
      by (auto simp: res_bind_Inr_iff Let_def reference_def new_hash_def not_le split: if_splits option.splits)
    have "evolves env {new_hash env new_id} now t1 t2"
      using g(1) unfolding must_save_grant_Inr
      by (rule grant_evolves [OF ok1]) (use g(2,3) list_grants_length [OF ok1] in simp_all)
    then have e2: "evolves env {new_hash env new_id} now t t2" by (rule evolves_trans [OF e1])
    show ?thesis unfolding g(4) by (rule evolves_trans [OF e2 forget_evolves [OF evolves_ok [OF e2]]])
  qed (use e1 in simp)
qed

lemma unsubscribe_grant_evolves:
  assumes "tables_ok env t" "unsubscribe_grant w g t = Inr (b, t')" "1 \<le> gr_revision g"
  shows "evolves env fresh now t t'"
proof -
  obtain ok t1 where s: "save_grant (g\<lparr>gr_unsubscribed := Some (case gr_unsubscribed g of None \<Rightarrow> ew_now w | Some n \<Rightarrow> n),
      gr_revision := gr_revision g + 1\<rparr>) (gr_revision g) t = Inr (ok, t1)"
    "t' = t \<or> t' = t1 \<or> t' = remember_stop w (gr_job g) (stop_of_grant g (ew_now w)) t1"
    using assms(2) by (auto simp: unsubscribe_grant_def res_bind_Inr_iff split: if_splits)
  have e: "evolves env fresh now t t1"
    using s(1) by (rule stop_evolves [OF assms(1)]) (use assms(3) in \<open>simp_all add: live_grant_def\<close>)
  show ?thesis using s(2) e tables_evolve_refl [OF assms(1)] evolves_trans [OF e remember_evolves [OF evolves_ok [OF e]]] by auto
qed

section \<open>The controller\<close>

lemma access_tool_evolves:
  assumes "digests_differ env" "tables_ok env t" "access_tool env w new_id revoking c t = Inr t'"
  shows "evolves env (if revoking then {} else {new_hash env new_id}) now t t'"
proof (cases revoking)
  case True
  then obtain who sid job where "revoke w job who sid t = Inr t'"
    using assms(3) by (auto simp: access_tool_def res_bind_Inr_iff split: if_splits)
  then show ?thesis using revoke_evolves [OF assms(1,2)] True by simp
next
  case False
  then obtain who j x where "issue_grant env w new_id j who (sc_name c) t = Inr (x, t')"
    using assms(3) by (fastforce simp: access_tool_def res_bind_Inr_iff split: if_splits)
  then show ?thesis using issue_evolves [OF assms(2)] False by simp
qed

text \<open>What authorization through a delegation establishes.\<close>

lemma resolve_grant:
  assumes "resolve_access env w c who inactive t = Inr (sid, Some g, job)"
  shows "\<exists>h. grant_by_hash h t = Some g" "\<not> inactive \<Longrightarrow> live_grant g \<and> ew_now w < gr_expires g"
    "gr_principal g = who" "gr_job g = sc_job c" "gr_event g = sc_name c" "gr_scope g = sid"
  using assms
  by (auto simp: resolve_access_def get_grant_def res_bind_Inr_iff split: if_splits option.splits)

lemma event_of_name: "id_for env (sc_name c) (identity env who sid c)"
  unfolding id_for_def by blast

text \<open>A verification in flight is stored under the id of its call.\<close>

definition verifying_ok :: "event_env \<Rightarrow> (string \<times> verification) list \<Rightarrow> bool" where
  "verifying_ok env vs \<longleftrightarrow> (\<forall>i v. map_of vs i = Some v \<longrightarrow> id_for env (sc_name (vf_call v)) i)"

lemma subscribed_record_sel:
  "sb_id (subscribed_record who i v now j g current) = i" "sb_job (subscribed_record who i v now j g current) = ej_id j"
  "sb_name (subscribed_record who i v now j g current) =
    (if sc_name (vf_call v) = JobLifecycle then Some JobLifecycle else case current of None \<Rightarrow> None | Some r \<Rightarrow> sb_name r)"
  "sb_event (subscribed_record who i v now j g current) = (case current of None \<Rightarrow> None | Some r \<Rightarrow> sb_event r)"
  "sb_attempts (subscribed_record who i v now j g current) = (case current of None \<Rightarrow> 0 | Some r \<Rightarrow> sb_attempts r)"
  "sb_delivery (subscribed_record who i v now j g current) = (case current of None \<Rightarrow> DsWaiting | Some r \<Rightarrow> sb_delivery r)"
  "sb_recover_until (subscribed_record who i v now j g current) = (case current of None \<Rightarrow> None | Some r \<Rightarrow> sb_recover_until r)"
  by (simp_all add: subscribed_record_def Let_def)

lemma subscribed_record_ok:
  assumes "digests_differ env" "tables_ok env t" "id_for env (sc_name (vf_call v)) i" "get_sub job i t = current"
  shows "sub_ok env (subscribed_record who i v now j g current)"
    "current = Some x \<Longrightarrow> keeps x (subscribed_record who i v now j g current)"
proof -
  have old: "sb_id r = i \<and> sub_ok env r \<and> (lifecycle_row r \<longleftrightarrow> sc_name (vf_call v) = JobLifecycle)" if "current = Some r" for r
  proof -
    have g: "get_sub job i t = Some r" using assms(4) that by simp
    have r: "sb_id r = i" "sub_ok env r" using sub_row [OF assms(2) g] by simp_all
    then have "id_for env (if sb_name r = Some JobLifecycle then JobLifecycle else JobTerminal) i" by (simp add: sub_ok_def)
    from id_for_unique [OF assms(1) this assms(3)] show ?thesis using r by (auto simp: lifecycle_row_def split: if_splits)
  qed
  show "sub_ok env (subscribed_record who i v now j g current)"
  proof (cases current)
    case None
    then show ?thesis using assms(3)
      by (cases "sc_name (vf_call v)") (simp_all add: sub_ok_def subscribed_record_sel)
  next
    case (Some r)
    then show ?thesis using old [OF Some] assms(3)
      by (cases "sc_name (vf_call v)") (simp_all add: sub_ok_def subscribed_record_sel lifecycle_row_def)
  qed
  show "keeps x (subscribed_record who i v now j g current)" if "current = Some x"
    using old [OF that] that by (auto simp: keeps_def subscribed_record_sel lifecycle_row_def)
qed

lemma require_job_id: "require_job w job sid who e = Inr j \<Longrightarrow> ew_registry w job = Some j"
  by (simp add: require_job_def split: option.splits if_splits)

text \<open>The registry answers with the job it was asked for.\<close>

definition world_ok :: "event_world \<Rightarrow> bool" where
  "world_ok w \<longleftrightarrow> (\<forall>job j. ew_registry w job = Some j \<longrightarrow> ej_id j = job) \<and> (\<forall>job j. ew_snapshot w job = Some j \<longrightarrow> ej_id j = job)"

lemma resolve_job:
  assumes "resolve_access env w c who inactive t = Inr (sid, g, Some j)" "world_ok w"
  shows "ej_id j = sc_job c"
  using assms
  by (auto simp: resolve_access_def res_bind_Inr_iff world_ok_def dest!: require_job_id split: if_splits option.splits)

lemma bind_callback_evolves:
  assumes "tables_ok env t" "bind_callback env c i g t = Inr t'" "\<And>x. g = Some x \<Longrightarrow> live_grant x \<and> (\<exists>h. grant_by_hash h t = Some x)"
  shows "evolves env fresh now t t'"
proof (cases "t' = t")
  case False
  then obtain x b where x: "g = Some x" "save_grant (x\<lparr>gr_callback := Some (ee_digest env (sc_url c)), gr_subscription := Some i,
      gr_revision := gr_revision x + 1\<rparr>) (gr_revision x) t = Inr (b, t')"
    using assms(2) by (auto simp: bind_callback_def res_bind_Inr_iff split: option.splits if_splits)
  obtain h where h: "grant_by_hash h t = Some x" "live_grant x" using assms(3) [OF x(1)] by blast
  then have "gr_hash x = h" using grant_hash(1) [OF assms(1)] by blast
  then show ?thesis using h by (intro grant_evolves [OF assms(1) x(2)]) auto
qed (simp add: tables_evolve_refl [OF assms(1)])

lemma bind_callback_subs: "bind_callback env c i g t = Inr t' \<Longrightarrow> get_sub j k t' = get_sub j k t"
  by (auto simp: bind_callback_def res_bind_Inr_iff grant_reads(3) split: option.splits if_splits)

lemma announce_evolves:
  assumes "digests_differ env" "tables_ok env t" "announce_subscribed env w c i j t = Inr t'" "id_for env (sc_name c) i"
  shows "evolves env fresh now t t'"
proof (cases "sc_name c")
  case JobTerminal
  then show ?thesis using assms(3) enqueue_terminal_evolves [OF assms(1,2)] by (simp add: announce_subscribed_def)
next
  case JobLifecycle
  show ?thesis
  proof (cases "get_sub (ej_id j) i t")
    case None
    then show ?thesis using assms(3) JobLifecycle tables_evolve_refl [OF assms(2)] by (simp add: announce_subscribed_def)
  next
    case (Some root)
    then obtain u where u: "refresh_lifecycle_children w root t = Inr u" "reconcile_lifecycle env w root u = Inr t'"
      using assms(3) JobLifecycle by (auto simp: announce_subscribed_def res_bind_Inr_iff)
    have r: "sub_ok env root" "lifecycle_row root"
      using sub_row [OF assms(2) Some] lifecycle_id_row [OF assms(1)] assms(4) JobLifecycle by auto
    have e: "evolves env fresh now t u" by (rule refresh_evolves [OF assms(1,2) u(1)])
    show ?thesis by (rule evolves_trans [OF e reconcile_evolves [OF assms(1) evolves_ok [OF e] u(2) r]])
  qed
qed

lemma subscribe_commit_Inr:
  assumes "subscribe_commit env w i v caller aborted t = Inr t'"
  shows "\<exists>who sid g j t1 t2. resolve_access env w (vf_call v) who False t = Inr (sid, g, Some j) \<and>
    bind_callback env (vf_call v) i g t = Inr t1 \<and>
    save_sub w (subscribed_record who i v (ew_now w) j g (get_sub (sc_job (vf_call v)) i t))
      (case get_sub (sc_job (vf_call v)) i t of None \<Rightarrow> 0 | Some r \<Rightarrow> sb_revision r) t1 = Inr (True, t2) \<and>
    announce_subscribed env w (vf_call v) i j t2 = Inr t'"
  using assms unfolding subscribe_commit_def Let_def result_simps split_paired_Ex prod.case
  by (elim exE conjE, simp, blast)

lemma subscribe_commit_evolves:
  assumes "digests_differ env" "tables_ok env t" "subscribe_commit env w i v caller aborted t = Inr t'"
    "id_for env (sc_name (vf_call v)) i" "world_ok w"
  shows "evolves env fresh now t t'"
proof -
  obtain who sid g j t1 t2 where a: "resolve_access env w (vf_call v) who False t = Inr (sid, g, Some j)"
    and b: "bind_callback env (vf_call v) i g t = Inr t1"
    and r: "save_sub w (subscribed_record who i v (ew_now w) j g (get_sub (sc_job (vf_call v)) i t))
      (case get_sub (sc_job (vf_call v)) i t of None \<Rightarrow> 0 | Some r \<Rightarrow> sb_revision r) t1 = Inr (True, t2)"
    and n: "announce_subscribed env w (vf_call v) i j t2 = Inr t'"
    using subscribe_commit_Inr [OF assms(3)] by blast
  have j: "ej_id j = sc_job (vf_call v)" by (rule resolve_job [OF a assms(5)])
  have "live_grant x \<and> (\<exists>h. grant_by_hash h t = Some x)" if "g = Some x" for x
    using resolve_grant [of env w "vf_call v" who False t sid x "Some j"] a that by simp
  then have e1: "evolves env fresh now t t1" by (rule bind_callback_evolves [OF assms(2) b])
  note rec = subscribed_record_ok [OF assms(1,2,4) refl, where who = who and now = "ew_now w" and j = j and g = g]
  have "evolves env fresh now t1 t2"
    by (rule put_evolves [OF assms(1) evolves_ok [OF e1] r rec(1)])
      (use rec(2) in \<open>simp add: subscribed_record_sel bind_callback_subs [OF b] j\<close>)
  then have e2: "evolves env fresh now t t2" by (rule evolves_trans [OF e1])
  show ?thesis by (rule evolves_trans [OF e2 announce_evolves [OF assms(1) evolves_ok [OF e2] n assms(4)]])
qed

lemma unsubscribe_commit_evolves:
  assumes "digests_differ env" "tables_ok env t" "unsubscribe_commit env w who sid i c g t = Inr t'"
  shows "evolves env fresh now t t'"
proof -
  obtain sid' x job t1 where a: "resolve_access env w c who True t = Inr (sid', x, job)"
    and b: "(case x of None \<Rightarrow> Inr t
           | Some x \<Rightarrow>
               if bound_elsewhere env (sc_url c) i x then Inl EventDenied
               else res_bind (unsubscribe_grant w x t) (\<lambda>(ok, t1). if ok then Inr t1 else Inl (CallbackError ''subscription_changed''))) = Inr t1"
    and c: "(case get_sub (sc_job c) i t of
             None \<Rightarrow> Inr t1
           | Some x \<Rightarrow>
               if sb_scope x \<noteq> sid \<or> sb_principal x \<noteq> who then Inl EventDenied
               else res_bind (save_sub w (x\<lparr>sb_revision := sb_revision x + 1, sb_disabled := Some Unsubscribed\<rparr>) (sb_revision x) t1) (\<lambda>(ok, t2).
                 if \<not> ok then Inl (CallbackError ''subscription_changed'')
                 else if sc_name c = JobLifecycle then stop_lifecycle_children w Unsubscribed x t2 else Inr t2)) = Inr t'"
    using assms(3) unfolding unsubscribe_commit_def Let_def result_simps split_paired_Ex prod.case by blast
  have e1: "evolves env fresh now t t1 \<and> (\<forall>j k. get_sub j k t1 = get_sub j k t)"
  proof (cases x)
    case None
    then show ?thesis using b tables_evolve_refl [OF assms(2)] by simp
  next
    case (Some y)
    then have u: "unsubscribe_grant w y t = Inr (True, t1)"
      using b by (auto simp: res_bind_Inr_iff split: if_splits)
    have "\<exists>h. grant_by_hash h t = Some y" using resolve_grant(1) [of env w c who True t sid' y job] a Some by simp
    then have "1 \<le> gr_revision y" using grant_hash(2) [OF assms(2)] by blast
    moreover have "get_sub j k t1 = get_sub j k t" for j k
      using u by (auto simp: unsubscribe_grant_def res_bind_Inr_iff remember_stop_def get_sub_def
          dest!: grant_reads(2) split: if_splits)
    ultimately show ?thesis using unsubscribe_grant_evolves [OF assms(2) u] by blast
  qed
  then have e: "evolves env fresh now t t1" by blast
  show ?thesis
  proof (cases "get_sub (sc_job c) i t")
    case None
    then show ?thesis using c e by simp
  next
    case (Some r)
    then obtain t2 where s: "save_sub w (r\<lparr>sb_revision := sb_revision r + 1, sb_disabled := Some Unsubscribed\<rparr>) (sb_revision r) t1 = Inr (True, t2)"
      "(if sc_name c = JobLifecycle then stop_lifecycle_children w Unsubscribed r t2 else Inr t2) = Inr t'"
      using c by (auto simp: res_bind_Inr_iff split: if_splits)
    have r: "get_sub (sb_job r) (sb_id r) t1 = Some r" "sub_ok env r"
      using e1 Some sub_row [OF assms(2) Some] by auto
    have e2: "evolves env fresh now t1 t2"
      by (rule put_evolves [OF assms(1) evolves_ok [OF e] s(1)]) (use r in \<open>auto simp: keeps_def\<close>)
    then have e3: "evolves env fresh now t t2" using evolves_trans [OF e] by blast
    show ?thesis
    proof (cases "sc_name c = JobLifecycle")
      case True
      then have "stop_lifecycle_children w Unsubscribed r t2 = Inr t'" using s(2) by simp
      then show ?thesis using evolves_trans [OF e3 stop_children_evolves [OF assms(1) evolves_ok [OF e3]]] by blast
    next
      case False
      then show ?thesis using s(2) e3 by simp
    qed
  qed
qed

section \<open>The worker\<close>

text \<open>Writing over the current row.\<close>

lemma rewrite_evolves:
  assumes "digests_differ env" "tables_ok env t" "get_sub j i t = Some r" "save_sub w r' n t = Inr (b, t')"
    "sub_key r' = sub_key r" "sub_ok env r'" "keeps r r'"
  shows "evolves env fresh now t t'"
proof -
  have "get_sub (sb_job r') (sb_id r') t = Some r" using sub_row [OF assms(2,3)] assms(3,5) by (simp add: sub_key_def)
  then show ?thesis using assms(7) by (intro put_evolves [OF assms(1,2,4,6)]) simp
qed

fun pass_tables :: "pass \<Rightarrow> event_tables" where
  "pass_tables (PassFailed t) = t"
| "pass_tables (PassOn t) = t"
| "pass_tables (PassSend _ t) = t"

lemma pass_of_evolves:
  assumes "tables_ok env t" "\<And>b t'. r = Inr (b, t') \<Longrightarrow> evolves env fresh now t t'"
  shows "evolves env fresh now t (pass_tables (pass_of t r))"
  using assms tables_evolve_refl [OF assms(1)] by (cases r) (auto simp: pass_of_def)

lemma pass_all_evolves:
  assumes "tables_ok env t" "\<And>t'. r = Inr t' \<Longrightarrow> evolves env fresh now t t'"
  shows "evolves env fresh now t (pass_tables (pass_all t r))"
  using assms tables_evolve_refl [OF assms(1)] by (cases r) (auto simp: pass_all_def)

lemma deliver_one_evolves:
  assumes "digests_differ env" "tables_ok env t"
  shows "evolves env fresh now t (pass_tables (deliver_one env w key t))"
proof (cases "get_sub (fst key) (snd key) t")
  case None
  then show ?thesis using tables_evolve_refl [OF assms(2)] by (simp add: deliver_one_def)
next
  case (Some r)
  note rw = rewrite_evolves [OF assms Some]
  have r: "sub_ok env r" using sub_row(3) [OF assms(2) Some] .
  show ?thesis
  proof (cases "due_sub w r")
    case False
    then show ?thesis using Some tables_evolve_refl [OF assms(2)] by (simp add: deliver_one_def)
  next
    case due: True
    then have pending: "\<not> settled r" by (simp add: due_sub_def settled_def)
    show ?thesis
    proof (cases "sb_attempts r \<ge> max_attempts")
      case True
      have "evolves env fresh now t (pass_tables (pass_of t (save_sub w (r\<lparr>sb_delivery := DsFailed\<rparr>) (sb_revision r) t)))"
        by (rule pass_of_evolves [OF assms(2)], erule rw) (use r pending in \<open>simp_all add: sub_key_def keeps_def\<close>)
      then show ?thesis using Some due True by (simp add: deliver_one_def)
    next
      case few: False
      show ?thesis
      proof (cases "require_delivery_job env w r t")
        case (Inl e)
        have "evolves env fresh now t (pass_tables (pass_of t
            (save_sub w (r\<lparr>sb_revision := sb_revision r + 1, sb_disabled := Some Revoked\<rparr>) (sb_revision r) t)))"
          by (rule pass_of_evolves [OF assms(2)], erule rw) (use r in \<open>simp_all add: sub_key_def keeps_def\<close>)
        then show ?thesis using Some due few Inl by (simp add: deliver_one_def)
      next
        case (Inr j)
        show ?thesis
        proof (cases "superseded_event env j r")
          case True
          have "evolves env fresh now t (pass_tables (pass_all t (enqueue_lifecycle env w j None t)))"
            by (rule pass_all_evolves [OF assms(2)], erule enqueue_lifecycle_evolves [OF assms]) simp
          then show ?thesis using Some due few Inr True by (simp add: deliver_one_def)
        next
          case False
          have e: "evolves env fresh now t t'" if "save_sub w (r\<lparr>sb_attempts := sb_attempts r + 1\<rparr>) (sb_revision r) t = Inr (b, t')" for b t'
            using that by (rule rw) (use r few in \<open>simp_all add: sub_key_def keeps_def sub_ok_def\<close>)
          show ?thesis
          proof (cases "save_sub w (r\<lparr>sb_attempts := sb_attempts r + 1\<rparr>) (sb_revision r) t")
            case (Inl x)
            then show ?thesis using Some due few Inr False tables_evolve_refl [OF assms(2)] by (simp add: deliver_one_def)
          next
            case save: (Inr p)
            then show ?thesis using Some due few Inr False e [of "fst p" "snd p"]
              by (cases p) (simp add: deliver_one_def split: if_splits)
          qed
        qed
      qed
    qed
  qed
qed

lemma gone_root_evolves:
  assumes "digests_differ env" "tables_ok env t" "gone_root w r t = Inr t'"
  shows "evolves env fresh now t t'"
proof (cases "t' = t")
  case False
  then obtain job root u where g: "get_sub job (sb_id r) t = Some root"
    and u: "(if sb_disabled root \<noteq> None then Inr t
      else res_bind (save_sub w (root\<lparr>sb_disabled := Some Gone, sb_revision := sb_revision root + 1\<rparr>) (sb_revision root) t)
        (\<lambda>(_, t1). Inr t1)) = Inr u" "stop_lifecycle_children w Gone root u = Inr t'"
    using assms(3) unfolding gone_root_def by (auto simp: res_bind_Inr_iff split: option.splits)
  have e: "evolves env fresh now t u"
  proof (cases "sb_disabled root \<noteq> None")
    case False
    then obtain b where "save_sub w (root\<lparr>sb_disabled := Some Gone, sb_revision := sb_revision root + 1\<rparr>) (sb_revision root) t = Inr (b, u)"
      using u(1) by (auto simp: res_bind_Inr_iff)
    then show ?thesis
      by (rule rewrite_evolves [OF assms(1,2) g]) (use sub_row(3) [OF assms(2) g] in \<open>simp_all add: sub_key_def keeps_def\<close>)
  qed (use u(1) tables_evolve_refl [OF assms(2)] in simp)
  show ?thesis by (rule evolves_trans [OF e stop_children_evolves [OF assms(1) evolves_ok [OF e] u(2)]])
qed (simp add: tables_evolve_refl [OF assms(2)])

lemma settled_sub_sel:
  "sb_id (settled_sub w st r) = sb_id r" "sb_job (settled_sub w st r) = sb_job r" "sb_event (settled_sub w st r) = sb_event r"
  "sb_name (settled_sub w st r) = sb_name r" "sb_attempts (settled_sub w st r) = sb_attempts r"
  "sb_recover_until (settled_sub w st r) = sb_recover_until r"
  by (simp_all add: settled_sub_def Let_def)

lemma settle_send_evolves:
  assumes "digests_differ env" "tables_ok env t"
  shows "evolves env fresh now t (pass_tables (settle_send env w st sent t))"
proof (cases "get_sub (sb_job sent) (sb_id sent) t")
  case None
  then show ?thesis using tables_evolve_refl [OF assms(2)] by (simp add: settle_send_def)
next
  case (Some r)
  note rw = rewrite_evolves [OF assms Some]
  have r: "sub_ok env r" using sub_row(3) [OF assms(2) Some] .
  show ?thesis
  proof (cases "sb_revision r \<noteq> sb_revision sent \<or> sb_disabled r \<noteq> None \<or> sb_expires r \<le> ew_now w \<or> sb_delivery r \<noteq> DsPending \<or>
      map_option je_id (sb_event r) \<noteq> map_option je_id (sb_event sent)")
    case True
    then show ?thesis using Some tables_evolve_refl [OF assms(2)] unfolding settle_send_def by simp
  next
    case False
    then have pending: "\<not> settled r" by (simp add: settled_def)
    have revoked: "evolves env fresh now t (pass_tables (pass_of t
        (save_sub w (r\<lparr>sb_disabled := Some Revoked, sb_revision := sb_revision r + 1\<rparr>) (sb_revision r) t)))"
      by (rule pass_of_evolves [OF assms(2)], erule rw) (use r in \<open>simp_all add: sub_key_def keeps_def\<close>)
    have other: "evolves env fresh now t (pass_tables (pass_all t (enqueue_lifecycle env w j None t)))" for j
      by (rule pass_all_evolves [OF assms(2)], erule enqueue_lifecycle_evolves [OF assms]) simp
    have saved: "evolves env fresh now t u" if "save_sub w (settled_sub w st r) (sb_revision r) t = Inr (b, u)" for b u
      using that by (rule rw) (use r pending in \<open>simp_all add: sub_key_def keeps_def sub_ok_def settled_sub_sel\<close>)
    have settle: "evolves env fresh now t (pass_tables (case save_sub w (settled_sub w st r) (sb_revision r) t of
        Inl _ \<Rightarrow> PassFailed t | Inr (_, t1) \<Rightarrow> if st = 410 then pass_all t1 (gone_root w r t1) else PassOn t1))"
    proof (cases "save_sub w (settled_sub w st r) (sb_revision r) t")
      case (Inl e)
      then show ?thesis using tables_evolve_refl [OF assms(2)] by simp
    next
      case (Inr p)
      obtain b u where p: "p = (b, u)" by (cases p)
      have e: "evolves env fresh now t u" using saved Inr p by blast
      have "evolves env fresh now u (pass_tables (pass_all u (gone_root w r u)))"
        by (rule pass_all_evolves [OF evolves_ok [OF e]], erule gone_root_evolves [OF assms(1) evolves_ok [OF e]])
      then show ?thesis using e evolves_trans [OF e] by (simp add: Inr p)
    qed
    have "settle_send env w st sent t = (case (if sb_root r = None then Inr None
          else res_bind (require_delivery_job env w r t) (\<lambda>j. Inr (Some j))) of
        Inl _ \<Rightarrow> pass_of t (save_sub w (r\<lparr>sb_disabled := Some Revoked, sb_revision := sb_revision r + 1\<rparr>) (sb_revision r) t)
      | Inr latest \<Rightarrow> if (case latest of None \<Rightarrow> False | Some j \<Rightarrow> superseded_event env j r)
          then pass_all t (enqueue_lifecycle env w (the latest) None t)
          else (case save_sub w (settled_sub w st r) (sb_revision r) t of
              Inl _ \<Rightarrow> PassFailed t | Inr (_, t1) \<Rightarrow> if st = 410 then pass_all t1 (gone_root w r t1) else PassOn t1))"
      using Some False unfolding settle_send_def by (simp only: option.case if_False)
    then show ?thesis using revoked other settle by (auto split: sum.splits)
  qed
qed

lemma reconcile_roots_evolves:
  assumes "digests_differ env"
  shows "tables_ok env t \<Longrightarrow> (\<And>r. r \<in> set rs \<Longrightarrow> sub_ok env r \<and> lifecycle_row r) \<Longrightarrow>
    evolves env fresh now t (snd (reconcile_roots env w rs t))"
proof (induction rs arbitrary: t)
  case (Cons r rs)
  show ?case
  proof (cases "reconcile_lifecycle env w r t")
    case (Inl e)
    then show ?thesis using tables_evolve_refl [OF Cons.prems(1)] by simp
  next
    case (Inr u)
    have e: "evolves env fresh now t u"
      using Cons.prems(2) by (intro reconcile_evolves [OF assms Cons.prems(1) Inr]) simp_all
    have "evolves env fresh now u (snd (reconcile_roots env w rs u))"
      by (rule Cons.IH [OF evolves_ok [OF e]]) (simp add: Cons.prems(2))
    then show ?thesis using evolves_trans [OF e] Inr by simp
  qed
qed (simp add: tables_evolve_refl)

section \<open>Steps\<close>

lemma start_roots_evolves:
  assumes "digests_differ env"
  shows "tables_ok env t \<Longrightarrow> (\<And>r. r \<in> set rs \<Longrightarrow> sub_ok env r \<and> lifecycle_row r) \<Longrightarrow> evolves env fresh now t (start_roots env w rs t)"
proof (induction rs arbitrary: t)
  case (Cons r rs)
  define next_tables where "next_tables = (case sb_root r of
         None \<Rightarrow> Inr t
       | Some root \<Rightarrow> if ew_ended w (lr_activity root) then stop_activity w (lr_activity root) t else reconcile_lifecycle env w r t)"
  show ?case
  proof (cases next_tables)
    case (Inl e)
    then show ?thesis using tables_evolve_refl [OF Cons.prems(1)] by (simp add: next_tables_def)
  next
    case (Inr u)
    have e: "evolves env fresh now t u"
      using Inr stop_activity_evolves [OF assms Cons.prems(1)] reconcile_evolves [OF assms Cons.prems(1)] Cons.prems(2) [of r]
        tables_evolve_refl [OF Cons.prems(1)]
      by (auto simp: next_tables_def split: option.splits if_splits)
    have "evolves env fresh now u (start_roots env w rs u)" using Cons.IH [OF evolves_ok [OF e]] Cons.prems(2) by simp
    then show ?thesis using Inr evolves_trans [OF e] by (simp add: next_tables_def [symmetric])
  qed
qed (simp add: tables_evolve_refl)

definition fresh_of :: "event_env \<Rightarrow> event_op \<Rightarrow> string set" where
  "fresh_of env e = (case e of EvAccess i revoking c \<Rightarrow> if revoking then {} else {new_hash env i} | _ \<Rightarrow> {})"

definition event_inv :: "event_env \<Rightarrow> event_state \<Rightarrow> bool" where
  "event_inv env s \<longleftrightarrow> tables_ok env (es_tables s) \<and> verifying_ok env (es_verifying s)"

lemma commit_evolves:
  assumes "tables_ok env (es_tables s)" "\<And>t. r = Inr t \<Longrightarrow> evolves env fresh now (es_tables s) t"
  shows "evolves env fresh now (es_tables s) (es_tables (commit r s))"
  using assms tables_evolve_refl [OF assms(1)] by (cases r) (auto simp: commit_def)

lemma verifying_update:
  "verifying_ok env vs \<Longrightarrow> id_for env (sc_name (vf_call v)) i \<Longrightarrow> verifying_ok env (AList.update i v vs)"
  by (simp add: verifying_ok_def update_conv')

lemma verifying_delete: "verifying_ok env vs \<Longrightarrow> verifying_ok env (AList.delete i vs)"
  by (simp add: verifying_ok_def delete_conv')

lemma subscribe_begin_evolves:
  assumes "event_inv env s"
  shows "evolves env fresh (ew_now w) (es_tables s) (es_tables (snd (subscribe_begin env w c opens s))) \<and>
    verifying_ok env (es_verifying (snd (subscribe_begin env w c opens s)))"
proof -
  have ok: "tables_ok env (es_tables s)" "verifying_ok env (es_verifying s)" using assms by (simp_all add: event_inv_def)
  have tables: "es_tables (snd (subscribe_begin env w c opens s)) \<in> {es_tables s, maintain_subs (ew_now w) (es_tables s)}"
    by (auto simp: subscribe_begin_def Let_def split: sum.splits prod.splits)
  have "verifying_ok env (es_verifying (snd (subscribe_begin env w c opens s)))"
  proof (cases "es_verifying (snd (subscribe_begin env w c opens s)) = es_verifying s")
    case False
    then obtain who sid v where "es_verifying (snd (subscribe_begin env w c opens s)) =
        AList.update (identity env who sid c) v (es_verifying s)" "vf_call v = c"
      unfolding subscribe_begin_def Let_def
      by (auto simp: res_bind_Inr_iff Let_def split: sum.splits prod.splits if_splits)
    then show ?thesis using verifying_update [OF ok(2)] event_of_name by metis
  qed (use ok in simp)
  then show ?thesis using tables tables_evolve_refl [OF ok(1)] maintain_subs_evolves [OF ok(1)] by auto
qed

lemma subscribe_end_evolves:
  assumes "digests_differ env" "event_inv env s" "world_ok w"
  shows "evolves env fresh now (es_tables s) (es_tables (snd (subscribe_end env w i challenged caller aborted s))) \<and>
    verifying_ok env (es_verifying (snd (subscribe_end env w i challenged caller aborted s)))"
proof -
  have ok: "tables_ok env (es_tables s)" "verifying_ok env (es_verifying s)" using assms(2) by (simp_all add: event_inv_def)
  show ?thesis
  proof (cases "map_of (es_verifying s) i")
    case None
    then show ?thesis using ok tables_evolve_refl [OF ok(1)] by (simp add: subscribe_end_def)
  next
    case (Some v)
    have id: "id_for env (sc_name (vf_call v)) i" using ok(2) Some by (simp add: verifying_ok_def)
    have "evolves env fresh now (es_tables s) t" if "subscribe_commit env w i v caller aborted (es_tables s) = Inr t" for t
      using subscribe_commit_evolves [OF assms(1) ok(1) that id assms(3)] .
    then show ?thesis
      using Some tables_evolve_refl [OF ok(1)] verifying_delete [OF ok(2), of i] by (auto simp: subscribe_end_def Let_def split: sum.splits)
  qed
qed

lemma unsubscribe_evolves:
  assumes "digests_differ env" "event_inv env s"
  shows "evolves env fresh now (es_tables s) (es_tables (snd (unsubscribe env w c s))) \<and>
    verifying_ok env (es_verifying (snd (unsubscribe env w c s)))"
proof -
  have ok: "tables_ok env (es_tables s)" "verifying_ok env (es_verifying s)" using assms(2) by (simp_all add: event_inv_def)
  have fence: "verifying_ok env (AList.update i (v\<lparr>vf_fences := n\<rparr>) (es_verifying s))" if "map_of (es_verifying s) i = Some v" for i v n
    using verifying_update [OF ok(2), of "v\<lparr>vf_fences := n\<rparr>" i] ok(2) that by (simp add: verifying_ok_def)
  have "evolves env fresh now (es_tables s) t" if "unsubscribe_commit env w who sid i c g (es_tables s) = Inr t" for who sid i g t
    using unsubscribe_commit_evolves [OF assms(1) ok(1) that] .
  then show ?thesis
    using ok tables_evolve_refl [OF ok(1)] fence
    by (auto simp: unsubscribe_def Let_def split: sum.splits prod.splits option.splits)
qed

lemma deliver_start_evolves:
  assumes "digests_differ env" "tables_ok env (es_tables s)"
  shows "evolves env fresh (ew_now w) (es_tables s) (es_tables (deliver_start env w s))"
proof (cases "es_queue s \<noteq> None \<or> es_sending s \<noteq> None")
  case True
  then show ?thesis using tables_evolve_refl [OF assms(2)] by (simp add: deliver_start_def)
next
  case False
  show ?thesis
  proof (cases "maintain_grants w (es_tables s)")
    case (Inl e)
    then show ?thesis using False tables_evolve_refl [OF assms(2)] by (simp add: deliver_start_def)
  next
    case (Inr t1)
    define t2 where "t2 = maintain_subs (ew_now w) t1"
    have e1: "evolves env fresh (ew_now w) (es_tables s) t1" by (rule maintain_grants_evolves [OF assms(2) Inr])
    have e2: "evolves env fresh (ew_now w) (es_tables s) t2"
      unfolding t2_def by (rule evolves_trans [OF e1 maintain_subs_evolves [OF evolves_ok [OF e1]]])
    have "evolves env fresh (ew_now w) t2 (snd (reconcile_roots env w (filter sb_recovery (lifecycle_roots None t2)) t2))"
      by (rule reconcile_roots_evolves [OF assms(1) evolves_ok [OF e2]]) (auto dest: root_row [OF _ evolves_ok [OF e2]])
    then show ?thesis
      using False Inr evolves_trans [OF e2] by (auto simp: deliver_start_def Let_def t2_def split: prod.splits)
  qed
qed

lemma deliver_next_tables:
  "es_tables (deliver_next env w opens s) = es_tables s \<or>
   (\<exists>k. es_tables (deliver_next env w opens s) = pass_tables (deliver_one env w k (es_tables s)))"
proof (cases "es_sending s = None \<and> (\<exists>k ks. es_queue s = Some (k # ks))")
  case True
  then obtain k ks where k: "es_sending s = None" "es_queue s = Some (k # ks)" by blast
  then have "es_tables (deliver_next env w opens s) = pass_tables (deliver_one env w k (es_tables s))"
    by (cases "deliver_one env w k (es_tables s)") (simp_all add: deliver_next_def)
  then show ?thesis by blast
next
  case False
  then have "es_tables (deliver_next env w opens s) = es_tables s"
    by (auto simp: deliver_next_def split: option.splits list.splits)
  then show ?thesis by simp
qed

lemma deliver_done_tables:
  "es_tables (deliver_done env w st s) = es_tables s \<or>
   (\<exists>r. es_tables (deliver_done env w st s) = pass_tables (settle_send env w st r (es_tables s)))"
proof (cases "es_sending s")
  case (Some r)
  then have "es_tables (deliver_done env w st s) = pass_tables (settle_send env w st r (es_tables s))"
    by (cases "settle_send env w st r (es_tables s)") (simp_all add: deliver_done_def)
  then show ?thesis by blast
qed (simp add: deliver_done_def)

lemma event_step_evolves:
  assumes "digests_differ env" "event_inv env s" "world_ok w"
  shows "evolves env (fresh_of env e) (ew_now w) (es_tables s) (es_tables (event_step env s (w, e))) \<and>
    verifying_ok env (es_verifying (event_step env s (w, e)))"
proof -
  have ok: "tables_ok env (es_tables s)" "verifying_ok env (es_verifying s)" using assms(2) by (simp_all add: event_inv_def)
  have same: "es_verifying (commit r s) = es_verifying s" for r by (simp add: commit_def split: sum.splits)
  show ?thesis
  proof (cases e)
    case (EvAccess i revoking c)
    have "evolves env (fresh_of env e) (ew_now w) (es_tables s) (es_tables (commit (access_tool env w i revoking c (es_tables s)) s))"
      unfolding EvAccess fresh_of_def event_op.case by (rule commit_evolves [OF ok(1)], erule access_tool_evolves [OF assms(1) ok(1)])
    then show ?thesis using ok(2) by (simp add: EvAccess same)
  next
    case (EvSubscribe c opens)
    then show ?thesis using subscribe_begin_evolves [OF assms(2)] by simp
  next
    case (EvSubscribed i challenged caller aborted)
    then show ?thesis using subscribe_end_evolves [OF assms] by simp
  next
    case (EvUnsubscribe c)
    then show ?thesis using unsubscribe_evolves [OF assms(1,2)] by simp
  next
    case EvWake
    then show ?thesis using deliver_start_evolves [OF assms(1) ok(1)] ok(2)
      by (simp add: deliver_start_def Let_def split: sum.splits prod.splits)
  next
    case (EvNext opens)
    have "es_verifying (deliver_next env w opens s) = es_verifying s"
      by (simp add: deliver_next_def split: option.splits list.splits pass.splits)
    then show ?thesis
      using deliver_next_tables [of env w opens s] deliver_one_evolves [OF assms(1) ok(1)] tables_evolve_refl [OF ok(1)] ok(2)
      by (auto simp: EvNext)
  next
    case (EvDone st)
    have "es_verifying (deliver_done env w st s) = es_verifying s"
      by (simp add: deliver_done_def split: option.splits pass.splits)
    then show ?thesis
      using deliver_done_tables [of env w st s] settle_send_evolves [OF assms(1) ok(1)] tables_evolve_refl [OF ok(1)] ok(2)
      by (auto simp: EvDone)
  next
    case (EvTerminal j)
    then show ?thesis using ok same commit_evolves [OF ok(1) enqueue_terminal_evolves [OF assms(1) ok(1)]] by simp
  next
    case (EvLifecycle j)
    have "evolves env {} (ew_now w) (es_tables s) (es_tables (commit (enqueue_lifecycle env w j None (es_tables s)) s))"
      by (rule commit_evolves [OF ok(1)], erule enqueue_lifecycle_evolves [OF assms(1) ok(1)]) simp
    then show ?thesis using ok same by (simp add: EvLifecycle fresh_of_def)
  next
    case (EvStopActivity a)
    then show ?thesis using ok same commit_evolves [OF ok(1) stop_activity_evolves [OF assms(1) ok(1)]] by simp
  next
    case (EvForget job)
    then show ?thesis using ok forget_evolves [OF ok(1)] by simp
  next
    case EvRestart
    have "evolves env (fresh_of env e) (ew_now w) (es_tables s) (start_roots env w (lifecycle_roots None (es_tables s)) (es_tables s))"
      by (rule start_roots_evolves [OF assms(1) ok(1)]) (auto dest: root_row [OF _ ok(1)])
    then show ?thesis by (simp add: EvRestart verifying_ok_def)
  qed
qed

definition step_ok :: "event_world \<times> event_op \<Rightarrow> bool" where
  "step_ok p \<longleftrightarrow> world_ok (fst p)"

lemma event_step_inv: "digests_differ env \<Longrightarrow> event_inv env s \<Longrightarrow> step_ok p \<Longrightarrow> event_inv env (event_step env s p)"
  using event_step_evolves [of env s "fst p" "snd p"] by (cases p) (auto simp: step_ok_def event_inv_def evolves_def)

lemma new_events_inv: "event_inv env new_events"
  by (simp add: event_inv_def new_events_def tables_ok_def verifying_ok_def)

end
