(* ===== verification/Event_Properties.thy ===== *)
theory Event_Properties
  imports Event_Grants
begin

text \<open>
  The promises of Job events over whole runs: bounded journals, authorized sends, and no send after a
  settled delivery, a revocation or an unsubscription.
\<close>

interpretation events: transition_system "event_step env" step_ok "\<lambda>s. digests_differ env \<and> event_inv env s" for env
  by unfold_locales (simp add: event_step_inv)

lemma events_reachable:
  "digests_differ env \<Longrightarrow> list_all step_ok es \<Longrightarrow> event_inv env (run (event_step env) new_events es)"
  using events.run_inv [of env new_events es] new_events_inv by simp

section \<open>Sends\<close>

lemma deliver_one_send:
  assumes "deliver_one env w key t = PassSend r' t'"
  shows "\<exists>r j. get_sub (fst key) (snd key) t = Some r \<and> due_sub w r \<and> sb_attempts r < max_attempts \<and>
    require_delivery_job env w r t = Inr j \<and> r' = r\<lparr>sb_attempts := sb_attempts r + 1\<rparr>"
proof -
  obtain r where r: "get_sub (fst key) (snd key) t = Some r" "due_sub w r" "sb_attempts r < max_attempts"
    using assms by (auto simp: deliver_one_def pass_of_def not_le split: option.splits if_splits sum.splits)
  then obtain j where "require_delivery_job env w r t = Inr j"
    using assms by (cases "require_delivery_job env w r t") (auto simp: deliver_one_def pass_of_def split: sum.splits)
  then show ?thesis using assms r
    by (auto simp: deliver_one_def pass_all_def Let_def split: if_splits sum.splits)
qed

definition sent_of :: "subscription \<Rightarrow> sent_event" where
  "sent_of r = \<lparr>sv_job = sb_job r, sv_sub = sb_id r, sv_event = (case sb_event r of None \<Rightarrow> '''' | Some e \<Rightarrow> je_id e),
     sv_access = sb_access r, sv_url = de_url (sb_destination r)\<rparr>"

text \<open>A step sends nothing, or the row the worker is at, authorized in the tables of that moment.\<close>

lemma step_sends:
  "es_sent (event_step env s (w, e)) = es_sent s \<or>
   (\<exists>key r j. es_sent (event_step env s (w, e)) = es_sent s @ [sent_of r] \<and> get_sub (fst key) (snd key) (es_tables s) = Some r \<and>
      due_sub w r \<and> sb_attempts r < max_attempts \<and> require_delivery_job env w r (es_tables s) = Inr j)"
proof (cases e)
  case (EvNext opens)
  show ?thesis
  proof (cases "es_sending s = None \<and> (\<exists>k ks r t. es_queue s = Some (k # ks) \<and> deliver_one env w k (es_tables s) = PassSend r t)")
    case True
    then obtain k ks r t where k: "es_sending s = None" "es_queue s = Some (k # ks)" "deliver_one env w k (es_tables s) = PassSend r t"
      by blast
    obtain r0 j where r0: "get_sub (fst k) (snd k) (es_tables s) = Some r0" "due_sub w r0" "sb_attempts r0 < max_attempts"
        "require_delivery_job env w r0 (es_tables s) = Inr j" "r = r0\<lparr>sb_attempts := sb_attempts r0 + 1\<rparr>"
      using deliver_one_send [OF k(3)] by blast
    have "es_sent (event_step env s (w, e)) = (if opens then es_sent s @ [sent_of r0] else es_sent s)"
      using k by (simp add: EvNext deliver_next_def sent_of_def r0(5))
    then show ?thesis using r0 by (cases opens) auto
  next
    case False
    then have "es_sent (deliver_next env w opens s) = es_sent s"
      by (auto simp: deliver_next_def split: option.splits list.splits pass.splits)
    then show ?thesis by (simp add: EvNext)
  qed
qed (auto simp: commit_def subscribe_begin_def subscribe_end_def unsubscribe_def deliver_start_def deliver_done_def Let_def
    split: sum.splits prod.splits option.splits pass.splits)

lemma authorized:
  assumes "require_delivery_job env w r t = Inr j" "sb_access r = Some h"
  shows "\<exists>g. grant_by_hash h t = Some g \<and> live_grant g \<and> ew_now w < gr_expires g \<and> gr_subscription g = Some (sb_id r) \<and>
    gr_principal g = sb_principal r"
  using assms
  by (auto simp: require_delivery_job_def grant_matches_def res_bind_Inr_iff Let_def not_le
      split: if_splits option.splits)

section \<open>Nothing is sent under a dead delegation\<close>

lemma dead_step:
  assumes "digests_differ env" "event_inv env s" "step_ok p" "dead h (es_tables s)" "h \<notin> fresh_of env (snd p)"
  shows "dead h (es_tables (event_step env s p)) \<and>
    filter (\<lambda>x. sv_access x = Some h) (es_sent (event_step env s p)) = filter (\<lambda>x. sv_access x = Some h) (es_sent s)"
proof -
  obtain w e where p: "p = (w, e)" by (cases p)
  have w: "world_ok w" using assms(3) by (simp add: p step_ok_def)
  have "dead h (es_tables (event_step env s p))"
    using event_step_evolves [OF assms(1,2) w, of e] assms(4,5) unfolding p evolves_def tables_le_def by simp
  moreover have "sv_access (sent_of r) \<noteq> Some h" if "require_delivery_job env w r (es_tables s) = Inr j" for r j
    using authorized [OF that] assms(4) by (auto simp: sent_of_def dead_def)
  ultimately show ?thesis using step_sends [of env s w e] unfolding p by auto
qed

definition issues :: "event_env \<Rightarrow> string \<Rightarrow> event_world \<times> event_op \<Rightarrow> bool" where
  "issues env h p \<longleftrightarrow> h \<in> fresh_of env (snd p)"

lemma dead_run:
  assumes "digests_differ env"
  shows "event_inv env s \<Longrightarrow> list_all step_ok es \<Longrightarrow> dead h (es_tables s) \<Longrightarrow> \<not> list_ex (issues env h) es \<Longrightarrow>
    filter (\<lambda>x. sv_access x = Some h) (es_sent (run (event_step env) s es)) = filter (\<lambda>x. sv_access x = Some h) (es_sent s)"
proof (induction es arbitrary: s)
  case (Cons p es)
  have d: "dead h (es_tables (event_step env s p))"
    "filter (\<lambda>x. sv_access x = Some h) (es_sent (event_step env s p)) = filter (\<lambda>x. sv_access x = Some h) (es_sent s)"
    using dead_step [OF assms Cons.prems(1) _ Cons.prems(3), of p] Cons.prems(2,4) by (auto simp: issues_def)
  have "event_inv env (event_step env s p)" using event_step_inv [OF assms Cons.prems(1)] Cons.prems(2) by simp
  then show ?case using Cons.IH [of "event_step env s p"] Cons.prems(2,4) d by simp
qed simp

section \<open>Revoking and unsubscribing kill delegations\<close>

lemma live_listed:
  assumes "tables_ok env t" "grant_by_hash h t = Some g" "gr_job g = job"
  shows "g \<in> set (list_grants (Some job) t)"
proof -
  have "(h, g) \<in> set (et_grants t)" using assms(2) by (simp add: grant_by_hash_def map_of_SomeD)
  moreover have "length (et_grants t) \<le> max_grants + 1" using assms(1) by (simp add: tables_ok_def)
  ultimately show ?thesis using assms(3) by (force simp: list_grants_def all_grants_def)
qed

lemma revoke_one_kills:
  assumes "digests_differ env" "tables_ok env t" "revoke_one w job who sid g t = Inr t'" "grant_by_hash h t = Some g"
    "gr_principal g = who" "gr_scope g = sid"
  shows "dead h t'"
proof (cases "gr_revoked g = None")
  case True
  have h: "gr_hash g = h" "1 \<le> gr_revision g" using grant_hash [OF assms(2,4)] by simp_all
  obtain u where u: "must_save_grant (g\<lparr>gr_revoked := Some (ew_now w), gr_revision := gr_revision g + 1\<rparr>) (gr_revision g) t = Inr u"
    "res_fold (revoke_sub w job g) (list_subs (Some job) u) u = Inr t'"
    using assms(3,5,6) True unfolding revoke_one_def by (auto simp: res_bind_Inr_iff)
  note s = u(1) [unfolded must_save_grant_Inr]
  have "evolves env {} 0 t u" by (rule stop_evolves [OF assms(2) s]) (use h(2) in \<open>simp_all add: live_grant_def\<close>)
  then have ok: "tables_ok env u" by (rule evolves_ok)
  have "dead h u" using h(1) by (simp add: dead_def grant_reads(1) [OF s] live_grant_def)
  moreover have "evolves env {} 0 u t'"
    by (rule res_fold_evolves [where P = "pending_rows env", OF u(2) pending_listed [OF ok] ok]) (rule revoke_sub_evolves [OF assms(1)])
  ultimately show ?thesis by (simp add: evolves_def tables_le_def)
next
  case False
  then have "t' = t" using assms(3) by (simp add: revoke_one_def)
  then show ?thesis using assms(4) False by (simp add: dead_def live_grant_def)
qed

lemma save_sub_grants: "save_sub w r n t = Inr (b, t') \<Longrightarrow> et_grants t' = et_grants t"
  by (rule put_reads(2))

lemma stop_children_grants: "stop_lifecycle_children w x root t = Inr t' \<Longrightarrow> et_grants t' = et_grants t"
  unfolding stop_lifecycle_children_def
  by (erule res_fold_keeps [where Q = "\<lambda>u. et_grants u = et_grants t"])
    (auto simp: stop_child_def disable_def must_save_Inr dest!: save_sub_grants split: if_splits)

lemma revoke_sub_grants: "revoke_sub w job g r t = Inr t' \<Longrightarrow> et_grants t' = et_grants t"
  by (auto simp: revoke_sub_def disable_def must_save_Inr res_bind_Inr_iff dest!: stop_children_grants save_sub_grants split: if_splits)

text \<open>The loop over the delegations of a job reaches each of them unchanged or already dead.\<close>

lemma revoke_loop_kills:
  assumes "digests_differ env" "gr_principal g = who" "gr_scope g = sid" "gr_hash g = h"
  shows "res_fold (revoke_one w job who sid) gs t = Inr t' \<Longrightarrow> tables_ok env t \<Longrightarrow> \<forall>x \<in> set gs. 1 \<le> gr_revision x \<Longrightarrow>
    dead h t \<or> g \<in> set gs \<and> grant_by_hash h t = Some g \<and> (\<forall>x \<in> set gs. gr_hash x = h \<longrightarrow> x = g) \<Longrightarrow> dead h t'"
proof (induction gs arbitrary: t)
  case (Cons x gs)
  obtain u where u: "revoke_one w job who sid x t = Inr u" "res_fold (revoke_one w job who sid) gs u = Inr t'"
    using Cons.prems(1) by (auto simp: res_bind_Inr_iff)
  have e: "evolves env {} 0 t u" by (rule revoke_one_evolves [OF assms(1) Cons.prems(2) u(1)]) (simp add: Cons.prems(3))
  have next_step: "dead h u \<or> g \<in> set gs \<and> grant_by_hash h u = Some g \<and> (\<forall>x \<in> set gs. gr_hash x = h \<longrightarrow> x = g) \<Longrightarrow> dead h t'"
    using Cons.IH [OF u(2) evolves_ok [OF e]] Cons.prems(3) by simp
  show ?case
  proof (cases "dead h t \<or> x = g")
    case True
    have "dead h u"
    proof (cases "dead h t")
      case True
      then show ?thesis using e by (simp add: evolves_def tables_le_def)
    next
      case False
      then have "x = g" "grant_by_hash h t = Some g" using \<open>dead h t \<or> x = g\<close> Cons.prems(4) by auto
      then show ?thesis using revoke_one_kills [OF assms(1) Cons.prems(2)] u(1) assms(2,3) by blast
    qed
    then show ?thesis using next_step by blast
  next
    case False
    then have g: "g \<in> set gs" "grant_by_hash h t = Some g" "\<forall>y \<in> set (x # gs). gr_hash y = h \<longrightarrow> y = g" using Cons.prems(4) by auto
    then have "gr_hash x \<noteq> h" using False by auto
    have "grant_by_hash h u = Some g"
    proof (cases "gr_principal x \<noteq> who \<or> gr_scope x \<noteq> sid \<or> gr_revoked x \<noteq> None")
      case True
      then show ?thesis using u(1) g(2) by (auto simp: revoke_one_def)
    next
      case False
      then obtain v where v: "save_grant (x\<lparr>gr_revoked := Some (ew_now w), gr_revision := gr_revision x + 1\<rparr>) (gr_revision x) t = Inr (True, v)"
        "res_fold (revoke_sub w job x) (list_subs (Some job) v) v = Inr u"
        using u(1) unfolding revoke_one_def by (auto simp: res_bind_Inr_iff must_save_grant_Inr)
      have "et_grants u = et_grants v"
        by (rule res_fold_keeps [OF v(2), where Q = "\<lambda>y. et_grants y = et_grants v"]) (use revoke_sub_grants in auto)
      then show ?thesis using \<open>gr_hash x \<noteq> h\<close> grant_reads(1) [OF v(1), of h] g(2) by (simp add: grant_by_hash_def)
    qed
    then show ?thesis using next_step g(1,3) by simp
  qed
qed simp

lemma revoke_kills:
  assumes "digests_differ env" "tables_ok env t" "revoke w job who sid t = Inr t'" "grant_by_hash h t = Some g"
    "gr_job g = job" "gr_principal g = who" "gr_scope g = sid"
  shows "dead h t'"
proof -
  obtain t1 m t3 where a: "res_fold (revoke_one w job who sid) (list_grants (Some job) t) t = Inr t1"
    and b: "res_fold (revoke_lifecycle w job) (filter (\<lambda>r. sb_name r = Some JobLifecycle \<and> sb_scope r = sid \<and> sb_principal r = who)
        (list_subs (Some job) (remember_stop w job m t1))) (remember_stop w job m t1) = Inr t3"
    and c: "t' = remember_stop w job (m\<lparr>ms_event := JobLifecycle\<rparr>) t3"
    using revoke_Inr [OF assms(3)] by blast
  have rows: "grant_by_hash (gr_hash x) t = Some x \<and> 1 \<le> gr_revision x" if "x \<in> set (list_grants (Some job) t)" for x
    using grant_listed [OF assms(2) that] grant_hash(2) [OF assms(2)] by blast
  have "gr_hash g = h" using grant_hash(1) [OF assms(2,4)] .
  moreover have "x = g" if "x \<in> set (list_grants (Some job) t)" "gr_hash x = h" for x
    using rows [OF that(1)] that(2) assms(4) by simp
  ultimately have "dead h t1"
    using revoke_loop_kills [OF assms(1,6,7) _ a assms(2)] rows live_listed [OF assms(2,4,5)] assms(4) by blast
  moreover have ok1: "tables_ok env t1"
  proof (rule evolves_ok, rule res_fold_moves [OF a assms(2)])
    fix x s s' assume "x \<in> set (list_grants (Some job) t)" "tables_ok env s" "revoke_one w job who sid x s = Inr s'"
    then show "evolves env {} 0 s s'" using revoke_one_evolves [OF assms(1)] rows by blast
  qed
  moreover have "evolves env {} 0 t1 t'" unfolding c by (rule revoke_rest_evolves [OF assms(1) ok1 b])
  ultimately show ?thesis by (simp add: evolves_def tables_le_def)
qed

lemma access_tool_revokes:
  assumes "digests_differ env" "tables_ok env t" "access_tool env w i True c t = Inr t'" "world_ok w"
    "grant_by_hash h t = Some g" "gr_job g = sc_job c" "sc_host c = HostScope (gr_scope g)" "sc_caller c = Some (gr_principal g)"
  shows "dead h t'"
proof -
  obtain who sid j where a: "authorize env (sc_caller c) = Inr who" "require_scope (sc_host c) = Inr sid"
    "require_job w (sc_job c) sid who (sc_name c) = Inr j" "revoke w (ej_id j) who sid t = Inr t'"
    using assms(3) by (auto simp: access_tool_def res_bind_Inr_iff split: if_splits)
  have "who = gr_principal g" using a(1) assms(8) by (simp add: authorize_def split: option.splits if_splits)
  moreover have "sid = gr_scope g" using a(2) assms(7) by (simp add: require_scope_def)
  moreover have "ej_id j = sc_job c" using require_job_id [OF a(3)] assms(4) by (simp add: world_ok_def)
  ultimately show ?thesis using revoke_kills [OF assms(1,2) a(4) assms(5)] assms(6) by simp
qed

text \<open>An unsubscription through a delegation ends it as well.\<close>

lemma unsubscribe_kills:
  assumes "digests_differ env" "tables_ok env t" "unsubscribe_commit env w who sid i c x t = Inr t'"
    "resolve_access env w c who True t = Inr (sid', Some g, job)"
  shows "dead (gr_hash g) t'"
proof -
  obtain h where h: "grant_by_hash h t = Some g" using resolve_grant(1) [OF assms(4)] by blast
  have gh: "gr_hash g = h" "1 \<le> gr_revision g" using grant_hash [OF assms(2) h] by simp_all
  obtain t1 where t1: "unsubscribe_grant w g t = Inr (True, t1)"
    and rest: "(case get_sub (sc_job c) i t of
             None \<Rightarrow> Inr t1
           | Some x \<Rightarrow>
               if sb_scope x \<noteq> sid \<or> sb_principal x \<noteq> who then Inl EventDenied
               else res_bind (save_sub w (x\<lparr>sb_revision := sb_revision x + 1, sb_disabled := Some Unsubscribed\<rparr>) (sb_revision x) t1) (\<lambda>(ok, t2).
                 if \<not> ok then Inl (CallbackError ''subscription_changed'')
                 else if sc_name c = JobLifecycle then stop_lifecycle_children w Unsubscribed x t2 else Inr t2)) = Inr t'"
    using assms(3,4) by (auto simp: unsubscribe_commit_def res_bind_Inr_iff Let_def split: if_splits)
  obtain t0 where s: "save_grant (g\<lparr>gr_unsubscribed := Some (case gr_unsubscribed g of None \<Rightarrow> ew_now w | Some n \<Rightarrow> n),
      gr_revision := gr_revision g + 1\<rparr>) (gr_revision g) t = Inr (True, t0)" "et_grants t1 = et_grants t0"
    using t1 by (auto simp: unsubscribe_grant_def res_bind_Inr_iff remember_stop_def split: if_splits)
  have "et_grants t' = et_grants t1"
    using rest by (auto simp: res_bind_Inr_iff dest!: save_sub_grants stop_children_grants split: option.splits if_splits)
  then have "grant_by_hash h t' = grant_by_hash h t0" using s(2) by (simp add: grant_by_hash_def)
  then show ?thesis using grant_reads(1) [OF s(1), of h] gh(1) by (simp add: dead_def live_grant_def)
qed

section \<open>Settled terminal notifications\<close>

definition sends_to :: "string \<Rightarrow> string \<Rightarrow> sent_event list \<Rightarrow> sent_event list" where
  "sends_to j i = filter (\<lambda>x. sv_job x = j \<and> sv_sub x = i)"

text \<open>A row whose terminal notification is settled and may still be recovered until \<open>u\<close>.\<close>

definition settled_until :: "string \<Rightarrow> string \<Rightarrow> int \<Rightarrow> event_tables \<Rightarrow> bool" where
  "settled_until j i u t \<longleftrightarrow> (case get_sub j i t of None \<Rightarrow> False
     | Some r \<Rightarrow> \<not> lifecycle_row r \<and> sb_event r \<noteq> None \<and> settled r \<and> sb_recover_until r = Some u)"

definition before :: "int \<Rightarrow> event_world \<times> event_op \<Rightarrow> bool" where
  "before u p \<longleftrightarrow> step_ok p \<and> ew_now (fst p) < u"

lemma notified_step:
  assumes "digests_differ env" "event_inv env s" "before u p" "settled_until j i u (es_tables s)"
  shows "settled_until j i u (es_tables (event_step env s p)) \<and> sends_to j i (es_sent (event_step env s p)) = sends_to j i (es_sent s)"
proof -
  obtain w e where p: "p = (w, e)" by (cases p)
  have w: "world_ok w" "ew_now w < u" using assms(3) by (simp_all add: p before_def step_ok_def)
  have ok: "tables_ok env (es_tables s)" using assms(2) by (simp add: event_inv_def)
  obtain r where r: "get_sub j i (es_tables s) = Some r" "\<not> lifecycle_row r" "sb_event r \<noteq> None" "settled r" "sb_recover_until r = Some u"
    using assms(4) by (auto simp: settled_until_def split: option.splits)
  have "tables_le (fresh_of env e) (ew_now w) (es_tables s) (es_tables (event_step env s p))"
    using event_step_evolves [OF assms(1,2) w(1), of e] unfolding p evolves_def by simp
  then obtain r' where "get_sub j i (es_tables (event_step env s p)) = Some r'" "keeps r r'"
    using r w(2) unfolding tables_le_def by blast
  then have "settled_until j i u (es_tables (event_step env s p))"
    using r by (auto simp: settled_until_def keeps_def lifecycle_row_def settled_def)
  moreover have "\<not> (sv_job (sent_of x) = j \<and> sv_sub (sent_of x) = i)"
    if "get_sub k m (es_tables s) = Some x" "due_sub w x" for k m x
    using that sub_row(1,2) [OF ok that(1)] r(1,4) by (auto simp: sent_of_def due_sub_def settled_def)
  ultimately show ?thesis using step_sends [of env s w e] unfolding p sends_to_def by auto
qed

lemma settled_run:
  assumes "digests_differ env"
  shows "event_inv env s \<Longrightarrow> list_all (before u) es \<Longrightarrow> settled_until j i u (es_tables s) \<Longrightarrow>
    sends_to j i (es_sent (run (event_step env) s es)) = sends_to j i (es_sent s)"
proof (induction es arbitrary: s)
  case (Cons p es)
  have "event_inv env (event_step env s p)" using event_step_inv [OF assms Cons.prems(1)] Cons.prems(2) by (simp add: before_def)
  then show ?case
    using Cons.IH [of "event_step env s p"] Cons.prems(2) notified_step [OF assms Cons.prems(1) _ Cons.prems(3), of p] by simp
qed simp

section \<open>Who may be sent an event\<close>

lemma delivery_job:
  assumes "require_delivery_job env w r t = Inr j"
  shows "ee_principal env = Some (sb_principal r) \<and> (\<exists>j0. ew_registry w (sb_job r) = Some j0 \<and> ej_scope j0 = sb_scope r \<and>
    ej_principal j0 = Some (sb_principal r) \<and> ew_retained w (sb_job r) \<and> ew_owned w (sb_job r) (sb_scope r) \<and>
    (sb_access r = None \<longrightarrow> ej_policy j0 \<noteq> Some ''events'' \<and> sb_name r \<noteq> Some JobLifecycle))"
proof -
  obtain j0 where "require_job w (sb_job r) (sb_scope r) (sb_principal r) (case sb_name r of None \<Rightarrow> JobTerminal | Some n \<Rightarrow> n) = Inr j0"
    "sb_access r = None \<longrightarrow> ej_policy j0 \<noteq> Some ''events'' \<and> (case sb_name r of None \<Rightarrow> JobTerminal | Some n \<Rightarrow> n) \<noteq> JobLifecycle"
    "ee_principal env = Some (sb_principal r)"
    using assms unfolding require_delivery_job_def Let_def
    by (auto simp: res_bind_Inr_iff split: if_splits option.splits)
  then show ?thesis by (auto simp: require_job_def split: option.splits if_splits)
qed

section \<open>What a caller is told\<close>

lemma verdict_active: "fst (monitor_verdict w j t subs gs active latest sub stopped) = MonitorActive \<Longrightarrow> active \<noteq> None"
  by (simp add: monitor_verdict_def Let_def split: option.splits if_splits)

lemma told_active:
  assumes "fst (subscription_state w j e t) = MonitorActive"
  shows "\<exists>r. r \<in> set (list_subs (Some (ej_id j)) t) \<and> active_sub w j t r"
proof -
  have "find (active_sub w j t) (filter (\<lambda>r. named e (case sb_name r of None \<Rightarrow> JobTerminal | Some n \<Rightarrow> n)) (list_subs (Some (ej_id j)) t)) \<noteq> None"
  proof (cases "ew_retained w (ej_id j)")
    case True
    then have "\<not> \<not> ew_retained w (ej_id j)" by simp
    from assms [unfolded subscription_state_def Let_def if_not_P [OF this]] show ?thesis by (rule verdict_active)
  next
    case False
    then show ?thesis using assms by (simp add: subscription_state_def)
  qed
  then show ?thesis by (auto simp: find_None_iff)
qed

lemma active_facts:
  assumes "active_sub w j t r"
  shows "sb_disabled r = None \<and> ew_now w < sb_expires r \<and> (\<exists>h g. sb_access r = Some h \<and> grant_by_hash h t = Some g \<and>
    live_grant g \<and> ew_now w < gr_expires g \<and> gr_callback g \<noteq> None \<and> gr_subscription g = Some (sb_id r))"
  using assms by (auto simp: active_sub_def unexpired_grant_def split: option.splits)

section \<open>Properties\<close>


text \<open>C24. Whatever step hands an event to the callback sender in a reachable state, it is one event, of a subscription
  that is enabled, unexpired, pending and under 8 tries, whose owner is the configured principal and still owns the retained
  job; under a delegation, that delegation is neither revoked nor unsubscribed nor expired and is bound to this very
  subscription, and without one neither the job's policy nor the event asks for one.\<close>

theorem every_send_is_authorized:
  assumes "digests_differ env" "list_all step_ok es" "s = run (event_step env) new_events es"
    and "es_sent (event_step env s (w, e)) \<noteq> es_sent s"
  shows "\<exists>x r j. es_sent (event_step env s (w, e)) = es_sent s @ [x] \<and> get_sub (sv_job x) (sv_sub x) (es_tables s) = Some r \<and>
    sb_disabled r = None \<and> ew_now w < sb_expires r \<and> sb_delivery r = DsPending \<and> sb_attempts r < 8 \<and> sv_access x = sb_access r \<and>
    ee_principal env = Some (sb_principal r) \<and> ew_registry w (sv_job x) = Some j \<and> ej_scope j = sb_scope r \<and>
    ej_principal j = Some (sb_principal r) \<and> ew_retained w (sv_job x) \<and>
    (case sb_access r of
       None \<Rightarrow> ej_policy j \<noteq> Some ''events'' \<and> sb_name r \<noteq> Some JobLifecycle
     | Some h \<Rightarrow> \<exists>g. grant_by_hash h (es_tables s) = Some g \<and> gr_revoked g = None \<and> gr_unsubscribed g = None \<and>
         ew_now w < gr_expires g \<and> gr_subscription g = Some (sv_sub x) \<and> gr_principal g = sb_principal r)"
proof -
  have ok: "tables_ok env (es_tables s)" using events_reachable [OF assms(1,2)] assms(3) by (simp add: event_inv_def)
  obtain k r j where r: "es_sent (event_step env s (w, e)) = es_sent s @ [sent_of r]" "get_sub (fst k) (snd k) (es_tables s) = Some r"
    "due_sub w r" "sb_attempts r < max_attempts" "require_delivery_job env w r (es_tables s) = Inr j"
    using step_sends [of env s w e] assms(4) by blast
  have row: "get_sub (sb_job r) (sb_id r) (es_tables s) = Some r" using sub_row(1,2) [OF ok r(2)] r(2) by simp
  obtain j0 where j0: "ew_registry w (sb_job r) = Some j0" "ej_scope j0 = sb_scope r" "ej_principal j0 = Some (sb_principal r)"
    "ew_retained w (sb_job r)" "sb_access r = None \<longrightarrow> ej_policy j0 \<noteq> Some ''events'' \<and> sb_name r \<noteq> Some JobLifecycle"
    "ee_principal env = Some (sb_principal r)"
    using delivery_job [OF r(5)] by (elim conjE exE) (rule that)
  have "case sb_access r of
       None \<Rightarrow> ej_policy j0 \<noteq> Some ''events'' \<and> sb_name r \<noteq> Some JobLifecycle
     | Some h \<Rightarrow> \<exists>g. grant_by_hash h (es_tables s) = Some g \<and> gr_revoked g = None \<and> gr_unsubscribed g = None \<and>
         ew_now w < gr_expires g \<and> gr_subscription g = Some (sb_id r) \<and> gr_principal g = sb_principal r"
    using j0(5) authorized [OF r(5)] by (auto simp: live_grant_def split: option.splits)
  moreover have "sb_disabled r = None" "ew_now w < sb_expires r" "sb_delivery r = DsPending" "sb_attempts r < 8"
    using r(3,4) by (simp_all add: due_sub_def max_attempts_def)
  moreover have "sv_job (sent_of r) = sb_job r" "sv_sub (sent_of r) = sb_id r" "sv_access (sent_of r) = sb_access r"
    by (simp_all add: sent_of_def)
  ultimately show ?thesis
    using r(1) row j0(1-4,6) by (intro exI [of _ "sent_of r"] exI [of _ r] exI [of _ j0]) (simp only: simp_thms)
qed

text \<open>C25. Once the owner revoked the monitoring of a job, nothing is sent any more under any delegation issued for that job
  in that scope, whatever subscriptions, deliveries and restarts follow (as long as its reference is not issued again).\<close>

theorem revoked_delegation_never_sends:
  assumes "digests_differ env" "list_all step_ok es" "s = run (event_step env) new_events es"
    and "world_ok w" "access_tool env w i True c (es_tables s) = Inr t"
    and "grant_by_hash h (es_tables s) = Some g" "gr_job g = sc_job c" "sc_host c = HostScope (gr_scope g)"
      "sc_caller c = Some (gr_principal g)"
    and "list_all step_ok later" "\<not> list_ex (issues env h) later"
  shows "filter (\<lambda>x. sv_access x = Some h) (es_sent (run (event_step env) s ((w, EvAccess i True c) # later))) =
    filter (\<lambda>x. sv_access x = Some h) (es_sent s)"
proof -
  have inv: "event_inv env s" using events_reachable [OF assms(1,2)] assms(3) by simp
  define s1 where "s1 = event_step env s (w, EvAccess i True c)"
  have s1: "s1 = s\<lparr>es_tables := t\<rparr>" using assms(5) by (simp add: s1_def commit_def)
  have "tables_ok env (es_tables s)" using inv by (simp add: event_inv_def)
  then have "dead h t" by (rule access_tool_revokes [OF assms(1) _ assms(5,4,6-9)])
  moreover have "event_inv env s1" unfolding s1_def by (rule event_step_inv [OF assms(1) inv]) (simp add: step_ok_def assms(4))
  ultimately have "filter (\<lambda>x. sv_access x = Some h) (es_sent (run (event_step env) s1 later)) = filter (\<lambda>x. sv_access x = Some h) (es_sent s1)"
    using dead_run [OF assms(1) _ assms(10)] assms(11) by (simp add: s1)
  then have "filter (\<lambda>x. sv_access x = Some h) (es_sent (run (event_step env) s1 later)) = filter (\<lambda>x. sv_access x = Some h) (es_sent s)"
    by (simp add: s1)
  then show ?thesis unfolding s1_def by simp
qed

text \<open>C26. A terminal notification that was acknowledged or given up is not sent again to its subscription, whatever
  happens before its recovery boundary.\<close>

theorem settled_notification_never_resent:
  assumes "digests_differ env" "list_all step_ok es" "s = run (event_step env) new_events es"
    and "get_sub j i (es_tables s) = Some r" "sb_name r \<noteq> Some JobLifecycle" "sb_event r = Some ev"
      "sb_delivery r = DsAcknowledged \<or> sb_delivery r = DsFailed" "sb_recover_until r = Some u"
    and "list_all step_ok later" "list_all (\<lambda>p. ew_now (fst p) < u) later"
  shows "filter (\<lambda>x. sv_job x = j \<and> sv_sub x = i) (es_sent (run (event_step env) s later)) =
    filter (\<lambda>x. sv_job x = j \<and> sv_sub x = i) (es_sent s)"
proof -
  have "event_inv env s" using events_reachable [OF assms(1,2)] assms(3) by simp
  moreover have "list_all (before u) later" using assms(9,10) by (simp add: before_def list_all_iff)
  moreover have "settled_until j i u (es_tables s)" using assms(4-8) by (simp add: settled_until_def lifecycle_row_def settled_def)
  ultimately show ?thesis using settled_run [OF assms(1)] by (simp add: sends_to_def)
qed

text \<open>A caller is told that monitoring is active only when the job has an enabled, unexpired subscription bound to a live
  and unexpired delegation whose callback has proved itself.\<close>

theorem told_active_is_monitored:
  assumes "fst (subscription_state w j e t) = MonitorActive"
  shows "\<exists>r h g. r \<in> set (list_subs (Some (ej_id j)) t) \<and> sb_disabled r = None \<and> ew_now w < sb_expires r \<and> sb_access r = Some h \<and>
    grant_by_hash h t = Some g \<and> gr_revoked g = None \<and> gr_unsubscribed g = None \<and> ew_now w < gr_expires g \<and>
    gr_callback g \<noteq> None \<and> gr_subscription g = Some (sb_id r)"
proof -
  obtain r where r: "r \<in> set (list_subs (Some (ej_id j)) t)" "active_sub w j t r" using told_active [OF assms] by blast
  show ?thesis using r(1) active_facts [OF r(2)] unfolding live_grant_def by blast
qed

end
