(* ===== verification/Event_Witnesses.thy ===== *)
theory Event_Witnesses
  imports Event_Properties
begin

text \<open>Concrete runs of Job events that meet the hypotheses of the properties.\<close>

definition demo_env :: event_env where
  "demo_env = \<lparr>ee_digest = (\<lambda>s. s), ee_canonical = (\<lambda>_. ''''), ee_decimal = (\<lambda>_. ''7''),
     ee_reference = (\<lambda>_. replicate 43 (CHR ''a'')), ee_principal = Some ''p'', ee_oauth = True, ee_destination_ok = (\<lambda>_ _. True)\<rparr>"

definition demo_job :: event_job where
  "demo_job = \<lparr>ej_id = ''j'', ej_scope = ''s'', ej_activity = Some ''a'', ej_agent = Some ''g'', ej_project = Some ''r'',
     ej_principal = Some ''p'', ej_policy = Some ''events'', ej_status = ''completed'', ej_terminal = Some 7, ej_version = Some 1,
     ej_updated = 5, ej_created = Some 1, ej_pending = []\<rparr>"

definition demo_world :: "int \<Rightarrow> event_world" where
  "demo_world now = \<lparr>ew_now = now, ew_retired = (\<lambda>_. False), ew_ended = (\<lambda>_. False), ew_retained = (\<lambda>_. True),
     ew_project_ok = (\<lambda>_. True), ew_registry = (\<lambda>j. if j = ''j'' then Some demo_job else None), ew_owned = (\<lambda>_ _. True),
     ew_snapshot = (\<lambda>j. if j = ''j'' then Some demo_job else None), ew_goal_jobs = (\<lambda>_ _. []), ew_followups = (\<lambda>_. [])\<rparr>"

definition demo_call :: "string option \<Rightarrow> sub_call" where
  "demo_call ref = \<lparr>sc_job = ''j'', sc_ref = ref, sc_name = JobTerminal, sc_url = ''u'', sc_secret = ''k'', sc_ttl = None,
     sc_host = HostScope ''s'', sc_caller = Some ''p'', sc_auth_expires = None\<rparr>"

definition demo_ref :: string where "demo_ref = ''esr_'' @ replicate 43 (CHR ''a'')"

definition demo_id :: string where "demo_id = identity demo_env ''p'' ''s'' (demo_call (Some demo_ref))"

definition demo_run :: "(event_world \<times> event_op) list" where
  "demo_run = [(demo_world 100, EvAccess ''n'' False (demo_call None)), (demo_world 110, EvSubscribe (demo_call (Some demo_ref)) True),
     (demo_world 120, EvSubscribed demo_id True (Some ''p'') False), (demo_world 130, EvWake)]"

definition demo_sent :: "(event_world \<times> event_op) list" where
  "demo_sent = demo_run @ [(demo_world 140, EvNext True), (demo_world 150, EvDone 200)]"

definition demo_later :: "(event_world \<times> event_op) list" where
  "demo_later = [(demo_world 160, EvWake), (demo_world 170, EvNext True), (demo_world 180, EvTerminal demo_job), (demo_world 190, EvWake)]"

lemma demo_digests: "digests_differ demo_env"
  by (simp add: digests_differ_def demo_env_def inj_def)

lemma demo_world_ok [simp]: "world_ok (demo_world n)"
  by (auto simp: world_ok_def demo_world_def demo_job_def)

lemma demo_steps [simp]: "list_all step_ok demo_run" "list_all step_ok demo_sent" "list_all step_ok demo_later"
  by (simp_all add: demo_run_def demo_sent_def demo_later_def step_ok_def)

lemma demo_send:
  "map sv_access (es_sent (run (event_step demo_env) new_events demo_sent)) = [Some demo_ref]"
  by code_simp

definition demo_state :: event_state where
  "demo_state = run (event_step demo_env) new_events demo_sent"

lemma demo_grant:
  "grant_by_hash demo_ref (es_tables demo_state) = Some (the (grant_by_hash demo_ref (es_tables demo_state)))"
  "gr_job (the (grant_by_hash demo_ref (es_tables demo_state))) = sc_job (demo_call None)"
  "sc_host (demo_call None) = HostScope (gr_scope (the (grant_by_hash demo_ref (es_tables demo_state))))"
  "sc_caller (demo_call None) = Some (gr_principal (the (grant_by_hash demo_ref (es_tables demo_state))))"
  by code_simp+

lemma demo_revocation:
  "access_tool demo_env (demo_world 155) ''m'' True (demo_call None) (es_tables demo_state) =
     Inr (projr (access_tool demo_env (demo_world 155) ''m'' True (demo_call None) (es_tables demo_state)))"
proof -
  have "\<not> isl (access_tool demo_env (demo_world 155) ''m'' True (demo_call None) (es_tables demo_state))" by code_simp
  then show ?thesis by simp
qed

lemma demo_settled:
  "get_sub ''j'' demo_id (es_tables demo_state) = Some (the (get_sub ''j'' demo_id (es_tables demo_state)))"
  "sb_name (the (get_sub ''j'' demo_id (es_tables demo_state))) \<noteq> Some JobLifecycle"
  "sb_event (the (get_sub ''j'' demo_id (es_tables demo_state))) = Some (terminal_event demo_env (demo_world 120) demo_job)"
  "sb_delivery (the (get_sub ''j'' demo_id (es_tables demo_state))) = DsAcknowledged"
  "sb_recover_until (the (get_sub ''j'' demo_id (es_tables demo_state))) = Some 86400120"
  by code_simp+


lemma demo_new_send:
  "es_sent (event_step demo_env (run (event_step demo_env) new_events demo_run) (demo_world 140, EvNext True)) \<noteq>
     es_sent (run (event_step demo_env) new_events demo_run)"
proof -
  have "length (es_sent (event_step demo_env (run (event_step demo_env) new_events demo_run) (demo_world 140, EvNext True))) = 1"
    "length (es_sent (run (event_step demo_env) new_events demo_run)) = 0"
    by code_simp+
  then show ?thesis by auto
qed

lemma every_send_is_authorized_witness:
  "\<exists>x. es_sent (event_step demo_env (run (event_step demo_env) new_events demo_run) (demo_world 140, EvNext True)) =
     es_sent (run (event_step demo_env) new_events demo_run) @ [x]"
  using every_send_is_authorized [OF demo_digests demo_steps(1) refl demo_new_send] by blast

lemma revoked_delegation_never_sends_witness:
  "filter (\<lambda>x. sv_access x = Some demo_ref)
     (es_sent (run (event_step demo_env) demo_state ((demo_world 155, EvAccess ''m'' True (demo_call None)) # demo_later))) =
   filter (\<lambda>x. sv_access x = Some demo_ref) (es_sent demo_state)"
  by (rule revoked_delegation_never_sends [OF demo_digests demo_steps(2) demo_state_def demo_world_ok demo_revocation demo_grant demo_steps(3)])
    (simp add: demo_later_def issues_def fresh_of_def)

lemma settled_notification_never_resent_witness:
  "filter (\<lambda>x. sv_job x = ''j'' \<and> sv_sub x = demo_id) (es_sent (run (event_step demo_env) demo_state demo_later)) =
   filter (\<lambda>x. sv_job x = ''j'' \<and> sv_sub x = demo_id) (es_sent demo_state)"
  by (rule settled_notification_never_resent [OF demo_digests demo_steps(2) demo_state_def demo_settled(1-3) _ demo_settled(5) demo_steps(3)])
    (simp_all add: demo_settled(4) demo_later_def demo_world_def)

lemma told_active_is_monitored_witness:
  "\<exists>r h g. r \<in> set (list_subs (Some (ej_id demo_job)) (es_tables demo_state)) \<and> sb_disabled r = None \<and>
    ew_now (demo_world 160) < sb_expires r \<and> sb_access r = Some h \<and>
    grant_by_hash h (es_tables demo_state) = Some g \<and> gr_revoked g = None \<and> gr_unsubscribed g = None \<and>
    ew_now (demo_world 160) < gr_expires g \<and> gr_callback g \<noteq> None \<and> gr_subscription g = Some (sb_id r)"
proof (rule told_active_is_monitored)
  show "fst (subscription_state (demo_world 160) demo_job None (es_tables demo_state)) = MonitorActive" by code_simp
qed

end
