(* ===== verification/Task_Followups.thy ===== *)
theory Task_Followups
  imports Bridge_State "HOL-Library.Word"
begin

unbundle bit_operations_syntax

text \<open>
  Approved follow-ups (\<open>src/src/taskFollowups.ts\<close>): a job may declare prompts that are approved to run
  after it. Each gets a reference derived from the job and a canonical request id; the receipt rows under
  \<open>task_followup_v1/\<close> record the approval and, at most once, the job it admitted. A step of a relay
  conversation gets its receipt when it is admitted. The rows are keyed by \<open>job/slot\<close>, in whose order
  \<open>listMeta\<close> pages; the digests are parameters. \<open>FuRetire\<close> is the removal of the rows of a retired project.
\<close>

record approved_step =
  ap_id :: "string option"
  ap_step :: "string option"
  ap_prompt :: string

record followup_reference =
  fr_id :: string
  fr_version :: int

record dynamic_reference =
  dr_event :: string
  dr_step :: string
  dr_version :: int

record effective_selection =
  es_model :: "string option"
  es_effort :: "string option"
  es_tier :: "string option"

record followup_job =
  fj_id :: string
  fj_scope :: string
  fj_activity :: "string option"
  fj_agent :: "string option"
  fj_request :: string
  fj_approved :: "approved_step list"
  fj_followup :: "followup_reference option"
  fj_relay :: "dynamic_reference option"
  fj_envelope :: "string option"
  fj_created :: "int option"
  fj_principal :: "string option"
  fj_policy :: "string option"
  fj_sandbox :: "string option"
  fj_thread :: "string option"
  fj_selection :: "effective_selection option"

record followup_receipt =
  fc_id :: string
  fc_step :: "string option"
  fc_prompt :: string
  fc_parent :: string
  fc_scope :: string
  fc_activity :: string
  fc_agent :: string
  fc_principal :: "string option"
  fc_policy :: "string option"
  fc_request :: string
  fc_expires :: int
  fc_admitted :: "string option"
  fc_version :: "int option"
  fc_claimed :: "int option"
  fc_dynamic :: "(string \<times> string \<times> string) option"

datatype followup_status = FuPending | FuAdmitted | FuExpired

record followup_view =
  fv_id :: string
  fv_request :: string
  fv_status :: followup_status

datatype followup_error = FuNotApproved | FuConflict | FuOwner | FuReview | FuApprovalConflict | FuEnded | FuRelay

record followup_parent =
  fp_thread :: "string option"
  fp_sandbox :: string
  fp_selection :: "effective_selection option"

record followup_env =
  fe_sha256 :: "string \<Rightarrow> string"
  fe_sha1 :: "string \<Rightarrow> 8 word list"

record followup_world =
  fw_now :: int
  fw_retired :: "string \<Rightarrow> bool"
  fw_gone :: "string \<Rightarrow> bool"
  fw_activity :: "string \<Rightarrow> bool"
  fw_relay :: "string \<Rightarrow> string \<Rightarrow> string option \<Rightarrow> int \<Rightarrow> (string \<times> string) option"
  fw_parent :: "string \<Rightarrow> string \<Rightarrow> int \<Rightarrow> followup_parent option"

record followup_state =
  fs_rows :: "(string \<times> followup_receipt) list"
  fs_cursor :: "string option"

definition approval_lifetime_ms :: int where "approval_lifetime_ms = 7 * 24 * 60 * 60 * 1000"

section \<open>References\<close>

definition prompt_digest :: "followup_env \<Rightarrow> string \<Rightarrow> string" where
  "prompt_digest env p = fe_sha256 env p"

definition approved_followup_digests :: "followup_env \<Rightarrow> string list \<Rightarrow> approved_step list" where
  "approved_followup_digests env ps = map (\<lambda>p. \<lparr>ap_id = None, ap_step = None, ap_prompt = prompt_digest env p\<rparr>) ps"

definition followup_id_for_slot :: "string \<Rightarrow> string \<Rightarrow> string" where
  "followup_id_for_slot job slot = ''fup_'' @ ascii_lower (filter (\<lambda>c. c \<noteq> CHR ''-'') job) @ slot"

definition slot_text :: "nat \<Rightarrow> approved_step \<Rightarrow> string" where
  "slot_text i a = (case ap_step a of None \<Rightarrow> ''codex-mcp-bridge/followup-slot/v2'' @ [CHR 0x00] @ int_text (int i) | Some s \<Rightarrow> s)"

definition issue_one :: "followup_env \<Rightarrow> string \<Rightarrow> nat \<times> approved_step \<Rightarrow> approved_step" where
  "issue_one env job p = (case p of (i, a) \<Rightarrow>
     a\<lparr>ap_id := Some (case ap_id a of Some x \<Rightarrow> if x = '''' then followup_id_for_slot job (fe_sha256 env (slot_text i a)) else x
       | None \<Rightarrow> followup_id_for_slot job (fe_sha256 env (slot_text i a)))\<rparr>)"

definition issue_approved_followups :: "followup_env \<Rightarrow> string \<Rightarrow> approved_step list \<Rightarrow> approved_step list" where
  "issue_approved_followups env job steps = map (issue_one env job) (enumerate 0 steps)"

definition followup_id_pattern :: "string \<Rightarrow> bool" where
  "followup_id_pattern s \<longleftrightarrow> starts_with ''fup_'' s \<and> length s = 100 \<and> list_all is_hex (drop 4 s)"

definition dashed :: "string \<Rightarrow> string" where
  "dashed h = Relay_Delivery.slice 0 8 h @ ''-'' @ Relay_Delivery.slice 8 12 h @ ''-'' @ Relay_Delivery.slice 12 16 h @ ''-'' @ Relay_Delivery.slice 16 20 h @ ''-'' @ drop 20 h"

definition followup_target :: "string \<Rightarrow> (followup_error, string \<times> string) result" where
  "followup_target i = (if \<not> followup_id_pattern i then Inl FuNotApproved else Inr (dashed (Relay_Delivery.slice 4 36 i), drop 36 i))"

definition row_key :: "string \<times> string \<Rightarrow> string" where
  "row_key p = fst p @ ''/'' @ snd p"

definition followup_key :: "string \<Rightarrow> (followup_error, string) result" where
  "followup_key i = res_bind (followup_target i) (\<lambda>p. Inr (row_key p))"

text \<open>A version-1 reference named the parent job and a step.\<close>

definition read_followup_reference :: "followup_env \<Rightarrow> followup_reference + (string \<times> string \<times> int) \<Rightarrow> followup_reference" where
  "read_followup_reference env v = (case v of
     Inl r \<Rightarrow> r
   | Inr (job, step, version) \<Rightarrow> \<lparr>fr_id = followup_id_for_slot job (fe_sha256 env step), fr_version = version\<rparr>)"

definition byte_text :: "8 word \<Rightarrow> string" where
  "byte_text b = [hex_digit (unat b div 16), hex_digit (unat b mod 16)]"

definition followup_identity :: "string \<Rightarrow> string \<Rightarrow> approved_step \<Rightarrow> string" where
  "followup_identity sid job a = (case ap_step a of
     None \<Rightarrow> ''codex-mcp-bridge/followup/v2'' @ [CHR 0x00] @ json_array [json_string sid, json_string job,
       (case ap_id a of None \<Rightarrow> ''null'' | Some i \<Rightarrow> json_string i)]
   | Some s \<Rightarrow> ''codex-mcp-bridge/followup/v1'' @ [CHR 0x00] @ json_array [json_string sid, json_string job, json_string s])"

text \<open>The version and variant bits of a UUID.\<close>

definition uuid_bytes :: "8 word list \<Rightarrow> 8 word list" where
  "uuid_bytes bs = (let bs1 = bs[6 := (bs ! 6 AND 15) OR 0x50] in bs1[8 := (bs1 ! 8 AND 63) OR 0x80])"

definition canonical_request_id :: "followup_env \<Rightarrow> string \<Rightarrow> string \<Rightarrow> approved_step \<Rightarrow> string" where
  "canonical_request_id env sid job a =
     dashed (concat (map byte_text (uuid_bytes (take 16 (fe_sha1 env (followup_identity sid job a))))))"

definition dynamic_identity :: "followup_env \<Rightarrow> string \<Rightarrow> string \<Rightarrow> string \<Rightarrow> (followup_error, string \<times> string) result" where
  "dynamic_identity env sid event step =
     (case relay_event_job_id event of
        Inl _ \<Rightarrow> Inl FuRelay
      | Inr parent \<Rightarrow>
          let i = followup_id_for_slot parent (prompt_digest env (''codex/relay-step/v1'' @ [CHR 0x00] @ event @ [CHR 0x00] @ step)) in
          Inr (i, canonical_request_id env sid parent \<lparr>ap_id = Some i, ap_step = None, ap_prompt = ''''\<rparr>))"

section \<open>Reading\<close>

definition get_followup :: "string \<Rightarrow> followup_state \<Rightarrow> (followup_error, followup_receipt option) result" where
  "get_followup i s =
     res_bind (followup_target i) (\<lambda>p.
       case map_of (fs_rows s) (row_key p) of
         None \<Rightarrow> Inr None
       | Some r \<Rightarrow>
           if fc_parent r \<noteq> fst p \<or> fc_id r \<noteq> '''' \<and> fc_id r \<noteq> i then Inl FuConflict else Inr (Some (r\<lparr>fc_id := i\<rparr>)))"

definition view_status :: "int \<Rightarrow> followup_receipt \<Rightarrow> followup_status" where
  "view_status now r = (if fc_admitted r \<notin> {None, Some ''''} then FuAdmitted else if fc_expires r > now then FuPending else FuExpired)"

text \<open>\<open>listMeta\<close> on a prefix, after a key.\<close>

definition list_rows :: "string \<Rightarrow> nat \<Rightarrow> string option \<Rightarrow> followup_state \<Rightarrow> (string \<times> followup_receipt) list" where
  "list_rows prefix n after s =
     take n (sort_key fst (filter (\<lambda>p. starts_with prefix (fst p) \<and> (case after of None \<Rightarrow> True | Some k \<Rightarrow> k < fst p)) (fs_rows s)))"

definition declared_view :: "followup_env \<Rightarrow> followup_job \<Rightarrow> int \<Rightarrow> followup_state \<Rightarrow> approved_step \<Rightarrow> (followup_error, followup_view) result" where
  "declared_view env j now s a =
     (let i = (case ap_id a of None \<Rightarrow> '''' | Some x \<Rightarrow> x) in
      res_bind (get_followup i s) (\<lambda>r.
        if (case r of None \<Rightarrow> False | Some x \<Rightarrow> fc_scope x \<noteq> fj_scope j \<or> fc_principal x \<noteq> fj_principal j \<or> fc_prompt x \<noteq> ap_prompt a)
        then Inl FuOwner
        else Inr \<lparr>fv_id = i,
          fv_request = (case r of Some x \<Rightarrow> if fc_request x = '''' then canonical_request_id env (fj_scope j) (fj_id j) a else fc_request x
            | None \<Rightarrow> canonical_request_id env (fj_scope j) (fj_id j) a),
          fv_status = (case r of None \<Rightarrow> FuExpired | Some x \<Rightarrow> view_status now x)\<rparr>))"

definition followup_references :: "followup_env \<Rightarrow> followup_job \<Rightarrow> int \<Rightarrow> followup_state \<Rightarrow> (followup_error, followup_view list) result" where
  "followup_references env j now s =
     res_bind (res_mapM (declared_view env j now s) (issue_approved_followups env (fj_id j) (fj_approved j))) (\<lambda>declared.
       let dynamic = map (\<lambda>r. \<lparr>fv_id = fc_id r, fv_request = fc_request r, fv_status = FuAdmitted\<rparr>)
         (filter (\<lambda>r. fc_dynamic r \<noteq> None \<and> fc_scope r = fj_scope j \<and> fc_principal r = fj_principal j)
           (map snd (list_rows (fj_id j @ ''/'') 25 None s))) in
       Inr (take 24 (declared @ dynamic)))"

definition page_row :: "followup_job \<Rightarrow> int \<Rightarrow> followup_receipt \<Rightarrow> (followup_error, followup_view) result" where
  "page_row j now r =
     (if fc_scope r \<noteq> fj_scope j \<or> fc_principal r \<noteq> fj_principal j then Inl FuOwner
      else Inr \<lparr>fv_id = fc_id r, fv_request = fc_request r, fv_status = view_status now r\<rparr>)"

definition followup_page ::
  "followup_job \<Rightarrow> string option \<Rightarrow> int \<Rightarrow> followup_state \<Rightarrow> (followup_error, followup_view list \<times> string option) result" where
  "followup_page j after now s =
     res_bind (case after of
         None \<Rightarrow> Inr None
       | Some a \<Rightarrow> if a = '''' then Inr None else res_bind (followup_target a) (\<lambda>p. if fst p \<noteq> fj_id j then Inl FuOwner else Inr (Some (row_key p))))
       (\<lambda>cursor.
         let rows = list_rows (fj_id j @ ''/'') 25 cursor s in
         res_bind (res_mapM (page_row j now) (map snd (take 24 rows))) (\<lambda>views.
           Inr (views, if length rows > 24 then Some (fv_id (last views)) else None)))"

section \<open>Writing\<close>

text \<open>\<open>setMeta\<close> drops a row that mentions retired work.\<close>

definition receipt_texts :: "followup_receipt \<Rightarrow> string list" where
  "receipt_texts r = [fc_id r, fc_prompt r, fc_parent r, fc_scope r, fc_agent r, fc_request r] @ option_list (fc_step r) @
     option_list (fc_principal r) @ option_list (fc_policy r) @ option_list (fc_admitted r) @
     (case fc_dynamic r of None \<Rightarrow> [] | Some (e, st, p) \<Rightarrow> [e, st, p])"

definition row_refused :: "followup_world \<Rightarrow> string \<Rightarrow> followup_receipt \<Rightarrow> bool" where
  "row_refused w job r \<longleftrightarrow> list_ex (fw_gone w) (receipt_texts r) \<or> \<not> fw_activity w (fc_activity r) \<or> fw_retired w job"

definition set_row :: "followup_world \<Rightarrow> string \<Rightarrow> followup_receipt \<Rightarrow> followup_state \<Rightarrow> (followup_error, followup_state) result" where
  "set_row w i r s =
     res_bind (followup_target i) (\<lambda>p.
       Inr (if row_refused w (fst p) r then s else s\<lparr>fs_rows := AList.update (row_key p) r (fs_rows s)\<rparr>))"

definition present :: "string option \<Rightarrow> bool" where
  "present v \<longleftrightarrow> v \<notin> {None, Some ''''}"

definition admit_dynamic :: "followup_env \<Rightarrow> followup_world \<Rightarrow> followup_job \<Rightarrow> followup_state \<Rightarrow> (followup_error, followup_state) result" where
  "admit_dynamic env w j s =
     (case fj_relay j of
        None \<Rightarrow> Inr s
      | Some d \<Rightarrow>
          res_bind (dynamic_identity env (fj_scope j) (dr_event d) (dr_step d)) (\<lambda>(i, req).
          res_bind (get_followup i s) (\<lambda>receipt.
            if \<not> present (fj_activity j) \<or> \<not> present (fj_agent j) \<or> \<not> present (fj_envelope j) \<or> req \<noteq> fj_request j then Inl FuConflict
            else case receipt of
              Some r \<Rightarrow>
                if fc_scope r \<noteq> fj_scope j \<or> fc_principal r \<noteq> fj_principal j \<or> fc_admitted r \<noteq> Some (fj_id j) \<or>
                   map_option (snd \<circ> snd) (fc_dynamic r) \<noteq> fj_envelope j
                then Inl FuConflict else Inr s
            | None \<Rightarrow>
                (case fw_relay w (dr_event d) (fj_scope j) (fj_principal j) (dr_version d) of
                   None \<Rightarrow> Inl FuRelay
                 | Some (parent, activity) \<Rightarrow>
                     if Some activity \<noteq> fj_activity j then Inl FuOwner
                     else set_row w i \<lparr>fc_id = i, fc_step = None, fc_prompt = '''', fc_parent = parent, fc_scope = fj_scope j,
                       fc_activity = the (fj_activity j), fc_agent = the (fj_agent j), fc_principal = fj_principal j,
                       fc_policy = fj_policy j, fc_request = req, fc_expires = fw_now w, fc_admitted = Some (fj_id j),
                       fc_version = Some (dr_version d), fc_claimed = Some (fw_now w),
                       fc_dynamic = Some (dr_event d, dr_step d, the (fj_envelope j))\<rparr> s))))"

definition truthy_text :: "string option \<Rightarrow> string option" where
  "truthy_text v = (if v = Some '''' then None else v)"

definition same_selection :: "effective_selection \<Rightarrow> effective_selection \<Rightarrow> bool" where
  "same_selection a b \<longleftrightarrow> truthy_text (es_model a) = truthy_text (es_model b) \<and>
     truthy_text (es_effort a) = truthy_text (es_effort b) \<and> truthy_text (es_tier a) = truthy_text (es_tier b)"

definition parent_unchanged :: "followup_job \<Rightarrow> followup_parent option \<Rightarrow> bool" where
  "parent_unchanged j p \<longleftrightarrow> (case p of None \<Rightarrow> False
     | Some x \<Rightarrow> fp_thread x \<noteq> None \<and> fp_thread x = fj_thread j \<and> Some (fp_sandbox x) = fj_sandbox j \<and>
         (case (fj_selection j, fp_selection x) of (Some a, Some b) \<Rightarrow> same_selection b a | _ \<Rightarrow> False))"

definition admit_approved :: "followup_world \<Rightarrow> followup_job \<Rightarrow> followup_state \<Rightarrow> (followup_error, followup_state) result" where
  "admit_approved w j s =
     (case fj_followup j of
        None \<Rightarrow> Inr s
      | Some f \<Rightarrow>
          res_bind (get_followup (fr_id f) s) (\<lambda>receipt.
            case receipt of
              None \<Rightarrow> Inl FuConflict
            | Some r \<Rightarrow>
                if fc_scope r \<noteq> fj_scope j \<or> Some (fc_activity r) \<noteq> fj_activity j \<or> fc_principal r \<noteq> fj_principal j \<or>
                   fc_policy r \<noteq> None \<and> fc_policy r \<noteq> fj_policy j \<or> Some (fc_agent r) \<noteq> fj_agent j \<or> fc_request r \<noteq> fj_request j \<or>
                   present (fc_admitted r) \<and> fc_admitted r \<noteq> Some (fj_id j) \<or>
                   \<not> present (fc_admitted r) \<and> fc_expires r \<le> fw_now w
                then Inl FuConflict
                else if present (fc_admitted r) then Inr s
                else if \<not> parent_unchanged j (fw_parent w (fc_parent r) (fc_scope r) (fr_version f)) then Inl FuReview
                else set_row w (fc_id r) (r\<lparr>fc_admitted := Some (fj_id j), fc_version := Some (fr_version f), fc_claimed := Some (fw_now w)\<rparr>) s))"

definition approve_one :: "followup_env \<Rightarrow> followup_world \<Rightarrow> followup_job \<Rightarrow> approved_step \<Rightarrow> followup_state \<Rightarrow> (followup_error, followup_state) result" where
  "approve_one env w j a s =
     (let i = (case ap_id a of None \<Rightarrow> '''' | Some x \<Rightarrow> x) in
      if \<not> present (fj_activity j) \<or> \<not> present (fj_agent j) then Inl FuOwner
      else res_bind (followup_target i) (\<lambda>p.
        if fst p \<noteq> fj_id j then Inl FuOwner
        else res_bind (get_followup i s) (\<lambda>existing.
          case existing of
            Some r \<Rightarrow> if fc_prompt r \<noteq> ap_prompt a \<or> fc_scope r \<noteq> fj_scope j then Inl FuApprovalConflict else Inr s
          | None \<Rightarrow>
              set_row w i \<lparr>fc_id = i, fc_step = ap_step a, fc_prompt = ap_prompt a, fc_parent = fj_id j, fc_scope = fj_scope j,
                fc_activity = the (fj_activity j), fc_agent = the (fj_agent j), fc_principal = fj_principal j, fc_policy = fj_policy j,
                fc_request = canonical_request_id env (fj_scope j) (fj_id j) a,
                fc_expires = (case fj_created j of None \<Rightarrow> fw_now w | Some c \<Rightarrow> if c = 0 then fw_now w else c) + approval_lifetime_ms,
                fc_admitted = None, fc_version = None, fc_claimed = None, fc_dynamic = None\<rparr> s)))"

definition admit_followups :: "followup_env \<Rightarrow> followup_world \<Rightarrow> followup_job \<Rightarrow> followup_state \<Rightarrow> (followup_error, followup_state) result" where
  "admit_followups env w j s =
     (if fw_retired w (fj_id j) then Inl FuEnded
      else res_bind (admit_dynamic env w j s) (\<lambda>s1.
        res_bind (admit_approved w j s1) (res_fold (approve_one env w j) (issue_approved_followups env (fj_id j) (fj_approved j)))))"

section \<open>Resolving a follow-up request\<close>

text \<open>\<open>resolveApprovedFollowup\<close> of \<open>src/src/tools.ts\<close>: the request that names a follow-up may restate nothing
  else. \<open>fa_restates\<close>: it carries its own approvals, project, selection or summary.\<close>

record followup_args =
  fa_reference :: followup_reference
  fa_prompt :: string
  fa_principal :: "string option"
  fa_restates :: bool
  fa_delivery :: "string option"
  fa_activity :: "(string \<times> string) option"
  fa_agent :: "(string \<times> string \<times> string option) option"

record predecessor =
  pd_scope :: string
  pd_status :: string
  pd_version :: int
  pd_offered :: bool

record request_world =
  rw_now :: int
  rw_events :: bool
  rw_busy :: "string \<Rightarrow> bool"
  rw_replay :: "string \<Rightarrow> bool"
  rw_predecessor :: "string \<Rightarrow> predecessor option"

datatype resolve_error = RsNotApproved | RsReference followup_error | RsScopeChanged | RsRetired | RsConflict | RsReview | RsExpired

record resolved_followup =
  rf_request :: string
  rf_inherited :: "string option"
  rf_delivery :: "string option"
  rf_legacy :: "(string \<times> string) option"
  rf_activity :: string
  rf_agent :: string

definition moves_elsewhere :: "followup_args \<Rightarrow> followup_receipt \<Rightarrow> bool" where
  "moves_elsewhere a r \<longleftrightarrow> fa_restates a \<or> present (fa_delivery a) \<and> fc_policy r \<noteq> Some ''events'' \<or>
     (case fa_activity a of None \<Rightarrow> False | Some (m, i) \<Rightarrow> m \<noteq> ''existing'' \<or> i \<noteq> fc_activity r) \<or>
     (case fa_agent a of None \<Rightarrow> False
      | Some (m, i, ctx) \<Rightarrow> m \<noteq> ''existing'' \<or> i \<noteq> fc_agent r \<or> present ctx \<and> ctx \<noteq> Some ''continue'')"

definition reviewable :: "request_world \<Rightarrow> string \<Rightarrow> int \<Rightarrow> followup_receipt \<Rightarrow> bool" where
  "reviewable w sid version r \<longleftrightarrow> fc_expires r > rw_now w \<and>
     (case rw_predecessor w (fc_parent r) of None \<Rightarrow> False
      | Some p \<Rightarrow> pd_scope p = sid \<and> pd_status p = ''completed'' \<and> pd_version p = version \<and> pd_offered p)"

definition resolve_approved_followup ::
  "followup_env \<Rightarrow> request_world \<Rightarrow> string \<Rightarrow> followup_args \<Rightarrow> followup_state \<Rightarrow> (resolve_error, resolved_followup) result" where
  "resolve_approved_followup env w sid a s =
     (case get_followup (fr_id (fa_reference a)) s of
        Inl e \<Rightarrow> Inl (RsReference e)
      | Inr None \<Rightarrow> Inl RsNotApproved
      | Inr (Some r) \<Rightarrow>
          if fc_scope r \<noteq> sid \<or> fc_principal r \<noteq> fa_principal a \<or> fc_prompt r \<noteq> prompt_digest env (fa_prompt a) then Inl RsNotApproved
          else if moves_elsewhere a r then Inl RsScopeChanged
          else if \<not> present (fc_admitted r) \<and> (fc_policy r = Some ''live-card'' \<or> fc_policy r = Some ''events'' \<and> \<not> rw_events w) then Inl RsRetired
          else if \<not> present (fc_admitted r) \<and> rw_busy w (fc_request r) then Inl RsConflict
          else if \<not> present (fc_admitted r) \<and> \<not> reviewable w sid (fr_version (fa_reference a)) r then Inl RsReview
          else if present (fc_admitted r) \<and> \<not> rw_replay w (fc_request r) then Inl RsExpired
          else Inr \<lparr>rf_request = fc_request r, rf_inherited = fc_policy r,
            rf_delivery = (if fc_policy r = Some ''events'' then Some ''events'' else fa_delivery a),
            rf_legacy = (case fc_step r of None \<Rightarrow> None | Some st \<Rightarrow> Some (fc_parent r, st)),
            rf_activity = fc_activity r, rf_agent = fc_agent r\<rparr>)"

section \<open>Maintenance\<close>

definition disposable :: "int \<Rightarrow> followup_receipt \<Rightarrow> bool" where
  "disposable now r \<longleftrightarrow> \<not> present (fc_admitted r) \<and> fc_expires r \<le> now"

definition gc_page :: nat where "gc_page = 500"

definition maintain_followups :: "int \<Rightarrow> followup_state \<Rightarrow> nat \<times> followup_state" where
  "maintain_followups now s =
     (let rows = list_rows '''' gc_page (fs_cursor s) s;
          bad = map fst (filter (\<lambda>p. disposable now (snd p)) rows) in
      (length bad, \<lparr>fs_rows = filter (\<lambda>p. fst p \<notin> set bad) (fs_rows s),
        fs_cursor = (if length rows = gc_page then Some (fst (last rows)) else None)\<rparr>))"

datatype followup_op = FuAdmit followup_job | FuMaintain | FuRetire "string \<Rightarrow> followup_receipt \<Rightarrow> bool"

fun followup_step :: "followup_env \<Rightarrow> followup_state \<Rightarrow> followup_world \<times> followup_op \<Rightarrow> followup_state" where
  "followup_step env s (w, FuAdmit j) = (case admit_followups env w j s of Inl _ \<Rightarrow> s | Inr s' \<Rightarrow> s')"
| "followup_step env s (w, FuMaintain) = snd (maintain_followups (fw_now w) s)"
| "followup_step env s (w, FuRetire p) = s\<lparr>fs_rows := filter (\<lambda>row. \<not> p (fst row) (snd row)) (fs_rows s)\<rparr>"

definition new_followups :: followup_state where
  "new_followups = \<lparr>fs_rows = [], fs_cursor = None\<rparr>"

end
