(* ===== verification/Followup_Safety.thy ===== *)
theory Followup_Safety
  imports Task_Followups
begin

text \<open>
  What the receipts of follow-ups promise: references name their slot, canonical request ids are UUIDs, a
  follow-up admits one job, an approval does not change while it is open, and maintenance removes every
  expired approval within a bounded number of passes.
\<close>

declare check_Inr_iff [result_simps] present_Inr_iff [result_simps]

section \<open>Rows\<close>

definition rows_ok :: "followup_state \<Rightarrow> bool" where
  "rows_ok s \<longleftrightarrow> distinct (keys (fs_rows s))"

lemma map_of_filter_key: "map_of (filter (\<lambda>p. Q (fst p)) t) k = (if Q k then map_of t k else None)"
  by (induction t) auto

lemma map_of_filter_row:
  "distinct (keys t) \<Longrightarrow> map_of (filter (\<lambda>p. Q (fst p) (snd p)) t) k =
    (case map_of t k of None \<Rightarrow> None | Some r \<Rightarrow> if Q k r then Some r else None)"
proof (induction t)
  case (Cons p t)
  then have "k = fst p \<Longrightarrow> map_of t k = None" by (cases p) (simp add: map_of_None_keys)
  then show ?case using Cons by (cases p) (auto split: option.splits)
qed simp

lemma keys_filter_distinct: "distinct (keys t) \<Longrightarrow> distinct (keys (filter Q t))"
  by (simp add: keys_def distinct_map_filter)

lemma listed_row:
  assumes "rows_ok s" "(k, r) \<in> set (list_rows prefix n after s)"
  shows "map_of (fs_rows s) k = Some r"
proof -
  have "(k, r) \<in> set (fs_rows s)" using assms(2) set_take_subset unfolding list_rows_def by fastforce
  then show ?thesis using assms(1) by (simp add: rows_ok_def keys_def)
qed

text \<open>A write goes to one key, where the reader had found what it was based on.\<close>

lemma set_row_cases:
  assumes "set_row w i r s = Inr s'"
  shows "\<exists>p. followup_target i = Inr p \<and> (s' = s \<or> s' = s\<lparr>fs_rows := AList.update (row_key p) r (fs_rows s)\<rparr>)"
  using assms by (auto simp: set_row_def result_simps)

lemma get_followup_row:
  assumes "get_followup i s = Inr v" "followup_target i = Inr p"
  shows "v = map_option (\<lambda>r. r\<lparr>fc_id := i\<rparr>) (map_of (fs_rows s) (row_key p))"
  using assms by (auto simp: get_followup_def split: option.splits if_splits)

text \<open>What one admission may do to the row at a key: nothing, create it, or name the job it admits.\<close>

definition row_moves :: "followup_job \<Rightarrow> int \<Rightarrow> followup_receipt option \<Rightarrow> followup_receipt option \<Rightarrow> bool" where
  "row_moves j now v v' \<longleftrightarrow> v' = v \<or> v = None \<or>
     (\<exists>r i n t. v = Some r \<and> \<not> present (fc_admitted r) \<and> now < fc_expires r \<and>
       v' = Some (r\<lparr>fc_id := i, fc_admitted := Some (fj_id j), fc_version := Some n, fc_claimed := Some t\<rparr>))"

lemma row_moves_refl [simp]: "row_moves j now v v"
  by (simp add: row_moves_def)

definition admission_moves :: "followup_job \<Rightarrow> int \<Rightarrow> followup_state \<Rightarrow> followup_state \<Rightarrow> bool" where
  "admission_moves j now s s' \<longleftrightarrow> (rows_ok s \<longrightarrow> rows_ok s') \<and> fs_cursor s' = fs_cursor s \<and>
     (\<forall>k. row_moves j now (map_of (fs_rows s) k) (map_of (fs_rows s') k))"

lemma admission_moves_refl [simp]: "admission_moves j now s s"
  by (simp add: admission_moves_def)

lemma create_moves:
  assumes "set_row w i r s = Inr s'" "get_followup i s = Inr None"
  shows "admission_moves j now s s'"
proof -
  obtain p where p: "followup_target i = Inr p"
    "s' = s \<or> s' = s\<lparr>fs_rows := AList.update (row_key p) r (fs_rows s)\<rparr>"
    using set_row_cases [OF assms(1)] by blast
  have "map_of (fs_rows s) (row_key p) = None" using get_followup_row [OF assms(2) p(1)] by simp
  then show ?thesis
    using p(2) by (auto simp: admission_moves_def row_moves_def rows_ok_def map_of_update distinct_keys_update split: if_splits)
qed

lemma dynamic_moves:
  assumes "admit_dynamic env w j s = Inr s'"
  shows "admission_moves j now s s'"
proof (cases "s' = s")
  case False
  then obtain i r where "get_followup i s = Inr None" "set_row w i r s = Inr s'"
    using assms by (auto simp: admit_dynamic_def result_simps split: option.splits if_splits)
  then show ?thesis using create_moves by blast
qed simp

lemma approve_moves:
  assumes "approve_one env w j a s = Inr s'"
  shows "admission_moves j now s s'"
proof (cases "s' = s")
  case False
  then obtain i r where "get_followup i s = Inr None" "set_row w i r s = Inr s'"
    using assms by (auto simp: approve_one_def result_simps Let_def split: option.splits if_splits)
  then show ?thesis using create_moves by blast
qed simp

lemma approved_moves:
  assumes "admit_approved w j s = Inr s'"
  shows "admission_moves j (fw_now w) s s'"
proof (cases "s' = s")
  case False
  obtain f where f: "fj_followup j = Some f" using assms False by (cases "fj_followup j") (simp_all add: admit_approved_def)
  obtain r where r: "get_followup (fr_id f) s = Inr (Some r)"
    using assms by (auto simp: admit_approved_def f res_bind_Inr_iff split: option.splits)
  have "\<not> present (fc_admitted r) \<and> fw_now w < fc_expires r \<and>
    set_row w (fc_id r) (r\<lparr>fc_admitted := Some (fj_id j), fc_version := Some (fr_version f), fc_claimed := Some (fw_now w)\<rparr>) s = Inr s'"
    using assms False unfolding admit_approved_def f option.case r res_bind.simps by (simp split: if_splits)
  with r have g: "get_followup (fr_id f) s = Inr (Some r)" "\<not> present (fc_admitted r)" "fw_now w < fc_expires r"
    "set_row w (fc_id r) (r\<lparr>fc_admitted := Some (fj_id j), fc_version := Some (fr_version f), fc_claimed := Some (fw_now w)\<rparr>) s = Inr s'"
    by simp_all
  then have "fc_id r = fr_id f" by (auto simp: get_followup_def result_simps split: option.splits if_splits)
  then obtain p where p: "followup_target (fr_id f) = Inr p"
    "s' = s\<lparr>fs_rows := AList.update (row_key p)
      (r\<lparr>fc_admitted := Some (fj_id j), fc_version := Some (fr_version f), fc_claimed := Some (fw_now w)\<rparr>) (fs_rows s)\<rparr>"
    using set_row_cases [OF g(4)] False by auto
  then obtain r0 where r0: "map_of (fs_rows s) (row_key p) = Some r0" "r = r0\<lparr>fc_id := fr_id f\<rparr>"
    using get_followup_row [OF g(1)] by (cases "map_of (fs_rows s) (row_key p)") auto
  have "row_moves j (fw_now w) (Some r0)
      (Some (r\<lparr>fc_admitted := Some (fj_id j), fc_version := Some (fr_version f), fc_claimed := Some (fw_now w)\<rparr>))"
    using g(2,3) r0(2) unfolding row_moves_def by auto
  then show ?thesis
    using p(2) r0(1) by (auto simp: admission_moves_def rows_ok_def map_of_update distinct_keys_update)
qed simp

lemma row_moves_trans: "row_moves j now u v \<Longrightarrow> row_moves j now v v' \<Longrightarrow> row_moves j now u v'"
  unfolding row_moves_def by fastforce

lemma admission_moves_trans:
  assumes "admission_moves j now s u" "admission_moves j now u s'"
  shows "admission_moves j now s s'"
  using assms row_moves_trans unfolding admission_moves_def by metis

lemma admit_moves:
  assumes "admit_followups env w j s = Inr s'"
  shows "admission_moves j (fw_now w) s s'"
proof -
  obtain s1 s2 where a: "admit_dynamic env w j s = Inr s1" "admit_approved w j s1 = Inr s2"
    "res_fold (approve_one env w j) (issue_approved_followups env (fj_id j) (fj_approved j)) s2 = Inr s'"
    using assms by (auto simp: admit_followups_def result_simps)
  have "admission_moves j (fw_now w) s s2"
    by (rule admission_moves_trans [OF dynamic_moves [OF a(1)] approved_moves [OF a(2)]])
  moreover have "admission_moves j (fw_now w) s2 s'"
    by (rule res_fold_keeps [OF a(3), where Q = "admission_moves j (fw_now w) s2"])
      (auto intro: admission_moves_trans approve_moves)
  ultimately show ?thesis by (rule admission_moves_trans)
qed

text \<open>A job is admitted under a follow-up only when the receipt is open or already names this very job.\<close>

definition admitted_as :: "string \<Rightarrow> string \<Rightarrow> followup_state \<Rightarrow> bool" where
  "admitted_as k h s \<longleftrightarrow> (case map_of (fs_rows s) k of None \<Rightarrow> False | Some r \<Rightarrow> fc_admitted r = Some h)"

lemma admitted_job:
  assumes "admit_followups env w j s = Inr s'" "fj_followup j = Some f" "fr_id f = i"
    "followup_target i = Inr p" "admitted_as (row_key p) h s" "h \<noteq> ''''"
  shows "fj_id j = h"
proof -
  obtain s1 s2 where a: "admit_dynamic env w j s = Inr s1" "admit_approved w j s1 = Inr s2"
    using assms(1) by (auto simp: admit_followups_def result_simps)
  obtain r1 where r1: "get_followup i s1 = Inr (Some r1)" using a(2) assms(2,3)
    by (auto simp: admit_approved_def res_bind_Inr_iff split: option.splits)
  obtain r where r: "map_of (fs_rows s) (row_key p) = Some r" "fc_admitted r = Some h"
    using assms(5) by (auto simp: admitted_as_def split: option.splits)
  have "row_moves j (fw_now w) (map_of (fs_rows s) (row_key p)) (map_of (fs_rows s1) (row_key p))"
    using dynamic_moves [OF a(1)] unfolding admission_moves_def by blast
  then have "fc_admitted r1 = Some h"
    using get_followup_row [OF r1 assms(4)] r assms(6) by (auto simp: row_moves_def present_def)
  then show ?thesis using a(2) r1 assms(2,3,6) by (auto simp: admit_approved_def res_bind_Inr_iff present_def split: if_splits)
qed

section \<open>Runs\<close>

definition spares :: "string \<Rightarrow> followup_world \<times> followup_op \<Rightarrow> bool" where
  "spares k p \<longleftrightarrow> (case snd p of FuRetire q \<Rightarrow> (\<forall>r. \<not> q k r) | _ \<Rightarrow> True)"

lemma maintain_rows:
  assumes "rows_ok s"
  shows "map_of (fs_rows (snd (maintain_followups now s))) k = map_of (fs_rows s) k \<or>
    map_of (fs_rows (snd (maintain_followups now s))) k = None \<and> (\<exists>r. map_of (fs_rows s) k = Some r \<and> disposable now r)"
  using listed_row [OF assms]
  by (auto simp: maintain_followups_def Let_def map_of_filter_key [of "\<lambda>x. x \<notin> _"])

lemma step_rows_ok: "rows_ok s \<Longrightarrow> rows_ok (followup_step env s p)"
proof -
  assume ok: "rows_ok s"
  obtain w e where p: "p = (w, e)" by (cases p)
  show ?thesis
  proof (cases e)
    case (FuAdmit j)
    then show ?thesis using ok admit_moves [of env w j s] by (auto simp: p admission_moves_def split: sum.splits)
  qed (use ok in \<open>simp_all add: p rows_ok_def maintain_followups_def Let_def keys_filter_distinct\<close>)
qed

interpretation followups: transition_system "followup_step env" "\<lambda>_. True" rows_ok for env
  by unfold_locales (rule step_rows_ok)

lemma new_rows_ok: "rows_ok new_followups"
  by (simp add: rows_ok_def new_followups_def)

lemma reachable_rows_ok: "rows_ok (run (followup_step env) new_followups es)"
  by (rule followups.run_inv [OF new_rows_ok]) (simp add: list_all_iff)

text \<open>The row at a key after a step that spares it.\<close>

lemma step_row:
  assumes "rows_ok s" "spares k p" "map_of (fs_rows s) k = Some r"
  shows "map_of (fs_rows (followup_step env s p)) k = Some r \<or>
    map_of (fs_rows (followup_step env s p)) k = None \<and> disposable (fw_now (fst p)) r \<or>
    (\<exists>j i n t. snd p = FuAdmit j \<and> \<not> present (fc_admitted r) \<and> fw_now (fst p) < fc_expires r \<and>
       map_of (fs_rows (followup_step env s p)) k =
         Some (r\<lparr>fc_id := i, fc_admitted := Some (fj_id j), fc_version := Some n, fc_claimed := Some t\<rparr>))"
proof -
  obtain w e where p: "p = (w, e)" by (cases p)
  show ?thesis
  proof (cases e)
    case (FuAdmit j)
    show ?thesis
    proof (cases "admit_followups env w j s")
      case (Inr s')
      then have "row_moves j (fw_now w) (Some r) (map_of (fs_rows s') k)"
        using admit_moves [OF Inr] assms(3) unfolding admission_moves_def by metis
      then show ?thesis by (auto simp: p FuAdmit Inr row_moves_def)
    qed (simp add: p FuAdmit assms(3))
  next
    case FuMaintain
    then show ?thesis using maintain_rows [OF assms(1), of "fw_now w" k] assms(3) by (auto simp: p)
  next
    case (FuRetire q)
    have "map_of (fs_rows (followup_step env s p)) k = Some r"
      using assms map_of_filter_row [of "fs_rows s" "\<lambda>x y. \<not> q x y" k] by (simp add: p FuRetire spares_def rows_ok_def)
    then show ?thesis by simp
  qed
qed

lemma admitted_run:
  assumes "h \<noteq> ''''"
  shows "rows_ok s \<Longrightarrow> list_all (spares k) es \<Longrightarrow> admitted_as k h s \<Longrightarrow> admitted_as k h (run (followup_step env) s es)"
proof (induction es arbitrary: s)
  case (Cons p es)
  obtain r where r: "map_of (fs_rows s) k = Some r" "fc_admitted r = Some h"
    using Cons.prems(3) by (auto simp: admitted_as_def split: option.splits)
  have "present (fc_admitted r)" using assms r(2) by (simp add: present_def)
  then have "map_of (fs_rows (followup_step env s p)) k = Some r"
    using step_row [OF Cons.prems(1) _ r(1), of p env] Cons.prems(2) by (auto simp: disposable_def)
  then show ?case using Cons.IH [OF step_rows_ok [OF Cons.prems(1)]] Cons.prems(2) r(2) by (simp add: admitted_as_def)
qed simp

definition same_approval :: "followup_receipt \<Rightarrow> followup_receipt \<Rightarrow> bool" where
  "same_approval r r' \<longleftrightarrow> fc_prompt r' = fc_prompt r \<and> fc_parent r' = fc_parent r \<and> fc_scope r' = fc_scope r \<and>
     fc_activity r' = fc_activity r \<and> fc_agent r' = fc_agent r \<and> fc_principal r' = fc_principal r \<and> fc_policy r' = fc_policy r \<and>
     fc_request r' = fc_request r \<and> fc_expires r' = fc_expires r"

lemma approval_run:
  "rows_ok s \<Longrightarrow> map_of (fs_rows s) k = Some r0 \<Longrightarrow> same_approval r r0 \<Longrightarrow> list_all (spares k) es \<Longrightarrow>
   list_all (\<lambda>p. fw_now (fst p) < fc_expires r) es \<Longrightarrow>
   \<exists>r'. map_of (fs_rows (run (followup_step env) s es)) k = Some r' \<and> same_approval r r'"
proof (induction es arbitrary: s r0)
  case (Cons p es)
  have "\<not> disposable (fw_now (fst p)) r0" using Cons.prems(3,5) by (auto simp: disposable_def same_approval_def)
  then obtain r1 where "map_of (fs_rows (followup_step env s p)) k = Some r1" "same_approval r r1"
    using step_row [OF Cons.prems(1) _ Cons.prems(2), of p env] Cons.prems(3,4) by (auto simp: same_approval_def)
  then show ?case using Cons.IH [OF step_rows_ok [OF Cons.prems(1)]] Cons.prems(4,5) by simp
qed simp

section \<open>References and request ids\<close>

lemma hex_no_dash: "list_all is_hex w \<Longrightarrow> filter (\<lambda>c. c \<noteq> CHR ''-'') w = w"
  by (induction w) (auto simp: is_hex_def)

lemma hex_lower: "list_all is_hex w \<Longrightarrow> ascii_lower w = w"
proof (induction w)
  case (Cons c w)
  then have "\<not> (65 \<le> (of_char c :: nat) \<and> (of_char c :: nat) \<le> 90)" by (auto simp: is_hex_def Let_def)
  then show ?case using Cons by (auto simp: ascii_lower_def Let_def)
qed (simp add: ascii_lower_def)

lemma uuid_parts:
  assumes "uuid_text j"
  shows "\<exists>a b c d e. j = a @ ''-'' @ b @ ''-'' @ c @ ''-'' @ d @ ''-'' @ e \<and> length a = 8 \<and> length b = 4 \<and> length c = 4 \<and>
    length d = 4 \<and> length e = 12 \<and> list_all is_hex (a @ b @ c @ d @ e)"
proof -
  obtain a b c d e where p: "split_on (CHR ''-'') j = [a, b, c, d, e]"
    and l: "length a = 8" "length b = 4" "length c = 4" "length d = 4" "length e = 12"
    and x: "list_all is_hex (a @ b @ c @ d @ e)"
    using assms by (auto simp: uuid_text_def Let_def length_Suc_conv map_eq_Cons_conv)
  have "j = a @ ''-'' @ b @ ''-'' @ c @ ''-'' @ d @ ''-'' @ e" using join_split [of "CHR ''-''" j] p by simp
  then show ?thesis using l x by blast
qed

lemma target_of_slot:
  assumes "uuid_text j" "length h = 64" "list_all is_hex h"
  shows "followup_target (followup_id_for_slot j h) = Inr (j, h)"
proof -
  obtain a b c d e where j: "j = a @ ''-'' @ b @ ''-'' @ c @ ''-'' @ d @ ''-'' @ e"
    and l: "length a = 8" "length b = 4" "length c = 4" "length d = 4" "length e = 12" "list_all is_hex (a @ b @ c @ d @ e)"
    using uuid_parts [OF assms(1)] by blast
  have "filter (\<lambda>c. c \<noteq> CHR ''-'') j = a @ b @ c @ d @ e"
    using l(6) by (simp add: j hex_no_dash)
  then have i: "followup_id_for_slot j h = ''fup_'' @ (a @ b @ c @ d @ e) @ h"
    using hex_lower [OF l(6)] by (simp add: followup_id_for_slot_def)
  have "followup_id_pattern (followup_id_for_slot j h)"
    using l assms(2,3) by (simp add: i followup_id_pattern_def starts_with_def)
  moreover have "Relay_Delivery.slice 4 36 (followup_id_for_slot j h) = a @ b @ c @ d @ e" "drop 36 (followup_id_for_slot j h) = h"
    using l by (simp_all add: i Relay_Delivery.slice_def)
  ultimately show ?thesis using l by (simp add: followup_target_def dashed_def Relay_Delivery.slice_def j)
qed

lemma byte_text_hex: "list_all is_hex (byte_text b)" "length (byte_text b) = 2"
proof -
  have "is_hex (hex_digit n)" if "n < 16" for n
    using that by (auto simp: is_hex_def hex_digit_def Let_def)
  moreover have "unat b div 16 < 16"
  proof -
    have "unat b < 2 ^ LENGTH(8)" by (rule unsigned_less)
    then show ?thesis by simp
  qed
  ultimately show "list_all is_hex (byte_text b)" by (simp add: byte_text_def)
qed (simp add: byte_text_def)

lemma byte_texts: "length (concat (map byte_text bs)) = 2 * length bs \<and> list_all is_hex (concat (map byte_text bs))"
  by (induction bs) (simp_all add: byte_text_hex)

lemma split_hex:
  assumes "list_all is_hex w"
  shows "split_on (CHR ''-'') (w @ CHR ''-'' # r) = w # split_on (CHR ''-'') r" "split_on (CHR ''-'') w = [w]"
  using assms by (induction w) (auto simp: is_hex_def Let_def)

lemma dashed_uuid:
  assumes "length w = 32" "list_all is_hex w"
  shows "uuid_text (dashed w)"
proof -
  have part: "list_all is_hex (take a w)" "list_all is_hex (take a (drop b w))" "list_all is_hex (drop b w)" for a b
    using assms(2) by (auto simp: list_all_iff dest: in_set_takeD in_set_dropD)
  have "split_on (CHR ''-'') (dashed w) = [Relay_Delivery.slice 0 8 w, Relay_Delivery.slice 8 12 w, Relay_Delivery.slice 12 16 w,
      Relay_Delivery.slice 16 20 w, drop 20 w]"
    using part by (simp add: dashed_def split_hex Relay_Delivery.slice_def)
  then show ?thesis using assms(1) part by (simp add: uuid_text_def Relay_Delivery.slice_def)
qed

lemma high_nibble: "hd (byte_text w) = hex_digit (unat (drop_bit 4 w))"
  unfolding byte_text_def list.sel unat_drop_bit_eq by (simp add: drop_bit_eq_div)

lemma hex_digits:
  "hex_digit 5 = CHR ''5''" "hex_digit 8 = CHR ''8''" "hex_digit 9 = CHR ''9''" "hex_digit 10 = CHR ''a''" "hex_digit 11 = CHR ''b''"
  by code_simp+

lemma version_byte: "hd (byte_text ((b AND 15) OR 0x50)) = CHR ''5''"
proof -
  have "drop_bit 4 ((b AND 15) OR 0x50) = (5 :: 8 word)" by (simp add: drop_bit_or drop_bit_and)
  then show ?thesis by (simp add: high_nibble hex_digits)
qed

lemma variant_byte: "hd (byte_text ((b AND 63) OR 0x80)) \<in> set ''89ab''"
proof -
  define m where "m = unat (drop_bit 4 b) mod 4"
  have "drop_bit 4 ((b AND 63) OR 0x80) = (drop_bit 4 b AND 3) OR (8 :: 8 word)" by (simp add: drop_bit_or drop_bit_and)
  moreover have "unat (drop_bit 4 b AND (3 :: 8 word)) = m"
    using take_bit_eq_mask [of 2 "unat (drop_bit 4 b)"] by (simp add: m_def unsigned_and_eq mask_eq_exp_minus_1 take_bit_eq_mod)
  ultimately have "unat (drop_bit 4 ((b AND 63) OR 0x80)) = m OR 8" by (simp add: unsigned_or_eq)
  moreover have "m \<in> {0, 1, 2, 3}" unfolding m_def by auto
  ultimately show ?thesis by (auto simp: high_nibble hex_digits)
qed

lemma dashed_at:
  "length w = 32 \<Longrightarrow> dashed w ! 14 = w ! 12" "length w = 32 \<Longrightarrow> dashed w ! 19 = w ! 16"
  by (simp_all add: dashed_def Relay_Delivery.slice_def nth_append nth_Cons')

lemma byte_text_at:
  assumes "n < length bs"
  shows "concat (map byte_text bs) ! (2 * n) = hd (byte_text (bs ! n))"
  using assms
proof (induction bs arbitrary: n)
  case (Cons b bs)
  then show ?case by (cases n) (simp_all add: byte_text_def)
qed simp

lemma uuid_of_bytes:
  assumes "length bs = 16"
  shows "uuid_text (dashed (concat (map byte_text (uuid_bytes bs)))) \<and> length (dashed (concat (map byte_text (uuid_bytes bs)))) = 36 \<and>
    dashed (concat (map byte_text (uuid_bytes bs))) ! 14 = CHR ''5'' \<and>
    dashed (concat (map byte_text (uuid_bytes bs))) ! 19 \<in> set ''89ab''"
proof -
  let ?w = "concat (map byte_text (uuid_bytes bs))"
  have len: "length (uuid_bytes bs) = 16" using assms by (simp add: uuid_bytes_def)
  have w: "length ?w = 32" "list_all is_hex ?w" using byte_texts [of "uuid_bytes bs"] len by simp_all
  have "?w ! 12 = hd (byte_text (uuid_bytes bs ! 6))" "?w ! 16 = hd (byte_text (uuid_bytes bs ! 8))"
    using byte_text_at [of 6 "uuid_bytes bs"] byte_text_at [of 8 "uuid_bytes bs"] len by simp_all
  moreover have "uuid_bytes bs ! 6 = (bs ! 6 AND 15) OR 0x50" "uuid_bytes bs ! 8 = (bs ! 8 AND 63) OR 0x80"
    using assms by (simp_all add: uuid_bytes_def)
  ultimately have "?w ! 12 = CHR ''5''" "?w ! 16 \<in> set ''89ab''" using version_byte variant_byte by presburger+
  moreover have "length (dashed ?w) = 36" using w(1) by (simp add: dashed_def Relay_Delivery.slice_def)
  ultimately show ?thesis using dashed_uuid [OF w] dashed_at [OF w(1)] by presburger
qed

section \<open>Sweeping\<close>

definition beyond :: "string option \<Rightarrow> string \<Rightarrow> bool" where
  "beyond c k \<longleftrightarrow> (case c of None \<Rightarrow> True | Some x \<Rightarrow> x < k)"

definition ahead :: "followup_state \<Rightarrow> (string \<times> followup_receipt) list" where
  "ahead s = sort_key fst (filter (\<lambda>p. beyond (fs_cursor s) (fst p)) (fs_rows s))"

definition sweep :: "followup_state \<Rightarrow> int list \<Rightarrow> followup_state" where
  "sweep s ts = foldl (\<lambda>u t. snd (maintain_followups t u)) s ts"

lemma pass_rows: "list_rows '''' gc_page (fs_cursor s) s = take gc_page (ahead s)"
  by (simp add: list_rows_def ahead_def starts_with_def beyond_def)

lemma sorted_beyond:
  assumes "sorted (map f L)" "distinct (map f L)" "0 < n" "n \<le> length L"
  shows "filter (\<lambda>p. (f (last (take n L)) :: 'k :: linorder) < f p) L = drop n L"
proof -
  have len: "take n L \<noteq> []" using assms(3,4) by auto
  have s: "sorted (map f (take n L @ drop n L))" "distinct (map f (take n L @ drop n L))" using assms(1,2) by simp_all
  have last: "last (take n L) = L ! (n - 1)" using assms(3,4) len by (simp add: last_conv_nth)
  have low: "\<not> f (last (take n L)) < f p" if p: "p \<in> set (take n L)" for p
  proof -
    obtain i where i: "i < n" "p = L ! i" using p assms(4) unfolding in_set_conv_nth by auto
    then have "map f L ! i \<le> map f L ! (n - 1)" using assms(1,4) by (intro sorted_nth_mono) auto
    then show ?thesis using i assms(4) by (simp add: last)
  qed
  have "f (last (take n L)) \<le> f p" "f (last (take n L)) \<noteq> f p" if "p \<in> set (drop n L)" for p
  proof -
    have m: "f (last (take n L)) \<in> f ` set (take n L)" using len by simp
    show "f (last (take n L)) \<le> f p" using s(1) that m unfolding map_append sorted_append by auto
    show "f (last (take n L)) \<noteq> f p" using s(2) that m unfolding map_append distinct_append by (metis disjoint_iff imageI set_map)
  qed
  then have "filter (\<lambda>p. f (last (take n L)) < f p) (drop n L) = drop n L" by (simp add: less_le filter_id_conv)
  moreover have "filter (\<lambda>p. f (last (take n L)) < f p) (take n L) = []" using low by (simp add: filter_empty_conv)
  ultimately show ?thesis by (metis append_Nil append_take_drop_id filter_append)
qed

definition clean :: "int \<Rightarrow> followup_state \<Rightarrow> bool" where
  "clean now s \<longleftrightarrow> (\<forall>p \<in> set (fs_rows s). \<not> disposable now (snd p))"

definition swept :: "int \<Rightarrow> followup_state \<Rightarrow> bool" where
  "swept now s \<longleftrightarrow> (\<forall>p \<in> set (fs_rows s). \<not> beyond (fs_cursor s) (fst p) \<longrightarrow> \<not> disposable now (snd p))"

lemma disposable_mono: "disposable T r \<Longrightarrow> T \<le> t \<Longrightarrow> disposable t r"
  by (auto simp: disposable_def)

lemma ahead_set: "set (ahead s) = {p \<in> set (fs_rows s). beyond (fs_cursor s) (fst p)}"
  by (simp add: ahead_def)

lemma ahead_distinct: "rows_ok s \<Longrightarrow> distinct (map fst (ahead s))"
  by (simp add: ahead_def rows_ok_def keys_def distinct_map distinct_filter inj_on_def)

lemma pass_out:
  "fs_rows (snd (maintain_followups t s)) =
     filter (\<lambda>p. fst p \<notin> fst ` {q \<in> set (take gc_page (ahead s)). disposable t (snd q)}) (fs_rows s)"
  "fs_cursor (snd (maintain_followups t s)) =
     (if gc_page \<le> length (ahead s) then Some (fst (last (take gc_page (ahead s)))) else None)"
  by (auto simp: maintain_followups_def Let_def pass_rows min_def)

lemma row_unique: "rows_ok s \<Longrightarrow> p \<in> set (fs_rows s) \<Longrightarrow> q \<in> set (fs_rows s) \<Longrightarrow> fst p = fst q \<Longrightarrow> p = q"
  by (auto simp: rows_ok_def keys_def distinct_map inj_on_def)

lemma pass_removes:
  assumes "rows_ok s" "p \<in> set (fs_rows (snd (maintain_followups t s)))" "p \<in> set (take gc_page (ahead s))"
  shows "\<not> disposable t (snd p)"
  using assms(2,3) by (auto simp: pass_out)

text \<open>A page either reaches the end, or leaves 500 rows fewer to read and nothing to remove behind it.\<close>

lemma pass_progress:
  assumes "rows_ok s" "gc_page \<le> length (ahead s)"
  shows "length (ahead (snd (maintain_followups t s))) + gc_page = length (ahead s)"
    "p \<in> set (fs_rows s) \<Longrightarrow> beyond (fs_cursor s) (fst p) \<Longrightarrow> \<not> beyond (fs_cursor (snd (maintain_followups t s))) (fst p) \<Longrightarrow>
      p \<in> set (take gc_page (ahead s))"
proof -
  let ?c = "fst (last (take gc_page (ahead s)))"
  have srt: "sorted (map fst (ahead s))" by (simp add: ahead_def)
  have rest: "filter (\<lambda>p. ?c < fst p) (ahead s) = drop gc_page (ahead s)"
    by (rule sorted_beyond [OF srt ahead_distinct [OF assms(1)] _ assms(2)]) (simp add: gc_page_def)
  let ?s = "snd (maintain_followups t s)"
  have cur: "beyond (fs_cursor ?s) k \<longleftrightarrow> ?c < k" for k using assms(2) by (simp add: pass_out beyond_def)
  have c: "beyond (fs_cursor s) ?c"
  proof -
    have "take gc_page (ahead s) \<noteq> []" using assms(2) by (auto simp: gc_page_def)
    then have "last (take gc_page (ahead s)) \<in> set (ahead s)" by (meson in_set_takeD last_in_set)
    then show ?thesis by (simp add: ahead_set)
  qed
  then have trans: "?c < k \<Longrightarrow> beyond (fs_cursor s) k" for k by (auto simp: beyond_def split: option.splits)
  have kept: "fst p \<notin> fst ` {q \<in> set (take gc_page (ahead s)). disposable t (snd q)}" if "?c < fst p" for p :: "string \<times> followup_receipt"
  proof
    assume "fst p \<in> fst ` {q \<in> set (take gc_page (ahead s)). disposable t (snd q)}"
    then obtain q where q: "q \<in> set (take gc_page (ahead s))" "fst q = fst p" by auto
    then have "q \<in> set (filter (\<lambda>p. ?c < fst p) (ahead s))" using that in_set_takeD [OF q(1)] by simp
    then have "q \<in> set (drop gc_page (ahead s))" unfolding rest .
    then have "q \<in> set (take gc_page (ahead s)) \<inter> set (drop gc_page (ahead s))" using q(1) by blast
    moreover have "distinct (ahead s)" using ahead_distinct [OF assms(1)] by (simp add: distinct_map)
    ultimately show False by (metis append_take_drop_id distinct_append empty_iff)
  qed
  have "length (ahead ?s) = length (filter (\<lambda>p. ?c < fst p) (fs_rows ?s))" by (simp add: ahead_def cur)
  also have "filter (\<lambda>p. ?c < fst p) (fs_rows ?s) = filter (\<lambda>p. ?c < fst p) (fs_rows s)"
    unfolding pass_out filter_filter by (rule filter_cong [OF refl]) (use kept in auto)
  also have "\<dots> = filter (\<lambda>p. ?c < fst p) (filter (\<lambda>p. beyond (fs_cursor s) (fst p)) (fs_rows s))"
    unfolding filter_filter by (rule filter_cong [OF refl]) (use trans in auto)
  also have "length \<dots> = length (filter (\<lambda>p. ?c < fst p) (ahead s))"
    unfolding ahead_def by (metis (no_types, lifting) filter_sort length_sort)
  finally show "length (ahead ?s) + gc_page = length (ahead s)" using assms(2) by (simp add: rest)
  show "p \<in> set (take gc_page (ahead s))"
    if "p \<in> set (fs_rows s)" "beyond (fs_cursor s) (fst p)" "\<not> beyond (fs_cursor ?s) (fst p)"
  proof -
    have "p \<in> set (ahead s)" using that(1,2) by (simp add: ahead_set)
    moreover have "p \<notin> set (drop gc_page (ahead s))" using that(3) unfolding rest [symmetric] cur by simp
    ultimately show ?thesis by (metis Un_iff append_take_drop_id set_append)
  qed
qed

lemma pass_ok: "rows_ok s \<Longrightarrow> rows_ok (snd (maintain_followups t s))"
  by (simp add: rows_ok_def pass_out keys_filter_distinct)

lemma pass_size: "length (fs_rows (snd (maintain_followups t s))) \<le> length (fs_rows s)"
  by (simp add: pass_out)

lemma pass_clean: "clean T s \<Longrightarrow> clean T (snd (maintain_followups t s))"
  by (auto simp: clean_def pass_out)

lemma pass_swept:
  assumes "rows_ok s" "swept T s" "T \<le> t"
  shows "if fs_cursor (snd (maintain_followups t s)) = None then clean T (snd (maintain_followups t s))
    else swept T (snd (maintain_followups t s))"
proof -
  let ?s = "snd (maintain_followups t s)"
  have sub: "p \<in> set (fs_rows ?s) \<Longrightarrow> p \<in> set (fs_rows s)" for p by (simp add: pass_out)
  have page: "\<not> disposable T (snd p)" if "p \<in> set (fs_rows ?s)" "p \<in> set (take gc_page (ahead s))" for p
    using pass_removes [OF assms(1) that] disposable_mono [OF _ assms(3)] by blast
  have behind: "\<not> disposable T (snd p)" if "p \<in> set (fs_rows ?s)" "\<not> beyond (fs_cursor s) (fst p)" for p
    using assms(2) sub [OF that(1)] that(2) by (simp add: swept_def)
  show ?thesis
  proof (cases "gc_page \<le> length (ahead s)")
    case True
    have "\<not> disposable T (snd p)" if "p \<in> set (fs_rows ?s)" "\<not> beyond (fs_cursor ?s) (fst p)" for p
      using page [OF that(1)] behind [OF that(1)] pass_progress(2) [OF assms(1) True sub [OF that(1)] _ that(2)] by blast
    then show ?thesis using True by (simp add: swept_def pass_out)
  next
    case False
    have "\<not> disposable T (snd p)" if "p \<in> set (fs_rows ?s)" for p
    proof (cases "beyond (fs_cursor s) (fst p)")
      case True
      then have "p \<in> set (take gc_page (ahead s))" using False sub [OF that] by (simp add: ahead_set)
      then show ?thesis using page that by blast
    qed (use behind that in blast)
    then show ?thesis using False by (simp add: clean_def pass_out)
  qed
qed

lemma sweep_simps [simp]: "sweep s [] = s" "sweep s (t # ts) = sweep (snd (maintain_followups t s)) ts"
  by (simp_all add: sweep_def)

lemma sweep_clean: "clean T s \<Longrightarrow> clean T (sweep s ts)"
  by (induction ts arbitrary: s) (auto intro: pass_clean)

lemma sweep_swept:
  "rows_ok s \<Longrightarrow> swept T s \<Longrightarrow> \<forall>t \<in> set ts. T \<le> t \<Longrightarrow> length (ahead s) < gc_page * length ts \<Longrightarrow> clean T (sweep s ts)"
proof (induction ts arbitrary: s)
  case (Cons t ts)
  let ?s = "snd (maintain_followups t s)"
  show ?case
  proof (cases "gc_page \<le> length (ahead s)")
    case True
    then have "swept T ?s" using pass_swept [OF Cons.prems(1,2), of t] Cons.prems(3) by (simp add: pass_out)
    moreover have "length (ahead ?s) < gc_page * length ts"
      using pass_progress(1) [OF Cons.prems(1) True, of t] Cons.prems(4) by simp
    ultimately show ?thesis using Cons.IH [OF pass_ok [OF Cons.prems(1)]] Cons.prems(3) by simp
  next
    case False
    then have "clean T ?s" using pass_swept [OF Cons.prems(1,2), of t] Cons.prems(3) by (simp add: pass_out)
    then show ?thesis using sweep_clean by simp
  qed
qed simp

lemma ahead_rows: "length (ahead s) \<le> length (fs_rows s)"
  by (simp add: ahead_def)

lemma sweep_any:
  "rows_ok s \<Longrightarrow> \<forall>t \<in> set ts. T \<le> t \<Longrightarrow> length (fs_rows s) < gc_page * m \<Longrightarrow> m \<le> length ts \<Longrightarrow>
   length (ahead s) < gc_page * (length ts - m) \<Longrightarrow> clean T (sweep s ts)"
proof (induction ts arbitrary: s)
  case (Cons t ts)
  let ?s = "snd (maintain_followups t s)"
  have m: "m \<le> length ts" using Cons.prems(4,5) by (cases "m = length (t # ts)") auto
  have rows: "length (fs_rows ?s) < gc_page * m" using pass_size [of t s] Cons.prems(3) by linarith
  show ?case
  proof (cases "gc_page \<le> length (ahead s)")
    case True
    have "length (ahead ?s) < gc_page * (length ts - m)"
      using pass_progress(1) [OF Cons.prems(1) True, of t] Cons.prems(5) m by (simp add: Suc_diff_le)
    then show ?thesis using Cons.IH [OF pass_ok [OF Cons.prems(1)] _ rows m] Cons.prems(2) by simp
  next
    case False
    then have "swept T ?s" by (simp add: swept_def pass_out beyond_def)
    moreover have "length (ahead ?s) < gc_page * length ts"
      using ahead_rows [of ?s] rows m by (meson le_less_trans less_le_trans mult_le_mono2)
    ultimately show ?thesis using sweep_swept [OF pass_ok [OF Cons.prems(1)]] Cons.prems(2) by simp
  qed
qed simp

lemma sweep_rows:
  assumes "rows_ok s" "map_of (fs_rows s) k = Some r" "\<forall>t \<in> set ts. \<not> disposable t r"
  shows "map_of (fs_rows (sweep s ts)) k = Some r"
  using assms
proof (induction ts arbitrary: s)
  case (Cons t ts)
  then have "map_of (fs_rows (snd (maintain_followups t s))) k = Some r" using maintain_rows [OF Cons.prems(1), of t k] by auto
  then show ?case using Cons.IH [OF pass_ok [OF Cons.prems(1)]] Cons.prems(3) by simp
qed simp

section \<open>Properties\<close>


text \<open>While an approval is open it is immutable: whatever happens before it expires, its receipt stays, and its prompt,
  predecessor, scope, Activity, agent, principal, delivery policy, request id and expiry do not change.\<close>

theorem open_approval_immutable:
  assumes "s = run (followup_step env) new_followups es" "map_of (fs_rows s) k = Some r"
    and "list_all (spares k) later" "list_all (\<lambda>p. fw_now (fst p) < fc_expires r) later"
  shows "\<exists>r'. map_of (fs_rows (run (followup_step env) s later)) k = Some r' \<and> fc_prompt r' = fc_prompt r \<and>
    fc_parent r' = fc_parent r \<and> fc_scope r' = fc_scope r \<and> fc_activity r' = fc_activity r \<and> fc_agent r' = fc_agent r \<and>
    fc_principal r' = fc_principal r \<and> fc_policy r' = fc_policy r \<and> fc_request r' = fc_request r \<and> fc_expires r' = fc_expires r"
proof -
  have "rows_ok s" using reachable_rows_ok assms(1) by simp
  then obtain r' where "map_of (fs_rows (run (followup_step env) s later)) k = Some r'" "same_approval r r'"
    using approval_run [OF _ assms(2) _ assms(3,4)] by (auto simp: same_approval_def)
  then show ?thesis by (auto simp: same_approval_def)
qed

text \<open>A request that resolves to a follow-up runs the approved prompt for its owner, in the original Activity and agent,
  under the canonical request id; if the follow-up was not admitted yet, its approval has not expired and its predecessor is
  completed, at the version that was reviewed, with its result offered.\<close>

theorem resolved_followup_is_approved:
  assumes "resolve_approved_followup env w sid a s = Inr v"
  shows "\<exists>r. get_followup (fr_id (fa_reference a)) s = Inr (Some r) \<and> fc_prompt r = prompt_digest env (fa_prompt a) \<and>
    fc_scope r = sid \<and> fc_principal r = fa_principal a \<and> rf_request v = fc_request r \<and> rf_activity v = fc_activity r \<and>
    rf_agent v = fc_agent r \<and> (fc_admitted r \<in> {None, Some ''''} \<longrightarrow> rw_now w < fc_expires r \<and>
      (\<exists>p. rw_predecessor w (fc_parent r) = Some p \<and> pd_status p = ''completed'' \<and>
        pd_version p = fr_version (fa_reference a) \<and> pd_offered p))"
proof -
  obtain r where r: "get_followup (fr_id (fa_reference a)) s = Inr (Some r)"
    using assms by (auto simp: resolve_approved_followup_def split: sum.splits option.splits)
  have "\<not> present (fc_admitted r) \<Longrightarrow> reviewable w sid (fr_version (fa_reference a)) r"
    using assms by (auto simp: resolve_approved_followup_def r split: if_splits)
  moreover have "fc_prompt r = prompt_digest env (fa_prompt a)" "fc_scope r = sid" "fc_principal r = fa_principal a"
    "rf_request v = fc_request r" "rf_activity v = fc_activity r" "rf_agent v = fc_agent r"
    using assms by (auto simp: resolve_approved_followup_def r split: if_splits)
  ultimately show ?thesis using r by (auto simp: reviewable_def present_def split: option.splits)
qed

text \<open>A reference names its predecessor and slot: decoding the reference issued for a job and a slot gives both back.\<close>

theorem followup_reference_roundtrip:
  assumes "uuid_text j" "digest_ok (fe_sha256 env)"
  shows "followup_target (followup_id_for_slot j (fe_sha256 env slot)) = Inr (j, fe_sha256 env slot)"
  using target_of_slot [OF assms(1)] assms(2) by (simp add: digest_ok_def)

text \<open>C30. The canonical request id of a follow-up is a version-5 UUID of the standard variant.\<close>

theorem canonical_request_id_is_uuid:
  assumes "\<forall>x. 16 \<le> length (fe_sha1 env x)"
  shows "let i = canonical_request_id env sid job a in
    uuid_text i \<and> length i = 36 \<and> i ! 14 = CHR ''5'' \<and> i ! 19 \<in> set ''89ab''"
  using uuid_of_bytes [of "take 16 (fe_sha1 env (followup_identity sid job a))"] assms
  by (simp only: canonical_request_id_def Let_def length_take min.absorb2)

text \<open>C29. Maintenance finishes: however many receipts there are and wherever its cursor stands, after twice as many passes
  as there are pages of 500 no approval that had expired without admitting a job is left.\<close>

theorem maintenance_removes_expired:
  assumes "s = run (followup_step env) new_followups es" "\<forall>t \<in> set ts. now \<le> t"
    and "2 * (length (fs_rows s) div 500 + 1) \<le> length ts" "(k, r) \<in> set (fs_rows (sweep s ts))"
  shows "fc_admitted r \<notin> {None, Some ''''} \<or> now < fc_expires r"
proof -
  let ?m = "length (fs_rows s) div 500 + 1"
  have n: "length (fs_rows s) < gc_page * ?m"
    using div_mult_mod_eq [of "length (fs_rows s)" 500] mod_less_divisor [of 500 "length (fs_rows s)"]
    by (simp add: gc_page_def distrib_left mult.commute)
  have "?m \<le> length ts - ?m" using assms(3) by simp
  then have "length (ahead s) < gc_page * (length ts - ?m)"
    using n ahead_rows [of s] mult_le_mono2 [of ?m "length ts - ?m" gc_page] by linarith
  moreover have "rows_ok s" using reachable_rows_ok assms(1) by simp
  moreover have "?m \<le> length ts" using assms(3) by simp
  ultimately have "clean now (sweep s ts)" using sweep_any [OF _ assms(2) n] by blast
  then have "\<not> disposable now r" using assms(4) unfolding clean_def by force
  then show ?thesis by (auto simp: disposable_def present_def)
qed

end
