(* ===== verification/Followup_Witnesses.thy ===== *)
theory Followup_Witnesses
  imports Followup_Safety
begin

text \<open>A concrete run of follow-ups that meets the hypotheses of the properties.\<close>

definition sample_env :: followup_env where
  "sample_env = \<lparr>fe_sha256 = zero_sha, fe_sha1 = (\<lambda>_. replicate 20 0)\<rparr>"

definition sample_world :: "int \<Rightarrow> followup_world" where
  "sample_world now = \<lparr>fw_now = now, fw_retired = (\<lambda>_. False), fw_gone = (\<lambda>_. False), fw_activity = (\<lambda>_. True),
     fw_relay = (\<lambda>_ _ _ _. None),
     fw_parent = (\<lambda>_ _ _. Some \<lparr>fp_thread = Some ''t'', fp_sandbox = ''s'',
       fp_selection = Some \<lparr>es_model = Some ''m'', es_effort = None, es_tier = None\<rparr>\<rparr>)\<rparr>"

definition sample_parent :: followup_job where
  "sample_parent = \<lparr>fj_id = example_jid, fj_scope = ''c'', fj_activity = Some ''a'', fj_agent = Some ''g'', fj_request = ''q'',
     fj_approved = approved_followup_digests sample_env [''next''], fj_followup = None, fj_relay = None, fj_envelope = None,
     fj_created = Some 10, fj_principal = Some ''p'', fj_policy = None, fj_sandbox = Some ''s'', fj_thread = Some ''t'', fj_selection = None\<rparr>"

definition sample_ref :: string where
  "sample_ref = followup_id_for_slot example_jid (fe_sha256 sample_env (slot_text 0 (hd (fj_approved sample_parent))))"

definition sample_request :: string where
  "sample_request = canonical_request_id sample_env ''c'' example_jid
     \<lparr>ap_id = Some sample_ref, ap_step = None, ap_prompt = prompt_digest sample_env ''next''\<rparr>"

definition sample_child :: followup_job where
  "sample_child = \<lparr>fj_id = ''child'', fj_scope = ''c'', fj_activity = Some ''a'', fj_agent = Some ''g'', fj_request = sample_request,
     fj_approved = [], fj_followup = Some \<lparr>fr_id = sample_ref, fr_version = 3\<rparr>, fj_relay = None, fj_envelope = None,
     fj_created = Some 30, fj_principal = Some ''p'', fj_policy = None, fj_sandbox = Some ''s'', fj_thread = Some ''t'',
     fj_selection = Some \<lparr>es_model = Some ''m'', es_effort = None, es_tier = None\<rparr>\<rparr>"

definition sample_start :: "(followup_world \<times> followup_op) list" where
  "sample_start = [(sample_world 20, FuAdmit sample_parent)]"

definition sample_run :: "(followup_world \<times> followup_op) list" where
  "sample_run = sample_start @ [(sample_world 40, FuAdmit sample_child)]"

definition sample_later :: "(followup_world \<times> followup_op) list" where
  "sample_later = [(sample_world 50, FuMaintain), (sample_world 60, FuAdmit sample_parent)]"

definition sample_state :: followup_state where
  "sample_state = run (followup_step sample_env) new_followups sample_run"

definition sample_key :: "string \<times> string" where
  "sample_key = (example_jid, fe_sha256 sample_env ''x'')"

lemma sample_target: "followup_target sample_ref = Inr sample_key"
  by code_simp

lemma sample_receipt:
  "get_followup sample_ref sample_state = Inr (Some (the (projr (get_followup sample_ref sample_state))))"
  "fc_admitted (the (projr (get_followup sample_ref sample_state))) = Some ''child''"
  by code_simp+

lemma sample_spares: "list_all (spares k) sample_later"
  by (simp add: sample_later_def spares_def)

lemma sample_readmission:
  "admit_followups sample_env (sample_world 70) sample_child (run (followup_step sample_env) sample_state sample_later) =
    Inr (run (followup_step sample_env) sample_state sample_later)"
  by code_simp


lemma sample_open:
  "map_of (fs_rows (run (followup_step sample_env) new_followups sample_start)) (row_key sample_key) =
    Some (the (map_of (fs_rows (run (followup_step sample_env) new_followups sample_start)) (row_key sample_key)))"
  "fc_expires (the (map_of (fs_rows (run (followup_step sample_env) new_followups sample_start)) (row_key sample_key))) = 604800010"
  by code_simp+

lemma open_approval_immutable_witness:
  "\<exists>r'. map_of (fs_rows (run (followup_step sample_env) (run (followup_step sample_env) new_followups sample_start) sample_later))
      (row_key sample_key) = Some r' \<and> fc_expires r' = 604800010"
  using open_approval_immutable [OF refl sample_open(1) sample_spares [of "row_key sample_key"]]
  by (simp add: sample_open(2) sample_later_def sample_world_def) blast

lemma followup_reference_roundtrip_witness:
  "followup_target (followup_id_for_slot example_jid (fe_sha256 sample_env ''z'')) = Inr (example_jid, fe_sha256 sample_env ''z'')"
  by (rule followup_reference_roundtrip [OF example_job_id(1)]) (simp add: sample_env_def zero_sha_ok)

lemma canonical_request_id_is_uuid_witness:
  "let i = canonical_request_id sample_env ''c'' example_jid (hd (fj_approved sample_parent)) in
    uuid_text i \<and> length i = 36 \<and> i ! 14 = CHR ''5'' \<and> i ! 19 \<in> set ''89ab''"
  by (rule canonical_request_id_is_uuid) (simp add: sample_env_def)

lemma maintenance_removes_expired_witness:
  "filter (\<lambda>x. fc_admitted (snd x) \<in> {None, Some ''''} \<and> fc_expires (snd x) \<le> 700000000)
     (fs_rows (sweep sample_state [700000000, 700000000])) = []"
proof -
  let ?rows = "fs_rows (sweep sample_state [700000000, 700000000])"
  have n: "length (fs_rows sample_state) = 1" by code_simp
  have "fc_admitted r \<notin> {None, Some ''''} \<or> 700000000 < fc_expires r" if "(k, r) \<in> set ?rows" for k r
    using maintenance_removes_expired [OF sample_state_def _ _ that, of 700000000] n by simp
  then show ?thesis unfolding filter_empty_conv by (metis linorder_not_less prod.collapse)
qed

lemma resolved_followup_is_approved_witness:
  "\<exists>r. get_followup sample_ref sample_state = Inr (Some r) \<and> fc_scope r = ''c''"
proof -
  let ?w = "\<lparr>rw_now = 50, rw_events = False, rw_busy = (\<lambda>_. False), rw_replay = (\<lambda>_. True), rw_predecessor = (\<lambda>_. None)\<rparr>"
  let ?a = "\<lparr>fa_reference = \<lparr>fr_id = sample_ref, fr_version = 3\<rparr>, fa_prompt = ''next'', fa_principal = Some ''p'', fa_restates = False,
    fa_delivery = None, fa_activity = None, fa_agent = None\<rparr>"
  have "\<not> isl (resolve_approved_followup sample_env ?w ''c'' ?a sample_state)" by code_simp
  then have "resolve_approved_followup sample_env ?w ''c'' ?a sample_state =
      Inr (projr (resolve_approved_followup sample_env ?w ''c'' ?a sample_state))" by simp
  from resolved_followup_is_approved [OF this] show ?thesis by auto
qed

end
