(* ===== verification/Live_Registry.thy ===== *)
theory Live_Registry
  imports Cancellation Fair_Queue
begin

text \<open>
  The running registry of jobs: the class \<open>CodexJobRegistry\<close> of \<open>src/src/tools.ts\<close> up to the
  settlement of an execution. A job object is a row of \<open>ls_jobs\<close>, a heap by job id; \<open>ls_index\<close>
  is the \<open>jobs\<close> map, ids in insertion order. An object outlives its entry when retention drops the
  entry of a settled job, because a stop that waits for its worker may still hold the object; it goes
  with its entry where nothing can bring it back: an admission that failed or was discarded was never
  launched, and what reaches a job of a retired project ends at its receipt. Every operation returns its outcome together with the
  new state, since an assignment to an object made before a \<open>throw\<close> stays made: a transaction that
  fails restores the store and nothing else. What the process around the registry decides (the clock,
  random ids, whether SQLite takes a transaction, what the upstream owns) is \<open>live_world\<close>, an argument
  of each operation. Listeners, waiters, diagnostics and the index by Agent are observers and left out.
\<close>

section \<open>Objects\<close>

datatype tracking = Connected | LivenessUnknown | WorkerGone | Orphaned

fun tracking_name :: "tracking \<Rightarrow> string" where
  "tracking_name Connected = ''connected''"
| "tracking_name LivenessUnknown = ''liveness-unknown''"
| "tracking_name WorkerGone = ''worker-lost''"
| "tracking_name Orphaned = ''orphaned''"

text \<open>
  A public event after sanitising. \<open>le_resolved\<close> and \<open>le_interaction\<close> are what its details carry, the
  latter as \<open>readPendingInteraction\<close> reads it; \<open>le_evidence\<close> says that it changes the execution evidence.
\<close>

record live_event =
  le_id :: string
  le_type :: string
  le_phase :: string
  le_resolved :: "string option"
  le_interaction :: "js option"
  le_evidence :: bool
  le_at :: int

record live_job =
  lj_id :: string
  lj_scope :: string
  lj_request :: string
  lj_hash :: string
  lj_hash_version :: int
  lj_activity :: string
  lj_agent :: "string option"
  lj_context :: "context_mode option"
  lj_project :: "(string \<times> string) option"
  lj_project_ref :: "string option"
  lj_keys :: "string list"
  lj_selection :: "string option"
  lj_source :: "string option"
  lj_session :: "string option"
  lj_thread :: "string option"
  lj_cwd :: string
  lj_sandbox :: string
  lj_principal :: "string option"
  lj_policy :: delivery_policy
  lj_backend :: string
  lj_tracking :: tracking
  lj_worker :: "string option"
  lj_generation :: "int option"
  lj_turn :: "string option"
  lj_receipt :: bool
  lj_dispatched :: "bool option"
  lj_status :: job_status
  lj_origin :: "terminal_origin option"
  lj_intent :: "string option"
  lj_requested :: "int option"
  lj_escalated :: bool
  lj_result :: "string option"
  lj_error :: "string option"
  lj_events :: "live_event list"
  lj_input_events :: "live_event list"
  lj_inputs :: "js list"
  lj_created :: int
  lj_updated :: int
  lj_progress :: int
  lj_version :: int

definition active :: "live_job \<Rightarrow> bool" where
  "active j \<longleftrightarrow> is_active_status (lj_status j)"

definition settled :: "live_job \<Rightarrow> bool" where
  "settled j \<longleftrightarrow> is_terminal_status (lj_status j)"

text \<open>The snapshot that is written to the store.\<close>

definition job_input_of :: "live_job \<Rightarrow> job_input" where
  "job_input_of j =
     \<lparr>ji_id = lj_id j, ji_activity = Some (lj_activity j), ji_scope = lj_scope j, ji_request = lj_request j,
      ji_status = job_status_name (lj_status j), ji_thread = lj_thread j, ji_session_thread = lj_session j,
      ji_source = lj_source j, ji_worker = lj_worker j, ji_generation = lj_generation j, ji_turn = lj_turn j,
      ji_terminal_version = None, ji_agent = lj_agent j, ji_context = lj_context j,
      ji_project_id = map_option fst (lj_project j), ji_project_name = map_option snd (lj_project j),
      ji_cwd = Some (lj_cwd j), ji_sandbox = Some (lj_sandbox j), ji_principal = lj_principal j,
      ji_tracking = Some (tracking_name (lj_tracking j)), ji_policy = Some (lj_policy j),
      ji_origin = lj_origin j, ji_intent = lj_intent j, ji_created = Some (lj_created j),
      ji_updated = lj_updated j, ji_version = Some (lj_version j), ji_inputs = lj_inputs j\<rparr>"

section \<open>State\<close>

text \<open>
  What an execution ended with. \<open>to_turn\<close> is the turn status of the result, \<open>to_text\<close> the retained
  body and \<open>to_message\<close> the error text after sanitising; the completion callback records the thread of
  the result in the session decision or throws.
\<close>

datatype callback = CallbackThrows | CallbackRecords "string option"

record tool_outcome =
  to_error :: bool
  to_turn :: "string option"
  to_text :: string
  to_message :: string
  to_callback :: "callback option"

record rejection =
  rj_commit_failed :: bool
  rj_worker_lost :: bool
  rj_text :: string

datatype settlement = Resolved tool_outcome | Rejected rejection

record progress_snapshot =
  ps_job :: string
  ps_key :: string
  ps_version :: int
  ps_updated :: int
  ps_last :: int
  ps_inputs :: "js list"
  ps_event :: "live_event option"

text \<open>
  A termination that waits for the worker: the captured lists of \<open>forceTerminateJob\<close>. \<open>tn_targets\<close> is
  \<open>possibleAffected\<close>, \<open>tn_ending\<close> is \<open>initiallyTerminating\<close>, \<open>tn_requested\<close> the jobs the caller named
  and \<open>tn_intents\<close> is \<open>impactIntentByJobId\<close>, in insertion order.
\<close>

record stop_order =
  tn_intent :: string
  tn_targets :: "string list"
  tn_ending :: "string list"
  tn_requested :: "string list"
  tn_intents :: "(string \<times> string) list"
  tn_interrupt_only :: bool

record live_state =
  ls_jobs :: "(string \<times> live_job) list"
  ls_index :: "string list"
  ls_store :: bridge_state
  ls_deferred :: "(string \<times> settlement) list"
  ls_retrying :: "(string \<times> settlement) list"
  ls_launches :: "(string \<times> bool) list"
  ls_ready :: "(string \<times> bool) list"
  ls_dispatched :: "string list"
  ls_terminations :: "(string \<times> stop_order) list"
  ls_recovering :: "string list"
  ls_protected :: "string list"
  ls_target :: "int option"
  ls_revision :: int
  ls_queue :: "progress_snapshot fair_queue"
  ls_persisted :: "(string \<times> (int \<times> int)) list"
  ls_budget :: nat

record live_config =
  lc_concurrent :: nat
  lc_retained :: nat
  lc_ttl :: int
  lc_recover :: bool
  lc_receipts :: bool
  lc_terminates :: bool
  lc_allowed_cwd :: "string \<Rightarrow> bool"

text \<open>
  Whether SQLite begins and commits the transactions of an operation: \<open>TxBusy\<close> fails at \<open>BEGIN\<close>,
  \<open>TxLost\<close> at \<open>COMMIT\<close>, \<open>TxOpen\<close> is a call inside an open transaction. \<open>lw_tx\<close> answers for the
  transactions of one operation in their order.
\<close>

datatype tx = TxOk | TxBusy | TxLost | TxOpen

record live_world =
  lw_env :: store_env
  lw_now :: int
  lw_tx :: "nat \<Rightarrow> tx"
  lw_job :: string
  lw_intent :: "string \<Rightarrow> string"
  lw_owns :: "(string \<Rightarrow> bool) option"
  lw_auth :: bool
  lw_revision :: int
  lw_identity :: "string \<Rightarrow> (string \<times> string) option"
  lw_protects :: "string \<Rightarrow> bool"

datatype live_error =
    StoreFailed store_error | StoreBusy | TerminalCommitFailed
  | RequestHashReused | RequestEnded | ProjectUseEnded | HandoffWaits | BadActiveLimit nat | TooManyJobs nat
  | ThreadBusy | AgentBusy | SelectionBusy | RetentionCapacity | AuthAdmissionRequired | AdmissionEnded
  | CallbackFailed | OwnerUnavailable | ProvenanceRequired | TerminationInProgress | UnknownLiveJob
  | IntentMoved | VersionMoved | PreciseInterruptionRequired | TargetIntentMoved
  | AcknowledgeAffected "string list" | InterruptionUnconfirmed | StillActive | TerminationFailed
  | InteractionInactive | ForeignInteraction | UnknownInteraction | AnswersRequired | ElicitationRequired
  | DecisionRequired | DecisionUnavailable | RetentionMismatch

type_synonym 'a outcome = "(live_error, 'a) result \<times> live_state"

definition live_bind :: "(live_state \<Rightarrow> 'a outcome) \<Rightarrow> ('a \<Rightarrow> live_state \<Rightarrow> 'b outcome) \<Rightarrow> live_state \<Rightarrow> 'b outcome" where
  "live_bind m f s = (case m s of (Inl e, s') \<Rightarrow> (Inl e, s') | (Inr x, s') \<Rightarrow> f x s')"

definition live_return :: "'a \<Rightarrow> live_state \<Rightarrow> 'a outcome" where
  "live_return x s = (Inr x, s)"

definition live_raise :: "live_error \<Rightarrow> live_state \<Rightarrow> 'a outcome" where
  "live_raise e s = (Inl e, s)"

text \<open>
  \<open>transaction\<close>: an inner one only runs its operation, because there is no savepoint; an outer one that
  fails leaves the store as it was and the objects as the operation left them.
\<close>

definition live_transaction :: "tx \<Rightarrow> (live_state \<Rightarrow> 'a outcome) \<Rightarrow> live_state \<Rightarrow> 'a outcome" where
  "live_transaction t m s =
     (if t = TxOpen then m s
      else if t = TxBusy then (Inl StoreBusy, s)
      else case m s of
        (Inl e, s') \<Rightarrow> (Inl e, s'\<lparr>ls_store := ls_store s\<rparr>)
      | (Inr x, s') \<Rightarrow> if t = TxLost then (Inl StoreBusy, s'\<lparr>ls_store := ls_store s\<rparr>) else (Inr x, s'))"

definition on_store :: "(bridge_state \<Rightarrow> (store_error, bridge_state) result) \<Rightarrow> live_state \<Rightarrow> unit outcome" where
  "on_store f s = (case f (ls_store s) of Inl e \<Rightarrow> (Inl (StoreFailed e), s) | Inr b \<Rightarrow> (Inr (), s\<lparr>ls_store := b\<rparr>))"

definition best_effort :: "(live_state \<Rightarrow> 'a outcome) \<Rightarrow> live_state \<Rightarrow> live_state" where
  "best_effort m s = snd (m s)"

section \<open>The registry\<close>

definition object :: "live_state \<Rightarrow> string \<Rightarrow> live_job option" where
  "object s i = map_of (ls_jobs s) i"

definition put_object :: "live_job \<Rightarrow> live_state \<Rightarrow> live_state" where
  "put_object j s = s\<lparr>ls_jobs := AList.update (lj_id j) j (ls_jobs s)\<rparr>"

text \<open>\<open>Object.assign\<close> to an object the registry has given up changes nothing that is modelled.\<close>

definition assign_object :: "live_job \<Rightarrow> live_state \<Rightarrow> live_state" where
  "assign_object j s = (if object s (lj_id j) = None then s else put_object j s)"

definition lookup_job :: "live_state \<Rightarrow> string \<Rightarrow> live_job option" where
  "lookup_job s i = (if i \<in> set (ls_index s) then object s i else None)"

definition registered :: "live_state \<Rightarrow> live_job list" where
  "registered s = map (\<lambda>i. the (object s i)) (filter (\<lambda>i. object s i \<noteq> None) (ls_index s))"

definition index_job :: "string \<Rightarrow> live_state \<Rightarrow> live_state" where
  "index_job i s = (if i \<in> set (ls_index s) then s else s\<lparr>ls_index := ls_index s @ [i]\<rparr>)"

definition unindex_job :: "string \<Rightarrow> live_state \<Rightarrow> live_state" where
  "unindex_job i s =
     s\<lparr>ls_index := removeAll i (ls_index s), ls_dispatched := removeAll i (ls_dispatched s)\<rparr>"

definition drop_job :: "string \<Rightarrow> live_state \<Rightarrow> live_state" where
  "drop_job i s = (unindex_job i s)\<lparr>ls_jobs := AList.delete i (ls_jobs s)\<rparr>"

definition running_jobs :: "live_state \<Rightarrow> live_job list" where
  "running_jobs s = filter active (registered s)"

definition unqueue :: "(progress_snapshot \<Rightarrow> bool) \<Rightarrow> live_state \<Rightarrow> live_state" where
  "unqueue f s = s\<lparr>ls_queue := snd (remove f (ls_queue s))\<rparr>"

definition note_persisted :: "string \<Rightarrow> int \<Rightarrow> int \<Rightarrow> live_state \<Rightarrow> live_state" where
  "note_persisted i version now s = s\<lparr>ls_persisted := AList.update i (version, now) (ls_persisted s)\<rparr>"

text \<open>\<open>persistJob\<close>. A job of a retired project leaves the registry instead of reaching the store.\<close>

definition persist_job :: "live_world \<Rightarrow> tx \<Rightarrow> live_job \<Rightarrow> live_state \<Rightarrow> unit outcome" where
  "persist_job w t j s =
     (if se_job_retired (lw_env w) (lj_id j) then (Inr (), drop_job (lj_id j) s)
      else live_bind (live_transaction t (on_store (upsert_job (lw_env w) (lw_now w) (job_input_of j))))
        (\<lambda>_ s1. (Inr (), note_persisted (lj_id j) (lj_version j) (lw_now w) (unqueue (\<lambda>q. ps_job q = lj_id j) (index_job (lj_id j) s1)))) s)"

text \<open>\<open>recordChange\<close>: the object is already changed; the write may fail and is then only logged.\<close>

definition record_change :: "live_world \<Rightarrow> tx \<Rightarrow> live_job \<Rightarrow> live_state \<Rightarrow> live_state" where
  "record_change w t j s =
     (let j' = j\<lparr>lj_updated := lw_now w, lj_version := lj_version j + 1\<rparr>
      in best_effort (persist_job w t j') (put_object j' s))"

text \<open>
  \<open>refreshProjectIdentities\<close>, run by \<open>get\<close> and the listings when the project registry has moved: jobs
  of retired projects leave, the others take the project of their Activity.
\<close>

definition discard_launch :: "string \<Rightarrow> live_state \<Rightarrow> live_state" where
  "discard_launch i s = s\<lparr>ls_launches := AList.delete i (ls_launches s)\<rparr>"

definition forget_progress :: "string \<Rightarrow> live_state \<Rightarrow> live_state" where
  "forget_progress i s = (unqueue (\<lambda>q. ps_job q = i) s)\<lparr>ls_persisted := AList.delete i (ls_persisted s)\<rparr>"

definition drop_deferred :: "string \<Rightarrow> live_state \<Rightarrow> live_state" where
  "drop_deferred i s = s\<lparr>ls_deferred := AList.delete i (ls_deferred s)\<rparr>"

definition refresh_job :: "live_world \<Rightarrow> string \<Rightarrow> live_state \<Rightarrow> live_state" where
  "refresh_job w i s =
     (if se_job_retired (lw_env w) i
      then drop_job i (forget_progress i (drop_deferred i (discard_launch i s)))
      else case object s i of
        None \<Rightarrow> s
      | Some j \<Rightarrow> put_object (j\<lparr>lj_project := lw_identity w (lj_activity j)\<rparr>) s)"

definition refresh_projects :: "live_world \<Rightarrow> live_state \<Rightarrow> live_state" where
  "refresh_projects w s =
     (if lw_revision w = ls_revision s then s
      else (fold (refresh_job w) (ls_index s) s)\<lparr>ls_revision := lw_revision w\<rparr>)"

end
