(* ===== verification/Live_Jobs.thy ===== *)
theory Live_Jobs
  imports Live_Registry
begin

text \<open>
  The life of a job in \<open>CodexJobRegistry\<close> (\<open>src/src/tools.ts\<close>): admission, the hand-over to the
  upstream, the worker it is assigned to, its progress, and the settlement of what it ended with.
\<close>

section \<open>Admission\<close>

definition find_request ::
  "store_env \<Rightarrow> string \<Rightarrow> string \<Rightarrow> string \<Rightarrow> live_state \<Rightarrow> (live_error, live_job option) result" where
  "find_request env sid rid hash s =
     (if se_request_retired env ''task'' sid rid then Inl RequestEnded
      else case find (\<lambda>j. lj_scope j = sid \<and> lj_request j = rid) (registered s) of
        None \<Rightarrow> Inr None
      | Some j \<Rightarrow> if 2 \<le> lj_hash_version j \<and> lj_hash j \<noteq> hash then Inl RequestHashReused else Inr (Some j))"

text \<open>
  The fields of the input that the registry does not set are those of \<open>st_job\<close>; \<open>st_defer\<close> and
  \<open>st_prepare\<close> are the last two arguments of \<open>start\<close>.
\<close>

record start_input =
  st_job :: live_job
  st_activity :: "string option"
  st_backend :: "string option"
  st_hash_version :: "int option"
  st_policy :: "delivery_policy option"
  st_limit :: "nat option"
  st_exclusive_selection :: bool
  st_defer :: bool
  st_prepare :: bool

definition reservations :: "live_config \<Rightarrow> live_state \<Rightarrow> nat" where
  "reservations cfg s = min (Suc (lc_retained cfg))
     (length (filter (\<lambda>j. active j \<or> settled j \<and> lj_id j \<notin> set (ls_protected s)) (registered s)))"

definition request_headroom :: "live_config \<Rightarrow> live_state \<Rightarrow> live_state" where
  "request_headroom cfg s =
     (let target = max 0 (int (lc_retained cfg) - 1) in
      s\<lparr>ls_target := Some (min (case ls_target s of None \<Rightarrow> target | Some t \<Rightarrow> t) target)\<rparr>)"

definition conflicting_key :: "string list \<Rightarrow> live_job list \<Rightarrow> string option" where
  "conflicting_key ks running = find (\<lambda>k. list_ex (\<lambda>j. k \<in> set (lj_keys j)) running) ks"

definition key_refusal :: "string list \<Rightarrow> live_job list \<Rightarrow> live_error option" where
  "key_refusal ks running =
     (case conflicting_key ks running of
        None \<Rightarrow> None
      | Some k \<Rightarrow> if starts_with ''thread:'' k then Some ThreadBusy
                  else if starts_with ''agent:'' k then Some AgentBusy else None)"

definition active_limit :: "live_config \<Rightarrow> start_input \<Rightarrow> nat" where
  "active_limit cfg i = (case st_limit i of None \<Rightarrow> lc_concurrent cfg | Some n \<Rightarrow> n)"

definition check_admission :: "live_config \<Rightarrow> live_world \<Rightarrow> start_input \<Rightarrow> live_state \<Rightarrow> (live_error, unit) result" where
  "check_admission cfg w i s =
     (let j = st_job i; running = running_jobs s; limit = active_limit cfg i in
      if (case truthy_string (map_option fst (lj_project j)) of None \<Rightarrow> False
          | Some p \<Rightarrow> \<not> se_project_active (lw_env w) p) then Inl ProjectUseEnded
      else if se_admission_blocked (lw_env w) (truthy_string (lj_agent j)) (or_string (lj_session j) (lj_source j))
      then Inl HandoffWaits
      else if limit < 1 \<or> lc_concurrent cfg < limit then Inl (BadActiveLimit limit)
      else if limit \<le> length running then Inl (TooManyJobs limit)
      else case key_refusal (lj_keys j) running of
        Some e \<Rightarrow> Inl e
      | None \<Rightarrow>
          throw_if (st_exclusive_selection i \<and> truthy_string (lj_selection j) \<noteq> None \<and>
            list_ex (\<lambda>r. lj_selection r = lj_selection j) running) SelectionBusy)"

definition admitted_object :: "live_config \<Rightarrow> live_world \<Rightarrow> start_input \<Rightarrow> live_job" where
  "admitted_object cfg w i =
     (st_job i)\<lparr>lj_id := lw_job w,
       lj_activity := (case truthy_string (st_activity i) of None \<Rightarrow> lw_intent w (lw_job w) | Some a \<Rightarrow> a),
       lj_thread := lj_session (st_job i),
       lj_backend := (case truthy_string (st_backend i) of None \<Rightarrow> ''app-server'' | Some b \<Rightarrow> b),
       lj_tracking := LivenessUnknown,
       lj_hash_version := (case st_hash_version i of None \<Rightarrow> 11 | Some v \<Rightarrow> if v = 0 then 11 else v),
       lj_policy := (case st_policy i of None \<Rightarrow> DirectWait | Some p \<Rightarrow> p),
       lj_receipt := lc_receipts cfg, lj_dispatched := Some False,
       lj_created := lw_now w, lj_updated := lw_now w, lj_progress := lw_now w, lj_version := 1,
       lj_status := JsRunning, lj_events := [], lj_inputs := []\<rparr>"

text \<open>The input cannot carry what the registry alone sets.\<close>

definition blank_input :: "start_input \<Rightarrow> bool" where
  "blank_input i \<longleftrightarrow> (let j = st_job i in
     lj_worker j = None \<and> lj_generation j = None \<and> lj_turn j = None \<and> lj_origin j = None \<and> lj_intent j = None \<and>
     lj_requested j = None \<and> \<not> lj_escalated j \<and> lj_result j = None \<and> lj_error j = None)"

definition launch_job :: "start_input \<Rightarrow> string \<Rightarrow> live_state \<Rightarrow> live_state" where
  "launch_job i jid s =
     (if st_defer i then s\<lparr>ls_launches := AList.update jid (st_prepare i) (ls_launches s)\<rparr>
      else s\<lparr>ls_ready := AList.update jid (st_prepare i) (ls_ready s)\<rparr>)"

text \<open>\<open>start\<close>: the id of the job that answers the request, an earlier one or the one admitted now.\<close>

definition start_job :: "live_config \<Rightarrow> live_world \<Rightarrow> start_input \<Rightarrow> live_state \<Rightarrow> string outcome" where
  "start_job cfg w i s =
     (let t = st_job i in
      case find_request (lw_env w) (lj_scope t) (lj_request t) (lj_hash t) s of
        Inl e \<Rightarrow> (Inl e, s)
      | Inr (Some j) \<Rightarrow> (Inr (lj_id j), s)
      | Inr None \<Rightarrow>
          (case check_admission cfg w i s of
             Inl e \<Rightarrow> (Inl e, s)
           | Inr _ \<Rightarrow>
               if lc_retained cfg \<le> reservations cfg s then (Inl RetentionCapacity, request_headroom cfg s)
               else if \<not> lw_auth w then (Inl AuthAdmissionRequired, s)
               else let j = admitted_object cfg w i in
                 case persist_job w (lw_tx w 0) j (index_job (lj_id j) (put_object j s)) of
                   (Inl e, s1) \<Rightarrow> (Inl e, drop_job (lj_id j) s1)
                 | (Inr _, s1) \<Rightarrow> (Inr (lj_id j), launch_job i (lj_id j) s1)))"

section \<open>Deferred launches\<close>

definition activate_deferred :: "string \<Rightarrow> live_state \<Rightarrow> live_state" where
  "activate_deferred jid s =
     (case map_of (ls_launches s) jid of
        None \<Rightarrow> s
      | Some prepare \<Rightarrow> (discard_launch jid s)\<lparr>ls_ready := AList.update jid prepare (ls_ready s)\<rparr>)"

definition discard_deferred :: "string \<Rightarrow> live_state \<Rightarrow> live_state" where
  "discard_deferred jid s =
     (if map_of (ls_launches s) jid = None then s
      else (drop_job jid (forget_progress jid (drop_deferred jid (discard_launch jid s))))
        \<lparr>ls_protected := removeAll jid (ls_protected s)\<rparr>)"

section \<open>Dispatch and assignment\<close>

text \<open>\<open>assertJobMayExecute\<close>: the durable boundary before the upstream may see the job.\<close>

definition may_execute :: "live_world \<Rightarrow> string \<Rightarrow> live_state \<Rightarrow> unit outcome" where
  "may_execute w jid s =
     (case lookup_job s jid of
        None \<Rightarrow> (Inl AdmissionEnded, s)
      | Some j \<Rightarrow>
          if lj_status j \<noteq> JsRunning then (Inl AdmissionEnded, s)
          else case live_transaction (lw_tx w 0) (\<lambda>s0.
              if (case truthy_string (map_option fst (lj_project j)) of None \<Rightarrow> False
                  | Some p \<Rightarrow> \<not> se_project_active (lw_env w) p) then (Inl ProjectUseEnded, s0)
              else let j' = j\<lparr>lj_dispatched := Some True\<rparr> in persist_job w TxOpen j' (put_object j' s0)) s of
            (Inl e, s1) \<Rightarrow> (Inl e, assign_object (j\<lparr>lj_dispatched := Some False\<rparr>) s1)
          | (Inr _, s1) \<Rightarrow> (Inr (), s1\<lparr>ls_dispatched := List.insert jid (ls_dispatched s1)\<rparr>))"

record assignment =
  an_backend :: string
  an_worker :: string
  an_generation :: int
  an_turn :: "string option"
  an_thread :: "string option"

definition moved_worker :: "live_job \<Rightarrow> assignment \<Rightarrow> bool" where
  "moved_worker j a \<longleftrightarrow> truthy_string (lj_worker j) \<noteq> None \<and>
     (lj_worker j \<noteq> Some (an_worker a) \<or> lj_generation j \<noteq> Some (an_generation a) \<or>
      truthy_string (lj_turn j) \<noteq> None \<and> truthy_string (an_turn a) \<noteq> None \<and> lj_turn j \<noteq> an_turn a)"

definition assigned_object :: "live_world \<Rightarrow> live_job \<Rightarrow> assignment \<Rightarrow> live_job" where
  "assigned_object w j a =
     (let j0 = (if moved_worker j a then j\<lparr>lj_inputs := [], lj_input_events := []\<rparr> else j);
          j1 = j0\<lparr>lj_backend := an_backend a, lj_tracking := Connected, lj_worker := Some (an_worker a),
            lj_generation := Some (an_generation a), lj_turn := an_turn a\<rparr>;
          j2 = (if truthy_string (an_thread a) = None then j1 else j1\<lparr>lj_thread := an_thread a, lj_session := an_thread a\<rparr>)
      in j2\<lparr>lj_updated := lw_now w, lj_version := lj_version j + 1\<rparr>)"

definition record_assignment :: "live_world \<Rightarrow> string \<Rightarrow> assignment \<Rightarrow> live_state \<Rightarrow> unit outcome" where
  "record_assignment w jid a s =
     (case object s jid of
        None \<Rightarrow> (Inr (), s)
      | Some j \<Rightarrow>
          if lj_status j \<notin> {JsRunning, JsTerminationFailed} then (Inr (), s)
          else let j' = assigned_object w j a in persist_job w (lw_tx w 0) j' (put_object j' s))"

text \<open>The guard the execution's own callback adds.\<close>

definition upstream_assigns :: "live_world \<Rightarrow> string \<Rightarrow> assignment \<Rightarrow> live_state \<Rightarrow> unit outcome" where
  "upstream_assigns w jid a s =
     (case object s jid of
        None \<Rightarrow> (Inr (), s)
      | Some j \<Rightarrow> if settled j \<or> se_job_retired (lw_env w) jid then (Inr (), s) else record_assignment w jid a s)"

section \<open>Progress\<close>

record live_progress =
  lp_pending :: "string list option"
  lp_event :: "live_event option"

definition interaction_id :: "js \<Rightarrow> string" where
  "interaction_id v = string_of (jget v ''interactionId'')"

text \<open>\<open>slice(-n)\<close>.\<close>

definition take_last :: "nat \<Rightarrow> 'a list \<Rightarrow> 'a list" where
  "take_last n l = drop (length l - n) l"

definition input_event :: "live_event \<Rightarrow> bool" where
  "input_event e \<longleftrightarrow> le_type e = ''agent-message'' \<and> le_phase e = ''completed'' \<or>
     le_type e = ''input-required'' \<or> le_type e = ''approval-required''"

definition progress_snapshot_of :: "live_job \<Rightarrow> live_event option \<Rightarrow> progress_snapshot" where
  "progress_snapshot_of j e = \<lparr>ps_job = lj_id j,
     ps_key = (case truthy_string (map_option fst (lj_project j)) of
         Some p \<Rightarrow> ''project:'' @ p
       | None \<Rightarrow> (case truthy_string (lj_project_ref j) of Some r \<Rightarrow> ''project-ref:'' @ r | None \<Rightarrow> ''cwd:'' @ lj_cwd j)),
     ps_version = lj_version j, ps_updated = lj_updated j,
     ps_last = lj_progress j, ps_inputs = lj_inputs j, ps_event = e\<rparr>"

definition progress_input_of :: "progress_snapshot \<Rightarrow> progress_input" where
  "progress_input_of q = \<lparr>pg_updated = ps_updated q, pg_last = ps_last q, pg_version = ps_version q, pg_inputs = ps_inputs q\<rparr>"

definition telemetry_of :: "progress_snapshot \<Rightarrow> live_event \<Rightarrow> telemetry_input" where
  "telemetry_of q e =
     \<lparr>tm_type = ''app-'' @ le_type e @ ''-'' @ le_phase e,
      tm_interaction = (le_resolved e \<noteq> None \<or> le_interaction e \<noteq> None), tm_at = le_at e,
      tm_waiting = (if le_type e \<in> {''approval-required'', ''input-required''}
        then if le_phase e = ''waiting'' then Some WaitUser
             else if le_phase e = ''completed'' then Some WaitCodex else None
        else None),
      tm_state = Some (progress_input_of q)\<rparr>"

definition persist_snapshot :: "live_world \<Rightarrow> tx \<Rightarrow> progress_snapshot \<Rightarrow> live_state \<Rightarrow> live_state" where
  "persist_snapshot w t q s =
     best_effort (live_bind (live_transaction t (on_store (case ps_event q of
          Some e \<Rightarrow> record_job_telemetry (lw_env w) (lw_now w) (ps_job q) (telemetry_of q e)
        | None \<Rightarrow> update_job_progress_state (lw_env w) (lw_now w) (ps_job q) (progress_input_of q))))
       (\<lambda>_ s1. (Inr (), note_persisted (ps_job q) (ps_version q) (lw_now w) s1))) s"

definition claim_immediate :: "live_state \<Rightarrow> bool \<times> live_state" where
  "claim_immediate s = (if ls_budget s = 0 then (False, s) else (True, s\<lparr>ls_budget := ls_budget s - 1\<rparr>))"

definition queue_snapshot :: "progress_snapshot \<Rightarrow> live_state \<Rightarrow> live_state" where
  "queue_snapshot q s = s\<lparr>ls_queue := snd (enqueue (ps_key q) q (ls_queue s))\<rparr>"

definition persist_newest :: "live_world \<Rightarrow> progress_snapshot \<Rightarrow> live_state \<Rightarrow> live_state" where
  "persist_newest w q s = persist_snapshot w (lw_tx w 1) q
     (unqueue (\<lambda>p. ps_job p = ps_job q \<and> ps_version p \<le> ps_version q) s)"

definition critical_event :: "live_progress \<Rightarrow> live_event \<Rightarrow> bool" where
  "critical_event p e \<longleftrightarrow> input_event e \<or> lp_pending p \<noteq> None \<or> truthy_string (le_resolved e) \<noteq> None \<or>
     le_interaction e \<noteq> None \<or> le_phase e \<noteq> ''updated'' \<or> le_type e \<in> {''error'', ''warning'', ''usage''}"

text \<open>When a snapshot is written: at once, within the budget of the tick, or through the fair queue.\<close>

definition store_progress :: "live_world \<Rightarrow> bool \<Rightarrow> live_progress \<Rightarrow> live_job \<Rightarrow> live_state \<Rightarrow> live_state" where
  "store_progress w resumed p j s =
     (let q = progress_snapshot_of j (lp_event p) in
      case lp_event p of
        Some e \<Rightarrow>
          (if resumed \<or> critical_event p e then persist_newest w q s
           else case claim_immediate s of (b, s1) \<Rightarrow> if b then persist_newest w q s1 else queue_snapshot q s1)
      | None \<Rightarrow>
          (if resumed then persist_newest w q s
           else if lw_now w - (case map_of (ls_persisted s) (lj_id j) of None \<Rightarrow> lj_created j
               | Some (_, at) \<Rightarrow> if at = 0 then lj_created j else at) < 30000 then s
           else case claim_immediate s of (b, s1) \<Rightarrow>
             if b then persist_newest w q s1
             else queue_snapshot q (unqueue (\<lambda>x. ps_job x = lj_id j \<and> ps_event x = None) s1)))"

definition add_interaction :: "js \<Rightarrow> js list \<Rightarrow> js list" where
  "add_interaction v l = take_last 20 (filter (\<lambda>x. interaction_id x \<noteq> interaction_id v) l @ [v])"

definition drop_interaction :: "string option \<Rightarrow> js list \<Rightarrow> js list" where
  "drop_interaction r l = (case truthy_string r of None \<Rightarrow> l | Some i \<Rightarrow> filter (\<lambda>x. interaction_id x \<noteq> i) l)"

definition absorb_event :: "live_event option \<Rightarrow> live_job \<Rightarrow> live_job" where
  "absorb_event ev j =
     (case ev of
        None \<Rightarrow> j
      | Some e \<Rightarrow>
          j\<lparr>lj_input_events := (if input_event e then take_last 40 (lj_input_events j @ [e]) else lj_input_events j),
            lj_events := take_last 200 (lj_events j @ [e]),
            lj_inputs := (let kept = drop_interaction (le_resolved e) (lj_inputs j) in
              case le_interaction e of None \<Rightarrow> kept | Some v \<Rightarrow> add_interaction v kept)\<rparr>)"

definition keep_pending :: "string list option \<Rightarrow> live_job \<Rightarrow> live_job" where
  "keep_pending ids j = (case ids of None \<Rightarrow> j
     | Some l \<Rightarrow> j\<lparr>lj_inputs := filter (\<lambda>v. interaction_id v \<in> set l) (lj_inputs j)\<rparr>)"

definition resumed_object :: "live_job \<Rightarrow> live_job" where
  "resumed_object j = (if lj_status j = JsTerminationFailed then j\<lparr>lj_status := JsRunning, lj_error := None\<rparr> else j)"

definition known_event :: "live_job \<Rightarrow> live_event option \<Rightarrow> bool" where
  "known_event j ev \<longleftrightarrow> (case ev of None \<Rightarrow> False | Some e \<Rightarrow> le_id e \<in> le_id ` set (lj_events j))"

text \<open>A replayed event is not history again, but the question it carries may be restored.\<close>

definition restore_question :: "live_world \<Rightarrow> live_progress \<Rightarrow> live_job \<Rightarrow> live_state \<Rightarrow> live_state" where
  "restore_question w p j s =
     (case (lp_event p, lp_pending p) of
        (Some e, Some ids) \<Rightarrow>
          (case le_interaction e of
             None \<Rightarrow> s
           | Some v \<Rightarrow>
               if interaction_id v \<in> set ids \<and> \<not> list_ex (\<lambda>x. interaction_id x = interaction_id v) (lj_inputs j)
               then let j' = j\<lparr>lj_inputs := take_last 20 (lj_inputs j @ [v]), lj_updated := lw_now w,
                        lj_version := lj_version j + 1\<rparr>
                 in persist_snapshot w (lw_tx w 1) (progress_snapshot_of j' None) (put_object j' s)
               else s)
      | _ \<Rightarrow> s)"

definition progressed_object :: "live_world \<Rightarrow> live_progress \<Rightarrow> live_job \<Rightarrow> live_job" where
  "progressed_object w p j =
     (let j1 = absorb_event (lp_event p) (keep_pending (lp_pending p) j)
      in j1\<lparr>lj_progress := lw_now w, lj_updated := lw_now w, lj_version := lj_version j + 1\<rparr>)"

definition record_progress :: "live_world \<Rightarrow> string \<Rightarrow> live_progress \<Rightarrow> live_state \<Rightarrow> live_state" where
  "record_progress w jid p s =
     (case object s jid of
        None \<Rightarrow> s
      | Some j \<Rightarrow>
          if lj_status j \<notin> {JsRunning, JsTerminationFailed} then s
          else let resumed = (lj_status j = JsTerminationFailed); j0 = resumed_object j; s0 = put_object j0 s in
            if known_event j0 (lp_event p) then restore_question w p j0 s0
            else let j1 = progressed_object w p j0; s1 = put_object j1 s0;
                s2 = (if (case lp_event p of None \<Rightarrow> False | Some e \<Rightarrow> le_evidence e)
                      then best_effort (persist_job w (lw_tx w 0) j1) s1 else s1)
              in store_progress w resumed p j1 s2)"

text \<open>\<open>persistDeferredProgress\<close>, the work of the fair queue, and one turn of that queue.\<close>

definition persist_deferred :: "live_world \<Rightarrow> progress_snapshot \<Rightarrow> live_state \<Rightarrow> live_state" where
  "persist_deferred w q s =
     (case lookup_job s (ps_job q) of
        None \<Rightarrow> s
      | Some j \<Rightarrow>
          if settled j \<or> se_job_retired (lw_env w) (ps_job q) then s
          else if (case map_of (ls_persisted s) (ps_job q) of None \<Rightarrow> False | Some (v, _) \<Rightarrow> ps_version q \<le> v) then s
          else persist_snapshot w (lw_tx w 1) q s)"

definition queue_turn :: "live_world \<Rightarrow> live_state \<Rightarrow> live_state" where
  "queue_turn w s =
     (if \<not> fq_scheduled (ls_queue s) then s
      else case take_next ((ls_queue s)\<lparr>fq_scheduled := False\<rparr>) of
        (None, q) \<Rightarrow> s\<lparr>ls_queue := fq_schedule q\<rparr>
      | (Some v, q) \<Rightarrow>
          let s1 = persist_deferred w v (s\<lparr>ls_queue := q\<rparr>); q1 = ls_queue s1 in
          s1\<lparr>ls_queue := fq_schedule (q1\<lparr>fq_processed := fq_processed q1 + 1\<rparr>)\<rparr>)"

end
