(* ===== verification/Live_Settlement.thy ===== *)
theory Live_Settlement
  imports Live_Jobs
begin

text \<open>
  How an execution's outcome becomes the terminal state of its job: \<open>settleExecution\<close> and the three
  \<open>settle...Job\<close> methods of \<open>CodexJobRegistry\<close> (\<open>src/src/tools.ts\<close>). An outcome that arrives while the
  job is terminating waits in \<open>ls_deferred\<close>; the outcome of a job with an execution receipt whose
  transaction failed waits in \<open>ls_retrying\<close>, which stands for the loop of \<open>settleExecution\<close> sleeping
  for a second.
\<close>

section \<open>The three ways to settle\<close>

definition may_settle :: "live_job \<Rightarrow> bool" where
  "may_settle j \<longleftrightarrow> lj_status j = JsRunning \<or> lj_status j = JsTerminationFailed"

text \<open>Both transactions of a result run the callback, write the job, and publish it once committed.\<close>

definition settled_session :: "live_job \<Rightarrow> tool_outcome \<Rightarrow> string option" where
  "settled_session j r = (case to_callback r of Some (CallbackRecords t) \<Rightarrow> t | _ \<Rightarrow> lj_session j)"

definition commit_settlement :: "live_world \<Rightarrow> tx \<Rightarrow> bool \<Rightarrow> live_job \<Rightarrow> live_state \<Rightarrow> unit outcome" where
  "commit_settlement w t callback_throws c s =
     (case live_transaction t (\<lambda>s0. if callback_throws then (Inl CallbackFailed, s0) else persist_job w TxOpen c s0) s of
        (Inl e, s1) \<Rightarrow> (Inl TerminalCommitFailed, s1)
      | (Inr _, s1) \<Rightarrow> (Inr (), assign_object c s1))"

definition upstream_error_object :: "live_world \<Rightarrow> live_job \<Rightarrow> tool_outcome \<Rightarrow> live_job" where
  "upstream_error_object w j r =
     j\<lparr>lj_session := settled_session j r, lj_thread := settled_session j r, lj_status := JsFailed,
       lj_origin := Some UpstreamFailure, lj_intent := None, lj_result := Some (to_text r), lj_inputs := [],
       lj_error := Some (take 4000 (to_message r)), lj_updated := lw_now w, lj_version := lj_version j + 1\<rparr>"

definition resolved_object :: "live_world \<Rightarrow> live_job \<Rightarrow> tool_outcome \<Rightarrow> live_job" where
  "resolved_object w j r =
     (let interrupted = (to_turn r = Some ''interrupted'') in
      j\<lparr>lj_session := settled_session j r, lj_thread := settled_session j r,
        lj_status := (if interrupted then JsInterrupted else JsCompleted),
        lj_origin := Some (if interrupted then AppServerInterrupted else NormalCompletion), lj_intent := None,
        lj_result := Some (to_text r), lj_inputs := [],
        lj_error := (if interrupted then Some ''The Codex App Server turn was interrupted before normal completion.'' else None),
        lj_updated := lw_now w, lj_version := lj_version j + 1\<rparr>)"

definition callback_throws :: "tool_outcome \<Rightarrow> bool" where
  "callback_throws r \<longleftrightarrow> to_callback r = Some CallbackThrows"

definition settle_resolved :: "live_world \<Rightarrow> tx \<Rightarrow> live_job \<Rightarrow> tool_outcome \<Rightarrow> live_state \<Rightarrow> unit outcome" where
  "settle_resolved w t j r s =
     (if \<not> may_settle j then (Inr (), s)
      else commit_settlement w t (callback_throws r)
        (if to_turn r \<noteq> Some ''interrupted'' \<and> to_error r then upstream_error_object w j r else resolved_object w j r) s)"

definition rejected_object :: "live_world \<Rightarrow> live_job \<Rightarrow> rejection \<Rightarrow> live_job" where
  "rejected_object w j e =
     j\<lparr>lj_status := (if rj_worker_lost e then JsInterrupted else JsFailed),
       lj_origin := (if rj_commit_failed e then None else Some (if rj_worker_lost e then WorkerLoss else UpstreamFailure)),
       lj_tracking := (if rj_worker_lost e then WorkerGone else lj_tracking j), lj_intent := None,
       lj_result := None, lj_inputs := [], lj_error := Some (take 4000 (rj_text e)),
       lj_updated := lw_now w, lj_version := lj_version j + 1\<rparr>"

definition commit_failure_object :: "live_world \<Rightarrow> live_job \<Rightarrow> live_job" where
  "commit_failure_object w j =
     j\<lparr>lj_status := JsFailed, lj_origin := None, lj_intent := None, lj_result := None, lj_inputs := [],
       lj_error := Some ''BRIDGE_TERMINAL_COMMIT_FAILED'', lj_updated := lw_now w, lj_version := lj_version j + 1\<rparr>"

text \<open>
  A rejection that cannot be committed is retried when the owner keeps the outcome; otherwise the job
  ends with the commit failure, and if that cannot be committed either it stays as it is.
\<close>

definition settle_rejected :: "live_world \<Rightarrow> tx \<Rightarrow> tx \<Rightarrow> live_job \<Rightarrow> rejection \<Rightarrow> live_state \<Rightarrow> unit outcome" where
  "settle_rejected w t t' j e s =
     (if \<not> may_settle j then (Inr (), s)
      else let c = rejected_object w j e in
        case live_transaction t (persist_job w TxOpen c) s of
          (Inr _, s1) \<Rightarrow> (Inr (), assign_object c s1)
        | (Inl _, s1) \<Rightarrow>
            if lj_receipt j then (Inl TerminalCommitFailed, s1)
            else let f = commit_failure_object w j in
              case live_transaction t' (persist_job w TxOpen f) s1 of
                (Inr _, s2) \<Rightarrow> (Inr (), assign_object f s2)
              | (Inl _, s2) \<Rightarrow> (Inr (), s2))"

section \<open>The settlement of an execution\<close>

definition retry_later :: "string \<Rightarrow> settlement \<Rightarrow> live_state \<Rightarrow> live_state" where
  "retry_later jid o' s = s\<lparr>ls_retrying := AList.update jid o' (ls_retrying s)\<rparr>"

definition drop_retry :: "string \<Rightarrow> live_state \<Rightarrow> live_state" where
  "drop_retry jid s = s\<lparr>ls_retrying := AList.delete jid (ls_retrying s)\<rparr>"

definition commit_rejection :: rejection where
  "commit_rejection = \<lparr>rj_commit_failed = True, rj_worker_lost = False, rj_text = ''BRIDGE_TERMINAL_COMMIT_FAILED''\<rparr>"

definition defer_settlement :: "string \<Rightarrow> settlement \<Rightarrow> live_state \<Rightarrow> live_state" where
  "defer_settlement jid o' s = s\<lparr>ls_deferred := AList.update jid o' (ls_deferred s)\<rparr>"

text \<open>
  One round of \<open>settleExecution\<close> on the job as it is now, and the \<open>catch\<close> that every caller attaches:
  a failed commit without a receipt settles the job again, as a rejection. \<open>k\<close> is the first of the
  three transactions the round may need.
\<close>

definition settle_rejection :: "live_world \<Rightarrow> nat \<Rightarrow> live_job \<Rightarrow> rejection \<Rightarrow> live_state \<Rightarrow> live_state" where
  "settle_rejection w k j e s =
     (case settle_rejected w (lw_tx w k) (lw_tx w (k + 1)) j e s of
        (Inr _, s1) \<Rightarrow> s1
      | (Inl _, s1) \<Rightarrow> retry_later (lj_id j) (Rejected e) s1)"

definition settle_execution :: "live_world \<Rightarrow> nat \<Rightarrow> string \<Rightarrow> settlement \<Rightarrow> live_state \<Rightarrow> live_state" where
  "settle_execution w k jid o' s =
     (case object s jid of
        None \<Rightarrow> s
      | Some j \<Rightarrow>
          if lj_status j = JsTerminating then defer_settlement jid o' s
          else case o' of
            Rejected e \<Rightarrow> settle_rejection w k j e s
          | Resolved r \<Rightarrow>
              (case settle_resolved w (lw_tx w k) j r s of
                 (Inr _, s1) \<Rightarrow> s1
               | (Inl _, s1) \<Rightarrow>
                   if lj_receipt j then retry_later jid o' s1 else settle_rejection w (k + 1) j commit_rejection s1))"

definition retry_settlement :: "live_world \<Rightarrow> string \<Rightarrow> live_state \<Rightarrow> live_state" where
  "retry_settlement w jid s =
     (case map_of (ls_retrying s) jid of
        None \<Rightarrow> s
      | Some o' \<Rightarrow> settle_execution w 0 jid o' (drop_retry jid s))"

definition flush_deferred :: "live_world \<Rightarrow> nat \<Rightarrow> string \<Rightarrow> live_state \<Rightarrow> live_state" where
  "flush_deferred w k jid s =
     (case map_of (ls_deferred s) jid of
        None \<Rightarrow> s
      | Some o' \<Rightarrow> settle_execution w k jid o' (drop_deferred jid s))"

section \<open>The turn that runs a launched job\<close>

text \<open>
  The first microtask of \<open>execute\<close>: without \<open>prepareExecution\<close> the durable boundary, with it only the
  checks, because the prepared execution calls \<open>assertJobMayExecute\<close> itself. A refusal is the
  execution's rejection. The answer says whether the upstream is called.
\<close>

definition admission_rejection :: rejection where
  "admission_rejection = \<lparr>rj_commit_failed = False, rj_worker_lost = False, rj_text = ''PROJECT_MANAGEMENT_ENDED''\<rparr>"

definition prepare_execution :: "live_world \<Rightarrow> live_job \<Rightarrow> live_state \<Rightarrow> unit outcome" where
  "prepare_execution w j s =
     (if lj_status j \<noteq> JsRunning then (Inl AdmissionEnded, s)
      else case truthy_string (map_option fst (lj_project j)) of
        None \<Rightarrow> (Inr (), s)
      | Some p \<Rightarrow> if se_project_active (lw_env w) p then (Inr (), s) else (Inl ProjectUseEnded, s))"

definition execute_job :: "live_world \<Rightarrow> string \<Rightarrow> live_state \<Rightarrow> bool \<times> live_state" where
  "execute_job w jid s =
     (case (map_of (ls_ready s) jid, object s jid) of
        (Some prepare, Some j) \<Rightarrow>
          (let s0 = s\<lparr>ls_ready := AList.delete jid (ls_ready s)\<rparr> in
           case (if prepare then prepare_execution w j s0 else may_execute w jid s0) of
             (Inr _, s1) \<Rightarrow> (True, s1)
           | (Inl _, s1) \<Rightarrow> (False, settle_execution w 1 jid (Rejected admission_rejection) s1))
      | _ \<Rightarrow> (False, s))"

end
