(* ===== verification/Live_Stops.thy ===== *)
theory Live_Stops
  imports Live_Settlement "HOL-Library.List_Lexorder" "HOL-Library.Char_ord"
begin

text \<open>
  Stopping a running job: \<open>cancel\<close> and \<open>forceTerminateJob\<close> of \<open>CodexJobRegistry\<close> (\<open>src/src/tools.ts\<close>),
  cut at the \<open>await\<close> of the worker. What the first half captured for the second is a \<open>stop_order\<close> in
  \<open>ls_terminations\<close>; any other operation may run in between.
\<close>

section \<open>Who may be stopped\<close>

text \<open>\<open>jobAssignment\<close> and \<open>assertOriginalJobControl\<close>: the exact live request must still be there.\<close>

definition has_assignment :: "live_job \<Rightarrow> bool" where
  "has_assignment j \<longleftrightarrow> lj_backend j \<in> {''mcp-server'', ''app-server'', ''codex-sdk''} \<and> truthy_string (lj_worker j) \<noteq> None \<and> lj_generation j \<noteq> None \<and>
     truthy_string (lj_turn j) \<noteq> None \<and> truthy_string (lj_thread j) \<noteq> None"

definition control_lost :: "live_world \<Rightarrow> live_job \<Rightarrow> bool" where
  "control_lost w j \<longleftrightarrow> active j \<and>
     (case lw_owns w of None \<Rightarrow> False
      | Some owns \<Rightarrow> \<not> (lj_tracking j = Connected \<and> has_assignment j \<and> owns (lj_id j)))"

definition precise :: "live_job \<Rightarrow> bool" where
  "precise j \<longleftrightarrow> lj_backend j = ''app-server''"

definition jobs_for_worker :: "live_job \<Rightarrow> live_state \<Rightarrow> live_job list" where
  "jobs_for_worker j s =
     (if truthy_string (lj_worker j) = None \<or> lj_generation j = None then [j]
      else filter (\<lambda>c. active c \<and> lj_backend c = lj_backend j \<and> lj_worker c = lj_worker j \<and>
        lj_generation c = lj_generation j) (registered s))"

text \<open>\<open>assertCancellationIntentForJob\<close>.\<close>

definition intent_for_job :: "string \<Rightarrow> string \<Rightarrow> live_state \<Rightarrow> (live_error, intent_row) result" where
  "intent_for_job jid x s =
     (case map_of (bs_intents (ls_store s)) x of
        None \<Rightarrow> Inl ProvenanceRequired
      | Some r \<Rightarrow>
          if tg_kind (cn_target r) = TargetJob \<and> tg_job (cn_target r) = Some jid \<and>
            it_status r \<in> {IntentRecorded, IntentDispatched}
          then Inr r else Inl ProvenanceRequired)"

text \<open>\<open>terminationImpact\<close>.\<close>

definition termination_impact :: "string \<Rightarrow> live_state \<Rightarrow> (live_error, string list) result" where
  "termination_impact jid s =
     (case lookup_job s jid of
        None \<Rightarrow> Inl UnknownLiveJob
      | Some j \<Rightarrow> Inr (if active j then map lj_id (jobs_for_worker j s) else [jid]))"

record stop_options =
  so_interrupt_only :: bool
  so_acknowledged :: "string list"
  so_requested :: "(string \<times> string) list"

text \<open>\<open>so_requested\<close> lists the further intents the caller passes, each with the job it targets.\<close>

section \<open>The impact of a stop\<close>

definition requested_intent ::
  "intent_row \<Rightarrow> string list \<Rightarrow> string \<Rightarrow> string \<Rightarrow> live_state \<Rightarrow> (live_error, unit) result" where
  "requested_intent primary affected jid x s =
     res_bind (intent_for_job jid x s) (\<lambda>r.
       case lookup_job s jid of
         None \<Rightarrow> Inl TargetIntentMoved
       | Some j \<Rightarrow> throw_if (jid \<notin> set affected \<or> cn_scope r \<noteq> cn_scope primary \<or> cn_request r \<noteq> cn_request primary \<or>
           it_cascade r \<noteq> it_cascade primary \<or> cn_expected r \<noteq> lj_version j) TargetIntentMoved)"

fun requested_intents ::
  "intent_row \<Rightarrow> string list \<Rightarrow> live_state \<Rightarrow> (string \<times> string) list \<Rightarrow> (string \<times> string) list \<Rightarrow>
   (live_error, (string \<times> string) list) result" where
  "requested_intents primary affected s [] acc = Inr acc"
| "requested_intents primary affected s ((jid, x) # rest) acc =
     (if map_of acc jid \<noteq> None then requested_intents primary affected s rest acc
      else res_bind (requested_intent primary affected jid x s) (\<lambda>_.
        requested_intents primary affected s rest (acc @ [(jid, x)])))"

text \<open>The request behind a containment intent for another job of the same worker.\<close>

definition containment_request :: "live_world \<Rightarrow> intent_row \<Rightarrow> live_job \<Rightarrow> cancel_request" where
  "containment_request w primary j =
     \<lparr>cr_scope = cn_scope primary, cr_request = cn_request primary, cr_source = ''assignment-containment'',
      cr_tool = cn_tool primary, cr_action = ''interrupt-shared-worker'', cr_target_kind = ''job'',
      cr_target_job = Some (lj_id j), cr_target_activity = lj_activity j, cr_target_agent = lj_agent j,
      cr_target_thread = lj_thread j, cr_target_turn = (if precise j then lj_turn j else None),
      cr_target_presentation = None, cr_expected = lj_version j,
      cr_presentation = (case cn_presentation primary of None \<Rightarrow> None
        | Some None \<Rightarrow> Some (''explicit'', None) | Some (Some p) \<Rightarrow> Some (''automatic'', Some p)),
      cr_widget = cn_widget primary, cr_caller_digest = cn_caller_digest primary,
      cr_reason_code = ''shared-worker-containment'', cr_now = lw_now w\<rparr>"

fun contain_jobs ::
  "live_world \<Rightarrow> nat \<Rightarrow> string \<Rightarrow> intent_row \<Rightarrow> live_job list \<Rightarrow> (string \<times> string) list \<Rightarrow> live_state \<Rightarrow>
   (string \<times> string) list outcome" where
  "contain_jobs w k x primary [] acc s = (Inr acc, s)"
| "contain_jobs w k x primary (j # js) acc s =
     (if map_of acc (lj_id j) \<noteq> None then contain_jobs w k x primary js acc s
      else if control_lost w j then (Inl OwnerUnavailable, s)
      else let y = lw_intent w (lj_id j) in
        case live_transaction (lw_tx w k) (on_store (create_cancellation_intent (lw_env w)
            (containment_request w primary j) x (it_cascade primary) y)) s of
          (Inl e, s1) \<Rightarrow> (Inl e, s1)
        | (Inr _, s1) \<Rightarrow> contain_jobs w (k + 1) x primary js (acc @ [(lj_id j, y)]) s1)"

section \<open>The first half\<close>

definition intent_status :: "tx \<Rightarrow> live_world \<Rightarrow> string \<Rightarrow> intent_status \<Rightarrow> live_state \<Rightarrow> unit outcome" where
  "intent_status t w x st = live_transaction t (on_store (set_cancellation_intent_status x st (lw_now w)))"

definition terminating_object :: "live_world \<Rightarrow> string \<Rightarrow> live_job \<Rightarrow> live_job" where
  "terminating_object w x j =
     j\<lparr>lj_status := JsTerminating,
       lj_requested := Some (case lj_requested j of None \<Rightarrow> lw_now w | Some t \<Rightarrow> if t = 0 then lw_now w else t),
       lj_intent := Some x, lj_origin := None, lj_error := Some ''force-stop''\<rparr>"

text \<open>Change the objects of a list one by one; each needs its intent in the captured map.\<close>

fun change_jobs ::
  "live_world \<Rightarrow> (string \<times> string) list \<Rightarrow> (string \<Rightarrow> live_job \<Rightarrow> live_job) \<Rightarrow> string list \<Rightarrow> live_state \<Rightarrow> unit outcome" where
  "change_jobs w intents f [] s = (Inr (), s)"
| "change_jobs w intents f (i # is) s =
     (case map_of intents i of
        None \<Rightarrow> (Inl ProvenanceRequired, s)
      | Some x \<Rightarrow>
          (case object s i of
             None \<Rightarrow> change_jobs w intents f is s
           | Some j \<Rightarrow> change_jobs w intents f is (record_change w TxOpen (f x j) s)))"

fun dispatch_intents :: "live_world \<Rightarrow> bridge_state \<Rightarrow> (string \<times> string) list \<Rightarrow> live_state \<Rightarrow> unit outcome" where
  "dispatch_intents w before [] s = (Inr (), s)"
| "dispatch_intents w before ((i, x) # rest) s =
     (if map_option it_status (map_of (bs_intents before) x) = Some IntentRecorded
      then live_bind (intent_status TxOpen w x IntentDispatched) (\<lambda>_. dispatch_intents w before rest) s
      else dispatch_intents w before rest s)"

datatype stop_begun = StopWaits | StopSettled | StopImpossible | StopJoined

definition impossible_object :: "live_world \<Rightarrow> string \<Rightarrow> live_job \<Rightarrow> live_job" where
  "impossible_object w x j =
     j\<lparr>lj_status := JsTerminationFailed,
       lj_requested := Some (case lj_requested j of None \<Rightarrow> lw_now w | Some t \<Rightarrow> if t = 0 then lw_now w else t),
       lj_intent := Some x,
       lj_error := Some ''The bridge cannot identify a supervised worker process for this Codex job.''\<rparr>"

definition begin_termination ::
  "live_world \<Rightarrow> string \<Rightarrow> stop_order \<Rightarrow> live_state \<Rightarrow> stop_begun outcome" where
  "begin_termination w jid n s =
     live_bind (live_transaction (lw_tx w 0)
         (live_bind (change_jobs w (tn_intents n) (terminating_object w) (tn_ending n))
           (\<lambda>_. dispatch_intents w (ls_store s) (tn_intents n))))
       (\<lambda>_ s1. (Inr StopWaits, s1\<lparr>ls_terminations := AList.update jid n (ls_terminations s1)\<rparr>)) s"

definition stop_worker ::
  "live_world \<Rightarrow> string \<Rightarrow> intent_row \<Rightarrow> stop_options \<Rightarrow> live_job \<Rightarrow> live_state \<Rightarrow> stop_begun outcome" where
  "stop_worker w x primary opts j s =
     (let targets = (if so_interrupt_only opts then [j] else jobs_for_worker j s);
          affected = sort (map lj_id targets) in
      case requested_intents primary affected s ((lj_id j, x) # so_requested opts) [] of
        Inl e \<Rightarrow> (Inl e, s)
      | Inr requested \<Rightarrow>
          if 1 < length affected \<and> sort (so_acknowledged opts) \<noteq> affected then (Inl (AcknowledgeAffected affected), s)
          else live_bind (contain_jobs w 1 x primary targets requested) (\<lambda>intents.
            begin_termination w (lj_id j)
              \<lparr>tn_intent = x, tn_targets = map lj_id targets,
               tn_ending = (if precise j then [lj_id j] else map lj_id targets),
               tn_requested = map fst requested, tn_intents = intents,
               tn_interrupt_only = so_interrupt_only opts\<rparr>) s)"

definition stop_job ::
  "live_config \<Rightarrow> live_world \<Rightarrow> string \<Rightarrow> string \<Rightarrow> stop_options \<Rightarrow> live_state \<Rightarrow> stop_begun outcome" where
  "stop_job cfg w jid x opts s =
     (case intent_for_job jid x s of
        Inl e \<Rightarrow> (Inl e, s)
      | Inr primary \<Rightarrow>
          (case lookup_job s jid of
             None \<Rightarrow> (Inl UnknownLiveJob, s)
           | Some j \<Rightarrow>
               if control_lost w j then (Inl OwnerUnavailable, s)
               else if cn_scope primary \<noteq> lj_scope j \<or> tg_activity (cn_target primary) \<noteq> lj_activity j
               then (Inl IntentMoved, s)
               else if cn_expected primary \<noteq> lj_version j then (Inl VersionMoved, s)
               else if settled j then live_bind (intent_status (lw_tx w 0) w x IntentNoOp) (\<lambda>_. live_return StopSettled) s
               else if truthy_string (lj_worker j) = None \<or> lj_generation j = None \<or> \<not> lc_terminates cfg
               then live_bind (intent_status (lw_tx w 1) w x IntentFailed) (\<lambda>_. live_return StopImpossible)
                 (record_change w (lw_tx w 0) (impossible_object w x j) s)
               else if so_interrupt_only opts \<and> (\<not> precise j \<or> truthy_string (lj_turn j) = None)
               then (Inl PreciseInterruptionRequired, s)
               else stop_worker w x primary opts j s))"

text \<open>\<open>cancel\<close>: a second call under the same intent joins the one that waits.\<close>

definition cancel_job ::
  "live_config \<Rightarrow> live_world \<Rightarrow> string \<Rightarrow> string \<Rightarrow> stop_options \<Rightarrow> live_state \<Rightarrow> stop_begun outcome" where
  "cancel_job cfg w jid x opts s =
     (case lookup_job s jid of
        Some j \<Rightarrow>
          if control_lost w j then (Inl OwnerUnavailable, s)
          else (case intent_for_job jid x s of
            Inl e \<Rightarrow> (Inl e, s)
          | Inr _ \<Rightarrow>
              (case map_of (ls_terminations s) jid of
                 Some n \<Rightarrow> if tn_intent n \<noteq> x then (Inl TerminationInProgress, s) else (Inr StopJoined, s)
               | None \<Rightarrow> stop_job cfg w jid x opts (refresh_projects w s)))
      | None \<Rightarrow>
          (case intent_for_job jid x s of
             Inl e \<Rightarrow> (Inl e, s)
           | Inr _ \<Rightarrow>
              (case map_of (ls_terminations s) jid of
                 Some n \<Rightarrow> if tn_intent n \<noteq> x then (Inl TerminationInProgress, s) else (Inr StopJoined, s)
               | None \<Rightarrow> stop_job cfg w jid x opts (refresh_projects w s))))"

section \<open>The second half\<close>

datatype worker_answer = AlreadyCompleted | WorkerStopped bool bool bool bool | StopThrows

text \<open>\<open>WorkerStopped turn exited workerExited escalated\<close>: \<open>turn\<close> for the mode \<open>turn-interrupt\<close>.\<close>

definition revived_object :: "string \<Rightarrow> live_job \<Rightarrow> live_job" where
  "revived_object x j = j\<lparr>lj_status := JsRunning, lj_intent := None, lj_error := None\<rparr>"

fun set_intents :: "live_world \<Rightarrow> intent_status \<Rightarrow> string list \<Rightarrow> live_state \<Rightarrow> unit outcome" where
  "set_intents w st [] s = (Inr (), s)"
| "set_intents w st (x # xs) s = live_bind (intent_status TxOpen w x st) (\<lambda>_. set_intents w st xs) s"

fun flush_all :: "live_world \<Rightarrow> nat \<Rightarrow> string list \<Rightarrow> live_state \<Rightarrow> live_state" where
  "flush_all w k [] s = s"
| "flush_all w k (i # is) s = flush_all w (k + 3) is (flush_deferred w k i s)"

definition completed_first :: "live_world \<Rightarrow> stop_order \<Rightarrow> live_state \<Rightarrow> unit outcome" where
  "completed_first w n =
     live_bind (live_transaction (lw_tx w 0)
         (live_bind (change_jobs w (map (\<lambda>i. (i, '''')) (tn_ending n)) revived_object (tn_ending n))
           (\<lambda>_. set_intents w IntentNoOp (map snd (tn_intents n)))))
       (\<lambda>_ s1. (Inr (), flush_all w 2 (tn_ending n) s1))"

definition stopped_object :: "stop_order \<Rightarrow> bool \<Rightarrow> bool \<Rightarrow> string \<Rightarrow> live_job \<Rightarrow> live_job" where
  "stopped_object n worker_exited escalated x j =
     (let explicit = lj_id j \<in> set (tn_requested n) in
      j\<lparr>lj_status := (if explicit then JsCancelled else JsInterrupted),
        lj_origin := Some (if explicit then ExplicitCancellation else AssignmentContainment),
        lj_intent := Some x, lj_escalated := escalated, lj_inputs := [],
        lj_tracking := (if worker_exited then WorkerGone else Connected),
        lj_error := Some (if explicit then ''force-stopped'' else ''interrupted with its worker'')\<rparr>)"

text \<open>Every job the worker took down: forget its deferred outcome, change it, settle its intent.\<close>

fun stop_affected ::
  "live_world \<Rightarrow> stop_order \<Rightarrow> bool \<Rightarrow> bool \<Rightarrow> string list \<Rightarrow> live_state \<Rightarrow> unit outcome" where
  "stop_affected w n we esc [] s = (Inr (), s)"
| "stop_affected w n we esc (i # is) s =
     (case map_of (tn_intents n) i of
        None \<Rightarrow> (Inl ProvenanceRequired, s)
      | Some x \<Rightarrow>
          live_bind (live_bind (change_jobs w [(i, x)] (stopped_object n we esc) [i])
              (\<lambda>_. intent_status TxOpen w x IntentSucceeded))
            (\<lambda>_. stop_affected w n we esc is) (drop_deferred i s))"

definition spared_intents :: "bridge_state \<Rightarrow> stop_order \<Rightarrow> string list \<Rightarrow> string list" where
  "spared_intents b n actual = map snd (filter (\<lambda>(i, x). i \<notin> set actual \<and>
     map_option cn_source (map_of (bs_intents b) x) = Some SrcContainment) (tn_intents n))"

definition worker_stopped ::
  "live_world \<Rightarrow> string \<Rightarrow> stop_order \<Rightarrow> bool \<Rightarrow> bool \<Rightarrow> bool \<Rightarrow> bool \<Rightarrow> live_state \<Rightarrow> unit outcome" where
  "worker_stopped w jid n turn exited we esc s =
     (if tn_interrupt_only n \<and> (\<not> turn \<or> we) then (Inl InterruptionUnconfirmed, s)
      else if \<not> exited then (Inl StillActive, s)
      else let actual = (if turn then [jid] else tn_targets n) in
        live_transaction (lw_tx w 0)
          (live_bind (stop_affected w n we esc actual)
            (\<lambda>_. set_intents w IntentNoOp (spared_intents (ls_store s) n actual))) s)"

definition failed_object :: "string \<Rightarrow> live_job \<Rightarrow> live_job" where
  "failed_object x j = j\<lparr>lj_status := JsTerminationFailed, lj_error := Some ''Could not confirm Codex worker termination''\<rparr>"

fun fail_intents :: "live_world \<Rightarrow> string list \<Rightarrow> live_state \<Rightarrow> unit outcome" where
  "fail_intents w [] s = (Inr (), s)"
| "fail_intents w (x # xs) s =
     (if map_option it_status (map_of (bs_intents (ls_store s)) x) \<in> {Some IntentRecorded, Some IntentDispatched}
      then live_bind (intent_status TxOpen w x IntentFailed) (\<lambda>_. fail_intents w xs) s
      else fail_intents w xs s)"

definition termination_failed :: "live_world \<Rightarrow> stop_order \<Rightarrow> live_state \<Rightarrow> unit outcome" where
  "termination_failed w n =
     live_bind (live_transaction (lw_tx w 1)
         (live_bind (change_jobs w (map (\<lambda>i. (i, '''')) (tn_ending n)) failed_object (tn_ending n))
           (\<lambda>_. fail_intents w (map snd (tn_intents n)))))
       (\<lambda>_ s1. (Inr (), flush_all w 2 (tn_ending n) s1))"

text \<open>The answer of the worker, and the \<open>catch\<close> around everything that follows it.\<close>

definition end_termination :: "live_world \<Rightarrow> string \<Rightarrow> worker_answer \<Rightarrow> live_state \<Rightarrow> unit outcome" where
  "end_termination w jid a s =
     (case map_of (ls_terminations s) jid of
        None \<Rightarrow> (Inr (), s)
      | Some n \<Rightarrow>
          let s0 = s\<lparr>ls_terminations := AList.delete jid (ls_terminations s)\<rparr> in
          case (case a of
              AlreadyCompleted \<Rightarrow> completed_first w n s0
            | WorkerStopped turn exited we esc \<Rightarrow> worker_stopped w jid n turn exited we esc s0
            | StopThrows \<Rightarrow> (Inl TerminationFailed, s0)) of
            (Inr _, s1) \<Rightarrow> (Inr (), s1)
          | (Inl _, s1) \<Rightarrow> termination_failed w n s1)"

end
