(* ===== verification/Live_Upkeep.thy ===== *)
theory Live_Upkeep
  imports Live_Stops
begin

text \<open>
  The rest of \<open>CodexJobRegistry\<close> (\<open>src/src/tools.ts\<close>): the checks before an answer to a pending
  interaction is sent, the stop of a job whose project is archived, loading the registry from the
  store at start-up, and the retention of settled jobs.
\<close>

section \<open>Interactions\<close>

record interaction_answer =
  ia_answers :: bool
  ia_elicitation :: bool
  ia_decision :: "string option"

text \<open>
  \<open>resolveInteraction\<close> before the answer leaves: errors here are \<open>InteractionNotDispatchedError\<close>.
\<close>

definition string_list :: "js \<Rightarrow> string list option" where
  "string_list v = (case v of JArr l \<Rightarrow> Some (map string_of l) | _ \<Rightarrow> None)"

definition input_interaction :: "js \<Rightarrow> bool" where
  "input_interaction v \<longleftrightarrow> jget v ''kind'' = JStr ''user-input'' \<or> jget v ''kind'' = JStr ''mcp-elicitation''"

definition answer_fits :: "js \<Rightarrow> interaction_answer \<Rightarrow> (live_error, unit) result" where
  "answer_fits v a =
     (if jget v ''kind'' = JStr ''user-input'' \<and> \<not> ia_answers a then Inl AnswersRequired
      else if jget v ''kind'' = JStr ''mcp-elicitation'' \<and> \<not> ia_elicitation a then Inl ElicitationRequired
      else if \<not> input_interaction v \<and> truthy_string (ia_decision a) = None then Inl DecisionRequired
      else throw_if (case (truthy_string (ia_decision a), string_list (jget v ''availableDecisions'')) of
          (Some d, Some l) \<Rightarrow> d \<notin> set l | _ \<Rightarrow> False) DecisionUnavailable)"

definition worker_prefix :: "string \<Rightarrow> int \<Rightarrow> (int \<Rightarrow> string) \<Rightarrow> string" where
  "worker_prefix worker generation dec = worker @ '':'' @ dec generation @ '':''"

definition check_interaction ::
  "live_world \<Rightarrow> (int \<Rightarrow> string) \<Rightarrow> string \<Rightarrow> string \<Rightarrow> interaction_answer \<Rightarrow> live_state \<Rightarrow> (live_error, js) result" where
  "check_interaction w dec jid i a s =
     (case lookup_job s jid of
        None \<Rightarrow> Inl InteractionInactive
      | Some j \<Rightarrow>
          if \<not> active j then Inl InteractionInactive
          else if (case truthy_string (map_option fst (lj_project j)) of None \<Rightarrow> False
              | Some p \<Rightarrow> \<not> se_project_active (lw_env w) p) then Inl ProjectUseEnded
          else if control_lost w j then Inl OwnerUnavailable
          else if (case (truthy_string (lj_worker j), lj_generation j) of
              (Some x, Some g) \<Rightarrow> \<not> starts_with (worker_prefix x g dec) i | _ \<Rightarrow> False) then Inl ForeignInteraction
          else (case find (\<lambda>v. interaction_id v = i) (lj_inputs j) of
              None \<Rightarrow> Inl UnknownInteraction
            | Some v \<Rightarrow> res_bind (answer_fits v a) (\<lambda>_. Inr v)))"

text \<open>After the upstream took the answer: the interaction is gone and a progress event says so.\<close>

definition resolved_event :: "js \<Rightarrow> string \<Rightarrow> int \<Rightarrow> live_event" where
  "resolved_event v eid now =
     \<lparr>le_id = eid, le_type = (if input_interaction v then ''input-required'' else ''approval-required''),
      le_phase = ''completed'', le_resolved = None, le_interaction = None, le_evidence = False, le_at = now\<rparr>"

definition interaction_answered :: "live_world \<Rightarrow> string \<Rightarrow> js \<Rightarrow> string \<Rightarrow> live_state \<Rightarrow> live_state" where
  "interaction_answered w jid v eid s =
     (case object s jid of
        None \<Rightarrow> s
      | Some j \<Rightarrow> record_progress w jid \<lparr>lp_pending = None, lp_event = Some (resolved_event v eid (lw_now w))\<rparr>
          (put_object (j\<lparr>lj_inputs := filter (\<lambda>x. interaction_id x \<noteq> interaction_id v) (lj_inputs j)\<rparr>) s))"

section \<open>Project archive\<close>

text \<open>
  \<open>stopForProjectArchive\<close> for a job no worker has: it is cancelled in one transaction, and objects go
  back to what they were when that fails. \<open>x\<close> is the intent the operation has just recorded.
\<close>

definition archived_object :: "live_world \<Rightarrow> string \<Rightarrow> live_job \<Rightarrow> live_job" where
  "archived_object w x j =
     j\<lparr>lj_status := JsCancelled, lj_origin := Some ExplicitCancellation, lj_intent := Some x, lj_inputs := [],
       lj_error := Some ''Project archive cancelled this Job before execution dispatch.'',
       lj_updated := lw_now w, lj_version := lj_version j + 1\<rparr>"

definition archive_refused :: "live_job \<Rightarrow> live_state \<Rightarrow> bool" where
  "archive_refused j s \<longleftrightarrow> truthy_string (lj_worker j) = None \<and>
     (lj_id j \<in> set (ls_dispatched s) \<or> lj_dispatched j \<noteq> Some False)"

definition archive_undispatched :: "live_world \<Rightarrow> string \<Rightarrow> live_job \<Rightarrow> live_state \<Rightarrow> unit outcome" where
  "archive_undispatched w x j s =
     (let c = archived_object w x j in
      case live_transaction (lw_tx w 1)
          (live_bind (intent_status TxOpen w x IntentDispatched) (\<lambda>_.
           live_bind (persist_job w TxOpen c) (\<lambda>_. intent_status TxOpen w x IntentSucceeded))) (put_object c s) of
        (Inl e, s1) \<Rightarrow> (Inl e, assign_object j s1)
      | (Inr _, s1) \<Rightarrow> (Inr (), discard_launch (lj_id j) s1))"

definition archive_request :: "live_world \<Rightarrow> string \<Rightarrow> live_job \<Rightarrow> cancel_request" where
  "archive_request w rid j =
     \<lparr>cr_scope = lj_scope j, cr_request = rid, cr_source = ''operator'', cr_tool = ''settings.update'',
      cr_action = ''project-archive'', cr_target_kind = ''job'', cr_target_job = Some (lj_id j),
      cr_target_activity = lj_activity j, cr_target_agent = lj_agent j, cr_target_thread = lj_thread j,
      cr_target_turn = (if precise j then lj_turn j else None), cr_target_presentation = None,
      cr_expected = lj_version j, cr_presentation = None, cr_widget = None, cr_caller_digest = None,
      cr_reason_code = ''project-archive'', cr_now = lw_now w\<rparr>"

definition stop_for_archive ::
  "live_config \<Rightarrow> live_world \<Rightarrow> string \<Rightarrow> string \<Rightarrow> string \<Rightarrow> live_state \<Rightarrow> stop_begun outcome" where
  "stop_for_archive cfg w rid digest jid s0 =
     (let s = refresh_projects w s0 in
      case lookup_job s jid of
        None \<Rightarrow> (Inr StopSettled, s)
      | Some j \<Rightarrow>
          if settled j then (Inr StopSettled, s)
          else if map_of (ls_terminations s) jid \<noteq> None then (Inr StopJoined, s)
          else if archive_refused j s then (Inl StillActive, s)
          else let x = lw_intent w jid in
            live_bind (live_transaction (lw_tx w 0)
                (on_store (begin_cancellation_operation (lw_env w) (archive_request w rid j) digest None x)))
              (\<lambda>_ s1.
                 if truthy_string (lj_worker j) = None
                 then live_bind (archive_undispatched w x j) (\<lambda>_. live_return StopSettled) s1
                 else let affected = jobs_for_worker j s1;
                     foreign = list_ex (\<lambda>p. map_option fst (lj_project p) \<noteq> map_option fst (lj_project j)) affected in
                   if \<not> precise j \<and> foreign then (Inl StillActive, s1)
                   else cancel_job cfg w jid x
                     (if precise j \<and> foreign then \<lparr>so_interrupt_only = True, so_acknowledged = [], so_requested = []\<rparr>
                      else \<lparr>so_interrupt_only = False, so_acknowledged = map lj_id affected, so_requested = []\<rparr>) s1) s)"

section \<open>Loading\<close>

text \<open>
  \<open>loadJobs\<close> over the jobs \<open>readPersistedJob\<close> accepted: one job per request, the latest, in the order
  of their last update.
\<close>

definition request_key :: "live_job \<Rightarrow> string \<times> string" where
  "request_key j = (lj_scope j, lj_request j)"

definition latest_by_request :: "live_job list \<Rightarrow> live_job list" where
  "latest_by_request l = sort_key lj_updated (map snd (fold (\<lambda>j. AList.update (request_key j) j) (sort_key lj_updated l) []))"

definition recovers :: "live_config \<Rightarrow> live_job \<Rightarrow> bool" where
  "recovers cfg j \<longleftrightarrow> active j \<and> lc_recover cfg \<and> lj_receipt j"

text \<open>\<open>failed\<close> says that the stored result of the job is an error.\<close>

definition loaded_object :: "live_config \<Rightarrow> int \<Rightarrow> bool \<Rightarrow> live_job \<Rightarrow> live_job" where
  "loaded_object cfg now failed j =
     (if recovers cfg j then j\<lparr>lj_tracking := LivenessUnknown\<rparr>
      else if active j then
        if truthy_string (map_option fst (lj_project j)) \<noteq> None \<and> lj_dispatched j \<noteq> Some False
        then j\<lparr>lj_status := JsTerminationFailed, lj_tracking := LivenessUnknown,
               lj_error := Some ''Restarted with dispatched or unknown project execution; termination requires ownership confirmation.'',
               lj_updated := now, lj_version := lj_version j + 1\<rparr>
        else j\<lparr>lj_status := JsInterrupted, lj_origin := Some BridgeRestart, lj_tracking := Orphaned, lj_inputs := [],
               lj_error := Some ''The bridge restarted before this Codex job reached a terminal state.'',
               lj_updated := now, lj_version := lj_version j + 1\<rparr>
      else if lj_status j = JsCompleted \<and> failed
      then j\<lparr>lj_status := JsFailed, lj_origin := Some UpstreamFailure, lj_error := lj_result j, lj_result := None,
             lj_updated := now, lj_version := lj_version j + 1\<rparr>
      else j)"

definition loaded_change :: "live_config \<Rightarrow> bool \<Rightarrow> live_job \<Rightarrow> bool" where
  "loaded_change cfg failed j \<longleftrightarrow> \<not> recovers cfg j \<and> (active j \<or> lj_status j = JsCompleted \<and> failed)"

definition protected_at_start :: "live_world \<Rightarrow> live_job list \<Rightarrow> string list" where
  "protected_at_start w js = filter (lw_protects w) (map lj_id (take 32 (filter settled js)))"

definition empty_live :: "bridge_state \<Rightarrow> progress_snapshot fair_queue \<Rightarrow> live_state" where
  "empty_live b q = \<lparr>ls_jobs = [], ls_index = [], ls_store = b, ls_deferred = [], ls_retrying = [], ls_launches = [],
     ls_ready = [], ls_dispatched = [], ls_terminations = [], ls_recovering = [], ls_protected = [],
     ls_target = None, ls_revision = - 1, ls_queue = q, ls_persisted = [], ls_budget = 4\<rparr>"

text \<open>\<open>replaceJobs\<close>: every job is written and every other row that is not archived is deleted.\<close>

fun delete_all :: "int \<Rightarrow> string list \<Rightarrow> bridge_state \<Rightarrow> (store_error, bridge_state) result" where
  "delete_all now [] b = Inr b"
| "delete_all now (i # is) b = res_bind (delete_job i now b) (\<lambda>(_, b1). delete_all now is b1)"

definition replace_jobs :: "live_world \<Rightarrow> live_job list \<Rightarrow> bridge_state \<Rightarrow> (store_error, bridge_state) result" where
  "replace_jobs w js b =
     (let existing = map fst (filter (\<lambda>x. jb_archived (snd x) = None) (bs_jobs b)) in
      res_bind (res_fold (\<lambda>j. upsert_job (lw_env w) (lw_now w) (job_input_of j)) js b) (\<lambda>b1.
        delete_all (lw_now w) (filter (\<lambda>i. i \<notin> lj_id ` set js) existing) b1))"

definition newest_first :: "live_job list \<Rightarrow> live_job list" where
  "newest_first js = sort_key (\<lambda>j. - lj_updated j) js"

definition load_registry ::
  "live_config \<Rightarrow> live_world \<Rightarrow> (string \<Rightarrow> bool) \<Rightarrow> nat \<Rightarrow> live_job list \<Rightarrow> live_state \<Rightarrow> unit outcome" where
  "load_registry cfg w failed stored values s =
     (let valid = filter (\<lambda>j. lc_allowed_cwd cfg (lj_cwd j)) values;
          kept = latest_by_request valid;
          js = map (\<lambda>j. loaded_object cfg (lw_now w) (failed (lj_id j)) j) kept;
          s1 = fold (\<lambda>j u. index_job (lj_id j) (put_object j u)) js s;
          s2 = s1\<lparr>ls_recovering := map lj_id (filter (recovers cfg) kept),
                 ls_protected := protected_at_start w js,
                 ls_persisted := map (\<lambda>j. (lj_id j, (lj_version j, lj_updated j))) (registered s1)\<rparr> in
      if list_ex (\<lambda>j. loaded_change cfg (failed (lj_id j)) j) kept \<or> length kept \<noteq> stored
      then live_transaction (lw_tx w 0) (on_store (replace_jobs w (newest_first (registered s2)))) s2
      else (Inr (), s2))"

text \<open>
  \<open>resumeAuthorizedRecoveries\<close> for one job: a stop whose controller vanished is unconfirmed.
\<close>

definition resume_recovery :: "live_world \<Rightarrow> string \<Rightarrow> live_state \<Rightarrow> live_state" where
  "resume_recovery w jid s =
     (if jid \<notin> set (ls_recovering s) then s
      else let s1 = s\<lparr>ls_recovering := removeAll jid (ls_recovering s)\<rparr> in
        case lookup_job s jid of
          None \<Rightarrow> s1
        | Some j \<Rightarrow> if lj_status j = JsTerminating then put_object (j\<lparr>lj_status := JsTerminationFailed\<rparr>) s1 else s1)"

section \<open>Retention\<close>

definition retention_candidates :: "live_config \<Rightarrow> live_world \<Rightarrow> string list \<Rightarrow> live_state \<Rightarrow> retention_candidate list" where
  "retention_candidates cfg w inspected s =
     (let cutoff = lw_now w - lc_ttl cfg;
          target = min (int (lc_retained cfg)) (case ls_target s of None \<Rightarrow> int (lc_retained cfg) | Some t \<Rightarrow> t);
          full = target < int (reservations cfg s);
          js = filter (\<lambda>j. lj_id j \<in> set inspected) (registered s);
          chosen = filter (\<lambda>j. settled j \<and> (lj_updated j < cutoff \<or> full \<or> lj_id j \<in> set (ls_protected s))) js in
      map (\<lambda>j. \<lparr>rc_job = lj_id j, rc_updated = lj_updated j, rc_version = lj_version j,
          rc_protected = (lj_id j \<in> set (ls_protected s))\<rparr>)
        (sort_key (\<lambda>j. (lj_updated j, lj_id j)) chosen))"

definition same_candidate :: "retention_candidate \<Rightarrow> string \<times> disposition \<Rightarrow> bool" where
  "same_candidate c d \<longleftrightarrow> rc_job c = fst d"

definition apply_disposition :: "retention_candidate \<Rightarrow> disposition \<Rightarrow> live_state \<Rightarrow> live_state" where
  "apply_disposition c d s =
     (case lookup_job s (rc_job c) of
        None \<Rightarrow> s
      | Some j \<Rightarrow>
          if lj_version j \<noteq> rc_version c \<or> lj_updated j \<noteq> rc_updated c \<or> \<not> settled j then s
          else case d of
            DispSkipped \<Rightarrow> s
          | DispProtected \<Rightarrow> s\<lparr>ls_protected := List.insert (rc_job c) (ls_protected s)\<rparr>
          | DispRetained \<Rightarrow> s\<lparr>ls_protected := removeAll (rc_job c) (ls_protected s)\<rparr>
          | DispRemoved \<Rightarrow> forget_progress (rc_job c) (unindex_job (rc_job c)
              (s\<lparr>ls_protected := removeAll (rc_job c) (ls_protected s)\<rparr>)))"

fun apply_dispositions ::
  "retention_candidate list \<Rightarrow> (string \<times> disposition) list \<Rightarrow> live_state \<Rightarrow> live_state" where
  "apply_dispositions (c # cs) (d # ds) s = apply_dispositions cs ds (apply_disposition c (snd d) s)"
| "apply_dispositions _ _ s = s"

text \<open>The answer must be about the command's candidates, in their order.\<close>

definition settle_retention ::
  "live_config \<Rightarrow> retention_candidate list \<Rightarrow> (string \<times> disposition) list \<Rightarrow> live_state \<Rightarrow> unit outcome" where
  "settle_retention cfg cs ds s =
     (if length cs < length ds \<or> \<not> list_all2 same_candidate (take (length ds) cs) ds then (Inl RetentionMismatch, s)
      else let s1 = apply_dispositions cs ds s in
        (Inr (), (if (case ls_target s1 of None \<Rightarrow> False | Some t \<Rightarrow> int (reservations cfg s1) \<le> t)
          then s1\<lparr>ls_target := None\<rparr> else s1)))"

definition maintain_registry ::
  "live_config \<Rightarrow> live_world \<Rightarrow> bool list \<Rightarrow> string list \<Rightarrow> live_state \<Rightarrow> live_state" where
  "maintain_registry cfg w in_time inspected s0 =
     (let s = refresh_projects w s0;
          cs = retention_candidates cfg w (take 64 inspected) s;
          k = \<lparr>rk_candidates = cs, rk_reservations = int (reservations cfg s), rk_max_removed = 32,
              rk_cutoff = lw_now w - lc_ttl cfg,
              rk_target = min (int (lc_retained cfg)) (case ls_target s of None \<Rightarrow> int (lc_retained cfg) | Some t \<Rightarrow> t),
              rk_now = lw_now w\<rparr> in
      case live_transaction (lw_tx w 0) (\<lambda>u. case maintain_job_retention k in_time (ls_store u) of
            Inl e \<Rightarrow> (Inl (StoreFailed e), u)
          | Inr ((ds, _), b) \<Rightarrow> (Inr ds, u\<lparr>ls_store := b\<rparr>)) s of
        (Inl _, s1) \<Rightarrow> s1
      | (Inr ds, s1) \<Rightarrow> best_effort (settle_retention cfg cs ds) s1)"

end
