(* ===== verification/Live_Runs.thy ===== *)
theory Live_Runs
  imports Live_Upkeep Store_Runs
begin

text \<open>
  The registry as a transition system: one event per entry point of \<open>CodexJobRegistry\<close> and per
  callback the upstream, the fair queue or a timer makes into it, with the world it meets. The other
  writers of the store (Activity handlers, the outbox, cancellation requests) are \<open>LvStore\<close>.
\<close>

section \<open>Steps\<close>

datatype live_call =
    LvStart start_input
  | LvActivate string
  | LvDiscard string
  | LvExecute string
  | LvDispatch string
  | LvAssign string assignment
  | LvProgress string live_progress
  | LvQueueTurn
  | LvImmediate
  | LvSettle string settlement
  | LvRetry string
  | LvCancel string string stop_options
  | LvWorker string worker_answer
  | LvAnswered string js string
  | LvArchive string string string
  | LvRetention "bool list" "string list"
  | LvRefresh
  | LvStore store_event

fun live_step :: "live_config \<Rightarrow> live_world \<Rightarrow> live_call \<Rightarrow> live_state \<Rightarrow> live_state" where
  "live_step cfg w (LvStart i) s = snd (start_job cfg w i s)"
| "live_step cfg w (LvActivate jid) s = activate_deferred jid s"
| "live_step cfg w (LvDiscard jid) s = discard_deferred jid s"
| "live_step cfg w (LvExecute jid) s = snd (execute_job w jid s)"
| "live_step cfg w (LvDispatch jid) s = snd (may_execute w jid s)"
| "live_step cfg w (LvAssign jid a) s = snd (upstream_assigns w jid a s)"
| "live_step cfg w (LvProgress jid p) s = record_progress w jid p s"
| "live_step cfg w LvQueueTurn s = queue_turn w s"
| "live_step cfg w LvImmediate s = s\<lparr>ls_budget := 4\<rparr>"
| "live_step cfg w (LvSettle jid o') s = settle_execution w 0 jid o' s"
| "live_step cfg w (LvRetry jid) s = retry_settlement w jid s"
| "live_step cfg w (LvCancel jid x opts) s = snd (cancel_job cfg w jid x opts s)"
| "live_step cfg w (LvWorker jid a) s = snd (end_termination w jid a s)"
| "live_step cfg w (LvAnswered jid v eid) s = interaction_answered w jid v eid s"
| "live_step cfg w (LvArchive rid digest jid) s = snd (stop_for_archive cfg w rid digest jid s)"
| "live_step cfg w (LvRetention in_time inspected) s = maintain_registry cfg w in_time inspected s"
| "live_step cfg w LvRefresh s = refresh_projects w s"
| "live_step cfg w (LvStore ev) s = s\<lparr>ls_store := store_step (ls_store s) (lw_env w, lw_now w, ev)\<rparr>"

section \<open>The store under the registry\<close>

text \<open>
  The registry reaches the store through the store's public operations only, and a transaction that
  fails leaves it where it was: whatever a step does, the store ends where some run of its operations
  takes it.
\<close>

definition drives :: "live_state \<Rightarrow> live_state \<Rightarrow> bool" where
  "drives s s' \<longleftrightarrow> (\<exists>es. ls_store s' = run store_step (ls_store s) es) \<and> (fq_inv (ls_queue s) \<longrightarrow> fq_inv (ls_queue s'))"

named_theorems driving \<open>operations of the registry that drive the store by its own operations\<close>

lemma drives_refl [intro]: "drives s s"
  by (auto simp: drives_def intro: exI [of _ "[]"])

lemma drives_trans [trans]: "drives s s' \<Longrightarrow> drives s' s'' \<Longrightarrow> drives s s''"
  unfolding drives_def by (metis foldl_append)

lemma drives_same: "ls_store s' = ls_store s \<Longrightarrow> ls_queue s' = ls_queue s \<Longrightarrow> drives s s'"
  by (auto simp: drives_def intro: exI [of _ "[]"])

lemma drives_op:
  assumes "store_op env now ev (ls_store s) = Inr b" "ls_store s' = b" "ls_queue s' = ls_queue s"
  shows "drives s s'"
  unfolding drives_def using assms
  by (auto simp: store_step_def transact_def intro!: exI [of _ "[(env, now, ev)]"])

lemma drives_on_store:
  assumes "\<And>b b'. f b = Inr b' \<Longrightarrow> \<exists>env now ev. store_op env now ev b = Inr b'"
  shows "drives s (snd (on_store f s))"
proof (cases "f (ls_store s)")
  case (Inr b)
  then obtain env now ev where "store_op env now ev (ls_store s) = Inr b" using assms by blast
  then show ?thesis using Inr by (auto simp: on_store_def intro: drives_op)
qed (auto simp: on_store_def)

lemma drives_bind:
  assumes "drives s (snd (m s))" "\<And>x s'. m s = (Inr x, s') \<Longrightarrow> drives s' (snd (f x s'))"
  shows "drives s (snd (live_bind m f s))"
proof (cases "m s")
  case (Pair r s')
  then show ?thesis
    using assms drives_trans [of s s'] by (cases r) (auto simp: live_bind_def)
qed

lemma drives_transaction:
  assumes "drives s (snd (m s))"
  shows "drives s (snd (live_transaction t m s))"
proof -
  obtain r s' where m: "m s = (r, s')" by force
  have q: "fq_inv (ls_queue s) \<longrightarrow> fq_inv (ls_queue s')" using assms m by (simp add: drives_def)
  have "drives s (s'\<lparr>ls_store := ls_store s\<rparr>)" using q by (auto simp: drives_def intro: exI [of _ "[]"])
  then show ?thesis using assms m by (cases r) (auto simp: live_transaction_def)
qed

lemma drives_fold:
  assumes "\<And>x u. drives u (f x u)"
  shows "drives s (fold f xs s)"
  using assms by (induction xs arbitrary: s) (auto intro: drives_trans)

text \<open>An operation after another one: the rules work from the last write back to the first.\<close>

lemma drives_unqueue [driving]: "drives s u \<Longrightarrow> drives s (unqueue f u)"
proof (erule drives_trans)
  show "drives u (unqueue f u)"
    unfolding drives_def unqueue_def
    by (auto intro: exI [of _ "[]"] dest: fq_step_inv [of _ "FqRemove f"])
qed

lemma drives_best_effort: "drives u (snd (m u)) \<Longrightarrow> drives s u \<Longrightarrow> drives s (best_effort m u)"
  by (auto simp: best_effort_def intro: drives_trans)

lemma drives_after: "ls_store u' = ls_store u \<Longrightarrow> ls_queue u' = ls_queue u \<Longrightarrow> drives s u \<Longrightarrow> drives s u'"
  using drives_same drives_trans by blast

lemma drives_frames [driving]:
  assumes "drives s u"
  shows "drives s (put_object j u)" "drives s (assign_object j u)" "drives s (index_job i u)" "drives s (unindex_job i u)"
    "drives s (drop_job i u)" "drives s (discard_launch i u)" "drives s (drop_deferred i u)"
    "drives s (note_persisted i v now u)" "drives s (request_headroom cfg u)" "drives s (launch_job st i u)"
    "drives s (activate_deferred i u)" "drives s (retry_later i o' u)" "drives s (drop_retry i u)"
    "drives s (defer_settlement i o' u)"
  by (rule drives_after [OF _ _ assms]; simp add: put_object_def assign_object_def index_job_def unindex_job_def
      drop_job_def discard_launch_def drop_deferred_def note_persisted_def request_headroom_def Let_def launch_job_def
      activate_deferred_def retry_later_def drop_retry_def defer_settlement_def split: option.splits)+

lemma drives_forget [driving]: "drives s u \<Longrightarrow> drives s (forget_progress i u)"
  unfolding forget_progress_def by (rule drives_after [OF _ _ drives_unqueue]) simp_all

lemma drives_persist [driving]: "drives s u \<Longrightarrow> drives s (snd (persist_job w t j u))"
proof (erule drives_trans)
  have op: "drives u (snd (on_store (upsert_job (lw_env w) (lw_now w) (job_input_of j)) u))" for u
    by (rule drives_on_store) (metis store_op.simps(11))
  show "drives u (snd (persist_job w t j u))"
    unfolding persist_job_def by (auto intro!: driving drives_bind drives_transaction op)
qed

lemma drives_change [driving]: "drives s u \<Longrightarrow> drives s (record_change w t j u)"
  unfolding record_change_def Let_def by (intro drives_best_effort driving drives_refl)

lemma drives_refresh [driving]: "drives s u \<Longrightarrow> drives s (refresh_projects w u)"
proof (erule drives_trans)
  have "drives u (refresh_job w i u)" for i u
    by (auto simp: refresh_job_def intro!: driving split: option.splits)
  then have "drives u (fold (refresh_job w) (ls_index u) u)" by (rule drives_fold)
  then show "drives u (refresh_projects w u)"
    by (auto simp: refresh_projects_def intro: drives_after [rotated 2])
qed

lemma drives_snapshot: "drives s (persist_snapshot w t q s) \<and> ls_queue (persist_snapshot w t q s) = ls_queue s"
proof -
  let ?f = "case ps_event q of
      Some e \<Rightarrow> record_job_telemetry (lw_env w) (lw_now w) (ps_job q) (telemetry_of q e)
    | None \<Rightarrow> update_job_progress_state (lw_env w) (lw_now w) (ps_job q) (progress_input_of q)"
  have "\<exists>env now ev. store_op env now ev b = Inr b'" if "?f b = Inr b'" for b b'
    using that by (cases "ps_event q") (auto, metis store_op.simps(12), metis store_op.simps(13))
  then have "drives u (snd (on_store ?f u))" for u by (rule drives_on_store)
  then have "drives s (persist_snapshot w t q s)"
    unfolding persist_snapshot_def by (auto intro!: drives_best_effort drives_bind drives_transaction driving)
  then show ?thesis
    by (auto simp: persist_snapshot_def best_effort_def live_bind_def live_transaction_def on_store_def
        note_persisted_def split: sum.splits)
qed

lemma drives_snapshot_after [driving]: "drives s u \<Longrightarrow> drives s (persist_snapshot w t q u)"
  using drives_snapshot drives_trans by blast

lemma snapshot_key: "ps_key (progress_snapshot_of j e) \<noteq> ''''"
  by (simp add: progress_snapshot_of_def split: option.splits)

lemma drives_queue [driving]: "drives s u \<Longrightarrow> drives s (queue_snapshot (progress_snapshot_of j e) u)"
proof (erule drives_trans)
  show "drives u (queue_snapshot (progress_snapshot_of j e) u)"
    by (auto simp: drives_def queue_snapshot_def intro: exI [of _ "[]"] enqueue_inv [OF _ snapshot_key])
qed

lemma drives_newest [driving]: "drives s u \<Longrightarrow> drives s (persist_newest w q u)"
  unfolding persist_newest_def by (intro driving)

lemma drives_claim [driving]: "drives s u \<Longrightarrow> drives s (snd (claim_immediate u))"
  by (erule drives_after [rotated 2]) (simp_all add: claim_immediate_def)

lemma drives_store_progress [driving]: "drives s u \<Longrightarrow> drives s (store_progress w resumed p j u)"
  unfolding store_progress_def Let_def case_prod_beta
  by (cases "lp_event p") (auto intro: driving)

lemma drives_question [driving]: "drives s u \<Longrightarrow> drives s (restore_question w p j u)"
  unfolding restore_question_def Let_def by (auto intro: driving split: option.splits)

lemma drives_progress [driving]: "drives s u \<Longrightarrow> drives s (record_progress w i p u)"
proof (cases "object u i")
  case (Some j)
  assume "drives s u"
  then show ?thesis
    unfolding record_progress_def Let_def Some option.case
    by (intro if_split [where P = "drives s", THEN iffD2] conjI impI drives_best_effort driving drives_refl)
qed (simp add: record_progress_def)

lemma drives_turn [driving]: "drives s (queue_turn w s)"
proof -
  let ?q = "(ls_queue s)\<lparr>fq_scheduled := False\<rparr>"
  have deferred: "drives u (persist_deferred w v u) \<and> ls_queue (persist_deferred w v u) = ls_queue u" for u v
    using drives_snapshot by (auto simp: persist_deferred_def split: option.splits prod.splits)
  have "ls_queue (queue_turn w s) = tick (\<lambda>v q. q) (ls_queue s)"
    using deferred by (auto simp: queue_turn_def tick_def run_one_def Let_def split: option.splits prod.splits)
  moreover have "fq_inv (ls_queue s) \<Longrightarrow> fq_inv (tick (\<lambda>v q. q) (ls_queue s))" by (rule tick_inv) auto
  moreover have "\<exists>es. ls_store (queue_turn w s) = run store_step (ls_store s) es"
  proof (cases "fst (take_next ?q)")
    case (Some v)
    have "\<exists>es. ls_store (persist_deferred w v (s\<lparr>ls_queue := snd (take_next ?q)\<rparr>)) = run store_step (ls_store s) es"
      using deferred [of "s\<lparr>ls_queue := snd (take_next ?q)\<rparr>" v] by (auto simp: drives_def)
    then show ?thesis
      using Some by (auto simp: queue_turn_def Let_def case_prod_beta intro: exI [of _ "[]"] split: option.splits)
  qed (auto simp: queue_turn_def case_prod_beta intro!: exI [of _ "[]"])
  ultimately show ?thesis by (simp add: drives_def)
qed

section \<open>Every step\<close>

text \<open>
  A result with its state: \<open>drives_case\<close> follows the operation that a \<open>case\<close> looks at into both
  branches.
\<close>

lemma drives_case:
  assumes "drives s (snd r)" "\<And>x u. r = (Inr x, u) \<Longrightarrow> drives s u \<Longrightarrow> drives s (g (f x u))"
    and "\<And>e u. r = (Inl e, u) \<Longrightarrow> drives s u \<Longrightarrow> drives s (g (h e u))"
  shows "drives s (g (case r of (Inl e, u) \<Rightarrow> h e u | (Inr x, u) \<Rightarrow> f x u))"
  using assms by (cases r; cases "fst r") auto

lemmas drives_outcome = drives_case [where g = snd] and drives_state = drives_case [where g = "\<lambda>x. x"]

lemma drives_within: "(\<And>v. drives v (snd (m v))) \<Longrightarrow> drives s u \<Longrightarrow> drives s (snd (live_transaction t m u))"
  using drives_transaction drives_trans by blast

lemma drives_then:
  "(\<And>v. drives v (snd (m v))) \<Longrightarrow> (\<And>x v. drives v (snd (f x v))) \<Longrightarrow> drives s u \<Longrightarrow> drives s (snd (live_bind m f u))"
  using drives_bind drives_trans by meson

lemma drives_start: "drives s (snd (start_job cfg w i s))"
  unfolding start_job_def Let_def
  by (auto split: sum.splits option.splits intro!: drives_outcome driving simp: case_prod_beta)

lemma drives_discard: "drives s (discard_deferred i s)"
proof -
  let ?u = "drop_job i (forget_progress i (drop_deferred i (discard_launch i s)))"
  have "drives s ?u" by (intro driving drives_refl)
  then have "drives s (?u\<lparr>ls_protected := removeAll i (ls_protected s)\<rparr>)" by (rule drives_after [rotated 2]) simp_all
  then show ?thesis by (auto simp: discard_deferred_def)
qed

lemma drives_may_execute: "drives s u \<Longrightarrow> drives s (snd (may_execute w i u))"
proof (erule drives_trans)
  have m: "drives v (snd (if b then (Inl ProjectUseEnded, v) else persist_job w TxOpen j (put_object j v)))" for v b j
    by (auto intro!: driving)
  show "drives u (snd (may_execute w i u))"
  proof (cases "lookup_job u i")
    case (Some j)
    show ?thesis
      unfolding may_execute_def Some option.case Let_def
      by (auto intro!: drives_outcome drives_within m driving intro: drives_after [rotated 2])
  qed (auto simp: may_execute_def)
qed

lemma drives_assigns: "drives s (snd (upstream_assigns w i a s))"
  by (auto simp: upstream_assigns_def record_assignment_def Let_def intro!: driving split: option.splits)

lemma drives_commit [driving]: "drives s u \<Longrightarrow> drives s (snd (commit_settlement w t b c u))"
proof (erule drives_trans)
  have "drives v (snd (if b then (Inl CallbackFailed, v) else persist_job w TxOpen c v))" for v
    by (auto intro!: driving)
  then show "drives u (snd (commit_settlement w t b c u))"
    unfolding commit_settlement_def by (auto intro!: drives_outcome drives_within driving)
qed

lemma drives_rejected [driving]: "drives s u \<Longrightarrow> drives s (snd (settle_rejected w t t' j e u))"
  unfolding settle_rejected_def Let_def
  by (auto intro!: drives_outcome drives_within driving)

lemma drives_settle_resolved [driving]: "drives s u \<Longrightarrow> drives s (snd (settle_resolved w t j r u))"
  by (auto simp: settle_resolved_def intro!: driving)

lemma drives_rejection [driving]: "drives s u \<Longrightarrow> drives s (settle_rejection w k j e u)"
  unfolding settle_rejection_def by (auto intro!: drives_state driving)

lemma drives_execution [driving]: "drives s u \<Longrightarrow> drives s (settle_execution w k i o' u)"
proof (cases "object u i")
  case (Some j)
  assume "drives s u"
  then show ?thesis
    unfolding settle_execution_def Some option.case
    by (cases o') (auto intro!: drives_state driving)
qed (simp add: settle_execution_def)

lemma drives_retry: "drives s (retry_settlement w i s)"
  by (auto simp: retry_settlement_def intro!: driving split: option.splits)

lemma drives_flush [driving]: "drives s u \<Longrightarrow> drives s (flush_all w k is u)"
proof (erule drives_trans, induction w k "is" u rule: flush_all.induct)
  case (2 w k i "is" u)
  have "drives u (flush_deferred w k i u)"
    by (auto simp: flush_deferred_def intro!: driving split: option.splits)
  then show ?case using 2 drives_trans by simp
qed auto

lemma drives_execute: "drives s (snd (execute_job w i s))"
proof (cases "map_of (ls_ready s) i")
  case (Some prepare)
  have p: "drives s (snd (prepare_execution w j u))" if "drives s u" for j u
    using that by (auto simp: prepare_execution_def split: option.splits)
  have r: "drives s (s\<lparr>ls_ready := AList.delete i (ls_ready s)\<rparr>)" by (rule drives_same) simp_all
  show ?thesis
    unfolding execute_job_def Some option.case prod.case Let_def
    by (cases "object s i") (auto intro!: drives_outcome driving p drives_may_execute r)
qed (auto simp: execute_job_def)

lemma drives_intent [driving]: "drives s u \<Longrightarrow> drives s (snd (intent_status t w x st u))"
proof (erule drives_trans)
  have "\<exists>env now ev. store_op env now ev b = Inr b'"
    if "set_cancellation_intent_status x st (lw_now w) b = Inr b'" for b b'
    using that by (metis store_op.simps(18))
  then show "drives u (snd (intent_status t w x st u))"
    unfolding intent_status_def by (intro drives_transaction drives_on_store)
qed

lemma drives_change_jobs [driving]: "drives s u \<Longrightarrow> drives s (snd (change_jobs w xs f is u))"
  by (induction w xs f "is" u rule: change_jobs.induct) (auto intro!: driving split: option.splits)

lemma drives_intents [driving]:
  "drives s u \<Longrightarrow> drives s (snd (dispatch_intents w b ps u))"
  "drives s u \<Longrightarrow> drives s (snd (set_intents w st xs u))"
  "drives s u \<Longrightarrow> drives s (snd (fail_intents w xs u))"
proof -
  have dispatch: "drives u (snd (dispatch_intents w b ps u))" for u
    by (induction w b ps u rule: dispatch_intents.induct) (auto intro!: driving drives_bind)
  have set': "drives u (snd (set_intents w st xs u))" for u
    by (induction w st xs u rule: set_intents.induct) (auto intro!: driving drives_bind)
  have fail: "drives u (snd (fail_intents w xs u))" for u
    by (induction w xs u rule: fail_intents.induct) (auto intro!: driving drives_bind)
  show "drives s u \<Longrightarrow> drives s (snd (dispatch_intents w b ps u))"
    "drives s u \<Longrightarrow> drives s (snd (set_intents w st xs u))"
    "drives s u \<Longrightarrow> drives s (snd (fail_intents w xs u))"
    using dispatch set' fail drives_trans by blast+
qed

lemma drives_contain: "drives u (snd (contain_jobs w k x p js acc u))"
proof (induction w k x p js acc u rule: contain_jobs.induct)
  case (2 w k x p j js acc s)
  have "\<exists>env now ev. store_op env now ev b = Inr b'"
    if "create_cancellation_intent (lw_env w) r x c y b = Inr b'" for b b' r c y
    using that by (metis store_op.simps(17))
  then have "drives s (snd (live_transaction (lw_tx w k) (on_store (create_cancellation_intent (lw_env w)
      (containment_request w p j) x (it_cascade p) (lw_intent w (lj_id j)))) s))"
    by (intro drives_transaction drives_on_store)
  then show ?case
    using 2 by (auto simp: Let_def intro!: drives_outcome intro: drives_trans)
qed auto

lemma drives_stop: "drives s u \<Longrightarrow> drives s (snd (stop_job cfg w i x opts u))"
proof (erule drives_trans)
  have begin': "drives v (snd (begin_termination w k n v))" for v k n
    unfolding begin_termination_def
    by (auto intro!: drives_bind drives_transaction drives_then driving intro: drives_same)
  have worker: "drives v (snd (stop_worker w x p opts j v))" for v p j
    unfolding stop_worker_def Let_def
    by (auto split: sum.splits intro!: drives_bind drives_contain begin')
  show "drives u (snd (stop_job cfg w i x opts u))"
    unfolding stop_job_def Let_def
    by (auto split: sum.splits option.splits intro!: drives_then driving worker simp: live_return_def)
qed

lemma drives_cancel: "drives s u \<Longrightarrow> drives s (snd (cancel_job cfg w i x opts u))"
  unfolding cancel_job_def by (auto split: option.splits sum.splits intro!: driving drives_stop)

lemma drives_end: "drives s (snd (end_termination w i a s))"
proof (cases "map_of (ls_terminations s) i")
  case (Some n)
  have affected: "drives v (snd (stop_affected w n we esc is v))" for we esc "is" v
    by (induction w n we esc "is" v rule: stop_affected.induct)
      (auto split: option.splits intro!: drives_then driving)
  have completed: "drives v (snd (completed_first w n v))" for v
    unfolding completed_first_def by (auto intro!: drives_then drives_within driving)
  have stopped: "drives v (snd (worker_stopped w i n turn exited we esc v))" for v turn exited we esc
    unfolding worker_stopped_def Let_def by (auto intro!: drives_within drives_then affected driving)
  have failed: "drives v (snd (termination_failed w n v))" for v
    unfolding termination_failed_def by (auto intro!: drives_then drives_within driving)
  let ?s = "s\<lparr>ls_terminations := AList.delete i (ls_terminations s)\<rparr>"
  have s0: "drives s ?s" by (rule drives_same) simp_all
  have answer: "drives s (snd (case a of AlreadyCompleted \<Rightarrow> completed_first w n ?s
      | WorkerStopped turn exited we esc \<Rightarrow> worker_stopped w i n turn exited we esc ?s
      | StopThrows \<Rightarrow> (Inl TerminationFailed, ?s)))"
    by (cases a) (auto intro: drives_trans [OF s0] completed stopped)
  then show ?thesis
    unfolding end_termination_def Some option.case Let_def
    by (intro drives_outcome answer) (auto intro: drives_trans failed)
qed (auto simp: end_termination_def)

lemma drives_answered: "drives s (interaction_answered w i v e s)"
  by (auto simp: interaction_answered_def intro!: driving split: option.splits)

lemma drives_archive: "drives s (snd (stop_for_archive cfg w rid digest i s))"
proof -
  have undispatched: "drives v (snd (archive_undispatched w x j v))" for v x j
    unfolding archive_undispatched_def Let_def
    by (auto intro!: drives_outcome drives_within drives_then driving)
  have "\<exists>env now ev. store_op env now ev b = Inr b'"
    if "begin_cancellation_operation (lw_env w) r digest None x b = Inr b'" for b b' r x
    using that by (metis store_op.simps(16))
  then have begin': "drives v (snd (live_transaction t (on_store (begin_cancellation_operation (lw_env w) r digest None x)) v))"
    for v t r x by (intro drives_transaction drives_on_store)
  have rest: "drives s (snd (live_bind (live_transaction t (on_store (begin_cancellation_operation (lw_env w) r digest None x)))
      f (refresh_projects w s)))" if "\<And>y v. drives v (snd (f y v))" for t r x f
    using that by (intro drives_then begin') (auto intro: driving)
  show ?thesis
    unfolding stop_for_archive_def Let_def
    by (auto split: option.splits intro!: rest drives_then undispatched drives_cancel driving drives_refl simp: live_return_def)
qed

lemma drives_retention: "drives s (maintain_registry cfg w in_time inspected s)"
proof -
  have dispositions: "drives v (apply_dispositions cs ds v)" for cs ds v
  proof (induction cs ds v rule: apply_dispositions.induct)
    case (1 c cs d ds v)
    have "drives v (forget_progress k (unindex_job k (v\<lparr>ls_protected := p\<rparr>)))" for k p
      by (intro driving) (rule drives_same; simp)
    then have "drives v (apply_disposition c (snd d) v)"
      by (auto simp: apply_disposition_def intro: drives_same split: option.splits disposition.splits)
    then show ?case using 1 drives_trans by simp
  qed auto
  have settle: "drives v (snd (settle_retention cfg cs ds v))" for cs ds v
    unfolding settle_retention_def Let_def
    by (auto intro: dispositions drives_after [OF _ _ dispositions])
  have "drives v (snd (live_transaction t (\<lambda>u. case maintain_job_retention k in_time (ls_store u) of
      Inl e \<Rightarrow> (Inl (StoreFailed e), u) | Inr ((ds, _), b) \<Rightarrow> (Inr ds, u\<lparr>ls_store := b\<rparr>)) v))" for t k v
  proof (rule drives_transaction)
    show "drives v (snd (case maintain_job_retention k in_time (ls_store v) of
      Inl e \<Rightarrow> (Inl (StoreFailed e), v) | Inr ((ds, _), b) \<Rightarrow> (Inr ds, v\<lparr>ls_store := b\<rparr>)))"
    proof (cases "maintain_job_retention k in_time (ls_store v)")
      case (Inr r)
      obtain ds left b where r: "r = ((ds, left), b)" by (metis surj_pair)
      show ?thesis
        using Inr r by (auto simp: new_state_Inr intro!: drives_op [where ev = "EvRetention k in_time"])
    qed auto
  qed
  then show ?thesis
    unfolding maintain_registry_def Let_def
    by (auto intro!: drives_state drives_best_effort settle intro: drives_trans [OF drives_refresh [OF drives_refl]])
qed

theorem step_drives: "drives s (live_step cfg w e s)"
proof (cases e)
  case (LvStore ev)
  then show ?thesis by (auto simp: drives_def intro: exI [of _ "[(lw_env w, lw_now w, ev)]"])
qed (auto intro: drives_start driving drives_discard drives_execute drives_may_execute drives_assigns drives_retry
    drives_cancel drives_end drives_answered drives_archive drives_retention drives_same)

end
