(* ===== verification/Spec2Isabelle.thy ===== *)
theory Spec2Isabelle
  imports Fair_Queue Drain_Gate Execution_Access Model_Policy Execution_Journal Thread_Witnesses Question_Witnesses Late_Safety Event_Witnesses Followup_Witnesses Live_Runs
begin

text \<open>A verification development for the Codex MCP bridge.\<close>

end
